(* ===== verification/Prelude.thy ===== *)
theory Prelude
  imports Complex_Main "HOL-Library.Multiset" "HOL-Library.Monad_Syntax"
begin

text \<open>
  Shared vocabulary of the development: how Go's panics, error returns, strings and slices
  are written here, the collections of facts the component theories draw on, and the generic
  list lemmas they share.

  Conventions.
  \<^item> A Go panic (index out of range, nil dereference, \<open>rand.Intn\<close> of a non-positive bound)
    is \<open>None\<close> of an option; everything that can panic returns an option.
  \<^item> A Go pair \<open>(value, error)\<close> is a sum \<open>string + 'a\<close>: \<open>Inl\<close> carries the error message.
  \<^item> Go's \<open>int\<close> and \<open>int64\<close> are \<open>int\<close>; the quantities of this program (counts of users,
    milliseconds since 1970) stay far inside 64 bits.
  \<^item> Go strings are byte strings: \<open>string\<close> of HOL.
\<close>

named_theorems go_eval \<open>executable equations used to evaluate model terms on concrete inputs\<close>
named_theorems go_total \<open>operations that cannot panic on the stated inputs\<close>

type_synonym 'a result = "string + 'a"

section \<open>Slices\<close>

text \<open>\<open>xs[i]\<close> with Go's bounds check; \<open>go_set\<close> is the assignment \<open>xs[i] = v\<close>.\<close>

definition go_nth :: "'a list \<Rightarrow> int \<Rightarrow> 'a option" where
  "go_nth xs i = (if 0 \<le> i \<and> i < int (length xs) then Some (xs ! nat i) else None)"

definition go_set :: "'a list \<Rightarrow> int \<Rightarrow> 'a \<Rightarrow> 'a list option" where
  "go_set xs i v = (if 0 \<le> i \<and> i < int (length xs) then Some (xs[nat i := v]) else None)"

lemma go_nth_int [simp]: "i < length xs \<Longrightarrow> go_nth xs (int i) = Some (xs ! i)"
  by (simp add: go_nth_def)

lemma go_nth_Some_iff: "go_nth xs i = Some x \<longleftrightarrow> 0 \<le> i \<and> nat i < length xs \<and> xs ! nat i = x"
  by (auto simp: go_nth_def)

lemma go_nth_None_iff: "go_nth xs i = None \<longleftrightarrow> i < 0 \<or> int (length xs) \<le> i"
  by (auto simp: go_nth_def)

lemma go_nth_mem: "go_nth xs i = Some x \<Longrightarrow> x \<in> set xs"
  by (auto simp: go_nth_Some_iff)

lemma go_nth_total [go_total]: "0 \<le> i \<Longrightarrow> i < int (length xs) \<Longrightarrow> \<exists>x. go_nth xs i = Some x"
  by (simp add: go_nth_def)

section \<open>Integer division\<close>

text \<open>Go's integer division truncates toward zero.\<close>

definition go_div :: "int \<Rightarrow> int \<Rightarrow> int" where
  "go_div a b = sgn a * sgn b * (\<bar>a\<bar> div \<bar>b\<bar>)"

lemma go_div_nonneg: "0 \<le> a \<Longrightarrow> 0 < b \<Longrightarrow> go_div a b = a div b"
  by (cases "a = 0") (simp_all add: go_div_def)

section \<open>Decimal numerals (\<^verbatim>\<open>strconv.Itoa\<close>)\<close>

definition dec_digit :: "nat \<Rightarrow> char" where
  "dec_digit d = ''0123456789'' ! d"

fun dec_nat :: "nat \<Rightarrow> string" where
  "dec_nat n = (if n < 10 then [dec_digit n] else dec_nat (n div 10) @ [dec_digit (n mod 10)])"

declare dec_nat.simps [simp del]

definition itoa :: "int \<Rightarrow> string" where
  "itoa i = (if i < 0 then CHR ''-'' # dec_nat (nat (- i)) else dec_nat (nat i))"

lemma dec_nat_small [go_eval]: "n < 10 \<Longrightarrow> dec_nat n = [dec_digit n]"
  by (simp add: dec_nat.simps)

lemma dec_nat_big [go_eval]: "\<not> n < 10 \<Longrightarrow> dec_nat n = dec_nat (n div 10) @ [dec_digit (n mod 10)]"
  by (subst dec_nat.simps) simp

lemma dec_digit_inj: "a < 10 \<Longrightarrow> b < 10 \<Longrightarrow> dec_digit a = dec_digit b \<Longrightarrow> a = b"
  unfolding dec_digit_def by (subst (asm) nth_eq_iff_index_eq) auto

lemma dec_digit_mem: "a < 10 \<Longrightarrow> dec_digit a \<in> set ''0123456789''"
  unfolding dec_digit_def by (rule nth_mem) simp

lemma dec_nat_digits: "set (dec_nat n) \<subseteq> set ''0123456789''"
proof (induction n rule: dec_nat.induct)
  case (1 n)
  show ?case
  proof (cases "n < 10")
    case True
    then show ?thesis using dec_digit_mem [OF True] by (simp add: dec_nat_small)
  next
    case False
    have "dec_digit (n mod 10) \<in> set ''0123456789''" by (rule dec_digit_mem) simp
    with 1 [OF False] show ?thesis by (simp add: dec_nat_big [OF False])
  qed
qed

lemma dec_nat_nonempty [simp]: "dec_nat n \<noteq> []"
  by (subst dec_nat.simps) simp

lemma dec_nat_length: "length (dec_nat n) = 1 \<longleftrightarrow> n < 10"
  by (cases "n < 10") (simp_all add: dec_nat_small dec_nat_big)

lemma dec_nat_inj: "dec_nat m = dec_nat n \<Longrightarrow> m = n"
proof (induction m arbitrary: n rule: dec_nat.induct)
  case (1 m)
  from 1(2) have len: "m < 10 \<longleftrightarrow> n < 10" using dec_nat_length [of m] dec_nat_length [of n] by simp
  show ?case
  proof (cases "m < 10")
    case True
    with 1(2) len show ?thesis by (simp add: dec_nat_small dec_digit_inj)
  next
    case False
    with len have n: "\<not> n < 10" by simp
    from 1(2) have *: "dec_nat (m div 10) = dec_nat (n div 10)" "dec_digit (m mod 10) = dec_digit (n mod 10)"
      by (simp_all add: dec_nat_big [OF False] dec_nat_big [OF n])
    have "m div 10 = n div 10" using 1(1) [OF False *(1)] .
    moreover have "m mod 10 = n mod 10" using *(2) by (rule dec_digit_inj [rotated 2]) simp_all
    ultimately show ?thesis by (metis mod_div_mult_eq)
  qed
qed

lemma itoa_nat: "0 \<le> i \<Longrightarrow> itoa i = dec_nat (nat i)"
  by (simp add: itoa_def)

lemma minus_notin_dec_nat: "CHR ''-'' \<notin> set (dec_nat n)"
  using dec_nat_digits [of n] by auto

lemma itoa_inj: "itoa i = itoa j \<Longrightarrow> i = j"
proof -
  assume eq: "itoa i = itoa j"
  have *: "CHR ''-'' # xs \<noteq> dec_nat n" for xs n using minus_notin_dec_nat [of n] by (metis list.set_intros(1))
  show ?thesis
    using eq * by (auto simp: itoa_def split: if_splits dest!: dec_nat_inj) (metis *)+
qed

lemmas itoa_eval = itoa_def dec_nat_small dec_nat_big dec_digit_def

section \<open>The package \<^verbatim>\<open>strings\<close>\<close>

definition has_prefix :: "string \<Rightarrow> string \<Rightarrow> bool" where
  "has_prefix s p \<longleftrightarrow> take (length p) s = p"

definition trim_prefix :: "string \<Rightarrow> string \<Rightarrow> string" where
  "trim_prefix s p = (if has_prefix s p then drop (length p) s else s)"

fun join :: "string list \<Rightarrow> string \<Rightarrow> string" where
  "join [] sep = []"
| "join [s] sep = s"
| "join (s # t # ss) sep = s @ sep @ join (t # ss) sep"

definition is_space :: "char \<Rightarrow> bool" where
  "is_space c \<longleftrightarrow> c \<in> set [CHR '' '', CHR 0x09, CHR 0x0A, CHR 0x0B, CHR 0x0C, CHR 0x0D]"

text \<open>\<^verbatim>\<open>strings.Fields\<close>: the maximal runs of non-space characters; the second argument is
  the field being read.\<close>

fun str_fields_acc :: "string \<Rightarrow> string \<Rightarrow> string list" where
  "str_fields_acc [] cur = (if cur = [] then [] else [cur])"
| "str_fields_acc (c # cs) cur =
     (if is_space c then (if cur = [] then str_fields_acc cs [] else cur # str_fields_acc cs [])
      else str_fields_acc cs (cur @ [c]))"

definition str_fields :: "string \<Rightarrow> string list" where
  "str_fields s = str_fields_acc s []"

definition lower_char :: "char \<Rightarrow> char" where
  "lower_char c = (let n = of_char c :: nat in if 65 \<le> n \<and> n \<le> 90 then char_of (n + 32) else c)"

definition to_lower :: "string \<Rightarrow> string" where
  "to_lower s = map lower_char s"

lemma has_prefix_iff: "has_prefix s p \<longleftrightarrow> (\<exists>t. s = p @ t)"
  unfolding has_prefix_def by (metis append_eq_conv_conj append_take_drop_id)

lemma has_prefix_append [simp]: "has_prefix (p @ t) p"
  by (simp add: has_prefix_def)

lemma trim_prefix_append [simp]: "trim_prefix (p @ t) p = t"
  by (simp add: trim_prefix_def)

text \<open>The text before the first occurrence of a separator character determines where the
  separator is: used for names of the form \<open>stem-number\<close>.\<close>

lemma first_sep_inj:
  "xs @ c # ys = xs' @ c # ys' \<Longrightarrow> c \<notin> set xs \<Longrightarrow> c \<notin> set xs' \<Longrightarrow> xs = xs' \<and> ys = ys'"
proof (induction xs arbitrary: xs')
  case Nil
  then show ?case by (cases xs') auto
next
  case (Cons x xs)
  then show ?case by (cases xs') auto
qed

lemma append_sep_inj:
  assumes "xs @ c # ys = xs' @ c # ys'" "c \<notin> set ys" "c \<notin> set ys'"
  shows "xs = xs' \<and> ys = ys'"
proof -
  from arg_cong [where f = rev, OF assms(1)]
  have "rev ys @ c # rev xs = rev ys' @ c # rev xs'" by simp
  from first_sep_inj [OF this] show ?thesis using assms by simp
qed

text \<open>Joining with a character that occurs in no part is injective on lists of the same shape.\<close>

lemma join_Cons_char: "ss \<noteq> [] \<Longrightarrow> join (s # ss) [c] = s @ c # join ss [c]"
  by (cases ss) auto

lemma join_char_free: "(\<forall>s \<in> set ss. c \<notin> set s) \<Longrightarrow> length ss \<le> 1 \<Longrightarrow> c \<notin> set (join ss [c])"
  by (cases ss) auto

lemma join_inj:
  assumes "join ss [c] = join ts [c]" "\<forall>s \<in> set ss. c \<notin> set s" "\<forall>t \<in> set ts. c \<notin> set t"
    "ss \<noteq> []" "ts \<noteq> []"
  shows "ss = ts"
  using assms
proof (induction ss arbitrary: ts)
  case Nil
  then show ?case by simp
next
  case (Cons s ss)
  obtain t ts' where ts: "ts = t # ts'" using Cons.prems(5) by (cases ts) auto
  have s: "c \<notin> set s" "c \<notin> set t" using Cons.prems(2,3) ts by auto
  show ?case
  proof (cases "ss = []"; cases "ts' = []")
    assume "ss = []" "ts' = []"
    then show ?thesis using Cons.prems(1) ts by simp
  next
    assume a: "ss = []" "ts' \<noteq> []"
    then have "s = t @ c # join ts' [c]" using Cons.prems(1) ts by (simp add: join_Cons_char)
    then show ?thesis using s by auto
  next
    assume a: "ss \<noteq> []" "ts' = []"
    then have "t = s @ c # join ss [c]" using Cons.prems(1) ts by (simp add: join_Cons_char)
    then show ?thesis using s by auto
  next
    assume a: "ss \<noteq> []" "ts' \<noteq> []"
    then have "s @ c # join ss [c] = t @ c # join ts' [c]"
      using Cons.prems(1) ts by (simp add: join_Cons_char)
    then have "s = t" "join ss [c] = join ts' [c]"
      using first_sep_inj [OF _ s] by auto
    moreover have "ss = ts'" using Cons.IH [OF \<open>join ss [c] = join ts' [c]\<close>] Cons.prems a ts by simp
    ultimately show ?thesis using ts by simp
  qed
qed

section \<open>Lists\<close>

lemma mset_swap2:
  "i < length xs \<Longrightarrow> j < length xs \<Longrightarrow> mset (xs[i := xs ! j, j := xs ! i]) = mset xs"
  by (rule mset_swap)

lemma sum_list_pos_member:
  "(\<forall>x \<in> set xs. 0 \<le> (x::int)) \<Longrightarrow> 0 < sum_list xs \<Longrightarrow> \<exists>x \<in> set xs. 0 < x"
  by (induction xs) force+

lemma distinct_map_upt_inj:
  "(\<And>i j. i < n \<Longrightarrow> j < n \<Longrightarrow> f i = f j \<Longrightarrow> i = j) \<Longrightarrow> distinct (map f [0..<n])"
  by (auto simp: distinct_map inj_on_def)

text \<open>An enumeration of a finite map's keys: the order in which Go's \<open>range\<close> visits the map.
  The language leaves it unspecified, so definitions take it as an argument.\<close>

definition enumerates :: "'k list \<Rightarrow> ('k \<rightharpoonup> 'v) \<Rightarrow> bool" where
  "enumerates ks m \<longleftrightarrow> distinct ks \<and> set ks = dom m"

lemma enumerates_mset: "enumerates ks m \<Longrightarrow> enumerates ls m \<Longrightarrow> mset ks = mset ls"
  unfolding enumerates_def by (metis set_eq_iff_mset_eq_distinct)

lemma enumerates_empty [simp]: "enumerates ks Map.empty \<longleftrightarrow> ks = []"
  by (auto simp: enumerates_def)

lemma enumerates_the: "enumerates ks m \<Longrightarrow> k \<in> set ks \<Longrightarrow> \<exists>v. m k = Some v"
  by (auto simp: enumerates_def)

end
