(* ===== verification/Rand_Util.thy ===== *)
theory Rand_Util
  imports Prelude
begin

text \<open>
  Random numbers: Go's \<^verbatim>\<open>math/rand\<close> as this program uses it, and the package
  \<^verbatim>\<open>randutil/randutil.go\<close>.

  A generator is a stream of raw draws and the position of the next one. Nothing is assumed of
  the stream, so a theorem over all generators covers every outcome a seed can give.
\<close>

record rng =
  src :: "nat \<Rightarrow> nat"
  pos :: nat

definition draw :: "rng \<Rightarrow> nat \<times> rng" where
  "draw r = (src r (pos r), r\<lparr>pos := Suc (pos r)\<rparr>)"

text \<open>\<open>r.Intn(n)\<close> panics for \<open>n \<le> 0\<close> and returns a value in \<open>[0, n)\<close> otherwise.\<close>

definition intn :: "int \<Rightarrow> rng \<Rightarrow> (int \<times> rng) option" where
  "intn n r = (if n \<le> 0 then None
     else (let (d, r') = draw r in Some (int d mod n, r')))"

text \<open>\<open>r.Perm(n)\<close>: \<open>m[i] = m[j]; m[j] = i\<close> with \<open>j = Intn(i+1)\<close>. A negative length panics.\<close>

fun perm_loop :: "nat \<Rightarrow> nat \<Rightarrow> nat list \<Rightarrow> rng \<Rightarrow> nat list \<times> rng" where
  "perm_loop 0 i m r = (m, r)"
| "perm_loop (Suc k) i m r =
     (let (d, r') = draw r; j = d mod Suc i
      in perm_loop k (Suc i) ((m[i := m ! j])[j := i]) r')"

definition perm :: "int \<Rightarrow> rng \<Rightarrow> (nat list \<times> rng) option" where
  "perm n r = (if n < 0 then None else Some (perm_loop (nat n) 0 (replicate (nat n) 0) r))"

text \<open>\<open>r.Float64()\<close> is a multiple of \<open>2^-53\<close> in \<open>[0, 1)\<close>; \<open>r.Float32()\<close> is a multiple of
  \<open>2^-24\<close> in \<open>[0, 1)\<close>.\<close>

definition float64 :: "rng \<Rightarrow> real \<times> rng" where
  "float64 r = (let (d, r') = draw r in (real (d mod 2 ^ 53) / 2 ^ 53, r'))"

definition float32 :: "rng \<Rightarrow> real \<times> rng" where
  "float32 r = (let (d, r') = draw r in (real (d mod 2 ^ 24) / 2 ^ 24, r'))"

section \<open>\<^verbatim>\<open>randutil\<close>\<close>

text \<open>The field \<open>Rand\<close> of \<^verbatim>\<open>Choice\<close> is neither set nor read anywhere in the repository;
  the record keeps the two fields that are.\<close>

record 'a choice =
  Weight :: int
  Item :: 'a

definition IntRange :: "rng \<Rightarrow> int \<Rightarrow> int \<Rightarrow> (int result \<times> rng) option" where
  "IntRange r mn mx =
     (if mn > mx then Some (Inl ''bad params'', r)
      else if mx = mn then Some (Inr mx, r)
      else (let maxRand = mx - mn in
            case intn maxRand r of
              None \<Rightarrow> None
            | Some (v, r') \<Rightarrow> Some (Inr (mn + v), r')))"

text \<open>\<open>Shuffle\<close>: \<open>for i := length - 1; i > 0; i--\<close>; the loop variable is the argument.\<close>

definition swap_elems :: "'a list \<Rightarrow> int \<Rightarrow> int \<Rightarrow> 'a list option" where
  "swap_elems xs i j =
     (case (go_nth xs i, go_nth xs j) of
        (Some x, Some y) \<Rightarrow> Some ((xs[nat i := y])[nat j := x])
      | _ \<Rightarrow> None)"

fun shuffle_loop :: "nat \<Rightarrow> 'a list \<Rightarrow> rng \<Rightarrow> ('a list \<times> rng) option" where
  "shuffle_loop 0 xs r = Some (xs, r)"
| "shuffle_loop (Suc i) xs r =
     (case IntRange r 0 (int (Suc i) + 1) of
        None \<Rightarrow> None
      | Some (res, r') \<Rightarrow>
          (let j = (case res of Inl _ \<Rightarrow> 0 | Inr j \<Rightarrow> j) in
           case swap_elems xs (int (Suc i)) j of
             None \<Rightarrow> None
           | Some xs' \<Rightarrow> shuffle_loop i xs' r'))"

definition Shuffle :: "rng \<Rightarrow> 'a list \<Rightarrow> ('a list \<times> rng) option" where
  "Shuffle r xs = shuffle_loop (length xs - 1) xs r"

fun pick_loop :: "int \<Rightarrow> 'a choice list \<Rightarrow> 'a choice result" where
  "pick_loop randomInt [] = Inl ''Internal error - code should not reach this point''"
| "pick_loop randomInt (c # cs) =
     (let randomInt' = randomInt - Weight c
      in if randomInt' < 0 then Inr c else pick_loop randomInt' cs)"

definition sum_weights :: "'a choice list \<Rightarrow> int" where
  "sum_weights cs = foldl (\<lambda>acc c. acc + Weight c) 0 cs"

definition WeightedChoice :: "rng \<Rightarrow> 'a choice list \<Rightarrow> ('a choice result \<times> rng) option" where
  "WeightedChoice r choices =
     (if length choices = 0 then Some (Inl ''Was given no choices! []'', r)
      else if length choices = 1 then
        (case go_nth choices 0 of None \<Rightarrow> None | Some c \<Rightarrow> Some (Inr c, r))
      else
        (let sum = sum_weights choices in
         case IntRange r 0 sum of
           None \<Rightarrow> None
         | Some (Inl err, r') \<Rightarrow> Some (Inl err, r')
         | Some (Inr randomInt, r') \<Rightarrow> Some (pick_loop randomInt choices, r')))"

lemma intn_total [go_total]: "0 < n \<Longrightarrow> intn n r = Some (int (src r (pos r)) mod n, r\<lparr>pos := Suc (pos r)\<rparr>)"
  by (simp add: intn_def draw_def)

lemma intn_range: "intn n r = Some (v, r') \<Longrightarrow> 0 \<le> v \<and> v < n"
  by (auto simp: intn_def draw_def split: if_splits)

lemma IntRange_total [go_total]: "IntRange r mn mx \<noteq> None"
  by (auto simp: IntRange_def intn_total split: option.splits)

lemma IntRange_ok:
  assumes "mn < mx"
  shows "IntRange r mn mx = Some (Inr (mn + int (src r (pos r)) mod (mx - mn)), r\<lparr>pos := Suc (pos r)\<rparr>)"
  using assms by (simp add: IntRange_def intn_total)

lemma IntRange_range:
  "IntRange r mn mx = Some (Inr v, r') \<Longrightarrow> mn < mx \<Longrightarrow> mn \<le> v \<and> v < mx"
  using pos_mod_bound [of "mx - mn" "int (src r (pos r))"]
  by (auto simp: IntRange_ok algebra_simps simp del: pos_mod_bound)

section \<open>perm\<close>

lemma perm_step:
  assumes "mset (take i m) = mset [0..<i]" "i < length m" "j \<le> i"
  shows "mset (take (Suc i) ((m[i := m ! j])[j := i])) = mset [0..<Suc i]"
proof -
  let ?t = "take i m @ [i]"
  have t: "take (Suc i) ((m[i := m ! j])[j := i]) = ((?t)[i := ?t ! j])[j := i]"
    using assms(2,3)
    by (intro nth_equalityI) (auto simp: nth_list_update nth_append)
  have "((?t)[i := ?t ! j])[j := i] = (?t)[i := ?t ! j, j := ?t ! i]"
    using assms(2) by (simp add: nth_append)
  moreover have "mset ((?t)[i := ?t ! j, j := ?t ! i]) = mset ?t"
    using assms(2,3) by (intro mset_swap) auto
  ultimately show ?thesis using t assms(1) by simp
qed

lemma perm_loop_mset:
  "length m = i + k \<Longrightarrow> mset (take i m) = mset [0..<i] \<Longrightarrow>
   mset (fst (perm_loop k i m r)) = mset [0..<i + k]"
proof (induction k arbitrary: i m r)
  case 0
  then show ?case by simp
next
  case (Suc k)
  let ?j = "src r (pos r) mod Suc i"
  have j: "?j \<le> i" by (metis less_Suc_eq_le mod_less_divisor zero_less_Suc)
  have "mset (take (Suc i) ((m[i := m ! ?j])[?j := i])) = mset [0..<Suc i]"
    using Suc.prems j by (intro perm_step) auto
  with Suc.IH [of "(m[i := m ! ?j])[?j := i]" "Suc i"] Suc.prems
  show ?case by (simp add: draw_def Let_def)
qed

lemma perm_mset: "perm n r = Some (p, r') \<Longrightarrow> mset p = mset [0..<nat n]"
  using perm_loop_mset [of "replicate (nat n) 0" 0 "nat n" r]
  by (auto simp: perm_def split: if_splits)

lemma perm_total [go_total]: "0 \<le> n \<Longrightarrow> \<exists>p r'. perm n r = Some (p, r')"
  by (cases "perm_loop (nat n) 0 (replicate (nat n) 0) r") (simp add: perm_def)

lemma perm_props:
  assumes "perm n r = Some (p, r')"
  shows "length p = nat n" "distinct p" "set p = {0..<nat n}" "0 \<le> n"
proof -
  have m: "mset p = mset [0..<nat n]" by (rule perm_mset [OF assms])
  then show "length p = nat n" by (metis diff_zero length_upt size_mset)
  show "distinct p" using m by (metis distinct_upt mset_eq_imp_distinct_iff)
  show "set p = {0..<nat n}" using m by (metis set_mset_mset set_upt)
  show "0 \<le> n" using assms by (auto simp: perm_def split: if_splits)
qed

section \<open>shuffle\<close>
lemma swap_elems_mset: "swap_elems xs i j = Some ys \<Longrightarrow> mset ys = mset xs"
  by (auto simp: swap_elems_def go_nth_Some_iff split: option.splits intro!: mset_swap)

lemma swap_elems_total [go_total]:
  "0 \<le> i \<Longrightarrow> i < int (length xs) \<Longrightarrow> 0 \<le> j \<Longrightarrow> j < int (length xs) \<Longrightarrow> \<exists>ys. swap_elems xs i j = Some ys"
  by (simp add: swap_elems_def go_nth_def)

lemma shuffle_loop_mset: "shuffle_loop i xs r = Some (ys, r') \<Longrightarrow> mset ys = mset xs"
proof (induction i arbitrary: xs r)
  case (Suc i)
  then show ?case
    by (fastforce split: option.splits dest: swap_elems_mset simp: Let_def)
qed simp

lemma shuffle_loop_total: "i < length xs \<or> i = 0 \<Longrightarrow> \<exists>ys r'. shuffle_loop i xs r = Some (ys, r')"
proof (induction i arbitrary: xs r)
  case (Suc i)
  let ?v = "int (src r (pos r)) mod (int (Suc i) + 1)"
  have ir: "IntRange r 0 (int (Suc i) + 1) = Some (Inr ?v, r\<lparr>pos := Suc (pos r)\<rparr>)"
    by (simp add: IntRange_ok)
  have v: "0 \<le> ?v" "?v < int (length xs)"
  proof -
    show "0 \<le> ?v" by simp
    have "?v < int (Suc i) + 1" by (rule pos_mod_bound) simp
    then show "?v < int (length xs)" using Suc.prems by linarith
  qed
  obtain ys where ys: "swap_elems xs (int (Suc i)) ?v = Some ys"
    using swap_elems_total [of "int (Suc i)" xs ?v] v Suc.prems by auto
  have "length ys = length xs" using swap_elems_mset [OF ys] by (metis size_mset)
  then have "i < length ys \<or> i = 0" using Suc.prems by auto
  from Suc.IH [OF this] show ?case by (simp add: ir ys del: of_nat_Suc)
qed simp

lemma mset_take_drop: "mset (take n xs) + mset (drop n xs) = mset xs"
  by (simp flip: mset_append)

lemma mset_take_drop_eq: "mset (take n xs) = mset (take n ys) \<Longrightarrow> drop n xs = drop n ys \<Longrightarrow> mset xs = mset ys"
  using mset_take_drop [of n xs] mset_take_drop [of n ys] by simp

lemma mset_take_cancel: "mset xs = mset ys \<Longrightarrow> drop n xs = drop n ys \<Longrightarrow> mset (take n xs) = mset (take n ys)"
  using mset_take_drop [of n xs] mset_take_drop [of n ys] by (metis add_right_cancel)

text \<open>Every rearrangement is reachable: for each target there is a sequence of draws.\<close>

lemma shuffle_loop_reach:
  "length ys = length xs \<Longrightarrow> i < length xs \<Longrightarrow> drop (Suc i) xs = drop (Suc i) ys \<Longrightarrow>
   mset (take (Suc i) xs) = mset (take (Suc i) ys) \<Longrightarrow>
   \<exists>ds. \<forall>r. (\<forall>k < i. src r (pos r + k) = ds ! k) \<longrightarrow> (\<exists>r'. shuffle_loop i xs r = Some (ys, r'))"
proof (induction i arbitrary: xs)
  case 0
  from 0(1,2) obtain x xt y yt where xy: "xs = x # xt" "ys = y # yt"
    by (cases xs; cases ys) simp_all
  with 0(3,4) have "xs = ys" by simp
  then show ?case by simp
next
  case (Suc i)
  have "ys ! Suc i \<in> set (take (Suc (Suc i)) ys)" using Suc.prems(1,2)
    by (auto simp: in_set_conv_nth intro!: exI [of _ "Suc i"])
  then have "ys ! Suc i \<in> set (take (Suc (Suc i)) xs)"
    using Suc.prems(4) by (metis set_mset_mset)
  then obtain j where j: "j < Suc (Suc i)" "xs ! j = ys ! Suc i"
    by (auto simp: in_set_conv_nth)
  let ?xs = "(xs[Suc i := xs ! j])[j := xs ! Suc i]"
  have len: "length ?xs = length xs" by simp
  have jx: "j < length xs" using j Suc.prems by simp
  have at: "?xs ! Suc i = ys ! Suc i" using j Suc.prems(2) by (auto simp: nth_list_update)
  have dr: "drop (Suc (Suc i)) ?xs = drop (Suc (Suc i)) ys"
    using Suc.prems(3) j by simp
  have "drop (Suc i) ?xs = ?xs ! Suc i # drop (Suc (Suc i)) ?xs"
    using Suc.prems(2) by (metis Cons_nth_drop_Suc len)
  also have "\<dots> = drop (Suc i) ys" using at dr Suc.prems(1,2) by (metis Cons_nth_drop_Suc)
  finally have dr': "drop (Suc i) ?xs = drop (Suc i) ys" .
  have "mset ?xs = mset xs" using Suc.prems(2) jx by (intro mset_swap) auto
  also have "\<dots> = mset ys" using Suc.prems(3,4) by (rule mset_take_drop_eq [rotated])
  finally have ms: "mset (take (Suc i) ?xs) = mset (take (Suc i) ys)"
    using dr' by (rule mset_take_cancel)
  obtain ds where ds: "\<And>r. (\<forall>k < i. src r (pos r + k) = ds ! k) \<Longrightarrow> \<exists>r'. shuffle_loop i ?xs r = Some (ys, r')"
    using Suc.IH [of ?xs] Suc.prems(1,2) dr' ms by auto
  show ?case
  proof (intro exI [of _ "j # ds"] allI impI)
    fix r :: rng assume r: "\<forall>k < Suc i. src r (pos r + k) = (j # ds) ! k"
    let ?r = "r\<lparr>pos := Suc (pos r)\<rparr>"
    have d0: "src r (pos r) = j" using r by force
    have "\<forall>k < i. src ?r (pos ?r + k) = ds ! k"
    proof (intro allI impI)
      fix k assume "k < i"
      then show "src ?r (pos ?r + k) = ds ! k" using r [rule_format, of "Suc k"] by simp
    qed
    from ds [OF this] obtain r' where r': "shuffle_loop i ?xs ?r = Some (ys, r')" by blast
    have "IntRange r 0 (int (Suc i) + 1) = Some (Inr (int j), ?r)"
      using j(1) d0 by (simp add: IntRange_ok)
    moreover have "swap_elems xs (int (Suc i)) (int j) = Some ?xs"
      using Suc.prems(2) jx by (simp add: swap_elems_def go_nth_def nat_add_distrib)
    ultimately show "\<exists>r'. shuffle_loop (Suc i) xs r = Some (ys, r')"
      using r' by (simp del: of_nat_Suc)
  qed
qed

section \<open>weighted choice\<close>

lemma sum_weights_foldl: "foldl (\<lambda>acc c. acc + Weight c) a cs = a + sum_list (map Weight cs)"
  by (induction cs arbitrary: a) auto

lemma sum_weights_eq: "sum_weights cs = sum_list (map Weight cs)"
  by (simp add: sum_weights_def sum_weights_foldl)

lemma pick_loop_mem: "pick_loop v cs = Inr c \<Longrightarrow> c \<in> set cs"
  by (induction cs arbitrary: v) (auto simp: Let_def split: if_splits)

definition weight_before :: "'a choice list \<Rightarrow> nat \<Rightarrow> int" where
  "weight_before cs k = sum_list (map Weight (take k cs))"

lemma weight_before_Suc: "k < length cs \<Longrightarrow> weight_before cs (Suc k) = weight_before cs k + Weight (cs ! k)"
  by (simp add: weight_before_def take_Suc_conv_app_nth)

lemma weight_before_Cons: "weight_before (c # cs) (Suc k) = Weight c + weight_before cs k"
  by (simp add: weight_before_def)

text \<open>The pick falls on position \<open>k\<close> exactly for the values in the \<open>k\<close>-th segment.\<close>

lemma pick_loop_index:
  "\<forall>c \<in> set cs. 0 \<le> Weight c \<Longrightarrow> 0 \<le> v \<Longrightarrow> v < sum_list (map Weight cs) \<Longrightarrow>
   \<exists>k < length cs. weight_before cs k \<le> v \<and> v < weight_before cs k + Weight (cs ! k) \<and> pick_loop v cs = Inr (cs ! k)"
proof (induction cs arbitrary: v)
  case Nil
  then show ?case by simp
next
  case (Cons c cs)
  show ?case
  proof (cases "v < Weight c")
    case True
    with Cons.prems show ?thesis by (intro exI [of _ 0]) (simp add: weight_before_def)
  next
    case False
    with Cons.prems Cons.IH [of "v - Weight c"] obtain k where
      "k < length cs" "weight_before cs k \<le> v - Weight c"
      "v - Weight c < weight_before cs k + Weight (cs ! k)" "pick_loop (v - Weight c) cs = Inr (cs ! k)"
      by auto
    with False show ?thesis by (intro exI [of _ "Suc k"]) (simp add: weight_before_Cons)
  qed
qed

lemma pick_loop_segment:
  "\<forall>c \<in> set cs. 0 \<le> Weight c \<Longrightarrow> k < length cs \<Longrightarrow> weight_before cs k \<le> v \<Longrightarrow>
   v < weight_before cs k + Weight (cs ! k) \<Longrightarrow> pick_loop v cs = Inr (cs ! k)"
proof (induction cs arbitrary: v k)
  case Nil
  then show ?case by simp
next
  case (Cons c cs)
  show ?case
  proof (cases k)
    case 0
    with Cons.prems show ?thesis by (simp add: weight_before_def)
  next
    case (Suc j)
    have "0 \<le> weight_before cs j" unfolding weight_before_def
      using Cons.prems(1) by (intro sum_list_nonneg) (auto dest: in_set_takeD)
    with Suc Cons.prems Cons.IH [of j "v - Weight c"] show ?thesis by (simp add: weight_before_Cons)
  qed
qed

lemma pick_loop_beyond: "\<forall>c \<in> set cs. 0 \<le> Weight c \<Longrightarrow> sum_list (map Weight cs) \<le> v \<Longrightarrow>
   pick_loop v cs = Inl ''Internal error - code should not reach this point''"
proof (induction cs arbitrary: v)
  case (Cons c cs)
  have "0 \<le> sum_list (map Weight cs)" using Cons.prems(1) by (intro sum_list_nonneg) auto
  with Cons show ?case by simp
qed simp

section \<open>The contract its clients rely on\<close>

text \<open>
  What a caller of \<open>WeightedChoice\<close> needs: no panic, the answer is one of the choices, and a list
  with non-negative weights that are not all zero has an answer. The callers store indices in
  \<open>Item\<close> and use them unchecked; the client lemma says that is safe when the stored indices are
  in range.
\<close>

locale chooser =
  fixes pick :: "rng \<Rightarrow> 'a choice list \<Rightarrow> ('a choice result \<times> rng) option"
  assumes choose_total: "pick r cs \<noteq> None"
    and choose_mem: "pick r cs = Some (Inr c, r') \<Longrightarrow> c \<in> set cs"
    and choose_ok: "cs \<noteq> [] \<Longrightarrow> \<forall>c \<in> set cs. 0 \<le> Weight c \<Longrightarrow>
      length cs = 1 \<or> 0 < sum_weights cs \<Longrightarrow> \<exists>c r'. pick r cs = Some (Inr c, r')"
begin

lemma picks:
  assumes "cs \<noteq> []" "\<forall>c \<in> set cs. 0 \<le> Weight c" "length cs = 1 \<or> 0 < sum_weights cs"
  obtains c r' where "pick r cs = Some (Inr c, r')" "c \<in> set cs"
  using choose_ok [OF assms] choose_mem by blast

lemma picks_pos:
  assumes "cs \<noteq> []" "\<forall>c \<in> set cs. 0 < Weight c"
  obtains c r' where "pick r cs = Some (Inr c, r')" "c \<in> set cs"
proof (rule picks [OF assms(1), of r])
  show "\<forall>c \<in> set cs. 0 \<le> Weight c" using assms(2) by force
  have "0 < sum_list (map Weight cs)"
    using assms
  proof (induction cs)
    case (Cons c cs)
    then show ?case by (cases "cs = []") (auto intro: add_pos_pos)
  qed simp
  then show "length cs = 1 \<or> 0 < sum_weights cs" by (simp add: sum_weights_eq)
qed (rule that)

lemma result_cases:
  obtains (err) e r' where "pick r cs = Some (Inl e, r')"
    | (pick) c r' where "pick r cs = Some (Inr c, r')" "c \<in> set cs"
proof -
  obtain x r' where x: "pick r cs = Some (x, r')" using choose_total [of r cs] by force
  show thesis
  proof (cases x)
    case (Inl e)
    with x show ?thesis by (auto intro: err)
  next
    case (Inr c)
    with x choose_mem show ?thesis by (auto intro: pick)
  qed
qed

end

lemma WeightedChoice_total [go_total]: "WeightedChoice r cs \<noteq> None"
  using IntRange_total [of r 0 "sum_weights cs"]
  by (auto simp: WeightedChoice_def go_nth_def Let_def split: option.splits sum.splits)

lemma WeightedChoice_mem: "WeightedChoice r cs = Some (Inr c, r') \<Longrightarrow> c \<in> set cs"
  by (auto simp: WeightedChoice_def Let_def dest: go_nth_mem pick_loop_mem
      split: if_splits option.splits sum.splits)

lemma WeightedChoice_single: "WeightedChoice r [c] = Some (Inr c, r)"
  by (simp add: WeightedChoice_def go_nth_def)

lemma WeightedChoice_many:
  assumes "2 \<le> length cs" "0 < sum_weights cs"
  shows "WeightedChoice r cs =
    Some (pick_loop (int (src r (pos r)) mod sum_weights cs) cs, r\<lparr>pos := Suc (pos r)\<rparr>)"
proof -
  have "cs \<noteq> []" "length cs \<noteq> 1" using assms(1) by auto
  with assms(2) show ?thesis by (simp add: WeightedChoice_def IntRange_ok Let_def)
qed

lemma WeightedChoice_ok:
  assumes "cs \<noteq> []" "\<forall>c \<in> set cs. 0 \<le> Weight c" "length cs = 1 \<or> 0 < sum_weights cs"
  shows "\<exists>c r'. WeightedChoice r cs = Some (Inr c, r')"
proof (cases "length cs = 1")
  case True
  then obtain c where "cs = [c]" by (cases cs) auto
  then show ?thesis by (simp add: WeightedChoice_single)
next
  case False
  with assms have l: "2 \<le> length cs" and s: "0 < sum_weights cs" by (cases cs; auto simp: Suc_le_eq)+
  let ?v = "int (src r (pos r)) mod sum_weights cs"
  have "0 \<le> ?v" "?v < sum_list (map Weight cs)" using s by (simp_all add: sum_weights_eq)
  with pick_loop_index [OF assms(2)] show ?thesis by (fastforce simp: WeightedChoice_many [OF l s])
qed

interpretation wc: chooser WeightedChoice
  by unfold_locales (fact WeightedChoice_total, fact WeightedChoice_mem, fact WeightedChoice_ok)

section \<open>Properties\<close>

text \<open>C1. A weight is a selection frequency: of the values that the one random draw can take,
  exactly \<open>Weight\<close> many select a given choice (two or more distinct choices, no negative weight,
  not all zero).\<close>

theorem WeightedChoice_frequency:
  assumes "2 \<le> length cs" "distinct cs" "\<forall>c \<in> set cs. 0 \<le> Weight c" "0 < sum_weights cs"
    and "k < length cs"
  shows "card {d. d < nat (sum_weights cs) \<and>
           (\<forall>r. src r (pos r) = d \<longrightarrow> (\<exists>r'. WeightedChoice r cs = Some (Inr (cs ! k), r')))}
         = nat (Weight (cs ! k))"
proof -
  let ?S = "sum_weights cs" and ?b = "weight_before cs k" and ?w = "Weight (cs ! k)"
  have b0: "0 \<le> ?b" unfolding weight_before_def
    using assms(3) by (intro sum_list_nonneg) (auto dest: in_set_takeD)
  have bS: "?b + ?w \<le> ?S"
  proof -
    have "?S = ?b + sum_list (map Weight (drop k cs))"
      unfolding weight_before_def sum_weights_eq by (metis append_take_drop_id map_append sum_list_append)
    moreover have "drop k cs = cs ! k # drop (Suc k) cs" using assms(5) by (rule Cons_nth_drop_Suc [symmetric])
    moreover have "0 \<le> sum_list (map Weight (drop (Suc k) cs))"
      using assms(3) by (intro sum_list_nonneg) (auto dest: in_set_dropD)
    ultimately show ?thesis by simp
  qed
  have pick: "pick_loop (int d) cs = Inr (cs ! k) \<longleftrightarrow> ?b \<le> int d \<and> int d < ?b + ?w"
    if d: "d < nat ?S" for d
  proof
    assume p: "pick_loop (int d) cs = Inr (cs ! k)"
    have "int d < sum_list (map Weight cs)" using d by (simp add: sum_weights_eq)
    from pick_loop_index [OF assms(3) _ this] obtain j where j: "j < length cs"
      "weight_before cs j \<le> int d" "int d < weight_before cs j + Weight (cs ! j)"
      "pick_loop (int d) cs = Inr (cs ! j)" by auto
    with p assms(2,5) have "j = k" by (simp add: nth_eq_iff_index_eq)
    with j show "?b \<le> int d \<and> int d < ?b + ?w" by simp
  qed (use pick_loop_segment [OF assms(3,5)] in auto)
  have "{d. d < nat ?S \<and> (\<forall>r. src r (pos r) = d \<longrightarrow> (\<exists>r'. WeightedChoice r cs = Some (Inr (cs ! k), r')))}
     = {d. d < nat ?S \<and> pick_loop (int d) cs = Inr (cs ! k)}"
  proof (intro Collect_cong conj_cong refl)
    fix d assume d: "d < nat ?S"
    have eq: "WeightedChoice r cs = Some (pick_loop (int d) cs, r\<lparr>pos := Suc (pos r)\<rparr>)"
      if "src r (pos r) = d" for r
      using WeightedChoice_many [OF assms(1,4), of r] that d by simp
    show "(\<forall>r. src r (pos r) = d \<longrightarrow> (\<exists>r'. WeightedChoice r cs = Some (Inr (cs ! k), r')))
      \<longleftrightarrow> pick_loop (int d) cs = Inr (cs ! k)"
    proof
      assume a: "\<forall>r. src r (pos r) = d \<longrightarrow> (\<exists>r'. WeightedChoice r cs = Some (Inr (cs ! k), r'))"
      have "src \<lparr>src = \<lambda>_. d, pos = 0\<rparr> (pos \<lparr>src = \<lambda>_. d, pos = 0\<rparr>) = d" by simp
      from a [rule_format, OF this] eq [OF this] show "pick_loop (int d) cs = Inr (cs ! k)" by auto
    qed (simp add: eq)
  qed
  also have "\<dots> = {nat ?b..<nat (?b + ?w)}" using pick b0 bS by (auto simp: nat_le_iff zless_nat_conj)
  finally show ?thesis using b0 by (simp add: nat_add_distrib assms(3,5))
qed

theorem WeightedChoice_frequency_witness:
  "card {d. d < 10 \<and> (\<forall>r. src r (pos r) = d \<longrightarrow> (\<exists>r'. WeightedChoice r
       [\<lparr>Weight = 7, Item = ''post''\<rparr>, \<lparr>Weight = 3, Item = ''search''\<rparr>] = Some (Inr \<lparr>Weight = 7, Item = ''post''\<rparr>, r')))} = 7"
  using WeightedChoice_frequency [of "[\<lparr>Weight = 7, Item = ''post''\<rparr>, \<lparr>Weight = 3, Item = ''search''\<rparr>]" 0]
  by (simp add: sum_weights_def)

text \<open>\<open>WeightedChoice\<close> never panics, and with non-negative weights it returns an error exactly
  when it is given no choices, or several whose weights are all zero.\<close>

theorem WeightedChoice_error_iff:
  assumes "\<forall>c \<in> set cs. 0 \<le> Weight c"
  shows "\<exists>res r'. WeightedChoice r cs = Some (res, r') \<and>
     ((\<exists>e. res = Inl e) \<longleftrightarrow> cs = [] \<or> (2 \<le> length cs \<and> (\<forall>c \<in> set cs. Weight c = 0)))"
proof -
  have nn: "0 \<le> sum_list (map Weight cs)" using assms by (intro sum_list_nonneg) auto
  have zero: "sum_weights cs = 0 \<longleftrightarrow> (\<forall>c \<in> set cs. Weight c = 0)"
    unfolding sum_weights_eq using assms by (subst sum_list_nonneg_eq_0_iff) auto
  consider "cs = []" | "length cs = 1" | "2 \<le> length cs" "sum_weights cs = 0" | "2 \<le> length cs" "0 < sum_weights cs"
    using nn by (cases cs; cases "tl cs"; fastforce simp: sum_weights_eq)
  then show ?thesis
  proof cases
    case 1
    then show ?thesis by (simp add: WeightedChoice_def)
  next
    case 2
    then obtain c where "cs = [c]" by (cases cs) auto
    then show ?thesis by (simp add: WeightedChoice_single)
  next
    case 3
    have "pick_loop 0 cs = Inl ''Internal error - code should not reach this point''"
      using 3 by (intro pick_loop_beyond assms) (simp add: sum_weights_eq)
    with 3 zero show ?thesis by (simp add: WeightedChoice_def IntRange_def)
  next
    case 4
    then have "cs \<noteq> []" by auto
    from WeightedChoice_ok [OF this assms] 4 obtain c r' where "WeightedChoice r cs = Some (Inr c, r')" by blast
    with 4 zero show ?thesis by auto
  qed
qed

theorem WeightedChoice_error_iff_witness:
  "\<exists>res r'. WeightedChoice \<lparr>src = \<lambda>i. i, pos = 4\<rparr>
      [\<lparr>Weight = 0, Item = (1::nat)\<rparr>, \<lparr>Weight = 0, Item = 2\<rparr>] = Some (res, r') \<and> (\<exists>e. res = Inl e)"
  using WeightedChoice_error_iff [of "[\<lparr>Weight = 0, Item = (1::nat)\<rparr>, \<lparr>Weight = 0, Item = 2\<rparr>]" "\<lparr>src = \<lambda>i. i, pos = 4\<rparr>"]
  by auto

text \<open>C18. \<open>Shuffle\<close> never panics, only rearranges its slice, and can produce every rearrangement.\<close>

theorem Shuffle_rearranges:
  "(\<forall>r. \<exists>ys r'. Shuffle r xs = Some (ys, r') \<and> mset ys = mset xs) \<and>
   (\<forall>ys. mset ys = mset xs \<longrightarrow> (\<exists>r r'. Shuffle r xs = Some (ys, r')))"
proof (intro conjI allI impI)
  fix r
  have "length xs - 1 < length xs \<or> length xs - 1 = 0" by auto
  from shuffle_loop_total [OF this, of r] show "\<exists>ys r'. Shuffle r xs = Some (ys, r') \<and> mset ys = mset xs"
    unfolding Shuffle_def using shuffle_loop_mset by blast
next
  fix ys assume m: "mset ys = mset xs"
  then have l: "length ys = length xs" by (metis size_mset)
  show "\<exists>r r'. Shuffle r xs = Some (ys, r')"
  proof (cases "xs = []")
    case True
    then show ?thesis using m by (simp add: Shuffle_def)
  next
    case False
    with m l shuffle_loop_reach [of ys xs "length xs - 1"] obtain ds where
      ds: "\<And>r. (\<forall>k < length xs - 1. src r (pos r + k) = ds ! k) \<Longrightarrow> \<exists>r'. shuffle_loop (length xs - 1) xs r = Some (ys, r')"
      by auto
    show ?thesis using ds [of "\<lparr>src = (!) ds, pos = 0\<rparr>"] by (auto simp: Shuffle_def)
  qed
qed

theorem Shuffle_rearranges_witness:
  "\<exists>r r'. Shuffle r [1, 2, 3 :: nat] = Some ([3, 1, 2], r')"
  by (rule Shuffle_rearranges [THEN conjunct2, rule_format]) simp

end
