(* ===== verification/Thread_Split.thy ===== *)
theory Thread_Split
  imports Prelude
begin

text \<open>
  \<^verbatim>\<open>loadtest/thread_split.go\<close> and \<^verbatim>\<open>loadtest/syncutils.go\<close>: the fork-join loop that the login,
  team and channel joining phases use, and the bounded wait on a wait group.

  A goroutine is the list of the indices it hands to \<open>action\<close>; a run of \<open>ThreadSplit\<close> is an
  interleaving of those lists, followed by the return (the wait group makes the call return only
  when all of them are exhausted).
\<close>

definition thread_start :: "int \<Rightarrow> int \<Rightarrow> int \<Rightarrow> int" where
  "thread_start arrayLen numThreads threadNum = go_div arrayLen numThreads * threadNum"

definition thread_end :: "int \<Rightarrow> int \<Rightarrow> int \<Rightarrow> int" where
  "thread_end arrayLen numThreads threadNum =
     (if threadNum = numThreads - 1 then arrayLen
      else go_div arrayLen numThreads * (threadNum + 1))"

definition thread_indices :: "int \<Rightarrow> int \<Rightarrow> int \<Rightarrow> int list" where
  "thread_indices arrayLen numThreads threadNum =
     [thread_start arrayLen numThreads threadNum .. thread_end arrayLen numThreads threadNum - 1]"

text \<open>\<open>wg.Add\<close> of a negative count panics.\<close>

definition thread_work :: "int \<Rightarrow> int \<Rightarrow> int list list option" where
  "thread_work arrayLen numThreads =
     (if numThreads < 0 then None
      else Some (map (thread_indices arrayLen numThreads) [0 .. numThreads - 1]))"

inductive interleaving :: "'a list list \<Rightarrow> 'a list \<Rightarrow> bool" where
  finished: "(\<forall>w \<in> set ws. w = []) \<Longrightarrow> interleaving ws []"
| step: "t < length ws \<Longrightarrow> ws ! t = x # xs \<Longrightarrow> interleaving (ws[t := xs]) ys \<Longrightarrow> interleaving ws (x # ys)"

inductive_cases interleaving_NilE: "interleaving ws []"
inductive_cases interleaving_ConsE: "interleaving ws (y # ys)"

text \<open>A run: the order \<open>calls\<close> in which the goroutines called \<open>action\<close>, and the state it left.\<close>

definition ThreadSplit :: "int \<Rightarrow> int \<Rightarrow> (int \<Rightarrow> 's \<Rightarrow> 's) \<Rightarrow> 's \<Rightarrow> int list \<Rightarrow> 's \<Rightarrow> bool" where
  "ThreadSplit arrayLen numThreads action s calls s' \<longleftrightarrow>
     (\<exists>ws. thread_work arrayLen numThreads = Some ws \<and> interleaving ws calls \<and> s' = fold action calls s)"

text \<open>\<open>waitWithTimeout\<close>: the group finishes after \<open>finish\<close> (\<open>None\<close>: never). When both events are
  ready \<open>select\<close> may take either.\<close>

definition waitWithTimeout :: "int option \<Rightarrow> int \<Rightarrow> bool \<Rightarrow> bool" where
  "waitWithTimeout finish timeout returned =
     (case finish of
        None \<Rightarrow> \<not> returned
      | Some f \<Rightarrow> (if f < timeout then returned else if timeout < f then \<not> returned else True))"

section \<open>Lemmas\<close>

lemma interleaving_mset: "interleaving ws ys \<Longrightarrow> mset ys = sum_list (map mset ws)"
proof (induction rule: interleaving.induct)
  case (finished ws)
  then show ?case by (induction ws) auto
next
  case (step t ws x xs ys)
  have "sum_list (map mset ws) = add_mset x (sum_list (map mset (ws[t := xs])))"
    using step.hyps(1,2)
  proof (induction ws arbitrary: t)
    case (Cons w ws)
    then show ?case by (cases t) auto
  qed simp
  with step.IH show ?case by simp
qed

lemma interleaving_exists: "\<exists>ys. interleaving ws ys"
proof (induction "sum_list (map length ws)" arbitrary: ws rule: less_induct)
  case less
  show ?case
  proof (cases "\<forall>w \<in> set ws. w = []")
    case True
    then show ?thesis by (blast intro: interleaving.finished)
  next
    case False
    then obtain t where t: "t < length ws" "ws ! t \<noteq> []" by (auto simp: in_set_conv_nth)
    then obtain x xs where x: "ws ! t = x # xs" by (meson neq_Nil_conv)
    have "sum_list (map length (ws[t := xs])) < sum_list (map length ws)"
      using t(1) x
    proof (induction ws arbitrary: t)
      case (Cons w ws)
      then show ?case by (cases t) auto
    qed simp
    with less obtain ys where "interleaving (ws[t := xs]) ys" by blast
    with t(1) x show ?thesis by (blast intro: interleaving.step)
  qed
qed

lemma upto_split: "a \<le> b \<Longrightarrow> b \<le> c \<Longrightarrow> [a..b - 1] @ [b..c - 1] = [a..c - (1::int)]"
proof -
  assume ab: "a \<le> b" "b \<le> c"
  show ?thesis
  proof (cases "a \<le> b - 1 \<and> b \<le> c - 1")
    case True
    then show ?thesis using upto_split1 [of a "b - 1" "c - 1"] upto_split2 [of a "b - 1" "c - 1"] ab by simp
  next
    case False
    with ab show ?thesis by (cases "a = b") auto
  qed
qed

text \<open>The chunks of the first \<open>k\<close> threads, one after the other, are an initial segment.\<close>

lemma chunks_prefix:
  "0 \<le> q \<Longrightarrow> concat (map (\<lambda>t. [q * t .. q * (t + 1) - 1]) [0 .. int k - 1]) = [0 .. q * int k - 1]"
proof (induction k)
  case (Suc k)
  have "[0 .. int (Suc k) - 1] = [0 .. int k - 1] @ [int k]"
    using upto_rec2 [of 0 "int k"] by simp
  moreover have "[0 .. q * int k - 1] @ [q * int k .. q * (int k + 1) - 1] = [0 .. q * (int k + 1) - 1]"
    using Suc.prems by (intro upto_split) (simp_all add: mult_left_mono)
  ultimately show ?case using Suc by (simp add: add.commute)
qed simp

lemma thread_work_concat:
  assumes "0 \<le> a" "0 < n" "thread_work a n = Some ws"
  shows "concat ws = [0 .. a - 1]"
proof -
  let ?q = "a div n"
  obtain k where k: "n = int (Suc k)" using assms(2) by (metis gr0_implies_Suc zero_less_imp_eq_int)
  have q0: "0 \<le> ?q" using assms(1,2) by (simp add: pos_imp_zdiv_nonneg_iff)
  have "?q * int k \<le> ?q * n" using q0 k by (intro mult_left_mono) auto
  also have "\<dots> \<le> a" using minus_mod_eq_div_mult [of a n] pos_mod_sign [OF assms(2), of a] by linarith
  finally have q: "0 \<le> ?q" "?q * int k \<le> a" using q0 by auto
  have up: "[0 .. n - 1] = [0 .. int k - 1] @ [int k]" using upto_rec2 [of 0 "int k"] k by simp
  have "map (thread_indices a n) [0 .. int k - 1] = map (\<lambda>t. [?q * t .. ?q * (t + 1) - 1]) [0 .. int k - 1]"
    using assms(1,2) k by (intro map_cong) (auto simp: thread_indices_def thread_start_def thread_end_def go_div_nonneg)
  moreover have "thread_indices a n (int k) = [?q * int k .. a - 1]"
    using assms(1,2) k by (simp add: thread_indices_def thread_start_def thread_end_def go_div_nonneg)
  ultimately have "concat (map (thread_indices a n) [0 .. n - 1]) = [0 .. ?q * int k - 1] @ [?q * int k .. a - 1]"
    using chunks_prefix [OF q(1), of k] by (simp only: up map_append concat_append) simp
  also have "\<dots> = [0 .. a - 1]" using q by (intro upto_split) simp_all
  finally show ?thesis using assms(2,3) by (simp add: thread_work_def)
qed

lemma mset_concat: "mset (concat ws) = sum_list (map mset ws)"
  by (induction ws) auto

lemma ThreadSplit_calls:
  "0 \<le> a \<Longrightarrow> 0 < n \<Longrightarrow> ThreadSplit a n act s calls s' \<Longrightarrow> mset calls = mset [0 .. a - 1]"
  by (auto simp: ThreadSplit_def interleaving_mset thread_work_concat simp flip: mset_concat)

text \<open>What a caller whose actions commute relies on: the split loop is the sequential loop.\<close>

lemma ThreadSplit_sequential:
  assumes "0 \<le> a" "0 < n" "ThreadSplit a n act s calls s'"
    and "\<And>i j t. 0 \<le> i \<Longrightarrow> i < a \<Longrightarrow> 0 \<le> j \<Longrightarrow> j < a \<Longrightarrow> act i (act j t) = act j (act i t)"
  shows "s' = fold act [0 .. a - 1] s"
proof -
  have m: "mset calls = mset [0 .. a - 1]" using assms(1-3) by (rule ThreadSplit_calls)
  then have s: "set calls = set [0 .. a - 1]" by (rule mset_eq_setD)
  have "fold act calls = fold act [0 .. a - 1]"
    using m s by (intro fold_multiset_equiv) (auto simp: fun_eq_iff assms(4))
  then show ?thesis using assms(3) by (auto simp: ThreadSplit_def)
qed

lemma ThreadSplit_no_threads: "ThreadSplit a 0 act s calls s' \<longleftrightarrow> calls = [] \<and> s' = s"
proof -
  have "interleaving [] calls \<longleftrightarrow> calls = []"
    by (auto intro: interleaving.finished elim: interleaving.cases)
  then show ?thesis by (auto simp: ThreadSplit_def thread_work_def)
qed

lemma ThreadSplit_exists: "0 < n \<Longrightarrow> \<exists>calls s'. ThreadSplit a n act s calls s'"
  using interleaving_exists by (auto simp: ThreadSplit_def thread_work_def)

lemma ThreadSplit_run:
  assumes "0 \<le> a" "0 < n" "ThreadSplit a n act s calls s'"
  shows "distinct calls \<and> set calls = {0 ..< a} \<and>
       ((\<forall>i j t. 0 \<le> i \<longrightarrow> i < a \<longrightarrow> 0 \<le> j \<longrightarrow> j < a \<longrightarrow> act i (act j t) = act j (act i t)) \<longrightarrow> s' = fold act [0 .. a - 1] s)"
proof -
  have m: "mset calls = mset [0 .. a - 1]" using assms by (rule ThreadSplit_calls)
  have "{0 ..< a} = {0 .. a - 1}"
    using atLeastLessThanPlusOne_atLeastAtMost_int [of 0 "a - 1"] by simp
  then have "set calls = {0 ..< a}" using mset_eq_setD [OF m] by (simp only: set_upto)
  moreover have "distinct calls" unfolding mset_eq_imp_distinct_iff [OF m] by (rule distinct_upto)
  ultimately show ?thesis
    by (intro conjI impI ThreadSplit_sequential [OF assms]) auto
qed

section \<open>Properties\<close>

text \<open>C2. With at least one thread \<open>ThreadSplit\<close> always has a run to completion, every run hands
  each index below the length to the action exactly once, whatever the interleaving, and if the
  actions of different indices commute the final state is that of the plain sequential loop.
  (With no thread at all it silently does nothing.)\<close>

theorem ThreadSplit_each_index_once:
  assumes "0 \<le> a" "0 < n"
  shows "(\<exists>calls s'. ThreadSplit a n act s calls s') \<and>
    (\<forall>calls s'. ThreadSplit a n act s calls s' \<longrightarrow>
       distinct calls \<and> set calls = {0 ..< a} \<and>
       ((\<forall>i j t. 0 \<le> i \<longrightarrow> i < a \<longrightarrow> 0 \<le> j \<longrightarrow> j < a \<longrightarrow> act i (act j t) = act j (act i t)) \<longrightarrow> s' = fold act [0 .. a - 1] s)) \<and>
    (\<forall>calls s'. ThreadSplit a 0 act s calls s' \<longleftrightarrow> calls = [] \<and> s' = s)"
proof (intro conjI)
  show "\<exists>calls s'. ThreadSplit a n act s calls s'" using assms(2) by (rule ThreadSplit_exists)
  show "\<forall>calls s'. ThreadSplit a 0 act s calls s' \<longleftrightarrow> calls = [] \<and> s' = s"
    by (intro allI ThreadSplit_no_threads)
qed (intro allI impI, erule ThreadSplit_run [OF assms])

theorem ThreadSplit_each_index_once_witness:
  "\<exists>calls s'. ThreadSplit 7 3 (\<lambda>i s. s + i) 0 calls s' \<and> set calls = {0 ..< 7} \<and> s' = 21"
proof -
  have pos: "0 \<le> (7::int)" "0 < (3::int)" by simp_all
  note T = ThreadSplit_each_index_once [OF pos, of "\<lambda>i s. s + i" 0]
  obtain calls s' where r: "ThreadSplit 7 3 (\<lambda>i s. s + i) 0 calls s'" using T [THEN conjunct1] by blast
  note R = T [THEN conjunct2, THEN conjunct1, rule_format, OF r]
  have "set calls = {0 ..< 7}" using R by (elim conjE)
  moreover have "s' = fold (\<lambda>i s. s + i) [0 .. 7 - 1] 0"
    by (rule R [THEN conjunct2, THEN conjunct2, rule_format]) simp
  moreover have "fold (\<lambda>i s. s + i) [0 .. 7 - 1] 0 = (21 :: int)" by code_simp
  ultimately show ?thesis using r by (intro exI [of _ calls] exI [of _ s']) simp
qed

end
