(* ===== verification/Instance_Registry.thy ===== *)
theory Instance_Registry
  imports Prelude
begin

text \<open>
  \<^verbatim>\<open>loadtest/instance.go\<close>: the database table through which load test instances agree on who owns
  which index, and with it which range of users.

  The table is a list of rows; the order of the list is the order in which the database would scan
  them, which SQL leaves open, so the environment of an operation may reorder it at any time. Times
  are nanoseconds since 1970; \<open>unix\<close> is Go's \<open>Time.Unix\<close>. The environment of each attempt of
  \<open>insertInstance\<close> says what other instances do to the table before and between its two
  statements, and whether a statement fails.
\<close>

record row =
  Id :: string
  CreateAt :: int
  ActiveAt :: int
  Idx :: int

type_synonym instances = "row list"

definition second :: int where "second = 1000000000"

definition unix :: "int \<Rightarrow> int" where
  "unix t = t div second"

definition InstanceHeartbeatInterval :: int where
  "InstanceHeartbeatInterval = 30 * second"

definition InstanceExpiredInterval :: int where
  "InstanceExpiredInterval = InstanceHeartbeatInterval * 4"

section \<open>The statements\<close>

text \<open>The two left joins: \<open>li_lower\<close> and \<open>li_higher\<close> are absent from the joined row.\<close>

definition lower_null :: "instances \<Rightarrow> row \<Rightarrow> bool" where
  "lower_null t li = list_all (\<lambda>q. Idx q \<noteq> Idx li - 1) t"

definition higher_null :: "instances \<Rightarrow> row \<Rightarrow> bool" where
  "higher_null t li = list_all (\<lambda>q. Idx q \<noteq> Idx li + 1) t"

definition case_index :: "instances \<Rightarrow> row \<Rightarrow> int option" where
  "case_index t li =
     (if lower_null t li \<and> Idx li > 0 then Some (Idx li - 1)
      else if higher_null t li then Some (Idx li + 1)
      else None)"

definition where_index :: "instances \<Rightarrow> row \<Rightarrow> bool" where
  "where_index t li \<longleftrightarrow> Idx li > 0 \<and> lower_null t li \<or> higher_null t li"

definition select_index :: "instances \<Rightarrow> int option list" where
  "select_index t = map (case_index t) (filter (where_index t) t)"

text \<open>\<open>row.Scan(&index)\<close> followed by \<open>index.Int64\<close>: no row and SQL's NULL both leave 0.\<close>

definition scan_index :: "instances \<Rightarrow> int" where
  "scan_index t = (case select_index t of [] \<Rightarrow> 0 | None # _ \<Rightarrow> 0 | Some i # _ \<Rightarrow> i)"

definition insert_row :: "row \<Rightarrow> instances \<Rightarrow> instances result" where
  "insert_row r t =
     (if list_ex (\<lambda>q. Id q = Id r) t then Inl ''duplicate entry for key PRIMARY''
      else if list_ex (\<lambda>q. Idx q = Idx r) t then Inl ''duplicate entry for key Idx''
      else Inr (t @ [r]))"

record attempt_env =
  before :: "instances \<Rightarrow> instances"
  between :: "instances \<Rightarrow> instances"
  select_err :: "string option"
  insert_err :: "string option"

fun insert_loop :: "nat \<Rightarrow> string \<Rightarrow> int \<Rightarrow> string \<Rightarrow> (nat \<Rightarrow> attempt_env) \<Rightarrow> nat \<Rightarrow> instances \<Rightarrow>
    instances \<times> int result" where
  "insert_loop 0 iid now lasterr env attempts t =
     (t, Inl (''failed to insert instance '' @ iid @ '' with unique index: '' @ lasterr))"
| "insert_loop (Suc left) iid now lasterr env attempts t =
     (let e = env attempts; t1 = before e t in
      case select_err e of
        Some err \<Rightarrow> (t1, Inl (''failed to find available instance index: '' @ err))
      | None \<Rightarrow>
          (let index = scan_index t1;
               t2 = between e t1;
               r = \<lparr>Id = iid, CreateAt = unix now * 1000, ActiveAt = unix now * 1000, Idx = index\<rparr>
           in case (case insert_err e of Some err \<Rightarrow> Inl err | None \<Rightarrow> insert_row r t2) of
                Inl err \<Rightarrow> insert_loop left iid now err env (Suc attempts) t2
              | Inr t3 \<Rightarrow> (t3, Inr index)))"

definition insertInstance :: "instances \<Rightarrow> string \<Rightarrow> int \<Rightarrow> (nat \<Rightarrow> attempt_env) \<Rightarrow> instances \<times> int result" where
  "insertInstance t iid now env = insert_loop 5 iid now [] env 1 t"

definition recordInstanceHeartbeat :: "instances \<Rightarrow> string \<Rightarrow> int \<Rightarrow> instances" where
  "recordInstanceHeartbeat t iid now =
     map (\<lambda>q. if Id q = iid then q\<lparr>ActiveAt := unix now * 1000\<rparr> else q) t"

definition pruneInstances :: "instances \<Rightarrow> int \<Rightarrow> instances" where
  "pruneInstances t now =
     filter (\<lambda>q. \<not> ActiveAt q \<le> unix (now + - 1 * InstanceExpiredInterval) * 1000) t"

definition getCoordinatedRandomSeed :: "instances \<Rightarrow> int result" where
  "getCoordinatedRandomSeed t =
     (case filter (\<lambda>q. Idx q = 0) t of
        [] \<Rightarrow> Inl ''sql: no rows in result set''
      | q # _ \<Rightarrow> Inr (CreateAt q))"

definition deleteInstance :: "instances \<Rightarrow> string \<Rightarrow> instances" where
  "deleteInstance t iid = filter (\<lambda>q. Id q \<noteq> iid) t"

record instance_handle =
  InstanceId :: string
  Index :: int
  EntityStartNum :: int
  Seed :: int

text \<open>\<open>NewInstance\<close>. A failed prune is only logged; \<open>prune_ok\<close> says whether it succeeded,
  \<open>schema_err\<close> and \<open>seed_err\<close> whether those statements fail.\<close>

record new_env =
  schema_err :: "string option"
  prune_ok :: bool
  attempts_env :: "nat \<Rightarrow> attempt_env"
  seed_err :: "string option"

definition NewInstance :: "instances \<Rightarrow> string \<Rightarrow> int \<Rightarrow> int \<Rightarrow> new_env \<Rightarrow> instances \<times> instance_handle result" where
  "NewInstance t iid now numActiveEntities env =
     (case schema_err env of
        Some err \<Rightarrow> (t, Inl (''failed to create instance schema: '' @ err))
      | None \<Rightarrow>
          (let t1 = (if prune_ok env then pruneInstances t now else t);
               (t2, res) = insertInstance t1 iid now (attempts_env env)
           in case res of
                Inl err \<Rightarrow> (t2, Inl (''failed to insert instance: '' @ err))
              | Inr index \<Rightarrow>
                  (case (case seed_err env of Some err \<Rightarrow> Inl err | None \<Rightarrow> getCoordinatedRandomSeed t2) of
                     Inl err \<Rightarrow> (t2, Inl (''failed to query for coordinated random seed: '' @ err))
                   | Inr seed \<Rightarrow>
                       (t2, Inr \<lparr>InstanceId = iid, Index = index,
                                EntityStartNum = index * numActiveEntities, Seed = seed\<rparr>))))"

text \<open>The heartbeat goroutine's loop over its events: a tick of the 30 second ticker, or the close
  signal. \<open>fails\<close> says which updates the database refused.\<close>

datatype beat = Tick int bool | CloseSignal

fun heartbeat :: "string \<Rightarrow> beat list \<Rightarrow> instances \<Rightarrow> instances" where
  "heartbeat iid [] t = t"
| "heartbeat iid (Tick now fails # bs) t =
     heartbeat iid bs (if fails then t else recordInstanceHeartbeat t iid now)"
| "heartbeat iid (CloseSignal # bs) t = t"

definition Close :: "instances \<Rightarrow> instance_handle \<Rightarrow> string option \<Rightarrow> instances \<times> unit result" where
  "Close t i err =
     (case err of
        Some e \<Rightarrow> (t, Inl (''failed to delete instance: '' @ e))
      | None \<Rightarrow> (deleteInstance t (InstanceId i), Inr ()))"

section \<open>The table's invariant\<close>

definition table_ok :: "instances \<Rightarrow> bool" where
  "table_ok t \<longleftrightarrow> distinct (map Id t) \<and> distinct (map Idx t) \<and> (\<forall>q \<in> set t. 0 \<le> Idx q)"

lemma table_okI:
  "distinct (map Id t) \<Longrightarrow> distinct (map Idx t) \<Longrightarrow> (\<And>q. q \<in> set t \<Longrightarrow> 0 \<le> Idx q) \<Longrightarrow> table_ok t"
  by (simp add: table_ok_def)

lemma table_ok_Nil [simp]: "table_ok []"
  by (simp add: table_ok_def)

lemma table_ok_filter [intro]: "table_ok t \<Longrightarrow> table_ok (filter P t)"
  by (auto simp: table_ok_def distinct_map_filter)

lemma table_ok_prune [intro]: "table_ok t \<Longrightarrow> table_ok (pruneInstances t now)"
  unfolding pruneInstances_def by (rule table_ok_filter)

lemma table_ok_delete [intro]: "table_ok t \<Longrightarrow> table_ok (deleteInstance t iid)"
  unfolding deleteInstance_def by (rule table_ok_filter)

lemma heartbeat_row_simps:
  "map Id (recordInstanceHeartbeat t iid now) = map Id t"
  "map Idx (recordInstanceHeartbeat t iid now) = map Idx t"
  by (induction t) (auto simp: recordInstanceHeartbeat_def)

lemma table_ok_heartbeat [intro]: "table_ok t \<Longrightarrow> table_ok (recordInstanceHeartbeat t iid now)"
proof (rule table_okI)
  assume t: "table_ok t"
  fix q assume "q \<in> set (recordInstanceHeartbeat t iid now)"
  then have "Idx q \<in> set (map Idx (recordInstanceHeartbeat t iid now))" by simp
  then have "Idx q \<in> set (map Idx t)" by (simp only: heartbeat_row_simps)
  then show "0 \<le> Idx q" using t by (auto simp: table_ok_def)
qed (simp_all only: table_ok_def heartbeat_row_simps)

lemma list_ex_key: "list_ex (\<lambda>q. f q = f r) t \<longleftrightarrow> f r \<in> set (map f t)"
  by (auto simp: list_ex_iff image_iff eq_commute)

lemma table_ok_perm: "mset t = mset u \<Longrightarrow> table_ok u \<Longrightarrow> table_ok t"
  unfolding table_ok_def by (metis mset_eq_imp_distinct_iff mset_eq_setD mset_map)

lemma insert_row_Inr:
  "insert_row r t = Inr t' \<longleftrightarrow> t' = t @ [r] \<and> Id r \<notin> set (map Id t) \<and> Idx r \<notin> set (map Idx t)"
  unfolding insert_row_def list_ex_key by auto

lemma table_ok_insert: "table_ok t \<Longrightarrow> 0 \<le> Idx r \<Longrightarrow> insert_row r t = Inr t' \<Longrightarrow> table_ok t'"
  by (auto simp: insert_row_Inr table_ok_def)

section \<open>The proposed index\<close>

lemma case_index_where:
  "where_index t li \<Longrightarrow> case_index t li =
     Some (if lower_null t li \<and> Idx li > 0 then Idx li - 1 else Idx li + 1)"
  by (auto simp: case_index_def where_index_def)

lemma case_index_free:
  "case_index t li = Some i \<Longrightarrow> 0 \<le> Idx li \<Longrightarrow> 0 \<le> i \<and> i \<notin> set (map Idx t)"
  by (auto simp: case_index_def lower_null_def higher_null_def list_all_iff split: if_splits)

lemma select_index_nonempty:
  assumes "t \<noteq> []" shows "select_index t \<noteq> []"
proof -
  define m where "m = Max (Idx ` set t)"
  have "m \<in> Idx ` set t" unfolding m_def using assms by (intro Max_in) auto
  then obtain q where q: "q \<in> set t" "Idx q = m" by auto
  have "\<forall>p \<in> set t. Idx p \<le> m" unfolding m_def by auto
  then have "higher_null t q" using q by (force simp: higher_null_def list_all_iff)
  then have "q \<in> set (filter (where_index t) t)" using q by (simp add: where_index_def)
  then have "filter (where_index t) t \<noteq> []" by (metis list.distinct(1) list.set_cases)
  then show ?thesis by (simp add: select_index_def)
qed

lemma scan_index_free:
  assumes "\<forall>q \<in> set t. 0 \<le> Idx q"
  shows "0 \<le> scan_index t \<and> scan_index t \<notin> set (map Idx t)"
proof (cases "t = []")
  case True
  then show ?thesis by (simp add: scan_index_def select_index_def)
next
  case False
  then have ne: "filter (where_index t) t \<noteq> []" using select_index_nonempty by (auto simp: select_index_def)
  then obtain li lis where f: "filter (where_index t) t = li # lis" by (meson neq_Nil_conv)
  then have li: "li \<in> set t" "where_index t li"
    using filter_eq_ConsD [OF f] by auto
  then obtain i where i: "case_index t li = Some i" using case_index_where by blast
  have "scan_index t = i" by (simp add: scan_index_def select_index_def f i)
  then show ?thesis using case_index_free [OF i] li assms by simp
qed

text \<open>An environment that respects the table: other instances only run the same statements.\<close>

definition env_ok :: "string \<Rightarrow> (nat \<Rightarrow> attempt_env) \<Rightarrow> bool" where
  "env_ok iid env \<longleftrightarrow> (\<forall>k t. table_ok t \<longrightarrow>
     (table_ok (before (env k) t) \<and> (iid \<notin> set (map Id t) \<longrightarrow> iid \<notin> set (map Id (before (env k) t)))) \<and>
     (table_ok (between (env k) t) \<and> (iid \<notin> set (map Id t) \<longrightarrow> iid \<notin> set (map Id (between (env k) t)))))"

lemma insert_loop_inv:
  assumes "env_ok iid env"
  shows "insert_loop left iid now lasterr env k t = (t', res) \<Longrightarrow> table_ok t \<Longrightarrow> iid \<notin> set (map Id t) \<Longrightarrow>
    table_ok t' \<and>
    (case res of
       Inl _ \<Rightarrow> iid \<notin> set (map Id t')
     | Inr index \<Rightarrow> 0 \<le> index \<and>
         \<lparr>Id = iid, CreateAt = unix now * 1000, ActiveAt = unix now * 1000, Idx = index\<rparr> \<in> set t')"
proof (induction left arbitrary: lasterr k t)
  case 0
  then show ?case by auto
next
  case (Suc left)
  let ?t1 = "before (env k) t" and ?t2 = "between (env k) (before (env k) t)"
  have t1: "table_ok ?t1" "iid \<notin> set (map Id ?t1)" using assms Suc.prems by (simp_all add: env_ok_def)
  then have t2: "table_ok ?t2" "iid \<notin> set (map Id ?t2)" using assms by (simp_all add: env_ok_def)
  have i0: "0 \<le> scan_index ?t1" using scan_index_free t1(1) by (simp add: table_ok_def)
  let ?r = "\<lparr>Id = iid, CreateAt = unix now * 1000, ActiveAt = unix now * 1000, Idx = scan_index ?t1\<rparr>"
  show ?case
  proof (cases "select_err (env k)")
    case (Some err)
    then show ?thesis using Suc.prems t1 by (auto simp: Let_def)
  next
    case None
    note sel = this
    show ?thesis
    proof (cases "case insert_err (env k) of Some err \<Rightarrow> Inl err | None \<Rightarrow> insert_row ?r ?t2")
      case (Inl err)
      then have "insert_loop left iid now err env (Suc k) ?t2 = (t', res)"
        using Suc.prems(1) sel by (simp add: Let_def)
      then show ?thesis by (rule Suc.IH [OF _ t2])
    next
      case (Inr t3)
      then have ins: "insert_row ?r ?t2 = Inr t3" by (auto split: option.splits)
      have "t' = t3" "res = Inr (scan_index ?t1)" using Suc.prems(1) sel Inr by (simp_all add: Let_def)
      then show ?thesis using table_ok_insert [OF t2(1) _ ins] ins i0 by (simp add: insert_row_Inr)
    qed
  qed
qed

lemmas insertInstance_inv = insert_loop_inv [where left = 5 and lasterr = "[]" and k = 1, folded insertInstance_def]

lemma table_ok_row_unique:
  "table_ok t \<Longrightarrow> q \<in> set t \<Longrightarrow> p \<in> set t \<Longrightarrow> Idx q = Idx p \<Longrightarrow> q = p"
  by (auto simp: table_ok_def distinct_map inj_on_def)

text \<open>Ranges of users owned by different indices do not meet.\<close>

lemma entity_ranges_disjoint:
  fixes n :: int
  assumes "i \<noteq> j" "0 \<le> n"
  shows "{i * n ..< i * n + n} \<inter> {j * n ..< j * n + n} = {}"
proof -
  have disj: "a * n + n \<le> b * n" if "a < b" for a b
  proof -
    have "(a + 1) * n \<le> b * n" using that assms(2) by (intro mult_right_mono) auto
    then show ?thesis by (simp add: distrib_right)
  qed
  show ?thesis using assms(1) disj [of i j] disj [of j i] by (cases "i < j") force+
qed

section \<open>Several instances at once\<close>

text \<open>
  The system: the shared table, a clock, the instances that are between the two statements of
  \<open>insertInstance\<close> with the index they read, the running ones with their index, and for each the
  time of its last successful beat (its creation counts as one).
\<close>

record registry =
  tab :: instances
  clk :: int
  pending :: "string \<rightharpoonup> int"
  running :: "string \<rightharpoonup> int"
  last_beat :: "string \<Rightarrow> int"

inductive reg_step :: "registry \<Rightarrow> registry \<Rightarrow> bool" where
  pass_time: "0 \<le> d \<Longrightarrow> reg_step s (s\<lparr>clk := clk s + d\<rparr>)"
| prune: "reg_step s (s\<lparr>tab := pruneInstances (tab s) (clk s)\<rparr>)"
| rescan: "mset t = mset (tab s) \<Longrightarrow> reg_step s (s\<lparr>tab := t\<rparr>)"
| select: "running s iid = None \<Longrightarrow> reg_step s (s\<lparr>pending := (pending s)(iid \<mapsto> scan_index (tab s))\<rparr>)"
| insert_ok: "pending s iid = Some i \<Longrightarrow> running s iid = None \<Longrightarrow>
    insert_row \<lparr>Id = iid, CreateAt = unix (clk s) * 1000, ActiveAt = unix (clk s) * 1000, Idx = i\<rparr> (tab s) = Inr t \<Longrightarrow>
    reg_step s (s\<lparr>tab := t, pending := (pending s)(iid := None), running := (running s)(iid \<mapsto> i),
                  last_beat := (last_beat s)(iid := clk s)\<rparr>)"
| insert_fails: "pending s iid = Some i \<Longrightarrow> reg_step s (s\<lparr>pending := (pending s)(iid := None)\<rparr>)"
| beat: "running s iid = Some i \<Longrightarrow>
    reg_step s (s\<lparr>tab := recordInstanceHeartbeat (tab s) iid (clk s), last_beat := (last_beat s)(iid := clk s)\<rparr>)"
| close: "running s iid = Some i \<Longrightarrow>
    reg_step s (s\<lparr>tab := deleteInstance (tab s) iid, running := (running s)(iid := None)\<rparr>)"

definition reg_init :: "int \<Rightarrow> registry" where
  "reg_init now = \<lparr>tab = [], clk = now, pending = Map.empty, running = Map.empty, last_beat = (\<lambda>_. now)\<rparr>"

text \<open>Every running instance got a beat through in the last 119 seconds.\<close>

definition timely :: "registry \<Rightarrow> bool" where
  "timely s \<longleftrightarrow> (\<forall>iid \<in> dom (running s). clk s - last_beat s iid \<le> 119 * second)"

inductive timely_reach :: "int \<Rightarrow> registry \<Rightarrow> bool" for now where
  init: "timely_reach now (reg_init now)"
| step: "timely_reach now s \<Longrightarrow> reg_step s s' \<Longrightarrow> timely s' \<Longrightarrow> timely_reach now s'"

definition reg_inv :: "registry \<Rightarrow> bool" where
  "reg_inv s \<longleftrightarrow> table_ok (tab s) \<and> (\<forall>iid i. pending s iid = Some i \<longrightarrow> 0 \<le> i) \<and>
     (\<forall>iid i. running s iid = Some i \<longrightarrow>
        (\<exists>q \<in> set (tab s). Id q = iid \<and> Idx q = i \<and> ActiveAt q = unix (last_beat s iid) * 1000))"

lemma reg_inv_row:
  "reg_inv s \<Longrightarrow> running s iid = Some i \<Longrightarrow>
   \<exists>q \<in> set (tab s). Id q = iid \<and> Idx q = i \<and> ActiveAt q = unix (last_beat s iid) * 1000"
  unfolding reg_inv_def by blast

text \<open>Truncation to seconds costs up to one of the 120 seconds.\<close>

lemma prune_keeps_timely:
  assumes "q \<in> set t" "ActiveAt q = unix b * 1000" "now - b \<le> 119 * second"
  shows "q \<in> set (pruneInstances t now)"
proof -
  have "(now - 120 * second) div second < b div second"
  proof -
    have "(now - 120 * second) div second \<le> (b - second) div second"
      using assms(3) by (intro zdiv_mono1) (simp_all add: second_def)
    also have "\<dots> = b div second - 1" by (simp add: second_def)
    finally show ?thesis by simp
  qed
  then have "unix (now + - 1 * InstanceExpiredInterval) < unix b"
    by (simp add: unix_def InstanceExpiredInterval_def InstanceHeartbeatInterval_def)
  then show ?thesis using assms(1,2) by (simp add: pruneInstances_def)
qed

lemma prune_drops_expired:
  assumes "ActiveAt q = unix b * 1000" "120 * second \<le> now - b"
  shows "q \<notin> set (pruneInstances t now)"
proof -
  have "b div second \<le> (now - 120 * second) div second"
    using assms(2) by (intro zdiv_mono1) (simp_all add: second_def)
  then have "unix b \<le> unix (now + - 1 * InstanceExpiredInterval)"
    by (simp add: unix_def InstanceExpiredInterval_def InstanceHeartbeatInterval_def)
  then show ?thesis using assms(1) by (simp add: pruneInstances_def)
qed

lemma reg_inv_init: "reg_inv (reg_init now)"
  by (simp add: reg_inv_def reg_init_def)

lemma reg_inv_step:
  assumes "reg_step s s'" "reg_inv s" "timely s"
  shows "reg_inv s'"
  using assms
proof (cases rule: reg_step.cases)
  case prune
  have "\<exists>q \<in> set (pruneInstances (tab s) (clk s)). Id q = iid \<and> Idx q = i \<and> ActiveAt q = unix (last_beat s iid) * 1000"
    if r: "running s iid = Some i" for iid i
  proof -
    obtain q where "q \<in> set (tab s)" "Id q = iid" "Idx q = i" "ActiveAt q = unix (last_beat s iid) * 1000"
      using reg_inv_row [OF assms(2) r] by blast
    moreover have "clk s - last_beat s iid \<le> 119 * second" using assms(3) r by (auto simp: timely_def)
    ultimately show ?thesis using prune_keeps_timely by blast
  qed
  with prune assms(2) show ?thesis by (auto simp: reg_inv_def)
next
  case (rescan t)
  have "set t = set (tab s)" using rescan(2) by (rule mset_eq_setD)
  moreover have "table_ok t" using table_ok_perm [OF rescan(2)] assms(2) by (simp add: reg_inv_def)
  ultimately show ?thesis using assms(2) rescan(1) by (simp add: reg_inv_def)
next
  case (select iid)
  have "0 \<le> scan_index (tab s)" using assms(2) scan_index_free by (simp add: reg_inv_def table_ok_def)
  with select assms(2) show ?thesis by (auto simp: reg_inv_def)
next
  case (insert_ok iid i t)
  have i: "0 \<le> i" using assms(2) insert_ok by (auto simp: reg_inv_def)
  have "table_ok t" using table_ok_insert [OF _ _ insert_ok(4)] assms(2) i by (simp add: reg_inv_def)
  with insert_ok assms(2) show ?thesis by (auto simp: reg_inv_def insert_row_Inr)
next
  case (beat iid i)
  have "\<exists>q \<in> set (recordInstanceHeartbeat (tab s) iid (clk s)). Id q = k \<and> Idx q = j \<and>
      ActiveAt q = unix (if k = iid then clk s else last_beat s k) * 1000"
    if r: "running s k = Some j" for k j
  proof -
    obtain q where q: "q \<in> set (tab s)" "Id q = k" "Idx q = j" "ActiveAt q = unix (last_beat s k) * 1000"
      using reg_inv_row [OF assms(2) r] by blast
    let ?q = "if Id q = iid then q\<lparr>ActiveAt := unix (clk s) * 1000\<rparr> else q"
    have "?q \<in> set (recordInstanceHeartbeat (tab s) iid (clk s))"
      unfolding recordInstanceHeartbeat_def set_map using q(1) by (rule imageI)
    then show ?thesis using q by (intro bexI [of _ ?q]) auto
  qed
  with beat assms(2) show ?thesis by (auto simp: reg_inv_def)
next
  case (close iid i)
  have "\<exists>q \<in> set (deleteInstance (tab s) iid). Id q = k \<and> Idx q = j \<and> ActiveAt q = unix (last_beat s k) * 1000"
    if "k \<noteq> iid" "running s k = Some j" for k j
    using reg_inv_row [OF assms(2) that(2)] that(1) by (auto simp: deleteInstance_def)
  with close assms(2) show ?thesis by (auto simp: reg_inv_def)
qed (use assms(2) in \<open>auto simp: reg_inv_def\<close>)

lemma timely_reach_inv: "timely_reach now s \<Longrightarrow> reg_inv s \<and> timely s"
proof (induction rule: timely_reach.induct)
  case init
  show ?case using reg_inv_init by (simp add: timely_def reg_init_def)
next
  case (step s s')
  then show ?case using reg_inv_step by blast
qed

lemma reg_inv_indices:
  "reg_inv s \<Longrightarrow> running s a = Some i \<Longrightarrow> running s b = Some j \<Longrightarrow> a \<noteq> b \<Longrightarrow> i \<noteq> j \<and> 0 \<le> i \<and> 0 \<le> j"
proof -
  assume inv: "reg_inv s" and r: "running s a = Some i" "running s b = Some j" and ab: "a \<noteq> b"
  obtain p q where "p \<in> set (tab s)" "Id p = a" "Idx p = i" "q \<in> set (tab s)" "Id q = b" "Idx q = j"
    using inv r unfolding reg_inv_def by meson
  then show ?thesis using inv ab table_ok_row_unique [of "tab s" p q] by (auto simp: reg_inv_def table_ok_def)
qed

text \<open>An environment with no other instance and no failing statement.\<close>

definition quiet :: "attempt_env" where
  "quiet = \<lparr>before = (\<lambda>t. t), between = (\<lambda>t. t), select_err = None, insert_err = None\<rparr>"

lemma quiet_ok: "env_ok iid (\<lambda>_. quiet)"
  by (simp add: env_ok_def quiet_def)

definition new_row :: "string \<Rightarrow> int \<Rightarrow> int \<Rightarrow> row" where
  "new_row iid now i = \<lparr>Id = iid, CreateAt = unix now * 1000, ActiveAt = unix now * 1000, Idx = i\<rparr>"

lemma insertInstance_quiet:
  assumes "table_ok t" "iid \<notin> set (map Id t)"
  shows "insertInstance t iid now (\<lambda>_. quiet) = (t @ [new_row iid now (scan_index t)], Inr (scan_index t))"
proof -
  have "scan_index t \<notin> set (map Idx t)" using assms(1) scan_index_free by (simp add: table_ok_def)
  then have "insert_row (new_row iid now (scan_index t)) t = Inr (t @ [new_row iid now (scan_index t)])"
    using assms(2) by (simp add: insert_row_Inr new_row_def)
  then show ?thesis
    by (simp add: insertInstance_def quiet_def new_row_def numeral_eq_Suc Let_def)
qed

lemma seed_member: "getCoordinatedRandomSeed t = Inr s \<Longrightarrow> \<exists>q \<in> set t. Idx q = 0 \<and> CreateAt q = s"
  by (auto simp: getCoordinatedRandomSeed_def dest: filter_eq_ConsD split: list.splits)

section \<open>Properties\<close>

text \<open>Whatever other instances do between and around the two statements of each attempt,
  \<open>insertInstance\<close> keeps ids and indices unique and non-negative; a returned index is the one stored
  under the new id, which no other row has; after an error the table has no row of that id. When
  nothing interferes the first attempt succeeds.\<close>

theorem insertInstance_unique_index:
  assumes "table_ok t" "iid \<notin> set (map Id t)" "env_ok iid env"
  shows "(case insertInstance t iid now env of (t', res) \<Rightarrow>
     table_ok t' \<and>
     (case res of
        Inl _ \<Rightarrow> iid \<notin> set (map Id t')
      | Inr index \<Rightarrow> 0 \<le> index \<and> new_row iid now index \<in> set t' \<and>
          (\<forall>q \<in> set t'. Idx q = index \<longrightarrow> q = new_row iid now index))) \<and>
   (\<exists>t' index. insertInstance t iid now (\<lambda>_. quiet) = (t', Inr index))"
proof (rule conjI)
  obtain t' res where r: "insertInstance t iid now env = (t', res)" by force
  note inv = insertInstance_inv [OF assms(3) r assms(1,2)]
  have "q = new_row iid now index" if "res = Inr index" "q \<in> set t'" "Idx q = index" for q index
    using inv that table_ok_row_unique [of t' q "new_row iid now index"] by (simp add: new_row_def)
  with inv show "case insertInstance t iid now env of (t', res) \<Rightarrow>
     table_ok t' \<and>
     (case res of
        Inl _ \<Rightarrow> iid \<notin> set (map Id t')
      | Inr index \<Rightarrow> 0 \<le> index \<and> new_row iid now index \<in> set t' \<and>
          (\<forall>q \<in> set t'. Idx q = index \<longrightarrow> q = new_row iid now index))"
    by (auto simp: r new_row_def split: sum.splits)
qed (use insertInstance_quiet [OF assms(1,2)] in auto)

theorem insertInstance_unique_index_witness:
  "\<exists>t' index. insertInstance [new_row ''a'' 0 0, new_row ''b'' 0 2] ''c'' 5 (\<lambda>_. quiet) = (t', Inr index)"
  using insertInstance_unique_index [of "[new_row ''a'' 0 0, new_row ''b'' 0 2]" "''c''" "\<lambda>_. quiet" 5]
  by (simp add: quiet_ok table_ok_def new_row_def)



text \<open>An instance whose last recorded beat is at most 119 seconds old survives a prune, one
  whose beat is 120 seconds old or older is removed, and nothing else of a row changes.\<close>

theorem pruneInstances_window:
  assumes "q \<in> set t" "ActiveAt q = unix beat_time * 1000"
  shows "(now - beat_time \<le> 119 * second \<longrightarrow> q \<in> set (pruneInstances t now)) \<and>
     (120 * second \<le> now - beat_time \<longrightarrow> q \<notin> set (pruneInstances t now)) \<and>
     set (pruneInstances t now) \<subseteq> set t"
  using prune_keeps_timely [OF assms] prune_drops_expired [OF assms(2)]
  by (auto simp: pruneInstances_def)

theorem pruneInstances_window_witness:
  "new_row ''a'' 7 0 \<in> set (pruneInstances [new_row ''a'' 7 0] (119 * second)) \<and>
   new_row ''a'' 7 0 \<notin> set (pruneInstances [new_row ''a'' 7 0] (121 * second))"
  using pruneInstances_window [of "new_row ''a'' 7 0" "[new_row ''a'' 7 0]" 7 "119 * second"]
    pruneInstances_window [of "new_row ''a'' 7 0" "[new_row ''a'' 7 0]" 7 "121 * second"]
  by (simp add: new_row_def second_def)

text \<open>A successful \<open>NewInstance\<close> reports the index stored for it, the user range derived from it,
  and the creation time of the row with index 0 as its seed, so instances that see the same first
  row draw from the same seed.\<close>

theorem NewInstance_handle:
  assumes "table_ok t" "iid \<notin> set (map Id t)" "env_ok iid (attempts_env env)"
    and "NewInstance t iid now n env = (t', Inr h)"
  shows "table_ok t' \<and> InstanceId h = iid \<and> new_row iid now (Index h) \<in> set t' \<and>
    EntityStartNum h = Index h * n \<and> 0 \<le> Index h \<and>
    (\<forall>q \<in> set t'. Idx q = 0 \<longrightarrow> Seed h = CreateAt q) \<and> (\<exists>q \<in> set t'. Idx q = 0)"
proof -
  let ?t1 = "if prune_ok env then pruneInstances t now else t"
  obtain t2 res where r: "insertInstance ?t1 iid now (attempts_env env) = (t2, res)" by force
  have "table_ok ?t1" "iid \<notin> set (map Id ?t1)" using assms(1,2) by (auto simp: pruneInstances_def)
  note inv = insertInstance_inv [OF assms(3) r this]
  obtain index seed where "res = Inr index" "t' = t2" "getCoordinatedRandomSeed t2 = Inr seed"
    "h = \<lparr>InstanceId = iid, Index = index, EntityStartNum = index * n, Seed = seed\<rparr>"
    using assms(4) r by (auto simp: NewInstance_def split: option.splits sum.splits)
  note h = this
  obtain z where z: "z \<in> set t2" "Idx z = 0" "CreateAt z = seed" using seed_member [OF h(3)] by blast
  have t2: "table_ok t2" and new: "0 \<le> index" "new_row iid now index \<in> set t2"
    using inv h(1) by (simp_all add: new_row_def)
  have "seed = CreateAt q" if "q \<in> set t2" "Idx q = 0" for q
    using table_ok_row_unique [OF t2 z(1) that(1)] z that by simp
  with t2 new z h(2,4) show ?thesis by auto
qed

definition quiet_new :: new_env where
  "quiet_new = \<lparr>schema_err = None, prune_ok = True, attempts_env = (\<lambda>_. quiet), seed_err = None\<rparr>"

lemma NewInstance_quiet:
  assumes "table_ok t" "iid \<notin> set (map Id t)"
  shows "NewInstance t iid now n quiet_new =
    (let u = pruneInstances t now; index = scan_index u; t' = u @ [new_row iid now index]
     in case getCoordinatedRandomSeed t' of
          Inl err \<Rightarrow> (t', Inl (''failed to query for coordinated random seed: '' @ err))
        | Inr seed \<Rightarrow> (t', Inr \<lparr>InstanceId = iid, Index = index, EntityStartNum = index * n, Seed = seed\<rparr>))"
proof -
  have "table_ok (pruneInstances t now)" "iid \<notin> set (map Id (pruneInstances t now))"
    using assms by (auto simp: pruneInstances_def)
  from insertInstance_quiet [OF this] show ?thesis
    by (auto simp: NewInstance_def quiet_new_def Let_def split: sum.splits)
qed

theorem NewInstance_handle_witness:
  "\<exists>t' h. NewInstance [new_row ''a'' 7000000000 0] ''b'' 9000000000 50 quiet_new = (t', Inr h) \<and>
     Index h = 1 \<and> EntityStartNum h = 50 \<and> Seed h = 7000"
proof -
  let ?t = "[new_row ''a'' 7000000000 0]"
  have ok: "table_ok ?t" "''b'' \<notin> set (map Id ?t)" by (simp_all add: table_ok_def new_row_def)
  have "\<exists>t' h. NewInstance ?t ''b'' 9000000000 50 quiet_new = (t', Inr h) \<and> Index h = 1 \<and>
      new_row ''a'' 7000000000 0 \<in> set t'"
    unfolding NewInstance_quiet [OF ok]
    by (simp add: pruneInstances_def new_row_def unix_def second_def scan_index_def
        InstanceExpiredInterval_def InstanceHeartbeatInterval_def getCoordinatedRandomSeed_def
        select_index_def where_index_def case_index_def lower_null_def higher_null_def)
  then obtain t' h where r: "NewInstance ?t ''b'' 9000000000 50 quiet_new = (t', Inr h)" "Index h = 1"
    "new_row ''a'' 7000000000 0 \<in> set t'" by blast
  have "env_ok ''b'' (attempts_env quiet_new)" by (simp add: quiet_new_def quiet_ok)
  from NewInstance_handle [OF ok this r(1)] r show ?thesis by (force simp: new_row_def unix_def second_def)
qed

text \<open>When the row with index 0 has gone and the proposal is another index, \<open>NewInstance\<close> fails
  on the seed query, and the row it had inserted stays behind: it is never deleted by this instance
  and blocks its index until it expires.\<close>

theorem NewInstance_seed_failure_leaves_row:
  assumes "table_ok t" "iid \<notin> set (map Id t)"
    and "\<forall>q \<in> set (pruneInstances t now). Idx q \<noteq> 0" "scan_index (pruneInstances t now) \<noteq> 0"
  shows "\<exists>t' err. NewInstance t iid now n quiet_new = (t', Inl err) \<and>
     new_row iid now (scan_index (pruneInstances t now)) \<in> set t'"
proof -
  let ?u = "pruneInstances t now"
  have "filter (\<lambda>q. Idx q = 0) (?u @ [new_row iid now (scan_index ?u)]) = []"
    using assms(3,4) by (auto simp: new_row_def filter_empty_conv)
  then show ?thesis unfolding NewInstance_quiet [OF assms(1,2)]
    by (simp add: getCoordinatedRandomSeed_def Let_def)
qed

theorem NewInstance_seed_failure_leaves_row_witness:
  "\<exists>t' err. NewInstance [new_row ''a'' 0 3] ''b'' 0 50 quiet_new = (t', Inl err) \<and> new_row ''b'' 0 2 \<in> set t'"
proof -
  let ?t = "[new_row ''a'' 0 3]"
  have "table_ok ?t" "''b'' \<notin> set (map Id ?t)" by (simp_all add: table_ok_def new_row_def)
  moreover have "pruneInstances ?t 0 = ?t"
    by (simp add: pruneInstances_def new_row_def unix_def second_def InstanceExpiredInterval_def
        InstanceHeartbeatInterval_def)
  moreover have "scan_index ?t = 2"
    by (simp add: scan_index_def select_index_def where_index_def case_index_def lower_null_def
        higher_null_def new_row_def)
  ultimately show ?thesis
    using NewInstance_seed_failure_leaves_row [of ?t "''b''" 0 50] by (simp add: new_row_def)
qed

end
