(* ===== verification/Go_Float.thy ===== *)
theory Go_Float
  imports Prelude
begin

text \<open>
  Go's \<^verbatim>\<open>float64\<close>: every operation of the code is the exact operation on the reals followed by
  the rounding \<open>f64\<close> of IEEE 754 binary64 (round to nearest, ties to even, 53 significant bits,
  gradual underflow). Values are reals; overflow to infinity, NaN and the sign of zero are not
  represented (no magnitude in this program approaches them, and the code guards its divisions).

  The lemmas say where rounding is the identity (integers and half-integers of ordinary size),
  that it never crosses an integer, and how large its error is.
\<close>

definition f64_exp :: "real \<Rightarrow> int" where
  "f64_exp x = max (\<lfloor>log 2 \<bar>x\<bar>\<rfloor> - 52) (- 1074)"

definition round_half_even :: "real \<Rightarrow> int" where
  "round_half_even y =
     (let d = \<lfloor>y\<rfloor>; t = y - of_int d
      in if t < 1 / 2 then d else if 1 / 2 < t then d + 1 else if even d then d else d + 1)"

definition f64 :: "real \<Rightarrow> real" where
  "f64 x = (if x = 0 then 0 else of_int (round_half_even (x / 2 powi f64_exp x)) * 2 powi f64_exp x)"

section \<open>Rounding to an integer\<close>

lemma round_half_even_of_int [simp]: "round_half_even (of_int m) = m"
  by (simp add: round_half_even_def)

lemma round_half_even_err: "\<bar>of_int (round_half_even y) - y\<bar> \<le> 1 / 2"
proof -
  define d where "d = \<lfloor>y\<rfloor>"
  have "real_of_int d \<le> y" "y < real_of_int d + 1" unfolding d_def by linarith+
  then show ?thesis unfolding round_half_even_def Let_def d_def [symmetric]
    by (simp add: abs_le_iff)
qed

lemma round_half_even_ge: "of_int c \<le> y \<Longrightarrow> c \<le> round_half_even y"
proof -
  assume "of_int c \<le> y"
  then have "c \<le> \<lfloor>y\<rfloor>" by (simp add: le_floor_iff)
  then show ?thesis by (simp add: round_half_even_def Let_def)
qed

lemma round_half_even_le: "y \<le> of_int c \<Longrightarrow> round_half_even y \<le> c"
proof -
  assume y: "y \<le> of_int c"
  show ?thesis
  proof (cases "\<lfloor>y\<rfloor> = c")
    case True
    then have "y = of_int c" using y by linarith
    then show ?thesis by simp
  next
    case False
    have "\<lfloor>y\<rfloor> \<le> c" using y by (simp add: floor_le_iff)
    with False show ?thesis by (auto simp: round_half_even_def Let_def)
  qed
qed

section \<open>Where \<open>f64\<close> is exact\<close>

lemma log2_less_iff: "x \<noteq> 0 \<Longrightarrow> \<bar>x\<bar> < 2 powi k \<Longrightarrow> \<lfloor>log 2 \<bar>x\<bar>\<rfloor> < k"
proof -
  assume x: "x \<noteq> 0" "\<bar>x\<bar> < 2 powi k"
  have "log 2 \<bar>x\<bar> < of_int k"
    using x by (subst log_less_iff) (simp_all add: powr_real_of_int' )
  then show ?thesis by (simp add: floor_less_iff)
qed

lemma powi_split: "k \<le> l \<Longrightarrow> (2::real) powi l = 2 ^ nat (l - k) * 2 powi k"
  by (metis add.commute add_diff_cancel_left' diff_add_cancel diff_ge_0_iff_ge nat_0_le power_int_add
      power_int_of_nat zero_neq_numeral)

lemma f64_exact:
  assumes "\<bar>m\<bar> < 2 ^ 53" "- 1074 \<le> k"
  shows "f64 (of_int m * 2 powi k) = of_int m * 2 powi k"
proof (cases "m = 0")
  case True
  then show ?thesis by (simp add: f64_def)
next
  case False
  let ?x = "of_int m * 2 powi k :: real"
  let ?e = "f64_exp ?x"
  have x0: "?x \<noteq> 0" using False by simp
  have "\<bar>of_int m :: real\<bar> < 2 ^ 53" using assms(1) by (metis of_int_abs of_int_less_iff of_int_numeral of_int_power)
  then have "\<bar>?x\<bar> < 2 powi (53 + k)" by (simp add: abs_mult power_int_add)
  from log2_less_iff [OF x0 this] have e: "?e \<le> k" using assms(2) by (auto simp: f64_exp_def)
  have "?x / 2 powi ?e = of_int (m * 2 ^ nat (k - ?e))"
  proof -
    have "?x = of_int (m * 2 ^ nat (k - ?e)) * 2 powi ?e"
      by (subst powi_split [OF e]) simp
    then show ?thesis by (metis nonzero_mult_div_cancel_right power_int_not_zero zero_neq_numeral)
  qed
  then have r: "round_half_even (?x / 2 powi ?e) = m * 2 ^ nat (k - ?e)" by (simp only: round_half_even_of_int)
  have "f64 ?x = of_int (round_half_even (?x / 2 powi ?e)) * 2 powi ?e"
    using x0 by (simp only: f64_def if_False)
  also have "\<dots> = of_int m * (2 ^ nat (k - ?e) * 2 powi ?e)" by (simp only: r) simp
  also have "\<dots> = ?x" by (rule arg_cong [OF powi_split [OF e, symmetric]])
  finally show ?thesis .
qed

lemma f64_int: "\<bar>m\<bar> < 2 ^ 53 \<Longrightarrow> f64 (of_int m) = of_int m"
  using f64_exact [of m 0] by simp

lemma f64_half: "\<bar>m\<bar> < 2 ^ 53 \<Longrightarrow> f64 (of_int m / 2) = of_int m / 2"
  using f64_exact [of m "- 1"] by (simp add: power_int_minus field_simps)

lemma f64_0 [simp]: "f64 0 = 0"
  by (simp add: f64_def)

lemma f64_nat: "n < 2 ^ 53 \<Longrightarrow> f64 (real n) = real n"
  using f64_int [of "int n"] by (simp add: of_nat_less_iff flip: of_nat_less_iff)

lemma f64_numeral: "(numeral w :: int) < 2 ^ 53 \<Longrightarrow> f64 (numeral w) = numeral w"
  using f64_int [of "numeral w"] by simp

lemma f64_1 [simp]: "f64 1 = 1"
  using f64_int [of 1] by simp

section \<open>\<open>f64\<close> does not cross an integer\<close>

lemma f64_exp_le0: "\<bar>x\<bar> < 2 ^ 53 \<Longrightarrow> x \<noteq> 0 \<Longrightarrow> f64_exp x \<le> 0"
proof -
  assume "\<bar>x\<bar> < 2 ^ 53" "x \<noteq> 0"
  then have "\<lfloor>log 2 \<bar>x\<bar>\<rfloor> < 53" using log2_less_iff [of x 53] by (simp add: power_int_def)
  then show ?thesis by (simp add: f64_exp_def)
qed

lemma int_scaled: "k \<le> 0 \<Longrightarrow> of_int c / (2::real) powi k = of_int (c * 2 ^ nat (- k))"
  using powi_split [of k 0] by (simp add: field_simps)

lemma f64_ge_int:
  assumes "of_int c \<le> x" "\<bar>x\<bar> < 2 ^ 53"
  shows "of_int c \<le> f64 x"
proof (cases "x = 0")
  case False
  let ?e = "f64_exp x"
  have p: "(0::real) < 2 powi ?e" by simp
  have "of_int (c * 2 ^ nat (- ?e)) \<le> x / 2 powi ?e"
    using assms(1) int_scaled [OF f64_exp_le0 [OF assms(2) False], of c] p
    by (metis divide_right_mono less_imp_le)
  then have "c * 2 ^ nat (- ?e) \<le> round_half_even (x / 2 powi ?e)" by (rule round_half_even_ge)
  then have "of_int c / (2::real) powi ?e \<le> of_int (round_half_even (x / 2 powi ?e))"
    using int_scaled [OF f64_exp_le0 [OF assms(2) False], of c] by (metis of_int_le_iff)
  then show ?thesis using False p by (simp add: f64_def pos_divide_le_eq)
qed (use assms in simp)

lemma f64_le_int:
  assumes "x \<le> of_int c" "\<bar>x\<bar> < 2 ^ 53"
  shows "f64 x \<le> of_int c"
proof (cases "x = 0")
  case False
  let ?e = "f64_exp x"
  have p: "(0::real) < 2 powi ?e" by simp
  have "x / 2 powi ?e \<le> of_int (c * 2 ^ nat (- ?e))"
    using assms(1) int_scaled [OF f64_exp_le0 [OF assms(2) False], of c] p
    by (metis divide_right_mono less_imp_le)
  then have "round_half_even (x / 2 powi ?e) \<le> c * 2 ^ nat (- ?e)" by (rule round_half_even_le)
  then have "of_int (round_half_even (x / 2 powi ?e)) \<le> of_int c / (2::real) powi ?e"
    using int_scaled [OF f64_exp_le0 [OF assms(2) False], of c] by (metis of_int_le_iff)
  then show ?thesis using False p by (simp add: f64_def pos_le_divide_eq)
qed (use assms in simp)

lemma f64_floor_mono: "\<bar>x\<bar> < 2 ^ 53 \<Longrightarrow> \<lfloor>x\<rfloor> \<le> \<lfloor>f64 x\<rfloor>"
  using f64_ge_int [of "\<lfloor>x\<rfloor>" x] by (simp add: le_floor_iff)

section \<open>The size of the error\<close>

lemma f64_exp_powi_le:
  assumes "1 \<le> x"
  shows "2 powi (f64_exp x) \<le> x / 2 ^ 52"
proof -
  have l: "0 \<le> log 2 x" using assms by simp
  then have "0 \<le> \<lfloor>log 2 x\<rfloor>" by (simp only: zero_le_floor)
  then have e: "f64_exp x = \<lfloor>log 2 x\<rfloor> - 52" using assms by (simp add: f64_exp_def)
  have "(2::real) powi \<lfloor>log 2 x\<rfloor> \<le> x"
  proof -
    have "(2::real) powr of_int \<lfloor>log 2 x\<rfloor> \<le> 2 powr log 2 x" by (intro powr_mono) auto
    then show ?thesis using assms by (simp add: powr_real_of_int')
  qed
  then show ?thesis unfolding e by (simp add: power_int_diff divide_right_mono)
qed

lemma f64_err:
  assumes "1 \<le> x"
  shows "\<bar>f64 x - x\<bar> \<le> x / 2 ^ 53"
proof -
  let ?p = "2 powi f64_exp x :: real"
  have p: "0 < ?p" by simp
  have "f64 x - x = (of_int (round_half_even (x / ?p)) - x / ?p) * ?p"
    using assms p by (simp add: f64_def left_diff_distrib)
  then have "\<bar>f64 x - x\<bar> = \<bar>of_int (round_half_even (x / ?p)) - x / ?p\<bar> * ?p"
    using p by (simp add: abs_mult)
  also have "\<dots> \<le> 1 / 2 * ?p"
    using round_half_even_err [of "x / ?p"] p by (intro mult_right_mono) auto
  also have "\<dots> \<le> x / 2 ^ 53" using f64_exp_powi_le [OF assms] by simp
  finally show ?thesis .
qed

lemma f64_upper:
  assumes "1 \<le> x" "x \<le> b"
  shows "f64 x \<le> x + b / 2 ^ 53"
proof -
  have "f64 x - x \<le> x / 2 ^ 53" using f64_err [OF assms(1)] by (rule abs_le_D1)
  also have "\<dots> \<le> b / 2 ^ 53" using assms(2) by (rule divide_right_mono) simp
  finally show ?thesis by linarith
qed

end
