(* ===== verification/Stats_Lib.thy ===== *)
theory Stats_Lib
  imports Go_Float
begin

text \<open>
  The statistics functions that the timing reports use, from the vendored package
  \<^verbatim>\<open>vendor/github.com/montanaflynn/stats\<close>, on slices of floats. A function that returns
  \<open>(NaN, error)\<close> is \<open>Inl\<close> here; \<open>Percentile\<close> indexes its slice and can panic in principle, so it
  returns an option around that.
\<close>

definition EmptyInputErr :: string where "EmptyInputErr = ''Input must not be empty.''"
definition BoundsErr :: string where "BoundsErr = ''Input is outside of range.''"

definition stats_Max :: "real list \<Rightarrow> real result" where
  "stats_Max input = (case input of [] \<Rightarrow> Inl EmptyInputErr
     | x # xs \<Rightarrow> Inr (foldl (\<lambda>m y. if y > m then y else m) x xs))"

definition stats_Min :: "real list \<Rightarrow> real result" where
  "stats_Min input = (case input of [] \<Rightarrow> Inl EmptyInputErr
     | x # xs \<Rightarrow> Inr (foldl (\<lambda>m y. if y < m then y else m) x xs))"

definition stats_Sum :: "real list \<Rightarrow> real" where
  "stats_Sum input = foldl (\<lambda>acc n. f64 (acc + n)) 0 input"

definition stats_Mean :: "real list \<Rightarrow> real result" where
  "stats_Mean input =
     (if input = [] then Inl EmptyInputErr
      else Inr (f64 (stats_Sum input / f64 (real (length input)))))"

definition slice :: "'a list \<Rightarrow> nat \<Rightarrow> nat \<Rightarrow> 'a list" where
  "slice xs lo hi = take (hi - lo) (drop lo xs)"

definition stats_Median :: "real list \<Rightarrow> real result" where
  "stats_Median input =
     (let c = sort input; l = length c in
      if l = 0 then Inl EmptyInputErr
      else if l mod 2 = 0 then stats_Mean (slice c (l div 2 - 1) (l div 2 + 1))
      else Inr (c ! (l div 2)))"

definition stats_Percentile :: "real list \<Rightarrow> real \<Rightarrow> real result option" where
  "stats_Percentile input percent =
     (if input = [] then Some (Inl EmptyInputErr)
      else if percent \<le> 0 \<or> percent > 100 then Some (Inl BoundsErr)
      else
       (let c = sort input;
            index = f64 (f64 (percent / 100) * f64 (real (length c)));
            i = \<lfloor>index\<rfloor>
        in if index = of_int i then
             (case go_nth c (i - 1) of None \<Rightarrow> None | Some x \<Rightarrow> Some (Inr x))
           else if index > 1 then
             (case (go_nth c (i - 1), go_nth c i) of
                (Some x, Some y) \<Rightarrow> Some (stats_Mean [x, y])
              | _ \<Rightarrow> None)
           else Some (Inl BoundsErr)))"

definition stats_Quartile :: "real list \<Rightarrow> (real result \<times> real result \<times> real result) result" where
  "stats_Quartile input =
     (let il = length input in
      if il = 0 then Inl EmptyInputErr
      else (let c = sort input;
                c1 = (if il mod 2 = 0 then il div 2 else (il - 1) div 2);
                c2 = (if il mod 2 = 0 then il div 2 else c1 + 1)
            in Inr (stats_Median (take c1 c), stats_Median c, stats_Median (drop c2 c))))"

text \<open>A NaN quartile (the half of a one-element slice is empty) makes the range NaN.\<close>

definition stats_InterQuartileRange :: "real list \<Rightarrow> real result" where
  "stats_InterQuartileRange input =
     (case stats_Quartile input of
        Inl e \<Rightarrow> Inl e
      | Inr (Inr q1, _, Inr q3) \<Rightarrow> Inr (f64 (q3 - q1))
      | Inr _ \<Rightarrow> Inl ''NaN'')"

section \<open>Whole and half milliseconds\<close>

text \<open>The samples are whole milliseconds. Everything the reports compute from them, short of the
  mean, is a whole or half number below \<open>B\<close>, on which the arithmetic is exact.\<close>

definition halves :: "int \<Rightarrow> real set" where
  "halves B = {of_int m / 2 | m. \<bar>m\<bar> \<le> 2 * B}"

definition samples :: "int \<Rightarrow> real list \<Rightarrow> bool" where
  "samples B xs \<longleftrightarrow> (\<forall>x \<in> set xs. \<exists>m. x = of_int m \<and> 0 \<le> m \<and> m \<le> B)"

lemma halvesI: "x = of_int m / 2 \<Longrightarrow> \<bar>m\<bar> \<le> 2 * B \<Longrightarrow> x \<in> halves B"
  by (auto simp: halves_def)

lemma halves_abs: "x \<in> halves B \<Longrightarrow> \<bar>x\<bar> \<le> of_int B"
proof -
  assume "x \<in> halves B"
  then obtain m where m: "x = of_int m / 2" "\<bar>m\<bar> \<le> 2 * B" by (auto simp: halves_def)
  have "of_int \<bar>m\<bar> \<le> (of_int (2 * B) :: real)" using m(2) by (simp only: of_int_le_iff)
  then show ?thesis using m(1) by simp
qed

lemma halves_mono: "x \<in> halves B \<Longrightarrow> B \<le> C \<Longrightarrow> x \<in> halves C"
  by (force simp: halves_def)

lemma halves_f64: "x \<in> halves B \<Longrightarrow> B < 2 ^ 51 \<Longrightarrow> f64 x = x"
proof -
  assume "x \<in> halves B" and B: "B < 2 ^ 51"
  then obtain m where m: "x = of_int m / 2" "\<bar>m\<bar> \<le> 2 * B" unfolding halves_def by blast
  then have "\<bar>m\<bar> < 2 ^ 53" using B by simp
  then show ?thesis unfolding m(1) by (rule f64_half)
qed

lemma halves_add: "x \<in> halves B \<Longrightarrow> y \<in> halves C \<Longrightarrow> x + y \<in> halves (B + C)"
proof -
  assume "x \<in> halves B" "y \<in> halves C"
  then obtain m n where "x = of_int m / 2" "\<bar>m\<bar> \<le> 2 * B" "y = of_int n / 2" "\<bar>n\<bar> \<le> 2 * C"
    by (auto simp: halves_def)
  then show ?thesis by (intro halvesI [of _ "m + n"]) (auto simp: add_divide_distrib)
qed

lemma halves_uminus: "x \<in> halves B \<Longrightarrow> - x \<in> halves B"
  unfolding halves_def by clarsimp (metis abs_minus_cancel minus_divide_left of_int_minus)

lemma halves_diff: "x \<in> halves B \<Longrightarrow> y \<in> halves C \<Longrightarrow> x - y \<in> halves (B + C)"
  using halves_add [OF _ halves_uminus] by simp

lemma halves_int: "\<bar>m\<bar> \<le> B \<Longrightarrow> of_int m \<in> halves B"
  by (rule halvesI [of _ "2 * m"]) auto

lemma halves_0: "0 \<le> B \<Longrightarrow> 0 \<in> halves B"
  using halves_int [of 0 B] by simp

lemma samples_halves: "samples B xs \<Longrightarrow> x \<in> set xs \<Longrightarrow> x \<in> halves B"
  using halves_int by (force simp: samples_def)

lemma samples_subset: "samples B xs \<Longrightarrow> set ys \<subseteq> set xs \<Longrightarrow> samples B ys"
  by (auto simp: samples_def)

lemma samples_append [simp]: "samples B (xs @ ys) \<longleftrightarrow> samples B xs \<and> samples B ys"
  by (auto simp: samples_def)

lemma mean_pair:
  assumes "samples B [x, y]" "B < 2 ^ 50"
  shows "stats_Mean [x, y] = Inr ((x + y) / 2) \<and> (x + y) / 2 \<in> halves B"
proof -
  obtain m n where m: "x = of_int m" "0 \<le> m" "m \<le> B" and n: "y = of_int n" "0 \<le> n" "n \<le> B"
    using assms(1) by (auto simp: samples_def)
  have x: "f64 x = x" using m assms(2) by (auto intro!: f64_int)
  have xy: "f64 (x + y) = x + y" using m n assms(2) f64_int [of "m + n"] by simp
  have h: "(x + y) / 2 \<in> halves B" using m n by (intro halvesI [of _ "m + n"]) auto
  have "f64 ((x + y) / 2) = (x + y) / 2" using halves_f64 [OF h] assms(2) by simp
  moreover have "f64 2 = 2" by (rule f64_numeral) simp
  ultimately show ?thesis using h by (simp add: stats_Mean_def stats_Sum_def x xy)
qed

section \<open>Minimum and maximum\<close>

lemma fold_max_ge: "m \<le> foldl (\<lambda>m y. if y > m then y else m) m xs \<and>
    (\<forall>x \<in> set xs. x \<le> foldl (\<lambda>m y. if y > m then y else m) m xs)" for m :: real
proof (induction xs arbitrary: m)
  case (Cons x xs)
  show ?case using Cons [of "if x > m then x else m"] by (auto split: if_splits)
qed simp

lemma fold_max_mem: "foldl (\<lambda>m y. if y > m then y else m) m xs \<in> insert m (set xs)" for m :: real
proof (induction xs arbitrary: m)
  case (Cons x xs)
  show ?case using Cons [of "if x > m then x else m"] by (auto split: if_splits)
qed simp

lemma fold_min_le: "foldl (\<lambda>m y. if y < m then y else m) m xs \<le> m \<and>
    (\<forall>x \<in> set xs. foldl (\<lambda>m y. if y < m then y else m) m xs \<le> x)" for m :: real
proof (induction xs arbitrary: m)
  case (Cons x xs)
  show ?case using Cons [of "if x < m then x else m"] by (auto split: if_splits)
qed simp

lemma fold_min_mem: "foldl (\<lambda>m y. if y < m then y else m) m xs \<in> insert m (set xs)" for m :: real
proof (induction xs arbitrary: m)
  case (Cons x xs)
  show ?case using Cons [of "if x < m then x else m"] by (auto split: if_splits)
qed simp

lemma stats_Max_ok: "xs \<noteq> [] \<Longrightarrow> \<exists>m. stats_Max xs = Inr m \<and> m \<in> set xs \<and> (\<forall>x \<in> set xs. x \<le> m)"
proof (cases xs)
  case (Cons x ys)
  then show ?thesis using fold_max_ge [of x ys] fold_max_mem [of x ys] by (simp add: stats_Max_def)
qed simp

lemma stats_Min_ok: "xs \<noteq> [] \<Longrightarrow> \<exists>m. stats_Min xs = Inr m \<and> m \<in> set xs \<and> (\<forall>x \<in> set xs. m \<le> x)"
proof (cases xs)
  case (Cons x ys)
  then show ?thesis using fold_min_le [of x ys] fold_min_mem [of x ys] by (simp add: stats_Min_def)
qed simp

lemma stats_Mean_ok: "xs \<noteq> [] \<Longrightarrow> \<exists>m. stats_Mean xs = Inr m"
  by (simp add: stats_Mean_def)

section \<open>Median, percentile, quartiles\<close>

lemma sort_Nil_iff [simp]: "sort xs = [] \<longleftrightarrow> xs = []"
  by (metis length_0_conv length_sort)

text \<open>The middle of a sorted slice lies between its ends; \<open>lo\<close> and \<open>hi\<close> bound all samples.\<close>

lemma mean_pair_between:
  assumes "samples B [x, y]" "B < 2 ^ 50" "lo \<le> x" "lo \<le> y" "x \<le> hi" "y \<le> hi"
  shows "\<exists>m \<in> halves B. stats_Mean [x, y] = Inr m \<and> lo \<le> m \<and> m \<le> hi"
  using mean_pair [OF assms(1,2)] assms(3-6) by (intro bexI [of _ "(x + y) / 2"]) auto

lemma slice_middle: "0 < l \<Longrightarrow> l + 1 \<le> length c \<Longrightarrow> slice c (l - 1) (l + 1) = [c ! (l - 1), c ! l]"
proof -
  assume l: "0 < l" "l + 1 \<le> length c"
  obtain k where k: "l = Suc k" using l(1) by (cases l) auto
  have "drop k c = c ! k # c ! Suc k # drop (Suc (Suc k)) c"
    using l k Cons_nth_drop_Suc [of k c] Cons_nth_drop_Suc [of "Suc k" c] by simp
  then show ?thesis by (simp add: slice_def k numeral_2_eq_2)
qed

lemma median_between:
  assumes "samples B xs" "B < 2 ^ 50" "xs \<noteq> []" "\<forall>x \<in> set xs. lo \<le> x \<and> x \<le> hi"
  shows "\<exists>m \<in> halves B. stats_Median xs = Inr m \<and> lo \<le> m \<and> m \<le> hi"
proof -
  let ?c = "sort xs" and ?l = "length xs"
  have mem: "?c ! i \<in> set xs" if "i < ?l" for i using that nth_mem [of i ?c] by simp
  have l0: "0 < ?l" using assms(3) by simp
  show ?thesis
  proof (cases "?l mod 2 = 0")
    case True
    have l: "0 < ?l div 2" "?l div 2 < ?l" using True l0 by presburger+
    have m: "?c ! (?l div 2 - 1) \<in> set xs" "?c ! (?l div 2) \<in> set xs" using l mem by auto
    have "samples B [?c ! (?l div 2 - 1), ?c ! (?l div 2)]" using m by (intro samples_subset [OF assms(1)]) auto
    moreover have "stats_Median xs = stats_Mean [?c ! (?l div 2 - 1), ?c ! (?l div 2)]"
      using True l l0 slice_middle [of "?l div 2" ?c] by (simp add: stats_Median_def Let_def)
    ultimately show ?thesis using mean_pair_between [OF _ assms(2)] m assms(4) by simp
  next
    case False
    have m: "?c ! (?l div 2) \<in> set xs" using l0 by (intro mem) auto
    have "stats_Median xs = Inr (?c ! (?l div 2))" using False l0 by (simp add: stats_Median_def Let_def)
    then show ?thesis using m assms(4) samples_halves [OF assms(1) m] by auto
  qed
qed

text \<open>The rank computed for the percentile is inside the slice when there are at least three samples
  and the percentage is one of those the reports use.\<close>

lemma f64_fraction:
  assumes "p = 90 \<or> p = 95"
  shows "4 / 5 \<le> f64 (p / 100)" "f64 (p / 100) \<le> 1"
proof -
  have l: "\<lfloor>log 2 \<bar>p / 100\<bar>\<rfloor> = - 1" if "p = 90 \<or> p = (95 :: real)" for p
  proof (rule floor_eq)
    have "log 2 (1 / 2) \<le> log 2 (p / 100)" using that by (subst log_le_cancel_iff) auto
    moreover have "log 2 (1 / 2) = - 1" by (simp add: log_divide)
    moreover have "log 2 (p / 100) < log 2 1" using that by (subst log_less_cancel_iff) auto
    moreover have "log 2 (1 / 2) < log 2 (p / 100)" using that by (subst log_less_cancel_iff) auto
    ultimately show "of_int (- 1) < log 2 \<bar>p / 100\<bar>" "log 2 \<bar>p / 100\<bar> < of_int (- 1) + 1"
      using that by auto
  qed
  have e: "f64_exp (p / 100) = - 53" using l assms by (auto simp: f64_exp_def)
  have p2: "(2::real) powi (- 53) = 1 / 2 ^ 53" by (simp add: power_int_minus field_simps)
  let ?r = "round_half_even (p / 100 * 2 ^ 53)"
  have f: "f64 (p / 100) = of_int ?r / 2 ^ 53"
    using assms by (auto simp: f64_def e [simplified] p2)
  have "of_int ?r \<le> p / 100 * 2 ^ 53 + 1 / 2" "p / 100 * 2 ^ 53 - 1 / 2 \<le> of_int ?r"
    using round_half_even_err [of "p / 100 * 2 ^ 53"] unfolding abs_le_iff by linarith+
  then show "4 / 5 \<le> f64 (p / 100)" "f64 (p / 100) \<le> 1" unfolding f using assms by auto
qed

lemma percentile_rank:
  assumes "p = 90 \<or> p = 95" "3 \<le> n" "n < 2 ^ 50"
  defines "index \<equiv> f64 (f64 (p / 100) * f64 (real n))"
  shows "2 \<le> index" "index \<le> real n"
proof -
  have n: "f64 (real n) = real n" using assms(3) by (intro f64_nat) simp
  note fr = f64_fraction [OF assms(1)]
  have lo: "2 \<le> f64 (p / 100) * real n"
  proof -
    have "4 / 5 * 3 \<le> f64 (p / 100) * real n" using fr(1) assms(2) by (intro mult_mono) auto
    then show ?thesis by simp
  qed
  have hi: "f64 (p / 100) * real n \<le> real n" using fr(2) by (intro mult_left_le_one_le) (use fr in auto)
  have bnd: "\<bar>f64 (p / 100) * real n\<bar> < 2 ^ 53"
  proof -
    have "real n < 2 ^ 50" using assms(3) by (metis of_nat_less_iff of_nat_numeral of_nat_power)
    with lo hi show ?thesis by simp
  qed
  show "2 \<le> index" using f64_ge_int [of 2, OF _ bnd] lo by (simp add: index_def n)
  show "index \<le> real n" using f64_le_int [of _ "int n", OF _ bnd] hi by (simp add: index_def n)
qed

lemma percentile_between:
  assumes "samples B xs" "B < 2 ^ 50" "p = 90 \<or> p = 95" "3 \<le> length xs" "length xs < 2 ^ 50"
    and "\<forall>x \<in> set xs. lo \<le> x \<and> x \<le> hi"
  shows "\<exists>m \<in> halves B. stats_Percentile xs p = Some (Inr m) \<and> lo \<le> m \<and> m \<le> hi"
proof -
  let ?c = "sort xs" and ?n = "length xs"
  define index where "index = f64 (f64 (p / 100) * f64 (real ?n))"
  note rank = percentile_rank [OF assms(3,4,5), folded index_def]
  let ?i = "\<lfloor>index\<rfloor>"
  have i: "2 \<le> ?i" "?i \<le> int ?n" using rank by (simp_all add: le_floor_iff floor_le_iff)
  have mem: "?c ! k \<in> set xs" if "k < ?n" for k using that nth_mem [of k ?c] by simp
  have "nat (?i - 1) < ?n" using i by linarith
  then have x: "?c ! nat (?i - 1) \<in> set xs" by (rule mem)
  have gx: "go_nth ?c (?i - 1) = Some (?c ! nat (?i - 1))" using i by (simp add: go_nth_def)
  have unf: "stats_Percentile xs p = (if index = of_int ?i then Some (Inr (?c ! nat (?i - 1)))
      else (case go_nth ?c ?i of Some y \<Rightarrow> Some (stats_Mean [?c ! nat (?i - 1), y]) | None \<Rightarrow> None))"
    using assms(3,4) rank(1) gx by (auto simp: stats_Percentile_def Let_def index_def split: option.splits)
  show ?thesis
  proof (cases "index = of_int ?i")
    case True
    then show ?thesis using unf x assms(6) samples_halves [OF assms(1) x] by auto
  next
    case False
    then have "?i < int ?n" using i rank(2)
      by (metis floor_of_nat floor_less_iff of_int_floor_le of_int_of_nat_eq order_le_less)
    then have gy: "go_nth ?c ?i = Some (?c ! nat ?i)" and y: "?c ! nat ?i \<in> set xs"
      using i mem [of "nat ?i"] by (auto simp: go_nth_def nat_less_iff)
    have "samples B [?c ! nat (?i - 1), ?c ! nat ?i]" using x y by (intro samples_subset [OF assms(1)]) auto
    then show ?thesis using mean_pair_between [OF _ assms(2)] x y assms(6) False unf gy by simp
  qed
qed

lemma iqr_ok:
  assumes "samples B xs" "B < 2 ^ 50" "3 \<le> length xs"
  shows "\<exists>m \<in> halves B. stats_InterQuartileRange xs = Inr m \<and> 0 \<le> m"
proof -
  let ?c = "sort xs" and ?n = "length xs"
  define c1 where "c1 = (if ?n mod 2 = 0 then ?n div 2 else (?n - 1) div 2)"
  define c2 where "c2 = (if ?n mod 2 = 0 then ?n div 2 else c1 + 1)"
  have c12: "0 < c1" "c1 \<le> c2" "c2 < ?n" using assms(3) unfolding c1_def c2_def by presburger+
  define piv where "piv = ?c ! c2"
  have lo: "\<forall>x \<in> set (take c1 ?c). 0 \<le> x \<and> x \<le> piv"
  proof
    fix x assume x: "x \<in> set (take c1 ?c)"
    then obtain k where k: "k < c1" "x = ?c ! k" using c12 by (auto simp: in_set_conv_nth)
    have "?c ! k \<le> ?c ! c2" using k c12 by (intro sorted_nth_mono) auto
    moreover have "x \<in> set xs" using x by (metis in_set_takeD set_sort)
    ultimately show "0 \<le> x \<and> x \<le> piv" using k assms(1) by (auto simp: piv_def samples_def)
  qed
  have hi: "\<forall>x \<in> set (drop c2 ?c). piv \<le> x \<and> x \<le> of_int B"
  proof
    fix x assume x: "x \<in> set (drop c2 ?c)"
    then obtain k where k: "k < ?n - c2" "x = ?c ! (c2 + k)" by (auto simp: in_set_conv_nth)
    have "?c ! c2 \<le> ?c ! (c2 + k)" using k c12 by (intro sorted_nth_mono) auto
    moreover have "x \<in> set xs" using x by (metis in_set_dropD set_sort)
    ultimately show "piv \<le> x \<and> x \<le> of_int B" using k assms(1) by (auto simp: piv_def samples_def)
  qed
  have s: "samples B (take c1 ?c)" "samples B (drop c2 ?c)" "take c1 ?c \<noteq> []" "drop c2 ?c \<noteq> []"
    using c12 assms(3) by (auto intro!: samples_subset [OF assms(1)] dest: in_set_takeD in_set_dropD)
  obtain q1 where q1: "q1 \<in> halves B" "stats_Median (take c1 ?c) = Inr q1" "0 \<le> q1" "q1 \<le> piv"
    using median_between [OF s(1) assms(2) s(3) lo] by blast
  obtain q3 where q3: "q3 \<in> halves B" "stats_Median (drop c2 ?c) = Inr q3" "piv \<le> q3" "q3 \<le> of_int B"
    using median_between [OF s(2) assms(2) s(4) hi] by blast
  have h: "q3 - q1 \<in> halves B"
  proof -
    obtain m n where m: "q3 = of_int m / 2" "q1 = of_int n / 2" using q1(1) q3(1) by (auto simp: halves_def)
    have b: "of_int n \<le> (of_int m :: real)" "of_int m \<le> (of_int (2 * B) :: real)" "0 \<le> (of_int n :: real)"
      using m q1 q3 by auto
    then have "n \<le> m" "m \<le> 2 * B" "0 \<le> n" by (simp_all only: of_int_le_iff of_int_0_le_iff)
    then show ?thesis using m by (intro halvesI [of _ "m - n"]) (auto simp: diff_divide_distrib)
  qed
  have "stats_Quartile xs = Inr (Inr q1, stats_Median ?c, Inr q3)"
    using assms(3) q1(2) q3(2) by (auto simp: stats_Quartile_def Let_def c1_def c2_def)
  then have "stats_InterQuartileRange xs = Inr (q3 - q1)"
    using halves_f64 [OF h] assms(2) by (simp add: stats_InterQuartileRange_def)
  then show ?thesis using h q1 q3 by auto
qed

end
