(* ===== verification/Path_Routes.thy ===== *)
theory Path_Routes
  imports Prelude
begin

text \<open>
  \<^verbatim>\<open>processCommonPaths\<close> of \<^verbatim>\<open>loadtest/client_timing_stats.go\<close>: the rewriting of request paths into
  route names, so that requests that differ only in ids are measured together.

  A regular expression of the code is a function from the text at the current position to the
  length of the match that begins there, if any; all of them match at least one character.
  \<open>ReplaceAllString\<close> takes the leftmost matches without overlap.
\<close>

type_synonym matcher = "string \<Rightarrow> nat option"

text \<open>The classes \<^verbatim>\<open>[a-z0-9]\<close> and \<^verbatim>\<open>[A-Za-z0-9]\<close>.\<close>

definition is_idchar :: "char \<Rightarrow> bool" where
  "is_idchar c \<longleftrightarrow> (let n = of_char c :: nat in (97 \<le> n \<and> n \<le> 122) \<or> (48 \<le> n \<and> n \<le> 57))"

definition is_alnum :: "char \<Rightarrow> bool" where
  "is_alnum c \<longleftrightarrow> is_idchar c \<or> (let n = of_char c :: nat in 65 \<le> n \<and> n \<le> 90)"

text \<open>A literal, then 26 id characters, then the rest of the expression.\<close>

definition match_id :: "string \<Rightarrow> matcher \<Rightarrow> matcher" where
  "match_id pre rest s =
     (if has_prefix s pre
      then (let t = drop (length pre) s in
            if 26 \<le> length t \<and> list_all is_idchar (take 26 t)
            then map_option (\<lambda>n. length pre + 26 + n) (rest (drop 26 t))
            else None)
      else None)"

definition match_lit :: "string \<Rightarrow> matcher" where
  "match_lit p s = (if has_prefix s p then Some (length p) else None)"

definition match_end :: matcher where
  "match_end s = Some 0"

text \<open>A literal, then one or more characters of a class, as many as there are.\<close>

definition match_run :: "string \<Rightarrow> (char \<Rightarrow> bool) \<Rightarrow> matcher" where
  "match_run pre P s =
     (if has_prefix s pre
      then (let n = length (takeWhile P (drop (length pre) s)) in
            if n = 0 then None else Some (length pre + n))
      else None)"

fun replace_from :: "matcher \<Rightarrow> string \<Rightarrow> nat \<Rightarrow> string \<Rightarrow> string" where
  "replace_from m rep skip [] = []"
| "replace_from m rep (Suc skip) (c # cs) = replace_from m rep skip cs"
| "replace_from m rep 0 (c # cs) =
     (case m (c # cs) of
        Some (Suc k) \<Rightarrow> rep @ replace_from m rep k cs
      | _ \<Rightarrow> c # replace_from m rep 0 cs)"

definition ReplaceAllString :: "matcher \<Rightarrow> string \<Rightarrow> string \<Rightarrow> string" where
  "ReplaceAllString m s rep = replace_from m rep 0 s"

definition teamPathRegex :: matcher where "teamPathRegex = match_id ''/teams/'' (match_lit ''/'')"
definition emojiPathRegex :: matcher where "emojiPathRegex = match_run ''/emoji/name/'' is_alnum"
definition channelPathRegex :: matcher where "channelPathRegex = match_id ''/channels/'' (match_lit ''/'')"
definition channelNamePathRegex :: matcher where
  "channelNamePathRegex = match_run ''/channels/name/'' (\<lambda>c. c \<noteq> CHR ''/'')"
definition postPathRegex :: matcher where "postPathRegex = match_id ''/posts/'' (match_lit ''/'')"
definition filePathRegex :: matcher where "filePathRegex = match_id ''/files/'' (match_lit ''/'')"
definition userPathRegex :: matcher where "userPathRegex = match_id ''/users/'' (match_lit ''/'')"
definition userEmailPathRegex :: matcher where
  "userEmailPathRegex = match_run ''/users/email/'' (\<lambda>c. c \<noteq> CHR ''/'')"
definition teamMembersForUserPathRegex :: matcher where
  "teamMembersForUserPathRegex = match_id ''/teams/'' (match_id ''/members/'' match_end)"

definition API_URL_SUFFIX :: string where "API_URL_SUFFIX = ''/api/v4''"

definition processCommonPaths :: "string \<Rightarrow> string" where
  "processCommonPaths path =
     (let result = trim_prefix path API_URL_SUFFIX;
          result = ReplaceAllString teamMembersForUserPathRegex result ''/teams/[team id]/members/[user id]'';
          result = ReplaceAllString teamPathRegex result ''/teams/[team id]/'';
          result = ReplaceAllString channelPathRegex result ''/channels/[channel id]/'';
          result = ReplaceAllString channelNamePathRegex result ''/channels/name/[channel name]/'';
          result = ReplaceAllString postPathRegex result ''/posts/[post id]/'';
          result = ReplaceAllString filePathRegex result ''/files/[post id]/'';
          result = ReplaceAllString userPathRegex result ''/users/[user id]/'';
          result = ReplaceAllString userEmailPathRegex result ''/users/email/[email]'';
          result = ReplaceAllString emojiPathRegex result ''/emoji/name/[emoji name]''
      in result)"

section \<open>Paths as segments\<close>

text \<open>Every expression starts with a slash, so a match starts at a segment boundary. A path is
  \<open>'/' # seg\<close> for each segment; \<open>matches at a segment\<close> is all there is to decide.\<close>

definition noslash :: "string \<Rightarrow> bool" where
  "noslash s \<longleftrightarrow> CHR ''/'' \<notin> set s"

lemma noslash_simps [simp]:
  "noslash []" "noslash (c # s) \<longleftrightarrow> c \<noteq> CHR ''/'' \<and> noslash s"
  "noslash (s @ t) \<longleftrightarrow> noslash s \<and> noslash t"
  by (auto simp: noslash_def)

definition is_id :: "string \<Rightarrow> bool" where
  "is_id s \<longleftrightarrow> length s = 26 \<and> list_all is_idchar s"

lemma is_id_length: "is_id s \<Longrightarrow> length s = 26"
  by (simp add: is_id_def)

lemma is_id_noslash: "is_id s \<Longrightarrow> noslash s"
  by (auto simp: is_id_def noslash_def list_all_iff is_idchar_def Let_def)

definition slash_start :: "matcher \<Rightarrow> bool" where
  "slash_start m \<longleftrightarrow> (\<forall>c s. c \<noteq> CHR ''/'' \<longrightarrow> m (c # s) = None)"

lemma slash_start_simps [simp]:
  "slash_start (match_id (CHR ''/'' # p) r)" "slash_start (match_run (CHR ''/'' # p) P)"
  by (auto simp: slash_start_def match_id_def match_run_def has_prefix_def)

lemma replace_skip: "length u = n \<Longrightarrow> replace_from m rep n (u @ s) = replace_from m rep 0 s"
  by (induction u arbitrary: n) auto

lemma replace_noslash:
  "slash_start m \<Longrightarrow> noslash u \<Longrightarrow> replace_from m rep 0 (u @ s) = u @ replace_from m rep 0 s"
  by (induction u) (auto simp: slash_start_def)

lemma replace_seg:
  "slash_start m \<Longrightarrow> noslash u \<Longrightarrow> m (CHR ''/'' # u @ s) = None \<Longrightarrow>
   replace_from m rep 0 (CHR ''/'' # u @ s) = CHR ''/'' # u @ replace_from m rep 0 s"
  by (simp add: replace_noslash)

lemma replace_match:
  "m (c # u @ s) = Some (Suc (length u)) \<Longrightarrow> replace_from m rep 0 (c # u @ s) = rep @ replace_from m rep 0 s"
  by (simp add: replace_skip)

lemma replace_Nil [simp]: "replace_from m rep n [] = []"
  by simp

declare replace_from.simps(2,3) [simp del]

definition path_of :: "string list \<Rightarrow> string" where
  "path_of segs = concat (map (\<lambda>u. CHR ''/'' # u) segs)"

lemma path_of_simps [simp]:
  "path_of [] = []" "path_of (u # segs) = CHR ''/'' # u @ path_of segs"
  by (simp_all add: path_of_def)

lemma replace_seg_path:
  "m (CHR ''/'' # u @ path_of segs) = None \<Longrightarrow> slash_start m \<Longrightarrow> noslash u \<Longrightarrow>
   replace_from m rep 0 (path_of (u # segs)) = CHR ''/'' # u @ replace_from m rep 0 (path_of segs)"
  using replace_seg [of m u "path_of segs" rep] by simp

definition segments :: "string list \<Rightarrow> bool" where
  "segments segs \<longleftrightarrow> list_all noslash segs"

lemma segments_simps [simp]:
  "segments []" "segments (u # segs) \<longleftrightarrow> noslash u \<and> segments segs"
  by (simp_all add: segments_def)

text \<open>What each expression does, said on segments. Its last slash, where it has one, is consumed,
  so the segment after it cannot start the next match.\<close>

fun id_segs :: "string \<Rightarrow> string \<Rightarrow> string list \<Rightarrow> string list" where
  "id_segs k p (u # i # x # rest) =
     (if u = k \<and> is_id i then k # p # x # id_segs k p rest else u # id_segs k p (i # x # rest))"
| "id_segs k p segs = segs"

fun run_segs :: "string \<Rightarrow> string \<Rightarrow> (char \<Rightarrow> bool) \<Rightarrow> string list \<Rightarrow> string list \<Rightarrow> string list" where
  "run_segs a b P ps (u # i # w # rest) =
     (if u = a \<and> i = b \<and> takeWhile P w \<noteq> []
      then a # b # butlast ps @ (last ps @ dropWhile P w) # run_segs a b P ps rest
      else u # run_segs a b P ps (i # w # rest))"
| "run_segs a b P ps segs = segs"

fun member_segs :: "string list \<Rightarrow> string list" where
  "member_segs (u # i # m # j # rest) =
     (if u = ''teams'' \<and> is_id i \<and> m = ''members'' \<and> is_id (take 26 j)
      then ''teams'' # ''[team id]'' # ''members'' # (''[user id]'' @ drop 26 j) # member_segs rest
      else u # member_segs (i # m # j # rest))"
| "member_segs segs = segs"

definition route_segs :: "string list \<Rightarrow> string list" where
  "route_segs segs =
     (run_segs ''emoji'' ''name'' is_alnum [''[emoji name]'']
      \<circ> run_segs ''users'' ''email'' (\<lambda>c. c \<noteq> CHR ''/'') [''[email]'']
      \<circ> id_segs ''users'' ''[user id]'' \<circ> id_segs ''files'' ''[post id]'' \<circ> id_segs ''posts'' ''[post id]''
      \<circ> run_segs ''channels'' ''name'' (\<lambda>c. c \<noteq> CHR ''/'') [''[channel name]'', []]
      \<circ> id_segs ''channels'' ''[channel id]'' \<circ> id_segs ''teams'' ''[team id]'' \<circ> member_segs) segs"

lemma noslash_take [simp]: "noslash u \<Longrightarrow> noslash (take n u)"
  by (auto simp: noslash_def dest: in_set_takeD)

lemma noslash_drop [simp]: "noslash u \<Longrightarrow> noslash (drop n u)"
  by (auto simp: noslash_def dest: in_set_dropD)

lemma noslash_dropWhile [simp]: "noslash u \<Longrightarrow> noslash (dropWhile P u)"
  by (auto simp: noslash_def dest: set_dropWhileD)

lemma segments_id: "segments segs \<Longrightarrow> noslash k \<Longrightarrow> noslash p \<Longrightarrow> segments (id_segs k p segs)"
  by (induction k p segs rule: id_segs.induct) auto

lemma segments_append [simp]: "segments (xs @ ys) \<longleftrightarrow> segments xs \<and> segments ys"
  by (simp add: segments_def)

lemma segments_run:
  "segments segs \<Longrightarrow> noslash a \<Longrightarrow> noslash b \<Longrightarrow> segments (butlast ps) \<Longrightarrow> noslash (last ps) \<Longrightarrow>
   segments (run_segs a b P ps segs)"
  by (induction a b P ps segs rule: run_segs.induct) auto

lemma segments_member: "segments segs \<Longrightarrow> segments (member_segs segs)"
  by (induction segs rule: member_segs.induct) auto

section \<open>The expressions do what the segments say\<close>

text \<open>Two segments with a slash between them agree on their first segment.\<close>

lemma seg_prefix:
  "noslash k \<Longrightarrow> noslash u \<Longrightarrow> has_prefix (u @ CHR ''/'' # s) (k @ CHR ''/'' # p) \<longleftrightarrow> u = k \<and> has_prefix s p"
  unfolding has_prefix_iff noslash_def by (auto dest!: first_sep_inj)

lemma seg_prefix_last: "noslash u \<Longrightarrow> \<not> has_prefix u (k @ CHR ''/'' # p)"
  unfolding has_prefix_iff noslash_def by auto

lemma slash_not_id: "\<not> is_idchar (CHR ''/'')"
  by (simp add: is_idchar_def)

text \<open>26 id characters at the start of a segment lie within it.\<close>

lemma id_in_segment:
  assumes "noslash i"
  shows "26 \<le> length (i @ path_of segs) \<and> list_all is_idchar (take 26 (i @ path_of segs)) \<longleftrightarrow> is_id (take 26 i)"
proof (cases "26 \<le> length i")
  case True
  then show ?thesis by (simp add: is_id_def)
next
  case False
  then have "\<not> is_id (take 26 i)" by (simp add: is_id_def)
  moreover have "\<not> (26 \<le> length (i @ path_of segs) \<and> list_all is_idchar (take 26 (i @ path_of segs)))"
  proof
    assume l: "26 \<le> length (i @ path_of segs) \<and> list_all is_idchar (take 26 (i @ path_of segs))"
    then obtain v segs' where s: "segs = v # segs'" using False by (cases segs) auto
    have "CHR ''/'' \<in> set (take 26 (i @ path_of segs))"
      using False s by (cases "26 - length i") auto
    with l show False using slash_not_id by (auto simp: list_all_iff)
  qed
  ultimately show ?thesis by blast
qed

text \<open>An id expression at the start of a segment.\<close>

lemma match_id_segs:
  assumes "noslash k" "noslash u" "segments segs"
  shows "match_id (CHR ''/'' # k @ ''/'') r (CHR ''/'' # u @ path_of segs) =
    (case segs of
       i # rest \<Rightarrow> (if u = k \<and> is_id (take 26 i)
                   then map_option (\<lambda>n. length k + 28 + n) (r (drop 26 i @ path_of rest)) else None)
     | [] \<Rightarrow> None)"
proof (cases segs)
  case Nil
  then show ?thesis using seg_prefix_last [OF assms(2), of k "[]"] by (simp add: match_id_def has_prefix_def)
next
  case (Cons i rest)
  have i: "noslash i" using assms(3) Cons by simp
  have p: "has_prefix (CHR ''/'' # u @ CHR ''/'' # i @ path_of rest) (CHR ''/'' # k @ ''/'') \<longleftrightarrow> u = k"
    using seg_prefix [OF assms(1,2), of "i @ path_of rest" "[]"] by (simp add: has_prefix_def)
  have d: "drop 26 (i @ path_of rest) = drop 26 i @ path_of rest" if "is_id (take 26 i)"
    using that by (auto simp: is_id_def)
  show ?thesis
  proof (cases "u = k")
    case True
    have dk: "drop (length (CHR ''/'' # k @ ''/'')) (CHR ''/'' # u @ path_of segs) = i @ path_of rest"
      using True Cons by simp
    have "match_id (CHR ''/'' # k @ ''/'') r (CHR ''/'' # u @ path_of segs) =
      (if is_id (take 26 i) then map_option (\<lambda>n. length (CHR ''/'' # k @ ''/'') + 26 + n) (r (drop 26 (i @ path_of rest))) else None)"
      unfolding match_id_def dk Let_def using p True Cons id_in_segment [OF i, of rest] by simp
    then show ?thesis using True Cons d by (simp add: numeral_eq_Suc)
  next
    case False
    then show ?thesis using p Cons by (simp add: match_id_def)
  qed
qed

lemma is_id_full: "is_id i \<longleftrightarrow> is_id (take 26 i) \<and> drop 26 i = []"
  by (auto simp: is_id_def)

lemma replace_id_segs:
  assumes "noslash k" "segments segs"
  shows "replace_from (match_id (CHR ''/'' # k @ ''/'') (match_lit ''/'')) (CHR ''/'' # k @ CHR ''/'' # p @ ''/'') 0 (path_of segs) =
    path_of (id_segs k p segs)"
  using assms
proof (induction k p segs rule: id_segs.induct [case_names more none one two])
  case (more k p u i x rest)
  let ?m = "match_id (CHR ''/'' # k @ ''/'') (match_lit ''/'')"
  let ?rep = "CHR ''/'' # k @ CHR ''/'' # p @ ''/''"
  have n: "noslash u" "noslash i" "noslash x" "segments rest" using more by simp_all
  have ss: "slash_start ?m" by simp
  show ?case
  proof (cases "u = k \<and> is_id i")
    case True
    have l: "length i = 26" and t: "take 26 i = i" "drop 26 i = []" using True by (auto simp: is_id_def)
    have "?m (CHR ''/'' # u @ path_of (i # x # rest)) = Some (length k + 29)"
      using more(3,4) True n t by (subst match_id_segs) (auto simp: match_lit_def has_prefix_def)
    then have "?m (CHR ''/'' # (u @ CHR ''/'' # i @ ''/'') @ x @ path_of rest) = Some (Suc (length (u @ CHR ''/'' # i @ ''/'')))"
      using True l by simp
    from replace_match [where m = ?m and u = "u @ CHR ''/'' # i @ ''/''", OF this, of ?rep]
    have "replace_from ?m ?rep 0 (path_of (u # i # x # rest)) = ?rep @ x @ replace_from ?m ?rep 0 (path_of rest)"
      using replace_noslash [OF ss n(3)] by simp
    then show ?thesis using more(1) [OF True more(3)] True n by simp
  next
    case False
    have "?m (CHR ''/'' # u @ path_of (i # x # rest)) = None"
    proof (cases "u = k \<and> is_id (take 26 i)")
      case True
      then have "drop 26 i \<noteq> []" using False is_id_full by blast
      moreover have "noslash (drop 26 i)" using n by simp
      ultimately have "\<not> has_prefix (drop 26 i @ path_of (x # rest)) ''/''"
        by (cases "drop 26 i") (auto simp: has_prefix_def)
      then show ?thesis using more(3) n by (subst match_id_segs) (auto simp: match_lit_def)
    next
      case False
      then show ?thesis using more(3) n by (subst match_id_segs) auto
    qed
    from replace_seg_path [OF this ss n(1)] show ?thesis using False more(2) [OF False more(3)] n by auto
  qed
next
  case (one k p u)
  let ?m = "match_id (CHR ''/'' # k @ ''/'') (match_lit ''/'')"
  have "?m (CHR ''/'' # u @ path_of []) = None" using one by (subst match_id_segs) auto
  from replace_seg_path [where m = ?m and u = u and segs = "[]", OF this] one show ?case by simp
next
  case (two k p u i)
  let ?m = "match_id (CHR ''/'' # k @ ''/'') (match_lit ''/'')"
  have "noslash (drop 26 i)" using two by simp
  then have "match_lit ''/'' (drop 26 i) = None"
    by (cases "drop 26 i") (auto simp: match_lit_def has_prefix_def)
  then have a: "?m (CHR ''/'' # u @ path_of [i]) = None" using two by (subst match_id_segs) auto
  have b: "?m (CHR ''/'' # i @ path_of []) = None" using two by (subst match_id_segs) auto
  show ?case using replace_seg_path [where m = ?m and u = u and segs = "[i]", OF a] replace_seg_path [where m = ?m and u = i and segs = "[]", OF b] two by simp
qed simp

lemma takeWhile_seg: "\<not> P (CHR ''/'') \<Longrightarrow> takeWhile P (w @ path_of rest) = takeWhile P w"
  by (induction w) (cases rest, auto)

lemma match_run_segs:
  assumes "noslash a" "noslash b" "noslash u" "segments segs" "\<not> P (CHR ''/'')"
  shows "match_run (CHR ''/'' # a @ CHR ''/'' # b @ ''/'') P (CHR ''/'' # u @ path_of segs) =
    (case segs of
       i # w # rest \<Rightarrow> (if u = a \<and> i = b \<and> takeWhile P w \<noteq> []
                       then Some (length a + length b + 3 + length (takeWhile P w)) else None)
     | _ \<Rightarrow> None)"
proof -
  have p: "has_prefix (CHR ''/'' # u @ path_of segs) (CHR ''/'' # a @ CHR ''/'' # b @ ''/'') \<longleftrightarrow>
      (\<exists>w rest. segs = b # w # rest \<and> u = a)"
  proof (cases segs)
    case Nil
    then show ?thesis using seg_prefix_last [OF assms(3), of a "b @ ''/''"] by (simp add: has_prefix_def)
  next
    case (Cons i rest)
    have i: "noslash i" using assms(4) Cons by simp
    have "has_prefix (i @ path_of rest) (b @ ''/'') \<longleftrightarrow> i = b \<and> rest \<noteq> []"
    proof (cases rest)
      case Nil
      then show ?thesis using seg_prefix_last [OF i, of b "[]"] by simp
    next
      case (Cons w rest')
      then show ?thesis using seg_prefix [OF assms(2) i, of "w @ path_of rest'" "[]"]
        by (simp add: has_prefix_def)
    qed
    moreover have "has_prefix (CHR ''/'' # u @ path_of segs) (CHR ''/'' # a @ CHR ''/'' # b @ ''/'') \<longleftrightarrow>
        u = a \<and> has_prefix (i @ path_of rest) (b @ ''/'')"
      using seg_prefix [OF assms(1,3), of "i @ path_of rest" "b @ ''/''"] Cons by (simp add: has_prefix_def)
    ultimately show ?thesis using Cons by (auto simp: neq_Nil_conv)
  qed
  show ?thesis
  proof (cases "\<exists>w rest. segs = b # w # rest \<and> u = a")
    case True
    then obtain w rest where "segs = b # w # rest" "u = a" by blast
    then show ?thesis using p takeWhile_seg [of P w rest] assms(5)
      by (simp add: match_run_def Let_def)
  next
    case False
    then show ?thesis using p by (auto simp: match_run_def split: list.splits)
  qed
qed

lemma path_of_append [simp]: "path_of (xs @ ys) = path_of xs @ path_of ys"
  by (simp add: path_of_def)

lemma path_of_last: "ps \<noteq> [] \<Longrightarrow> path_of (butlast ps @ (last ps @ z) # ys) = path_of ps @ z @ path_of ys"
proof -
  assume "ps \<noteq> []"
  then have "path_of ps = path_of (butlast ps @ [last ps])" by simp
  then show ?thesis by (simp only: path_of_append path_of_simps) simp
qed

lemma replace_run_segs:
  assumes "noslash a" "noslash b" "segments segs" "\<not> P (CHR ''/'')" "ps \<noteq> []"
  shows "replace_from (match_run (CHR ''/'' # a @ CHR ''/'' # b @ ''/'') P) (path_of (a # b # ps)) 0 (path_of segs) =
    path_of (run_segs a b P ps segs)"
  using assms
proof (induction a b P ps segs rule: run_segs.induct [case_names more none one two])
  case (more a b P ps u i w rest)
  let ?m = "match_run (CHR ''/'' # a @ CHR ''/'' # b @ ''/'') P"
  let ?rep = "path_of (a # b # ps)"
  have n: "noslash u" "noslash i" "noslash w" "segments rest" using more by simp_all
  have ss: "slash_start ?m" by simp
  show ?case
  proof (cases "u = a \<and> i = b \<and> takeWhile P w \<noteq> []")
    case True
    let ?t = "takeWhile P w" and ?d = "dropWhile P w"
    have m: "?m (CHR ''/'' # u @ path_of (i # w # rest)) = Some (length a + length b + 3 + length ?t)"
      using more(3,4,6) True n by (subst match_run_segs) auto
    have "?t @ ?d @ path_of rest = w @ path_of rest" by (metis append_assoc takeWhile_dropWhile_id)
    then have eq: "CHR ''/'' # (u @ CHR ''/'' # i @ CHR ''/'' # ?t) @ ?d @ path_of rest = CHR ''/'' # u @ path_of (i # w # rest)"
      by simp
    have "?m (CHR ''/'' # (u @ CHR ''/'' # i @ CHR ''/'' # ?t) @ ?d @ path_of rest) =
        Some (Suc (length (u @ CHR ''/'' # i @ CHR ''/'' # ?t)))"
      unfolding eq m using True by simp
    from replace_match [where m = ?m and u = "u @ CHR ''/'' # i @ CHR ''/'' # ?t", OF this, of ?rep]
    have "replace_from ?m ?rep 0 (CHR ''/'' # u @ path_of (i # w # rest)) = ?rep @ ?d @ replace_from ?m ?rep 0 (path_of rest)"
      unfolding eq replace_noslash [OF ss noslash_dropWhile [OF n(3)]] .
    then have "replace_from ?m ?rep 0 (path_of (u # i # w # rest)) = ?rep @ ?d @ replace_from ?m ?rep 0 (path_of rest)"
      by simp
    also have "\<dots> = path_of (a # b # ps) @ ?d @ path_of (run_segs a b P ps rest)"
      using more(1) [OF True more(3,4) n(4) more(6,7)] by simp
    also have "\<dots> = path_of (run_segs a b P ps (u # i # w # rest))"
      using True path_of_last [OF more(7)] by simp
    finally show ?thesis .
  next
    case False
    have "?m (CHR ''/'' # u @ path_of (i # w # rest)) = None"
      using more(3,4,6) False n by (subst match_run_segs) auto
    from replace_seg_path [OF this ss n(1)] show ?thesis using False more(2) [OF False more(3,4)] more(6,7) n by auto
  qed
next
  case (one a b P ps u)
  let ?m = "match_run (CHR ''/'' # a @ CHR ''/'' # b @ ''/'') P"
  have "?m (CHR ''/'' # u @ path_of []) = None" using one by (subst match_run_segs) auto
  from replace_seg_path [where m = ?m and u = u and segs = "[]", OF this] one show ?case by simp
next
  case (two a b P ps u i)
  let ?m = "match_run (CHR ''/'' # a @ CHR ''/'' # b @ ''/'') P"
  have a: "?m (CHR ''/'' # u @ path_of [i]) = None" using two by (subst match_run_segs) auto
  have b: "?m (CHR ''/'' # i @ path_of []) = None" using two by (subst match_run_segs) auto
  show ?case using replace_seg_path [where m = ?m and u = u and segs = "[i]", OF a] replace_seg_path [where m = ?m and u = i and segs = "[]", OF b] two by simp
qed simp

lemma match_member_segs:
  assumes "noslash u" "segments segs"
  shows "teamMembersForUserPathRegex (CHR ''/'' # u @ path_of segs) =
    (case segs of
       i # m # j # rest \<Rightarrow> (if u = ''teams'' \<and> is_id i \<and> m = ''members'' \<and> is_id (take 26 j)
                           then Some 68 else None)
     | _ \<Rightarrow> None)"
proof -
  note seg = match_id_segs [where k = "''members''", simplified] match_id_segs [where k = "''teams''", simplified]
  have inner: "match_id ''/members/'' match_end (drop 26 i @ path_of rest) =
      (if drop 26 i \<noteq> [] then None
       else case rest of m # j # _ \<Rightarrow> (if m = ''members'' \<and> is_id (take 26 j) then Some 35 else None) | _ \<Rightarrow> None)"
    if "noslash i" "segments rest" for i rest
  proof (cases "drop 26 i")
    case (Cons c cs)
    moreover from this that have "c \<noteq> CHR ''/''" using noslash_drop [OF that(1), of 26] by simp
    ultimately show ?thesis by (simp add: match_id_def has_prefix_def)
  next
    case Nil
    show ?thesis
    proof (cases rest)
      case Nil2: Nil
      then show ?thesis using Nil by (simp add: match_id_def has_prefix_def)
    next
      case (Cons m more)
      then show ?thesis using Nil that by (auto simp: seg match_end_def split: list.splits)
    qed
  qed
  have m0: "teamMembersForUserPathRegex (CHR ''/'' # u @ path_of segs) =
      (case segs of [] \<Rightarrow> None
       | i # rest \<Rightarrow> (if u = ''teams'' \<and> is_id (take 26 i)
           then map_option (\<lambda>n. 33 + n) (match_id ''/members/'' match_end (drop 26 i @ path_of rest)) else None))"
    unfolding teamMembersForUserPathRegex_def using assms by (subst seg(2)) (auto split: list.splits)
  show ?thesis unfolding m0
    using assms by (cases segs) (auto simp: inner is_id_full [of "hd segs"] is_id_length split: list.splits)
qed

definition member_rep :: string where
  "member_rep = ''/teams/[team id]/members/[user id]''"

lemma replace_member_segs:
  "segments segs \<Longrightarrow> replace_from teamMembersForUserPathRegex member_rep 0 (path_of segs) = path_of (member_segs segs)"
proof (induction segs rule: member_segs.induct [case_names more none one two three])
  case (more u i m j rest)
  let ?m = teamMembersForUserPathRegex
  have n: "noslash u" "noslash i" "noslash m" "noslash j" "segments rest" using more(3) by simp_all
  have ss: "slash_start ?m" by (simp add: teamMembersForUserPathRegex_def)
  note at = match_member_segs [OF n(1), of "i # m # j # rest"]
  show ?case
  proof (cases "u = ''teams'' \<and> is_id i \<and> m = ''members'' \<and> is_id (take 26 j)")
    case True
    let ?w = "u @ CHR ''/'' # i @ CHR ''/'' # m @ CHR ''/'' # take 26 j"
    have l: "length ?w = 67" using True by (auto dest!: is_id_length)
    have "take 26 j @ drop 26 j @ path_of rest = j @ path_of rest" by simp
    then have eq: "CHR ''/'' # ?w @ drop 26 j @ path_of rest = CHR ''/'' # u @ path_of (i # m # j # rest)"
      by simp
    have "?m (CHR ''/'' # ?w @ drop 26 j @ path_of rest) = Some (Suc (length ?w))"
      unfolding eq l using at True n by simp
    from replace_match [where m = ?m and u = ?w, OF this, of member_rep]
    have "replace_from ?m member_rep 0 (CHR ''/'' # u @ path_of (i # m # j # rest)) =
        member_rep @ drop 26 j @ replace_from ?m member_rep 0 (path_of rest)"
      unfolding eq replace_noslash [OF ss noslash_drop [OF n(4)]] .
    then have "replace_from ?m member_rep 0 (path_of (u # i # m # j # rest)) =
        member_rep @ drop 26 j @ path_of (member_segs rest)"
      using more(1) [OF True n(5)] by simp
    also have "\<dots> = path_of (member_segs (u # i # m # j # rest))"
      using True by (simp add: member_rep_def)
    finally show ?thesis .
  next
    case False
    then have "?m (CHR ''/'' # u @ path_of (i # m # j # rest)) = None" using at n by auto
    from replace_seg_path [where m = ?m and u = u and segs = "i # m # j # rest", OF this ss n(1)]
    show ?thesis using False more(2) [OF False] n by auto
  qed
next
  case (one u)
  have "teamMembersForUserPathRegex (CHR ''/'' # u @ path_of []) = None"
    using one by (subst match_member_segs) auto
  from replace_seg_path [where m = teamMembersForUserPathRegex and u = u and segs = "[]", OF this] one show ?case
    by (simp add: teamMembersForUserPathRegex_def)
next
  case (two u i)
  have a: "teamMembersForUserPathRegex (CHR ''/'' # u @ path_of [i]) = None"
    using two by (subst match_member_segs) auto
  have b: "teamMembersForUserPathRegex (CHR ''/'' # i @ path_of []) = None"
    using two by (subst match_member_segs) auto
  show ?case using replace_seg_path [where m = teamMembersForUserPathRegex and u = u and segs = "[i]", OF a] replace_seg_path [where m = teamMembersForUserPathRegex and u = i and segs = "[]", OF b] two
    by (simp add: teamMembersForUserPathRegex_def)
next
  case (three u i m)
  have a: "teamMembersForUserPathRegex (CHR ''/'' # u @ path_of [i, m]) = None"
    using three by (subst match_member_segs) auto
  have b: "teamMembersForUserPathRegex (CHR ''/'' # i @ path_of [m]) = None"
    using three by (subst match_member_segs) auto
  have c: "teamMembersForUserPathRegex (CHR ''/'' # m @ path_of []) = None"
    using three by (subst match_member_segs) auto
  show ?case using replace_seg_path [where m = teamMembersForUserPathRegex and u = u and segs = "[i, m]", OF a] replace_seg_path [where m = teamMembersForUserPathRegex and u = i and segs = "[m]", OF b]
      replace_seg_path [where m = teamMembersForUserPathRegex and u = m and segs = "[]", OF c] three
    by (simp add: teamMembersForUserPathRegex_def)
qed simp

text \<open>The rules of the code as instances.\<close>

lemma replace_id_rule:
  assumes "segments segs" "noslash k"
  shows "ReplaceAllString (match_id (CHR ''/'' # k @ ''/'') (match_lit ''/'')) (path_of segs)
      (CHR ''/'' # k @ CHR ''/'' # p @ ''/'') = path_of (id_segs k p segs)"
  using replace_id_segs [OF assms(2,1)] by (simp add: ReplaceAllString_def)

lemma replace_run_rule:
  assumes "segments segs" "noslash a" "noslash b" "\<not> P (CHR ''/'')" "ps \<noteq> []"
  shows "ReplaceAllString (match_run (CHR ''/'' # a @ CHR ''/'' # b @ ''/'') P) (path_of segs)
      (path_of (a # b # ps)) = path_of (run_segs a b P ps segs)"
  unfolding ReplaceAllString_def using assms by (intro replace_run_segs)

lemmas route_rules =
  replace_id_rule [where k = "''teams''" and p = "''[team id]''", simplified, folded teamPathRegex_def]
  replace_id_rule [where k = "''channels''" and p = "''[channel id]''", simplified, folded channelPathRegex_def]
  replace_id_rule [where k = "''posts''" and p = "''[post id]''", simplified, folded postPathRegex_def]
  replace_id_rule [where k = "''files''" and p = "''[post id]''", simplified, folded filePathRegex_def]
  replace_id_rule [where k = "''users''" and p = "''[user id]''", simplified, folded userPathRegex_def]
  replace_run_rule [where a = "''channels''" and b = "''name''" and P = "\<lambda>c. c \<noteq> CHR ''/''"
    and ps = "[''[channel name]'', []]", simplified, folded channelNamePathRegex_def]
  replace_run_rule [where a = "''users''" and b = "''email''" and P = "\<lambda>c. c \<noteq> CHR ''/''"
    and ps = "[''[email]'']", simplified, folded userEmailPathRegex_def]
  replace_run_rule [where a = "''emoji''" and b = "''name''" and P = is_alnum
    and ps = "[''[emoji name]'']", simplified, folded emojiPathRegex_def]

lemma alnum_slash [simp]: "\<not> is_alnum (CHR ''/'')"
  by (simp add: is_alnum_def is_idchar_def)

section \<open>Properties\<close>

text \<open>C19. On a request path below the API prefix, the nine regular expression replacements are the
  nine rewritings of whole path segments, in the code's order.\<close>

theorem processCommonPaths_segments:
  assumes "segments segs"
  shows "processCommonPaths (API_URL_SUFFIX @ path_of segs) = path_of (route_segs segs)"
proof -
  let ?s1 = "member_segs segs"
  let ?s2 = "id_segs ''teams'' ''[team id]'' ?s1"
  let ?s3 = "id_segs ''channels'' ''[channel id]'' ?s2"
  let ?s4 = "run_segs ''channels'' ''name'' (\<lambda>c. c \<noteq> CHR ''/'') [''[channel name]'', []] ?s3"
  let ?s5 = "id_segs ''posts'' ''[post id]'' ?s4"
  let ?s6 = "id_segs ''files'' ''[post id]'' ?s5"
  let ?s7 = "id_segs ''users'' ''[user id]'' ?s6"
  let ?s8 = "run_segs ''users'' ''email'' (\<lambda>c. c \<noteq> CHR ''/'') [''[email]''] ?s7"
  have s1: "segments ?s1" using assms by (rule segments_member)
  then have s2: "segments ?s2" by (rule segments_id) simp_all
  then have s3: "segments ?s3" by (rule segments_id) simp_all
  then have s4: "segments ?s4" by (rule segments_run) simp_all
  then have s5: "segments ?s5" by (rule segments_id) simp_all
  then have s6: "segments ?s6" by (rule segments_id) simp_all
  then have s7: "segments ?s7" by (rule segments_id) simp_all
  then have s8: "segments ?s8" by (rule segments_run) simp_all
  have "ReplaceAllString teamMembersForUserPathRegex (path_of segs) ''/teams/[team id]/members/[user id]'' = path_of ?s1"
    using replace_member_segs [OF assms] by (simp add: ReplaceAllString_def member_rep_def)
  then show ?thesis
    unfolding processCommonPaths_def Let_def trim_prefix_append route_segs_def comp_def
    by (simp only: route_rules [OF s1] route_rules [OF s2] route_rules [OF s3] route_rules [OF s4]
        route_rules [OF s5] route_rules [OF s6] route_rules [OF s7] route_rules [OF s8] alnum_slash not_False_eq_True)
qed

theorem processCommonPaths_segments_witness:
  "processCommonPaths ''/api/v4/users/abcdefghijklmnopqrstuvwxyz/status'' = ''/users/[user id]/status''"
  using processCommonPaths_segments [of "[''users'', ''abcdefghijklmnopqrstuvwxyz'', ''status'']"]
  by (simp add: API_URL_SUFFIX_def route_segs_def is_id_def is_idchar_def)

text \<open>Requests for one resource of a kind have one route, whatever the id: the id expressions
  need something after the id, so a path that ends in the id keeps it, while a channel name at the
  end of a path is replaced, by a text that brings a slash of its own.\<close>

theorem processCommonPaths_ids:
  assumes "is_id i" "noslash w"
  shows "processCommonPaths (''/api/v4/channels/'' @ i @ CHR ''/'' # w) = ''/channels/[channel id]/'' @ w \<and>
    processCommonPaths (''/api/v4/users/'' @ i @ CHR ''/'' # w) = ''/users/[user id]/'' @ w \<and>
    processCommonPaths (''/api/v4/users/'' @ i) = ''/users/'' @ i \<and>
    (w \<noteq> [] \<longrightarrow> processCommonPaths (''/api/v4/teams/'' @ i @ ''/channels/name/'' @ w) =
       ''/teams/[team id]/channels/name/[channel name]/'')"
proof -
  have i: "noslash i" using assms(1) by (rule is_id_noslash)
  have len: "length i = 26" using assms(1) by (rule is_id_length)
  have ne: "i \<noteq> ''name''" "i \<noteq> ''email''" "i \<noteq> ''channels''" using len by auto
  have nb: "\<not> is_id ''name''" "\<not> is_id ''[channel id]''" "\<not> is_id ''[user id]''" "\<not> is_id ''[team id]''"
    by (simp_all add: is_id_def)
  have tw: "takeWhile (\<lambda>c. c \<noteq> CHR ''/'') w = w" "dropWhile (\<lambda>c. c \<noteq> CHR ''/'') w = []"
    using assms(2) by (auto simp: noslash_def takeWhile_eq_all_conv dropWhile_eq_Nil_conv)
  show ?thesis
    using processCommonPaths_segments [of "[''channels'', i, w]"] processCommonPaths_segments [of "[''users'', i, w]"]
      processCommonPaths_segments [of "[''users'', i]"]
      processCommonPaths_segments [of "[''teams'', i, ''channels'', ''name'', w]"] assms i ne nb tw
    by (simp add: API_URL_SUFFIX_def route_segs_def)
qed

theorem processCommonPaths_ids_witness:
  "processCommonPaths ''/api/v4/teams/abcdefghijklmnopqrstuvwxyz/channels/name/town'' =
     ''/teams/[team id]/channels/name/[channel name]/''"
  using processCommonPaths_ids [of "''abcdefghijklmnopqrstuvwxyz''" "''town''"]
  by (simp add: is_id_def is_idchar_def)

end
