(* ===== verification/Timing_Stats.thy ===== *)
theory Timing_Stats
  imports Stats_Lib Path_Routes
begin

text \<open>
  \<^verbatim>\<open>loadtest/client_timing_stats.go\<close> and \<^verbatim>\<open>loadtest/timed_round_tripper.go\<close>: what is measured of
  every request, per route, and the summary computed from it.

  A route map is a partial function from route names; where the code ranges over it, the order is
  an argument. Pointers that may be nil (the receiver and the argument of \<open>Merge\<close>) are options.
  \<open>CalcResults\<close> returns an option: \<open>None\<close> would be a panic or a NaN stored in a result, and it is
  shown below that for whole-millisecond samples neither happens. The rate counter
  \<open>DurationLastMinute\<close> is created and never used again; the record has only whether it is there.
\<close>

record RouteStats =
  Name :: string
  NumHits :: int
  NumErrors :: int
  ErrorRate :: real
  Duration :: "real list"
  DurationLastMinute :: "unit option"
  MaxTime :: real
  MinTime :: real
  MeanTime :: real
  MedianTime :: real
  Percentile90 :: real
  Percentile95 :: real
  InterQuartileRange :: real

record ClientTimingStats =
  Routes :: "string \<rightharpoonup> RouteStats"

definition zero_RouteStats :: RouteStats where
  "zero_RouteStats = \<lparr>Name = [], NumHits = 0, NumErrors = 0, ErrorRate = 0, Duration = [],
     DurationLastMinute = None, MaxTime = 0, MinTime = 0, MeanTime = 0, MedianTime = 0,
     Percentile90 = 0, Percentile95 = 0, InterQuartileRange = 0\<rparr>"

definition NewRouteStats :: "string \<Rightarrow> RouteStats" where
  "NewRouteStats name = zero_RouteStats\<lparr>Name := name, NumErrors := 0, Duration := [], DurationLastMinute := Some ()\<rparr>"

definition AddSample :: "RouteStats \<Rightarrow> int \<Rightarrow> int \<Rightarrow> RouteStats" where
  "AddSample s duration status =
     (let s = s\<lparr>NumHits := NumHits s + 1\<rparr> in
      if status \<ge> 200 \<and> status < 300
      then s\<lparr>Duration := Duration s @ [f64 (of_int duration)]\<rparr>
      else s\<lparr>NumErrors := NumErrors s + 1\<rparr>)"

definition stat_value :: "real result \<Rightarrow> real option" where
  "stat_value r = (case r of Inl _ \<Rightarrow> None | Inr x \<Rightarrow> Some x)"

definition CalcResults :: "RouteStats \<Rightarrow> RouteStats option" where
  "CalcResults s =
     (let s = s\<lparr>ErrorRate := (if NumHits s > 0
            then f64 (f64 (of_int (NumErrors s)) / f64 (of_int (NumHits s))) else 0)\<rparr>
      in do {
        s \<leftarrow> (if length (Duration s) > 0 then do {
               mx \<leftarrow> stat_value (stats_Max (Duration s));
               mn \<leftarrow> stat_value (stats_Min (Duration s));
               mean \<leftarrow> stat_value (stats_Mean (Duration s));
               median \<leftarrow> stat_value (stats_Median (Duration s));
               Some (s\<lparr>MaxTime := mx, MinTime := mn, MeanTime := mean, MedianTime := median\<rparr>)
             } else Some s);
        (if length (Duration s) > 2 then do {
               iqr \<leftarrow> stat_value (stats_InterQuartileRange (Duration s));
               p90 \<leftarrow> Option.bind (stats_Percentile (Duration s) 90) stat_value;
               p95 \<leftarrow> Option.bind (stats_Percentile (Duration s) 95) stat_value;
               Some (s\<lparr>InterQuartileRange := iqr, Percentile90 := p90, Percentile95 := p95\<rparr>)
             } else Some s)
      })"

text \<open>\<open>(s *RouteStats).Merge(other)\<close>, before the closing \<open>CalcResults\<close>, and with it.\<close>

definition merge_counts :: "RouteStats option \<Rightarrow> RouteStats option \<Rightarrow> RouteStats" where
  "merge_counts s other =
     (let n = zero_RouteStats;
          n = (case s of None \<Rightarrow> n
               | Some s \<Rightarrow> n\<lparr>Name := Name s, NumHits := NumHits n + NumHits s,
                            NumErrors := NumErrors n + NumErrors s, Duration := Duration n @ Duration s\<rparr>);
          n = (case other of None \<Rightarrow> n
               | Some t \<Rightarrow> n\<lparr>Name := Name t, NumHits := NumHits n + NumHits t,
                            NumErrors := NumErrors n + NumErrors t, Duration := Duration n @ Duration t\<rparr>)
      in n)"

definition MergeRoute :: "RouteStats option \<Rightarrow> RouteStats option \<Rightarrow> RouteStats option" where
  "MergeRoute s other = CalcResults (merge_counts s other)"

definition NewClientTimingStats :: ClientTimingStats where
  "NewClientTimingStats = \<lparr>Routes = Map.empty\<rparr>"

definition AddRouteSample :: "ClientTimingStats \<Rightarrow> string \<Rightarrow> int \<Rightarrow> int \<Rightarrow> ClientTimingStats" where
  "AddRouteSample ts route duration status =
     (case Routes ts route of
        Some rs \<Rightarrow> ts\<lparr>Routes := (Routes ts)(route \<mapsto> AddSample rs duration status)\<rparr>
      | None \<Rightarrow> ts\<lparr>Routes := (Routes ts)(route \<mapsto> AddSample (NewRouteStats route) duration status)\<rparr>)"

text \<open>The loop of \<open>Merge\<close> over one of the two maps, in the order \<open>ks\<close>.\<close>

fun merge_loop :: "string list \<Rightarrow> (string \<rightharpoonup> RouteStats) \<Rightarrow> (string \<rightharpoonup> RouteStats) \<Rightarrow> (string \<rightharpoonup> RouteStats) option" where
  "merge_loop [] m new = Some new"
| "merge_loop (k # ks) m new = do {
     route \<leftarrow> m k;
     r \<leftarrow> MergeRoute (new k) (Some route);
     merge_loop ks m (new(k \<mapsto> r))
   }"

definition MergeStats :: "string list \<Rightarrow> string list \<Rightarrow> ClientTimingStats option \<Rightarrow> ClientTimingStats option \<Rightarrow> ClientTimingStats option" where
  "MergeStats ks ls ts timings = do {
     n \<leftarrow> (case ts of None \<Rightarrow> Some (Routes NewClientTimingStats)
           | Some t \<Rightarrow> merge_loop ks (Routes t) (Routes NewClientTimingStats));
     n \<leftarrow> (case timings of None \<Rightarrow> Some n | Some t \<Rightarrow> merge_loop ls (Routes t) n);
     Some \<lparr>Routes = n\<rparr>
   }"

definition GetScore :: "string list \<Rightarrow> ClientTimingStats \<Rightarrow> real" where
  "GetScore ks ts =
     (let (total, num) = foldl (\<lambda>(total, num) k.
            (case Routes ts k of
               None \<Rightarrow> (total, num)
             | Some s \<Rightarrow>
                 (let total = f64 (total + Percentile95 s);
                      total = f64 (total + MedianTime s);
                      total = f64 (total + InterQuartileRange s)
                  in (total, f64 (num + 1))))) (0, 0) ks
      in if num > 0 then f64 (total / num) else 0)"

fun calc_loop :: "string list \<Rightarrow> (string \<rightharpoonup> RouteStats) \<Rightarrow> (string \<rightharpoonup> RouteStats) option" where
  "calc_loop [] m = Some m"
| "calc_loop (k # ks) m = do {
     s \<leftarrow> m k;
     s' \<leftarrow> CalcResults s;
     calc_loop ks (m(k \<mapsto> s'))
   }"

definition CalcAllResults :: "string list \<Rightarrow> ClientTimingStats \<Rightarrow> ClientTimingStats option" where
  "CalcAllResults ks ts = map_option (\<lambda>m. ts\<lparr>Routes := m\<rparr>) (calc_loop ks (Routes ts))"

definition CountResults :: "string list \<Rightarrow> ClientTimingStats \<Rightarrow> int" where
  "CountResults ks ts = foldl (\<lambda>count k. count + (case Routes ts k of None \<Rightarrow> 0 | Some r \<Rightarrow> int (length (Duration r)))) 0 ks"

definition Reset :: "ClientTimingStats \<Rightarrow> ClientTimingStats" where
  "Reset ts = ts\<lparr>Routes := Map.empty\<rparr>"

section \<open>The measuring transport\<close>

record TimedRoundTripperReport =
  Method :: string
  Path :: string
  RequestDuration :: int
  StatusCode :: int

text \<open>\<open>RoundTrip\<close>: the inner transport is a parameter; its result is a response (with its status)
  or none, and the time it took is what the clock says before and after. The report goes to the
  channel, a queue here. Times are nanoseconds.\<close>

definition RoundTrip ::
  "('w \<Rightarrow> ('a result \<times> int option) \<times> 'w) \<Rightarrow> ('w \<Rightarrow> int) \<Rightarrow> string \<Rightarrow> string \<Rightarrow>
   'w \<times> TimedRoundTripperReport list \<Rightarrow> 'a result \<times> ('w \<times> TimedRoundTripperReport list)" where
  "RoundTrip inner clock meth path st =
     (case st of (w, reports) \<Rightarrow>
       (let requestStart = clock w;
            ((resp, status), w') = inner w;
            requestEnd = clock w';
            statuscode = (case status of None \<Rightarrow> 544 | Some s \<Rightarrow> s)
        in (resp, (w', reports @ [\<lparr>Method = meth, Path = path,
                    RequestDuration = requestEnd - requestStart, StatusCode = statuscode\<rparr>]))))"

definition millisecond :: int where "millisecond = 1000000"

definition AddTimingReport :: "ClientTimingStats \<Rightarrow> TimedRoundTripperReport \<Rightarrow> ClientTimingStats" where
  "AddTimingReport ts report =
     (let path = processCommonPaths (Path report)
      in AddRouteSample ts (Method report @ '' '' @ path) (go_div (RequestDuration report) millisecond) (StatusCode report))"

section \<open>The invariant of the measurements\<close>

definition route_ok :: "int \<Rightarrow> RouteStats \<Rightarrow> bool" where
  "route_ok B s \<longleftrightarrow> NumHits s = NumErrors s + int (length (Duration s)) \<and> 0 \<le> NumErrors s \<and> samples B (Duration s)"

definition stats_ok :: "int \<Rightarrow> ClientTimingStats \<Rightarrow> bool" where
  "stats_ok B ts \<longleftrightarrow> (\<forall>k s. Routes ts k = Some s \<longrightarrow> Name s = k \<and> route_ok B s)"

lemma route_ok_new: "route_ok B (NewRouteStats name)"
  by (simp add: route_ok_def NewRouteStats_def zero_RouteStats_def samples_def)

lemma AddSample_ok:
  assumes "route_ok B s" "0 \<le> d" "d \<le> B" "B < 2 ^ 50"
  shows "route_ok B (AddSample s d st) \<and> Name (AddSample s d st) = Name s"
proof -
  have "f64 (of_int d) = of_int d" using assms(2-4) by (intro f64_int) simp
  then show ?thesis using assms(1-3) by (auto simp: route_ok_def AddSample_def Let_def samples_def)
qed

lemma AddRouteSample_ok:
  "stats_ok B ts \<Longrightarrow> 0 \<le> d \<Longrightarrow> d \<le> B \<Longrightarrow> B < 2 ^ 50 \<Longrightarrow> stats_ok B (AddRouteSample ts r d st)"
  using AddSample_ok [of B _ d st] route_ok_new [of B r]
  by (auto simp: stats_ok_def AddRouteSample_def NewRouteStats_def split: option.splits)

lemma stats_ok_Reset [simp]: "stats_ok B (Reset ts)"
  by (simp add: stats_ok_def Reset_def)

lemma stats_ok_New [simp]: "stats_ok B NewClientTimingStats"
  by (simp add: stats_ok_def NewClientTimingStats_def)

section \<open>\<open>CalcResults\<close>\<close>

text \<open>The summary fields a report reads, when they are right for the samples: in units of half a
  millisecond, in order, and inside the range of the samples.\<close>

definition results_ok :: "int \<Rightarrow> RouteStats \<Rightarrow> bool" where
  "results_ok B s \<longleftrightarrow> MedianTime s \<in> halves B \<and> Percentile95 s \<in> halves B \<and> InterQuartileRange s \<in> halves B \<and>
     (Duration s \<noteq> [] \<longrightarrow> MinTime s \<in> set (Duration s) \<and> MaxTime s \<in> set (Duration s) \<and>
        (\<forall>x \<in> set (Duration s). MinTime s \<le> x \<and> x \<le> MaxTime s) \<and>
        MinTime s \<le> MedianTime s \<and> MedianTime s \<le> MaxTime s) \<and>
     (2 < length (Duration s) \<longrightarrow>
        MinTime s \<le> Percentile90 s \<and> Percentile90 s \<le> MaxTime s \<and>
        MinTime s \<le> Percentile95 s \<and> Percentile95 s \<le> MaxTime s \<and> 0 \<le> InterQuartileRange s)"

text \<open>What \<open>CalcResults\<close> leaves alone.\<close>

definition same_counts :: "RouteStats \<Rightarrow> RouteStats \<Rightarrow> bool" where
  "same_counts s t \<longleftrightarrow> Name t = Name s \<and> NumHits t = NumHits s \<and> NumErrors t = NumErrors s \<and> Duration t = Duration s"

lemma same_counts_refl [simp]: "same_counts s s"
  by (simp add: same_counts_def)

lemma same_counts_ok: "same_counts s t \<Longrightarrow> route_ok B s \<Longrightarrow> route_ok B t"
  by (simp add: same_counts_def route_ok_def)

lemma CalcResults_ok:
  assumes "route_ok B s" "B < 2 ^ 50" "0 \<le> B" "length (Duration s) < 2 ^ 50"
    and fresh: "length (Duration s) \<le> 2 \<longrightarrow> Percentile95 s \<in> halves B \<and> InterQuartileRange s \<in> halves B"
    and fresh0: "Duration s = [] \<longrightarrow> MedianTime s \<in> halves B"
  shows "\<exists>t. CalcResults s = Some t \<and> same_counts s t \<and> results_ok B t"
proof (cases "Duration s = []")
  case True
  then show ?thesis using fresh fresh0 by (simp add: CalcResults_def same_counts_def results_ok_def)
next
  case False
  let ?d = "Duration s"
  have sm: "samples B ?d" using assms(1) by (simp add: route_ok_def)
  obtain mx where mx: "stats_Max ?d = Inr mx" "mx \<in> set ?d" "\<forall>x \<in> set ?d. x \<le> mx"
    using stats_Max_ok [OF False] by blast
  obtain mn where mn: "stats_Min ?d = Inr mn" "mn \<in> set ?d" "\<forall>x \<in> set ?d. mn \<le> x"
    using stats_Min_ok [OF False] by blast
  obtain mean where mean: "stats_Mean ?d = Inr mean" using stats_Mean_ok [OF False] by blast
  have range: "\<forall>x \<in> set ?d. mn \<le> x \<and> x \<le> mx" using mx mn by auto
  obtain med where med: "med \<in> halves B" "stats_Median ?d = Inr med" "mn \<le> med" "med \<le> mx"
    using median_between [OF sm assms(2) False range] by blast
  show ?thesis
  proof (cases "2 < length ?d")
    case True
    then have l: "3 \<le> length ?d" by simp
    obtain p90 where p90: "stats_Percentile ?d 90 = Some (Inr p90)" "mn \<le> p90" "p90 \<le> mx"
      using percentile_between [OF sm assms(2) _ l assms(4) range, of 90] by blast
    obtain p95 where p95: "p95 \<in> halves B" "stats_Percentile ?d 95 = Some (Inr p95)" "mn \<le> p95" "p95 \<le> mx"
      using percentile_between [OF sm assms(2) _ l assms(4) range, of 95] by blast
    obtain iqr where iqr: "iqr \<in> halves B" "stats_InterQuartileRange ?d = Inr iqr" "0 \<le> iqr"
      using iqr_ok [OF sm assms(2) l] by blast
    show ?thesis using True False mx mn mean med p90 p95 iqr range
      by (simp add: CalcResults_def stat_value_def same_counts_def results_ok_def Let_def)
  next
    case False2: False
    show ?thesis using False2 False mx mn mean med range fresh
      by (simp add: CalcResults_def stat_value_def same_counts_def results_ok_def Let_def)
  qed
qed

lemma CalcResults_counts: "CalcResults s = Some t \<Longrightarrow> same_counts s t"
  by (auto simp: CalcResults_def same_counts_def Let_def split: if_splits bind_splits)

lemma merge_counts_ok:
  "pred_option (route_ok B) s \<Longrightarrow> pred_option (route_ok B) t \<Longrightarrow> route_ok B (merge_counts s t)"
  by (cases s; cases t) (auto simp: merge_counts_def zero_RouteStats_def route_ok_def samples_def)

section \<open>Merging\<close>

text \<open>A left fold whose step is a relation, as for merges whose map iteration order is open.\<close>

inductive fold_rel :: "('a option \<Rightarrow> 'a option \<Rightarrow> 'a \<Rightarrow> bool) \<Rightarrow> 'a option \<Rightarrow> 'a list \<Rightarrow> 'a option \<Rightarrow> bool"
  for m where
  Nil: "fold_rel m acc [] acc"
| Cons: "m acc (Some x) z \<Longrightarrow> fold_rel m (Some z) xs r \<Longrightarrow> fold_rel m acc (x # xs) r"

inductive_cases fold_rel_NilE: "fold_rel m acc [] r"
inductive_cases fold_rel_ConsE: "fold_rel m acc (x # xs) r"

text \<open>
  The contract of a merge: a measure of the merged value is the sum of the measures of what went
  in, where an absent argument counts as nothing. Its clients aggregate any number of values, in an
  order they do not control.
\<close>

locale measured_merge =
  fixes merged :: "'a option \<Rightarrow> 'a option \<Rightarrow> 'a \<Rightarrow> bool"
    and measure_of :: "'a \<Rightarrow> 'm :: comm_monoid_add"
  assumes merge_adds: "merged x y z \<Longrightarrow>
    measure_of z = (case x of None \<Rightarrow> 0 | Some a \<Rightarrow> measure_of a) + (case y of None \<Rightarrow> 0 | Some a \<Rightarrow> measure_of a)"
begin

lemma fold_adds:
  "fold_rel merged acc xs r \<Longrightarrow>
   (case r of None \<Rightarrow> 0 | Some a \<Rightarrow> measure_of a) =
   (case acc of None \<Rightarrow> 0 | Some a \<Rightarrow> measure_of a) + sum_list (map measure_of xs)"
  by (induction rule: fold_rel.induct) (simp_all add: merge_adds add.assoc)

lemma fold_order:
  assumes "fold_rel merged None xs (Some a)" "fold_rel merged None ys (Some b)" "mset xs = mset ys"
  shows "measure_of a = measure_of b"
proof -
  have "sum_list (map measure_of xs) = sum_list (map measure_of ys)"
    using assms(3) by (metis mset_map sum_mset_sum_list)
  then show ?thesis using fold_adds [OF assms(1)] fold_adds [OF assms(2)] by simp
qed

end

lemma merge_counts_fields:
  "NumHits (merge_counts s t) = (case s of None \<Rightarrow> 0 | Some a \<Rightarrow> NumHits a) + (case t of None \<Rightarrow> 0 | Some a \<Rightarrow> NumHits a)"
  "NumErrors (merge_counts s t) = (case s of None \<Rightarrow> 0 | Some a \<Rightarrow> NumErrors a) + (case t of None \<Rightarrow> 0 | Some a \<Rightarrow> NumErrors a)"
  "Duration (merge_counts s t) = (case s of None \<Rightarrow> [] | Some a \<Rightarrow> Duration a) @ (case t of None \<Rightarrow> [] | Some a \<Rightarrow> Duration a)"
  "Name (merge_counts s t) = (case t of Some a \<Rightarrow> Name a | None \<Rightarrow> (case s of Some a \<Rightarrow> Name a | None \<Rightarrow> []))"
  "MedianTime (merge_counts s t) = 0" "Percentile95 (merge_counts s t) = 0" "InterQuartileRange (merge_counts s t) = 0"
  by (cases s; cases t; simp add: merge_counts_def zero_RouteStats_def Let_def)+

lemma MergeRoute_fields:
  assumes "MergeRoute s t = Some r"
  shows "NumHits r = (case s of None \<Rightarrow> 0 | Some a \<Rightarrow> NumHits a) + (case t of None \<Rightarrow> 0 | Some a \<Rightarrow> NumHits a)"
    "NumErrors r = (case s of None \<Rightarrow> 0 | Some a \<Rightarrow> NumErrors a) + (case t of None \<Rightarrow> 0 | Some a \<Rightarrow> NumErrors a)"
    "Duration r = (case s of None \<Rightarrow> [] | Some a \<Rightarrow> Duration a) @ (case t of None \<Rightarrow> [] | Some a \<Rightarrow> Duration a)"
    "Name r = (case t of Some a \<Rightarrow> Name a | None \<Rightarrow> (case s of Some a \<Rightarrow> Name a | None \<Rightarrow> []))"
  using CalcResults_counts [OF assms [unfolded MergeRoute_def]] by (simp_all add: same_counts_def merge_counts_fields)

lemma MergeRoute_total:
  assumes "pred_option (route_ok B) s" "pred_option (route_ok B) t" "B < 2 ^ 50" "0 \<le> B"
    and "(case s of None \<Rightarrow> 0 | Some a \<Rightarrow> length (Duration a)) + (case t of None \<Rightarrow> 0 | Some a \<Rightarrow> length (Duration a)) < 2 ^ 50"
  shows "\<exists>r. MergeRoute s t = Some r \<and> route_ok B r \<and> results_ok B r"
proof -
  have "length (Duration (merge_counts s t)) < 2 ^ 50"
    using assms(5) by (simp add: merge_counts_fields split: option.splits)
  with CalcResults_ok [OF merge_counts_ok [OF assms(1,2)] assms(3,4)] halves_0 [OF assms(4)]
  obtain r where "CalcResults (merge_counts s t) = Some r" "same_counts (merge_counts s t) r" "results_ok B r"
    by (auto simp: merge_counts_fields)
  then show ?thesis using same_counts_ok [OF _ merge_counts_ok [OF assms(1,2)]] by (auto simp: MergeRoute_def)
qed

text \<open>One loop of \<open>Merge\<close>: the routes it ranges over are merged in, the others are as before.\<close>

lemma merge_loop_result:
  "merge_loop ks m new = Some new' \<Longrightarrow> distinct ks \<Longrightarrow>
   (k \<in> set ks \<longrightarrow> (\<exists>r. new' k = Some r \<and> m k \<noteq> None \<and> MergeRoute (new k) (m k) = Some r)) \<and>
   (k \<notin> set ks \<longrightarrow> new' k = new k)"
proof (induction ks arbitrary: new)
  case (Cons x ks)
  obtain route r where x: "m x = Some route" "MergeRoute (new x) (Some route) = Some r"
    "merge_loop ks m (new(x \<mapsto> r)) = Some new'"
    using Cons.prems(1) by (auto split: bind_splits)
  from Cons.IH [OF x(3)] Cons.prems(2) x(1,2) show ?case by (cases "k = x") auto
qed simp

lemma merge_loop_total:
  assumes "\<And>k. k \<in> set ks \<Longrightarrow> m k \<noteq> None \<and> MergeRoute (new k) (m k) \<noteq> None" "distinct ks"
  shows "\<exists>new'. merge_loop ks m new = Some new'"
  using assms
proof (induction ks arbitrary: new)
  case (Cons x ks)
  obtain route r where x: "m x = Some route" "MergeRoute (new x) (Some route) = Some r"
    using Cons.prems(1) [of x] by auto
  have "\<exists>new'. merge_loop ks m (new(x \<mapsto> r)) = Some new'"
  proof (rule Cons.IH)
    fix k assume k: "k \<in> set ks"
    then have "k \<noteq> x" using Cons.prems(2) by auto
    then show "m k \<noteq> None \<and> MergeRoute ((new(x \<mapsto> r)) k) (m k) \<noteq> None" using Cons.prems(1) [of k] k by simp
  qed (use Cons.prems(2) in simp)
  then show ?case using x by simp
qed simp

definition routes_of :: "ClientTimingStats option \<Rightarrow> string \<rightharpoonup> RouteStats" where
  "routes_of ts = (case ts of None \<Rightarrow> Map.empty | Some t \<Rightarrow> Routes t)"

lemma MergeStats_alt:
  assumes "enumerates ks (routes_of x)" "enumerates ls (routes_of y)"
  shows "MergeStats ks ls x y =
    Option.bind (merge_loop ks (routes_of x) Map.empty) (\<lambda>n.
    Option.bind (merge_loop ls (routes_of y) n) (\<lambda>n. Some \<lparr>Routes = n\<rparr>))"
  using assms by (auto simp: MergeStats_def routes_of_def NewClientTimingStats_def enumerates_def split: option.splits)

lemma MergeStats_route:
  assumes "MergeStats ks ls x y = Some z" "enumerates ks (routes_of x)" "enumerates ls (routes_of y)"
  shows "(case Routes z k of
      None \<Rightarrow> routes_of x k = None \<and> routes_of y k = None
    | Some r \<Rightarrow> (\<exists>p. MergeRoute p (routes_of y k) = Some r \<and> routes_of y k \<noteq> None \<and>
                    (case routes_of x k of None \<Rightarrow> p = None | Some s \<Rightarrow> (\<exists>q. MergeRoute None (Some s) = Some q \<and> p = Some q))) \<or>
             (routes_of y k = None \<and> routes_of x k \<noteq> None \<and> MergeRoute None (routes_of x k) = Some r))"
proof -
  obtain n n' where n: "merge_loop ks (routes_of x) Map.empty = Some n"
    "merge_loop ls (routes_of y) n = Some n'" "Routes z = n'"
    using assms(1) unfolding MergeStats_alt [OF assms(2,3)] by (auto split: bind_splits)
  from merge_loop_result [OF n(1), of k] merge_loop_result [OF n(2), of k] assms(2,3)
  show ?thesis using n(3) by (auto simp: enumerates_def split: option.splits)
qed

text \<open>The measures of a route in a set of statistics: hits, errors, and the samples as a multiset.\<close>

definition hits :: "string \<Rightarrow> ClientTimingStats \<Rightarrow> int" where
  "hits k ts = (case Routes ts k of None \<Rightarrow> 0 | Some s \<Rightarrow> NumHits s)"

definition errors :: "string \<Rightarrow> ClientTimingStats \<Rightarrow> int" where
  "errors k ts = (case Routes ts k of None \<Rightarrow> 0 | Some s \<Rightarrow> NumErrors s)"

definition durations :: "string \<Rightarrow> ClientTimingStats \<Rightarrow> real multiset" where
  "durations k ts = (case Routes ts k of None \<Rightarrow> {#} | Some s \<Rightarrow> mset (Duration s))"

definition merged_stats :: "ClientTimingStats option \<Rightarrow> ClientTimingStats option \<Rightarrow> ClientTimingStats \<Rightarrow> bool" where
  "merged_stats x y z \<longleftrightarrow> (\<exists>ks ls. enumerates ks (routes_of x) \<and> enumerates ls (routes_of y) \<and> MergeStats ks ls x y = Some z)"

lemma merged_stats_measure:
  fixes f :: "RouteStats \<Rightarrow> 'm :: comm_monoid_add"
  assumes "merged_stats x y z"
    and "\<And>s t r. MergeRoute s t = Some r \<Longrightarrow> f r = (case s of None \<Rightarrow> 0 | Some a \<Rightarrow> f a) + (case t of None \<Rightarrow> 0 | Some a \<Rightarrow> f a)"
  shows "(case Routes z k of None \<Rightarrow> 0 | Some s \<Rightarrow> f s) =
    (case x of None \<Rightarrow> 0 | Some a \<Rightarrow> (case Routes a k of None \<Rightarrow> 0 | Some s \<Rightarrow> f s)) +
    (case y of None \<Rightarrow> 0 | Some a \<Rightarrow> (case Routes a k of None \<Rightarrow> 0 | Some s \<Rightarrow> f s))"
proof -
  obtain ks ls where e: "enumerates ks (routes_of x)" "enumerates ls (routes_of y)" "MergeStats ks ls x y = Some z"
    using assms(1) by (auto simp: merged_stats_def)
  have "(case Routes z k of None \<Rightarrow> 0 | Some s \<Rightarrow> f s) =
    (case routes_of x k of None \<Rightarrow> 0 | Some s \<Rightarrow> f s) + (case routes_of y k of None \<Rightarrow> 0 | Some s \<Rightarrow> f s)"
    using MergeStats_route [OF e(3,1,2), of k] by (auto dest!: assms(2) split: option.splits)
  then show ?thesis by (auto simp: routes_of_def split: option.splits)
qed

interpretation hits: measured_merge merged_stats "hits k" for k
  by unfold_locales (unfold hits_def, erule merged_stats_measure, simp add: MergeRoute_fields)

interpretation errors: measured_merge merged_stats "errors k" for k
  by unfold_locales (unfold errors_def, erule merged_stats_measure, simp add: MergeRoute_fields)

interpretation durations: measured_merge merged_stats "durations k" for k
  by unfold_locales (unfold durations_def, erule merged_stats_measure [where f = "\<lambda>s. mset (Duration s)"],
    auto simp: MergeRoute_fields split: option.splits)

section \<open>Counting reports\<close>

definition route_key :: "TimedRoundTripperReport \<Rightarrow> string" where
  "route_key r = Method r @ '' '' @ processCommonPaths (Path r)"

definition report_ok :: "TimedRoundTripperReport \<Rightarrow> bool" where
  "report_ok r \<longleftrightarrow> 200 \<le> StatusCode r \<and> StatusCode r < 300"

definition report_ms :: "TimedRoundTripperReport \<Rightarrow> int" where
  "report_ms r = RequestDuration r div millisecond"

definition count_reports :: "TimedRoundTripperReport list \<Rightarrow> ClientTimingStats" where
  "count_reports rs = foldl AddTimingReport NewClientTimingStats rs"

lemma AddTimingReport_alt:
  "0 \<le> RequestDuration r \<Longrightarrow>
   AddTimingReport ts r = AddRouteSample ts (route_key r) (report_ms r) (StatusCode r)"
  by (simp add: AddTimingReport_def route_key_def report_ms_def go_div_nonneg millisecond_def)

lemma AddRouteSample_measures:
  "hits k (AddRouteSample ts r d st) = hits k ts + (if k = r then 1 else 0)"
  "errors k (AddRouteSample ts r d st) = errors k ts + (if k = r \<and> \<not> (200 \<le> st \<and> st < 300) then 1 else 0)"
  "durations k (AddRouteSample ts r d st) = durations k ts + (if k = r \<and> 200 \<le> st \<and> st < 300 then {#f64 (of_int d)#} else {#})"
  by (auto simp: hits_def errors_def durations_def AddRouteSample_def AddSample_def NewRouteStats_def
      zero_RouteStats_def Let_def split: option.splits)

lemma New_measures [simp]:
  "hits k NewClientTimingStats = 0" "errors k NewClientTimingStats = 0" "durations k NewClientTimingStats = {#}"
  by (simp_all add: hits_def errors_def durations_def NewClientTimingStats_def)

lemma report_ms_bounds: "0 \<le> RequestDuration r \<Longrightarrow> RequestDuration r \<le> B * millisecond \<Longrightarrow> 0 \<le> report_ms r \<and> report_ms r \<le> B"
proof -
  assume r: "0 \<le> RequestDuration r" "RequestDuration r \<le> B * millisecond"
  have "RequestDuration r div millisecond \<le> (B * millisecond) div millisecond"
    using r(2) by (rule zdiv_mono1) (simp add: millisecond_def)
  then show ?thesis using r(1) by (simp add: report_ms_def millisecond_def pos_imp_zdiv_nonneg_iff)
qed

lemma count_reports_snoc: "count_reports (rs @ [r]) = AddTimingReport (count_reports rs) r"
  by (simp add: count_reports_def)

lemma count_reports_ok:
  "\<forall>r \<in> set rs. 0 \<le> RequestDuration r \<and> RequestDuration r \<le> B * millisecond \<Longrightarrow> B < 2 ^ 50 \<Longrightarrow>
   stats_ok B (count_reports rs)"
proof (induction rs rule: rev_induct)
  case (snoc r rs)
  then show ?case using report_ms_bounds [of r B] by (simp add: count_reports_snoc AddTimingReport_alt AddRouteSample_ok)
qed (simp add: count_reports_def)

lemma count_reports_measures:
  "\<forall>r \<in> set rs. 0 \<le> RequestDuration r \<Longrightarrow>
   hits k (count_reports rs) = int (length (filter (\<lambda>r. route_key r = k) rs)) \<and>
   errors k (count_reports rs) = int (length (filter (\<lambda>r. route_key r = k \<and> \<not> report_ok r) rs)) \<and>
   durations k (count_reports rs) =
     mset (map (\<lambda>r. f64 (of_int (report_ms r))) (filter (\<lambda>r. route_key r = k \<and> report_ok r) rs))"
proof (induction rs rule: rev_induct)
  case (snoc r rs)
  then show ?case
    by (auto simp: count_reports_snoc AddTimingReport_alt AddRouteSample_measures report_ok_def)
qed (simp add: count_reports_def)

section \<open>The score\<close>

definition score_part :: "ClientTimingStats \<Rightarrow> string \<Rightarrow> real" where
  "score_part ts k = (case Routes ts k of None \<Rightarrow> 0
     | Some s \<Rightarrow> Percentile95 s + MedianTime s + InterQuartileRange s)"

lemma GetScore_exact:
  assumes "0 \<le> B" "\<And>k s. Routes ts k = Some s \<Longrightarrow> results_ok B s"
    and "set ks \<subseteq> dom (Routes ts)" "3 * B * int (length ks) < 2 ^ 51" "length ks < 2 ^ 50"
  shows "foldl (\<lambda>(total, num) k.
            (case Routes ts k of
               None \<Rightarrow> (total, num)
             | Some s \<Rightarrow>
                 (let total = f64 (total + Percentile95 s);
                      total = f64 (total + MedianTime s);
                      total = f64 (total + InterQuartileRange s)
                  in (total, f64 (num + 1))))) (0, 0) ks
      = (sum_list (map (score_part ts) ks), real (length ks)) \<and>
      sum_list (map (score_part ts) ks) \<in> halves (3 * B * int (length ks))"
  using assms(3-)
proof (induction ks rule: rev_induct)
  case Nil
  then show ?case by (simp add: halves_0)
next
  case (snoc k ks)
  obtain s where s: "Routes ts k = Some s" using snoc.prems(1) by auto
  have r: "MedianTime s \<in> halves B" "Percentile95 s \<in> halves B" "InterQuartileRange s \<in> halves B"
    using assms(2) [OF s] by (simp_all add: results_ok_def)
  let ?t = "sum_list (map (score_part ts) ks)" and ?n = "3 * B * int (length ks)"
  have le: "?n + B + B + B = 3 * B * int (length (ks @ [k]))" by (simp add: algebra_simps)
  have bound: "?n + B + B + B < 2 ^ 51" using snoc.prems(2) unfolding le .
  have "?n \<le> 3 * B * int (length (ks @ [k]))" using assms(1) by (simp add: algebra_simps)
  then have IH: "foldl (\<lambda>(total, num) k.
            (case Routes ts k of
               None \<Rightarrow> (total, num)
             | Some s \<Rightarrow>
                 (let total = f64 (total + Percentile95 s);
                      total = f64 (total + MedianTime s);
                      total = f64 (total + InterQuartileRange s)
                  in (total, f64 (num + 1))))) (0, 0) ks = (?t, real (length ks))" "?t \<in> halves ?n"
    using snoc by auto
  have h1: "?t + Percentile95 s \<in> halves (?n + B)" using IH(2) r(2) by (rule halves_add)
  have h2: "?t + Percentile95 s + MedianTime s \<in> halves (?n + B + B)" using h1 r(1) by (rule halves_add)
  have h3: "?t + Percentile95 s + MedianTime s + InterQuartileRange s \<in> halves (?n + B + B + B)"
    using h2 r(3) by (rule halves_add)
  have f: "f64 (?t + Percentile95 s) = ?t + Percentile95 s"
    "f64 (?t + Percentile95 s + MedianTime s) = ?t + Percentile95 s + MedianTime s"
    "f64 (?t + Percentile95 s + MedianTime s + InterQuartileRange s) = ?t + Percentile95 s + MedianTime s + InterQuartileRange s"
    using halves_f64 [OF h1] halves_f64 [OF h2] halves_f64 [OF h3] bound assms(1) by simp_all
  have "f64 (real (length ks) + 1) = real (length ks) + 1"
    using f64_nat [of "Suc (length ks)"] snoc.prems(3) by (simp add: add.commute)
  moreover have "score_part ts k = Percentile95 s + MedianTime s + InterQuartileRange s"
    by (simp add: score_part_def s)
  ultimately show ?case using IH(1) f s h3 unfolding le by (simp add: Let_def add.assoc)
qed

lemma GetScore_value:
  assumes "0 \<le> B" "\<And>k s. Routes ts k = Some s \<Longrightarrow> results_ok B s"
    and "enumerates ks (Routes ts)" "3 * B * int (length ks) < 2 ^ 51" "length ks < 2 ^ 50"
  shows "GetScore ks ts = (if ks = [] then 0 else f64 (sum_list (map (score_part ts) ks) / real (length ks)))"
proof -
  have "set ks \<subseteq> dom (Routes ts)" using assms(3) by (simp add: enumerates_def)
  from GetScore_exact [OF assms(1,2) this assms(4,5)] show ?thesis
    by (simp add: GetScore_def del: foldl_conv_fold)
qed

section \<open>Properties\<close>

text \<open>C20. After any sequence of reports whose durations are not negative, each route has counted
  exactly its requests, its failures (every status outside 200-299), and the whole milliseconds of
  its successes; in particular hits are failures plus successes.\<close>

theorem reports_are_counted:
  assumes "\<forall>r \<in> set rs. 0 \<le> RequestDuration r \<and> RequestDuration r \<le> B * millisecond" "B < 2 ^ 50"
  shows "stats_ok B (count_reports rs) \<and>
    hits k (count_reports rs) = int (length (filter (\<lambda>r. route_key r = k) rs)) \<and>
    errors k (count_reports rs) = int (length (filter (\<lambda>r. route_key r = k \<and> \<not> report_ok r) rs)) \<and>
    durations k (count_reports rs) =
      mset (map (\<lambda>r. of_int (report_ms r)) (filter (\<lambda>r. route_key r = k \<and> report_ok r) rs))"
proof -
  have "f64 (of_int (report_ms r)) = of_int (report_ms r)" if "r \<in> set rs" for r
    using that assms report_ms_bounds [of r B] by (intro f64_int) force
  then have "map (\<lambda>r. f64 (of_int (report_ms r))) (filter (\<lambda>r. route_key r = k \<and> report_ok r) rs) =
      map (\<lambda>r. of_int (report_ms r)) (filter (\<lambda>r. route_key r = k \<and> report_ok r) rs)" by simp
  then have eq: "mset (map (\<lambda>r. f64 (of_int (report_ms r))) (filter (\<lambda>r. route_key r = k \<and> report_ok r) rs)) =
      mset (map (\<lambda>r. of_int (report_ms r)) (filter (\<lambda>r. route_key r = k \<and> report_ok r) rs))"
    by (rule arg_cong)
  show ?thesis using count_reports_measures [of rs k] count_reports_ok [OF assms] assms(1) unfolding eq by blast
qed

theorem reports_are_counted_witness:
  "stats_ok 1000 (count_reports [\<lparr>Method = ''GET'', Path = ''/x'', RequestDuration = 2500000, StatusCode = 200\<rparr>]) \<and>
   hits ''GET /x'' (count_reports [\<lparr>Method = ''GET'', Path = ''/x'', RequestDuration = 2500000, StatusCode = 200\<rparr>]) = 1"
proof -
  let ?r = "\<lparr>Method = ''GET'', Path = ''/x'', RequestDuration = 2500000, StatusCode = 200\<rparr>"
  have "processCommonPaths ''/x'' = ''/x''"
    by (simp add: processCommonPaths_def ReplaceAllString_def Let_def API_URL_SUFFIX_def trim_prefix_def
        has_prefix_def replace_from.simps teamMembersForUserPathRegex_def teamPathRegex_def
        channelPathRegex_def channelNamePathRegex_def postPathRegex_def filePathRegex_def
        userPathRegex_def userEmailPathRegex_def emojiPathRegex_def match_id_def match_run_def)
  then show ?thesis
    using reports_are_counted [of "[?r]" 1000 "''GET /x''"] by (simp add: millisecond_def route_key_def)
qed

text \<open>\<open>CalcResults\<close> on counted reports never panics and never stores a NaN, leaves the counts
  alone, and its summary is in range: minimum and maximum are samples that bound all samples, the
  median and the percentiles lie between them, the quartile range is not negative.\<close>

theorem CalcResults_in_range:
  assumes "route_ok B s" "0 \<le> B" "B < 2 ^ 50" "length (Duration s) < 2 ^ 50"
    and "length (Duration s) \<le> 2 \<longrightarrow> Percentile95 s \<in> halves B \<and> InterQuartileRange s \<in> halves B"
    and "Duration s = [] \<longrightarrow> MedianTime s \<in> halves B"
  shows "\<exists>t. CalcResults s = Some t \<and> same_counts s t \<and> results_ok B t"
  using CalcResults_ok [OF assms(1,3,2,4,5,6)] .

theorem CalcResults_in_range_witness:
  "\<exists>t. CalcResults (zero_RouteStats\<lparr>NumHits := 3, Duration := [10, 30, 20]\<rparr>) = Some t \<and> results_ok 30 t"
proof -
  let ?s = "zero_RouteStats\<lparr>NumHits := 3, Duration := [10, 30, 20]\<rparr>"
  have "\<exists>m. (10::real) = of_int m \<and> 0 \<le> m \<and> m \<le> 30" by (intro exI [of _ 10]) simp
  moreover have "\<exists>m. (20::real) = of_int m \<and> 0 \<le> m \<and> m \<le> 30" by (intro exI [of _ 20]) simp
  moreover have "\<exists>m. (30::real) = of_int m \<and> 0 \<le> m \<and> m \<le> 30" by (intro exI [of _ 30]) simp
  ultimately have "route_ok 30 ?s" by (simp add: route_ok_def zero_RouteStats_def samples_def)
  then show ?thesis using CalcResults_in_range [of 30 ?s] by (auto simp: zero_RouteStats_def)
qed

text \<open>C21. Merging two sets of statistics, either possibly nil, in any iteration order: the merge
  exists, a route is in it when it is in one of them, its hits and errors are the sums, its samples
  are the first's followed by the second's, and its summary is recomputed from them.\<close>

theorem MergeStats_adds:
  assumes "pred_option (stats_ok B) x" "pred_option (stats_ok B) y" "0 \<le> B" "B < 2 ^ 50"
    and "\<forall>k s. routes_of x k = Some s \<longrightarrow> length (Duration s) < 2 ^ 49"
    and "\<forall>k s. routes_of y k = Some s \<longrightarrow> length (Duration s) < 2 ^ 49"
    and "enumerates ks (routes_of x)" "enumerates ls (routes_of y)"
  shows "\<exists>z. MergeStats ks ls x y = Some z \<and> stats_ok B z \<and>
    (\<forall>k. (Routes z k = None \<longleftrightarrow> routes_of x k = None \<and> routes_of y k = None) \<and>
       (\<forall>r. Routes z k = Some r \<longrightarrow> results_ok B r \<and>
          NumHits r = (case routes_of x k of None \<Rightarrow> 0 | Some s \<Rightarrow> NumHits s) + (case routes_of y k of None \<Rightarrow> 0 | Some s \<Rightarrow> NumHits s) \<and>
          NumErrors r = (case routes_of x k of None \<Rightarrow> 0 | Some s \<Rightarrow> NumErrors s) + (case routes_of y k of None \<Rightarrow> 0 | Some s \<Rightarrow> NumErrors s) \<and>
          Duration r = (case routes_of x k of None \<Rightarrow> [] | Some s \<Rightarrow> Duration s) @ (case routes_of y k of None \<Rightarrow> [] | Some s \<Rightarrow> Duration s)))"
proof -
  have okx: "Name s = k \<and> route_ok B s \<and> length (Duration s) < 2 ^ 49" if "routes_of x k = Some s" for k s
    using that assms(1,5) by (cases x) (auto simp: routes_of_def stats_ok_def)
  have oky: "Name s = k \<and> route_ok B s \<and> length (Duration s) < 2 ^ 49" if "routes_of y k = Some s" for k s
    using that assms(2,6) by (cases y) (auto simp: routes_of_def stats_ok_def)
  have first: "\<exists>r. MergeRoute None (routes_of x k) = Some r \<and> route_ok B r \<and> results_ok B r" for k
    using MergeRoute_total [of B None "routes_of x k"] okx [of k] assms(3,4) by (cases "routes_of x k") auto
  obtain n where n: "merge_loop ks (routes_of x) Map.empty = Some n"
  proof -
    have "\<exists>n. merge_loop ks (routes_of x) Map.empty = Some n"
    proof (rule merge_loop_total)
      fix k assume "k \<in> set ks"
      then show "routes_of x k \<noteq> None \<and> MergeRoute (Map.empty k) (routes_of x k) \<noteq> None"
        using first [of k] assms(7) by (auto simp: enumerates_def)
    qed (use assms(7) in \<open>simp add: enumerates_def\<close>)
    then show ?thesis using that by blast
  qed
  have n1: "(case routes_of x k of None \<Rightarrow> n k = None | Some s \<Rightarrow> \<exists>r. n k = Some r \<and> MergeRoute None (Some s) = Some r)" for k
    using merge_loop_result [OF n, of k] assms(7) by (auto simp: enumerates_def split: option.splits)
  have nok: "route_ok B r \<and> results_ok B r \<and> length (Duration r) < 2 ^ 49" if h: "n k = Some r" for k r
  proof -
    obtain s where s: "routes_of x k = Some s" "MergeRoute None (Some s) = Some r"
      using n1 [of k] h by (auto split: option.splits)
    then show ?thesis using first [of k] okx [OF s(1)] MergeRoute_fields [OF s(2)] by auto
  qed
  have second: "\<exists>r. MergeRoute (n k) (routes_of y k) = Some r \<and> route_ok B r \<and> results_ok B r" for k
    using MergeRoute_total [of B "n k" "routes_of y k"] nok [of k] oky [of k] assms(3,4)
    by (cases "n k"; cases "routes_of y k") auto
  obtain n' where n': "merge_loop ls (routes_of y) n = Some n'"
  proof -
    have "\<exists>n'. merge_loop ls (routes_of y) n = Some n'"
    proof (rule merge_loop_total)
      fix k assume "k \<in> set ls"
      then show "routes_of y k \<noteq> None \<and> MergeRoute (n k) (routes_of y k) \<noteq> None"
        using second [of k] assms(8) by (auto simp: enumerates_def)
    qed (use assms(8) in \<open>simp add: enumerates_def\<close>)
    then show ?thesis using that by blast
  qed
  let ?z = "\<lparr>Routes = n'\<rparr>"
  have z: "MergeStats ks ls x y = Some ?z" unfolding MergeStats_alt [OF assms(7,8)] using n n' by simp
  have n2: "(case routes_of y k of None \<Rightarrow> n' k = n k | Some s \<Rightarrow> \<exists>r. n' k = Some r \<and> MergeRoute (n k) (Some s) = Some r)" for k
    using merge_loop_result [OF n', of k] assms(8) by (auto simp: enumerates_def split: option.splits)
  have fields: "(n' k = None \<longleftrightarrow> routes_of x k = None \<and> routes_of y k = None) \<and>
      (\<forall>r. n' k = Some r \<longrightarrow> Name r = k \<and> route_ok B r \<and> results_ok B r \<and>
          NumHits r = (case routes_of x k of None \<Rightarrow> 0 | Some s \<Rightarrow> NumHits s) + (case routes_of y k of None \<Rightarrow> 0 | Some s \<Rightarrow> NumHits s) \<and>
          NumErrors r = (case routes_of x k of None \<Rightarrow> 0 | Some s \<Rightarrow> NumErrors s) + (case routes_of y k of None \<Rightarrow> 0 | Some s \<Rightarrow> NumErrors s) \<and>
          Duration r = (case routes_of x k of None \<Rightarrow> [] | Some s \<Rightarrow> Duration s) @ (case routes_of y k of None \<Rightarrow> [] | Some s \<Rightarrow> Duration s))" for k
  proof (cases "routes_of y k")
    case None
    then have e: "n' k = n k" using n2 [of k] by simp
    show ?thesis
    proof (cases "routes_of x k")
      case None
      then show ?thesis using e n1 [of k] \<open>routes_of y k = None\<close> by simp
    next
      case (Some s)
      then obtain r where r: "n k = Some r" "MergeRoute None (Some s) = Some r" using n1 [of k] by auto
      show ?thesis using e r(1) nok [OF r(1)] MergeRoute_fields [OF r(2)] Some okx [OF Some] \<open>routes_of y k = None\<close>
        by simp
    qed
  next
    case (Some t)
    then obtain r where r: "n' k = Some r" "MergeRoute (n k) (Some t) = Some r" using n2 [of k] by auto
    have ok: "route_ok B r" "results_ok B r" using second [of k] Some r(2) by auto
    show ?thesis
    proof (cases "routes_of x k")
      case None
      then have "n k = None" using n1 [of k] by simp
      then show ?thesis using r(1) MergeRoute_fields [OF r(2)] ok None Some oky [OF Some] by simp
    next
      case s: (Some s)
      then obtain q where q: "n k = Some q" "MergeRoute None (Some s) = Some q" using n1 [of k] by auto
      show ?thesis using r(1) q(1) MergeRoute_fields [OF r(2)] MergeRoute_fields [OF q(2)] ok s Some oky [OF Some]
        by simp
    qed
  qed
  have "stats_ok B ?z" using fields by (auto simp: stats_ok_def)
  then show ?thesis using z fields by (intro exI [of _ ?z]) simp
qed

theorem MergeStats_adds_witness:
  "\<exists>z. MergeStats [''a''] [''a''] (Some \<lparr>Routes = [''a'' \<mapsto> NewRouteStats ''a'']\<rparr>) (Some \<lparr>Routes = [''a'' \<mapsto> NewRouteStats ''a'']\<rparr>) = Some z \<and>
     Routes z ''a'' \<noteq> None"
proof -
  let ?x = "Some \<lparr>Routes = [''a'' \<mapsto> NewRouteStats ''a'']\<rparr>"
  have "pred_option (stats_ok 10) ?x"
    using route_ok_new by (simp add: stats_ok_def NewRouteStats_def)
  moreover have "enumerates [''a''] (routes_of ?x)" by (simp add: enumerates_def routes_of_def)
  moreover have "\<forall>k s. routes_of ?x k = Some s \<longrightarrow> length (Duration s) < 2 ^ 49"
    by (auto simp: routes_of_def NewRouteStats_def)
  ultimately obtain z where "MergeStats [''a''] [''a''] ?x ?x = Some z"
    "Routes z ''a'' = None \<longleftrightarrow> routes_of ?x ''a'' = None \<and> routes_of ?x ''a'' = None"
    using MergeStats_adds [of 10 ?x ?x "[''a'']" "[''a'']"] by auto
  then show ?thesis by (auto simp: routes_of_def)
qed

text \<open>The score does not depend on the order in which the routes are visited: for summaries in
  half milliseconds every partial sum is exact.\<close>

theorem GetScore_order:
  assumes "0 \<le> B" "\<forall>k s. Routes ts k = Some s \<longrightarrow> results_ok B s"
    and "enumerates ks (Routes ts)" "enumerates ls (Routes ts)"
    and "3 * B * int (length ks) < 2 ^ 51" "length ks < 2 ^ 50"
  shows "GetScore ks ts = GetScore ls ts"
proof -
  have m: "mset ks = mset ls" using assms(3,4) by (rule enumerates_mset)
  then have l: "length ls = length ks" by (metis size_mset)
  have "sum_list (map (score_part ts) ks) = sum_list (map (score_part ts) ls)"
    using m by (metis mset_map sum_mset_sum_list)
  moreover have "ks = [] \<longleftrightarrow> ls = []" using l by auto
  ultimately show ?thesis
    using GetScore_value [OF assms(1) assms(2) [rule_format] assms(3,5,6)]
      GetScore_value [OF assms(1) assms(2) [rule_format] assms(4)] assms(5,6) l by simp
qed

theorem GetScore_order_witness:
  "GetScore [''a'', ''b''] \<lparr>Routes = [''a'' \<mapsto> zero_RouteStats, ''b'' \<mapsto> zero_RouteStats\<lparr>MedianTime := 7\<rparr>]\<rparr> =
   GetScore [''b'', ''a''] \<lparr>Routes = [''a'' \<mapsto> zero_RouteStats, ''b'' \<mapsto> zero_RouteStats\<lparr>MedianTime := 7\<rparr>]\<rparr>"
proof (rule GetScore_order [where B = 7])
  have "(7::real) \<in> halves 7" "(0::real) \<in> halves 7" using halves_int [of 7 7] halves_0 [of 7] by simp_all
  then show "\<forall>k s. Routes \<lparr>Routes = [''a'' \<mapsto> zero_RouteStats, ''b'' \<mapsto> zero_RouteStats\<lparr>MedianTime := 7\<rparr>]\<rparr> k = Some s \<longrightarrow> results_ok 7 s"
    by (auto simp: results_ok_def zero_RouteStats_def)
qed (auto simp: enumerates_def)

end
