(* ===== verification/Parse_Results.thy ===== *)
theory Parse_Results
  imports Timing_Stats "HOL-Library.List_Lexorder" "HOL-Library.Char_ord"
begin

text \<open>
  The package \<^verbatim>\<open>ltparse\<close> (\<^verbatim>\<open>results.go\<close>, \<^verbatim>\<open>text.go\<close>, \<^verbatim>\<open>markdown.go\<close>) and the command
  \<^verbatim>\<open>cmd/ltparse/results.go\<close>: reading the timings that the instances logged, merging them, and
  printing them, alone or against a baseline.

  The input is what the JSON decoder yields: log records, or an error that ends it. A record has a
  tag, an instance id and the outcome of decoding its timings. The order in which a Go map is
  ranged over is given by two functions, one for maps of routes and one for the map of instances.
  Writing the report is assumed not to fail.
\<close>

datatype json = JNull | JString string | JOther

record log_record =
  log_tag :: json
  log_instance_id :: json
  log_timings :: "ClientTimingStats result"

type_synonym route_order = "(string \<rightharpoonup> RouteStats) \<Rightarrow> string list"
type_synonym instance_order = "(string \<rightharpoonup> ClientTimingStats) \<Rightarrow> string list"

definition merge_in :: "route_order \<Rightarrow> ClientTimingStats option \<Rightarrow> ClientTimingStats option \<Rightarrow> ClientTimingStats option" where
  "merge_in ro x y = MergeStats (ro (routes_of x)) (ro (routes_of y)) x y"

section \<open>\<^verbatim>\<open>results.go\<close>\<close>

definition sortedRoutes :: "route_order \<Rightarrow> (string \<rightharpoonup> RouteStats) \<Rightarrow> RouteStats list" where
  "sortedRoutes ro routesMap = List.map_filter routesMap (sort (ro routesMap))"

text \<open>The loop over the log records: the timings collected per instance, and whether anything was
  read. \<open>None\<close> is the panic of the type assertion on an instance id that is not a string.\<close>

fun parse_loop :: "route_order \<Rightarrow> log_record result list \<Rightarrow> (string \<rightharpoonup> ClientTimingStats) \<Rightarrow> bool \<Rightarrow>
    ((string \<rightharpoonup> ClientTimingStats) \<times> bool) result option" where
  "parse_loop ro [] allTimings found = Some (Inr (allTimings, found))"
| "parse_loop ro (Inl err # rest) allTimings found = Some (Inl (''failed to decode: '' @ err))"
| "parse_loop ro (Inr rec # rest) allTimings found =
     (if log_tag rec = JString ''timings''
      then (case log_timings rec of
              Inl _ \<Rightarrow> parse_loop ro rest allTimings True
            | Inr timings \<Rightarrow>
                (case (case log_instance_id rec of JNull \<Rightarrow> Some [] | JString s \<Rightarrow> Some s | JOther \<Rightarrow> None) of
                   None \<Rightarrow> None
                 | Some s \<Rightarrow>
                     (let instanceId = (if s = [] then ''default'' else s) in
                      case merge_in ro (allTimings instanceId) (Some timings) of
                        None \<Rightarrow> None
                      | Some t \<Rightarrow> parse_loop ro rest (allTimings(instanceId \<mapsto> t)) True)))
      else parse_loop ro rest allTimings True)"

definition parseTimings :: "route_order \<Rightarrow> instance_order \<Rightarrow> log_record result list \<Rightarrow> ClientTimingStats list result option" where
  "parseTimings ro io input =
     (case parse_loop ro input Map.empty False of
        None \<Rightarrow> None
      | Some (Inl err) \<Rightarrow> Some (Inl err)
      | Some (Inr (allTimings, foundStructuredLogs)) \<Rightarrow>
          (if \<not> foundStructuredLogs then Some (Inl ''failed to find structured logs'')
           else if allTimings = Map.empty then Some (Inl ''failed to find results'')
           else Some (Inr (List.map_filter allTimings (io allTimings)))))"

text \<open>The two merge loops. The second one is as the code has it: it assigns
  \<open>timings.Merge(t)\<close>, not \<open>baselineTimings.Merge(t)\<close>.\<close>

fun aggregate_loop :: "route_order \<Rightarrow> ClientTimingStats option \<Rightarrow> ClientTimingStats list \<Rightarrow> ClientTimingStats option option" where
  "aggregate_loop ro timings [] = Some timings"
| "aggregate_loop ro timings (t # ts) =
     (case merge_in ro timings (Some t) of
        None \<Rightarrow> None
      | Some z \<Rightarrow> aggregate_loop ro (Some z) ts)"

fun baseline_loop :: "route_order \<Rightarrow> ClientTimingStats option \<Rightarrow> ClientTimingStats option \<Rightarrow> ClientTimingStats list \<Rightarrow> ClientTimingStats option option" where
  "baseline_loop ro timings baselineTimings [] = Some baselineTimings"
| "baseline_loop ro timings baselineTimings (t # ts) =
     (case merge_in ro timings (Some t) of
        None \<Rightarrow> None
      | Some z \<Rightarrow> baseline_loop ro timings (Some z) ts)"

section \<open>Formatting\<close>

text \<open>\<^verbatim>\<open>%.2f\<close> rounds the exact value to two decimals, ties to even; \<^verbatim>\<open>%+0.2f\<close> writes the sign.
  The default format of a float (\<^verbatim>\<open>%v\<close>, the shortest decimal that reads back) is a parameter.\<close>

definition pad2 :: "int \<Rightarrow> string" where
  "pad2 n = (if n < 10 then ''0'' @ itoa n else itoa n)"

definition fixed2_abs :: "real \<Rightarrow> string" where
  "fixed2_abs x = (let n = round_half_even (\<bar>x\<bar> * 100) in itoa (n div 100) @ ''.'' @ pad2 (n mod 100))"

definition fixed2 :: "real \<Rightarrow> string" where
  "fixed2 x = (if x < 0 then ''-'' @ fixed2_abs x else fixed2_abs x)"

definition signed2 :: "real \<Rightarrow> string" where
  "signed2 x = (if x < 0 then ''-'' @ fixed2_abs x else ''+'' @ fixed2_abs x)"

definition percent :: "real \<Rightarrow> string" where
  "percent x = fixed2 (f64 (x * 100)) @ ''%''"

definition compareInt64 :: "int \<Rightarrow> int \<Rightarrow> string" where
  "compareInt64 a b =
     (let delta = a - b in if delta = 0 then ''0'' else if delta < 0 then itoa delta else ''+'' @ itoa delta)"

definition compareFloat64 :: "real \<Rightarrow> real \<Rightarrow> string" where
  "compareFloat64 a b = (let delta = f64 (a - b) in if delta = 0 then ''0'' else signed2 delta)"

definition comparePercentageInt64 :: "int \<Rightarrow> int \<Rightarrow> string" where
  "comparePercentageInt64 a b =
     (let delta = a - b in
      if delta = 0 then ''0%''
      else if b > 0 then signed2 (f64 (f64 (f64 (of_int delta) / f64 (of_int b)) * 100)) @ ''%''
      else ''-'')"

definition comparePercentageFloat64 :: "real \<Rightarrow> real \<Rightarrow> string" where
  "comparePercentageFloat64 a b =
     (let delta = f64 (a - b) in
      if delta = 0 then ''0%''
      else if b > 0 then signed2 (f64 (f64 (delta / b) * 100)) @ ''%''
      else ''-'')"

definition nl :: string where "nl = [CHR 0x0A]"

definition lines_of :: "string list list \<Rightarrow> string" where
  "lines_of ls = concat (map (\<lambda>l. concat l @ nl) ls)"

definition singleTimingSummaryMarkdown :: "real \<Rightarrow> string" where
  "singleTimingSummaryMarkdown score = lines_of
     [[''## Loadtest Results''],
      [''### Score: '', fixed2 score],
      [''The score is the average of the 95th percentile, median and interquartile ranges in the routes below.''],
      [],
      [''### Routes'']]"

definition singleTimingTemplate :: "(real \<Rightarrow> string) \<Rightarrow> RouteStats \<Rightarrow> bool \<Rightarrow> string" where
  "singleTimingTemplate v a verbose = lines_of (
     [[''#### '', Name a],
      [''| Metric | Actual |''],
      [''| --- | --- |''],
      [''| Hits | '', itoa (NumHits a), '' |''],
      [''| Error Rate | '', percent (ErrorRate a), '' |''],
      [''| Mean Response Time | '', fixed2 (MeanTime a), ''ms |''],
      [''| Median Response Time | '', fixed2 (MedianTime a), ''ms |''],
      [''| 95th Percentile | '', fixed2 (Percentile95 a), ''ms |'']] @
     (if verbose then
     [[''| 90th Percentile | '', fixed2 (Percentile90 a), ''ms |''],
      [''| Max Response Time | '', v (MaxTime a), ''ms |''],
      [''| Min Response Time | '', v (MinTime a), ''ms |''],
      [''| Inter Quartile Range | '', v (InterQuartileRange a), '' |''],
      []] else [[]]))"

definition comparisonTimingSummaryMarkdown :: "real \<Rightarrow> real \<Rightarrow> string" where
  "comparisonTimingSummaryMarkdown score baseline = lines_of
     [[''## Loadtest Results''],
      [''### Score: '', fixed2 score, '' ('', compareFloat64 score baseline, '', relative to baseline)''],
      [''The score is the average of the 95th percentile, median and interquartile ranges in the routes below.''],
      [],
      [''### Routes'']]"

definition comparison_row :: "string \<Rightarrow> string \<Rightarrow> string \<Rightarrow> string \<Rightarrow> string \<Rightarrow> string list" where
  "comparison_row metric b a delta pct =
     [''| '', metric, '' | '', b, '' | '', a, '' | '', delta, '' | '', pct, '' |'']"

definition comparisonTimingTemplate :: "(real \<Rightarrow> string) \<Rightarrow> RouteStats \<Rightarrow> RouteStats \<Rightarrow> bool \<Rightarrow> string" where
  "comparisonTimingTemplate v a b verbose = lines_of (
     [[''#### '', Name a],
      [''| Metric | Baseline | Actual | Delta | Delta % |''],
      [''| --- | --- | --- | --- | --- |''],
      [''| Hits | '', itoa (NumHits b), '' | '', itoa (NumHits a), '' | '', compareInt64 (NumHits a) (NumHits b),
         '' | '', comparePercentageInt64 (NumHits a) (NumHits b)],
      comparison_row ''Error Rate'' (percent (ErrorRate b)) (percent (ErrorRate a))
        (comparePercentageFloat64 (ErrorRate a) (ErrorRate b)) (comparePercentageFloat64 (ErrorRate a) (ErrorRate b)),
      comparison_row ''Mean Response Time'' (fixed2 (MeanTime b) @ ''ms'') (fixed2 (MeanTime a) @ ''ms'')
        (compareFloat64 (MeanTime a) (MeanTime b) @ ''ms'') (comparePercentageFloat64 (MeanTime a) (MeanTime b)),
      comparison_row ''Median Response Time'' (fixed2 (MedianTime b) @ ''ms'') (fixed2 (MedianTime a) @ ''ms'')
        (compareFloat64 (MedianTime a) (MedianTime b) @ ''ms'') (comparePercentageFloat64 (MedianTime a) (MedianTime b)),
      comparison_row ''95th Percentile'' (fixed2 (Percentile95 b) @ ''ms'') (fixed2 (Percentile95 a) @ ''ms'')
        (compareFloat64 (Percentile95 a) (Percentile95 b) @ ''ms'') (comparePercentageFloat64 (Percentile95 a) (Percentile95 b))] @
     (if verbose then
     [comparison_row ''90th Percentile'' (fixed2 (Percentile90 b) @ ''ms'') (fixed2 (Percentile90 a) @ ''ms'')
        (compareFloat64 (Percentile90 a) (Percentile90 b) @ ''ms'') (comparePercentageFloat64 (Percentile90 a) (Percentile90 b)),
      comparison_row ''Max Response Time'' (v (MaxTime b) @ ''ms'') (v (MaxTime a) @ ''ms'')
        (compareFloat64 (MaxTime a) (MaxTime b) @ ''ms'') (comparePercentageFloat64 (MaxTime a) (MaxTime b)),
      comparison_row ''Min Response Time'' (v (MinTime b) @ ''ms'') (v (MinTime a) @ ''ms'')
        (compareFloat64 (MinTime a) (MinTime b) @ ''ms'') (comparePercentageFloat64 (MinTime a) (MinTime b)),
      comparison_row ''Inter Quartile Range'' (v (InterQuartileRange b)) (v (InterQuartileRange a))
        (compareFloat64 (InterQuartileRange a) (InterQuartileRange b) @ ''ms'')
        (comparePercentageFloat64 (InterQuartileRange a) (InterQuartileRange b)),
      []] else [[]]))"

definition comparisonTimingWithoutBaselineTemplate :: "(real \<Rightarrow> string) \<Rightarrow> RouteStats \<Rightarrow> bool \<Rightarrow> string" where
  "comparisonTimingWithoutBaselineTemplate v a verbose = lines_of (
     [[''#### '', Name a],
      [''| Metric | Baseline | Actual | Delta |''],
      [''| --- | --- | --- | --- |''],
      [''| Hits | - | '', itoa (NumHits a), '' | - |''],
      [''| Error Rate | - | '', percent (ErrorRate a), '' | - |''],
      [''| Mean Response Time | - | '', fixed2 (MeanTime a), ''ms | - |''],
      [''| Median Response Time | - | '', fixed2 (MedianTime a), ''ms | - |''],
      [''| 95th Percentile | - | '', fixed2 (Percentile95 a), ''ms | - |'']] @
     (if verbose then
     [[''| 90th Percentile | - | '', fixed2 (Percentile90 a), ''ms | - |''],
      [''| Max Response Time | - | '', v (MaxTime a), ''ms | - |''],
      [''| Min Response Time | - | '', v (MinTime a), ''ms | - |''],
      [''| Inter Quartile Range | - | '', v (InterQuartileRange a), '' | - |''],
      []] else [[]]))"

section \<open>\<^verbatim>\<open>markdown.go\<close> and \<^verbatim>\<open>text.go\<close>\<close>

definition dumpSingleTimingsMarkdown :: "(real \<Rightarrow> string) \<Rightarrow> route_order \<Rightarrow> ClientTimingStats \<Rightarrow> bool \<Rightarrow> string" where
  "dumpSingleTimingsMarkdown v ro timings verbose =
     singleTimingSummaryMarkdown (GetScore (ro (Routes timings)) timings) @
     concat (map (\<lambda>route. singleTimingTemplate v route verbose) (sortedRoutes ro (Routes timings)))"

definition dumpComparisonTimingsMarkdown :: "(real \<Rightarrow> string) \<Rightarrow> route_order \<Rightarrow> ClientTimingStats \<Rightarrow> ClientTimingStats \<Rightarrow> bool \<Rightarrow> string" where
  "dumpComparisonTimingsMarkdown v ro timings baseline verbose =
     comparisonTimingSummaryMarkdown (GetScore (ro (Routes timings)) timings) (GetScore (ro (Routes baseline)) baseline) @
     concat (map (\<lambda>route. case Routes baseline (Name route) of
                    None \<Rightarrow> comparisonTimingWithoutBaselineTemplate v route verbose
                  | Some baselineRoute \<Rightarrow> comparisonTimingTemplate v route baselineRoute verbose)
       (sortedRoutes ro (Routes timings)))"

definition dumpTimingsMarkdown :: "(real \<Rightarrow> string) \<Rightarrow> route_order \<Rightarrow> ClientTimingStats \<Rightarrow> ClientTimingStats option \<Rightarrow> bool \<Rightarrow> string" where
  "dumpTimingsMarkdown v ro timings baselineTimings verbose =
     (case baselineTimings of
        None \<Rightarrow> dumpSingleTimingsMarkdown v ro timings verbose
      | Some b \<Rightarrow> dumpComparisonTimingsMarkdown v ro timings b verbose)"

definition text_template :: "(real \<Rightarrow> string) \<Rightarrow> RouteStats \<Rightarrow> bool \<Rightarrow> string" where
  "text_template v a verbose = lines_of (
     [[''Total Hits: '', itoa (NumHits a)],
      [''Error Rate: '', percent (ErrorRate a)],
      [''Mean Response Time: '', fixed2 (MeanTime a), ''ms''],
      [''Median Response Time: '', fixed2 (MedianTime a), ''ms''],
      [''95th Percentile: '', fixed2 (Percentile95 a), ''ms'']] @
     (if verbose then
     [[''90th Percentile: '', fixed2 (Percentile90 a), ''ms''],
      [''Max Response Time: '', v (MaxTime a), ''ms''],
      [''Min Response Time: '', v (MinTime a), ''ms''],
      [''Inter Quartile Range: '', v (InterQuartileRange a)],
      []] else [[]]))"

definition dumpTimingsText :: "(real \<Rightarrow> string) \<Rightarrow> route_order \<Rightarrow> ClientTimingStats \<Rightarrow> bool \<Rightarrow> string" where
  "dumpTimingsText v ro timings verbose =
     ''--------- Timings Report ------------'' @ nl @
     concat (map (\<lambda>route. ''Route: '' @ Name route @ nl @ text_template v route verbose)
       (sortedRoutes ro (Routes timings))) @
     ''Score: '' @ fixed2 (GetScore (ro (Routes timings)) timings) @ nl"

section \<open>\<open>ParseResults\<close>\<close>

record ResultsConfig =
  Input :: "log_record result list"
  BaselineInput :: "log_record result list option"
  Display :: string
  Aggregate :: bool
  Verbose :: bool

definition select_timings :: "route_order \<Rightarrow> bool \<Rightarrow> ClientTimingStats list \<Rightarrow> ClientTimingStats option option" where
  "select_timings ro aggregate allTimings =
     (if \<not> aggregate then map_option Some (go_nth allTimings (int (length allTimings) - 1))
      else aggregate_loop ro None allTimings)"

definition select_baseline :: "route_order \<Rightarrow> bool \<Rightarrow> ClientTimingStats option \<Rightarrow> ClientTimingStats list \<Rightarrow> ClientTimingStats option option" where
  "select_baseline ro aggregate timings allBaselineTimings =
     (if length allBaselineTimings > 0
      then (if \<not> aggregate then map_option Some (go_nth allBaselineTimings (int (length allBaselineTimings) - 1))
            else baseline_loop ro timings None allBaselineTimings)
      else Some None)"

definition ParseResults :: "(real \<Rightarrow> string) \<Rightarrow> route_order \<Rightarrow> instance_order \<Rightarrow> ResultsConfig \<Rightarrow> string result option" where
  "ParseResults v ro io config =
     (case parseTimings ro io (Input config) of
        None \<Rightarrow> None
      | Some (Inl err) \<Rightarrow> Some (Inl err)
      | Some (Inr allTimings) \<Rightarrow>
          (case (case BaselineInput config of None \<Rightarrow> Some (Inr []) | Some input \<Rightarrow> parseTimings ro io input) of
             None \<Rightarrow> None
           | Some (Inl err) \<Rightarrow> Some (Inl err)
           | Some (Inr allBaselineTimings) \<Rightarrow> do {
               timings \<leftarrow> select_timings ro (Aggregate config) allTimings;
               baselineTimings \<leftarrow> select_baseline ro (Aggregate config) timings allBaselineTimings;
               t \<leftarrow> timings;
               t \<leftarrow> CalcAllResults (ro (Routes t)) t;
               b \<leftarrow> (case baselineTimings of
                      None \<Rightarrow> Some None
                    | Some b \<Rightarrow> map_option Some (CalcAllResults (ro (Routes b)) b));
               (if Display config = ''markdown''
                then Some (Inr (dumpTimingsMarkdown v ro t b (Verbose config)))
                else if Display config = ''text'' \<and> length allBaselineTimings > 0
                then Some (Inl ''cannot compare to baseline using text display'')
                else Some (Inr (dumpTimingsText v ro t (Verbose config))))
             }))"

text \<open>The command: the flag is checked before any file is opened.\<close>

definition resultsCmd ::
  "(real \<Rightarrow> string) \<Rightarrow> route_order \<Rightarrow> instance_order \<Rightarrow> (string \<Rightarrow> log_record result list result) \<Rightarrow> log_record result list \<Rightarrow>
   string \<Rightarrow> bool \<Rightarrow> string \<Rightarrow> string \<Rightarrow> bool \<Rightarrow> string result option" where
  "resultsCmd v ro io open_file stdin display aggregate inputFilename baselineFilename verbose =
     (if \<not> (display = ''text'' \<or> display = ''markdown'')
      then Some (Inl (''unexpected --display flag: '' @ display))
      else
       (case (if inputFilename = [] then Inr stdin else open_file inputFilename) of
          Inl err \<Rightarrow> Some (Inl (''failed to open structured log file: '' @ err))
        | Inr inp \<Rightarrow>
            (case (if baselineFilename = [] then Inr None
                   else (case open_file baselineFilename of Inl err \<Rightarrow> Inl err | Inr f \<Rightarrow> Inr (Some f))) of
               Inl err \<Rightarrow> Some (Inl (''failed to open structured log file: '' @ err))
             | Inr base \<Rightarrow> ParseResults v ro io
                 \<lparr>Input = inp, BaselineInput = base, Display = display, Aggregate = aggregate, Verbose = verbose\<rparr>)))"

section \<open>Merging logged timings\<close>

definition ro_ok :: "route_order \<Rightarrow> bool" where
  "ro_ok ro \<longleftrightarrow> (\<forall>m. finite (dom m) \<longrightarrow> enumerates (ro m) m)"

definition io_ok :: "instance_order \<Rightarrow> bool" where
  "io_ok io \<longleftrightarrow> (\<forall>m. finite (dom m) \<longrightarrow> enumerates (io m) m)"

text \<open>A measured set of statistics: its counts are consistent and it has finitely many routes.\<close>

definition measured :: "int \<Rightarrow> ClientTimingStats \<Rightarrow> bool" where
  "measured B t \<longleftrightarrow> stats_ok B t \<and> finite (dom (Routes t))"

definition summarised :: "int \<Rightarrow> ClientTimingStats \<Rightarrow> bool" where
  "summarised B t \<longleftrightarrow> (\<forall>k s. Routes t k = Some s \<longrightarrow> results_ok B s)"

lemma routes_of_simps [simp]: "routes_of None = Map.empty" "routes_of (Some t) = Routes t"
  by (simp_all add: routes_of_def)

lemma size_durations: "size (durations k t) = (case Routes t k of None \<Rightarrow> 0 | Some s \<Rightarrow> length (Duration s))"
  by (simp add: durations_def split: option.splits)

lemma merge_in_total:
  assumes "ro_ok ro" "pred_option (measured B) x" "measured B t" "0 \<le> B" "B < 2 ^ 50"
    and "\<And>k. (case x of None \<Rightarrow> 0 | Some a \<Rightarrow> size (durations k a)) < 2 ^ 49" "\<And>k. size (durations k t) < 2 ^ 49"
  shows "\<exists>z. merge_in ro x (Some t) = Some z \<and> measured B z \<and> summarised B z \<and> merged_stats x (Some t) z"
proof -
  have f: "finite (dom (routes_of x))" "finite (dom (routes_of (Some t)))"
    using assms(2,3) by (cases x; simp add: measured_def)+
  then have e: "enumerates (ro (routes_of x)) (routes_of x)" "enumerates (ro (routes_of (Some t))) (routes_of (Some t))"
    using assms(1) by (simp_all only: ro_ok_def)
  have "pred_option (stats_ok B) x" "pred_option (stats_ok B) (Some t)"
    using assms(2,3) by (cases x; simp add: measured_def)+
  moreover have "\<forall>k s. routes_of x k = Some s \<longrightarrow> length (Duration s) < 2 ^ 49"
  proof (intro allI impI)
    fix k s assume "routes_of x k = Some s"
    then show "length (Duration s) < 2 ^ 49" using assms(6) [of k] by (cases x) (auto simp: size_durations)
  qed
  moreover have "\<forall>k s. routes_of (Some t) k = Some s \<longrightarrow> length (Duration s) < 2 ^ 49"
  proof (intro allI impI)
    fix k s assume "routes_of (Some t) k = Some s"
    then show "length (Duration s) < 2 ^ 49" using assms(7) [of k] by (auto simp: size_durations)
  qed
  ultimately obtain z where z: "MergeStats (ro (routes_of x)) (ro (routes_of (Some t))) x (Some t) = Some z"
    "stats_ok B z" "\<And>k. Routes z k = None \<longleftrightarrow> routes_of x k = None \<and> routes_of (Some t) k = None"
    "\<And>k r. Routes z k = Some r \<Longrightarrow> results_ok B r"
    using MergeStats_adds [OF _ _ assms(4,5) _ _ e] by blast
  have "dom (Routes z) \<subseteq> dom (routes_of x) \<union> dom (routes_of (Some t))"
  proof
    fix k assume "k \<in> dom (Routes z)"
    then show "k \<in> dom (routes_of x) \<union> dom (routes_of (Some t))" using z(3) [of k] by (auto simp: domIff)
  qed
  then have "finite (dom (Routes z))" using f by (meson finite_UnI finite_subset)
  then show ?thesis using z e by (auto simp: merge_in_def measured_def summarised_def merged_stats_def)
qed

text \<open>The timings a log contributes, and the instance it is counted for.\<close>

definition logged :: "log_record result \<Rightarrow> ClientTimingStats option" where
  "logged x = (case x of Inr rec \<Rightarrow>
       (if log_tag rec = JString ''timings'' then (case log_timings rec of Inr t \<Rightarrow> Some t | Inl _ \<Rightarrow> None) else None)
     | Inl _ \<Rightarrow> None)"

definition logged_timings :: "log_record result list \<Rightarrow> ClientTimingStats list" where
  "logged_timings = List.map_filter logged"

definition well_formed_log :: "int \<Rightarrow> log_record result \<Rightarrow> bool" where
  "well_formed_log B x \<longleftrightarrow> (case x of Inl _ \<Rightarrow> False
     | Inr rec \<Rightarrow> log_instance_id rec \<noteq> JOther \<and> pred_option (measured B) (logged x))"

lemma logged_timings_simps [simp]:
  "logged_timings [] = []"
  "logged_timings (x # xs) = (case logged x of None \<Rightarrow> logged_timings xs | Some t \<Rightarrow> t # logged_timings xs)"
  by (simp_all add: logged_timings_def List.map_filter_simps split: option.splits)

text \<open>Summing a measure over the instances collected so far.\<close>

definition total_of :: "(ClientTimingStats \<Rightarrow> 'm :: comm_monoid_add) \<Rightarrow> (string \<rightharpoonup> ClientTimingStats) \<Rightarrow> 'm" where
  "total_of f m = (\<Sum>i \<in> dom m. f (the (m i)))"

lemma total_of_upd:
  assumes "finite (dom m)"
    and "f z = (case m i of None \<Rightarrow> 0 | Some a \<Rightarrow> f a) + d"
  shows "total_of f (m(i \<mapsto> z)) = total_of f m + d"
proof -
  have "total_of f (m(i \<mapsto> z)) = f z + (\<Sum>j \<in> dom m - {i}. f (the (m j)))"
  proof -
    have d: "dom (m(i \<mapsto> z)) = insert i (dom m - {i})" by auto
    have "(\<Sum>j \<in> dom m - {i}. f (the ((m(i \<mapsto> z)) j))) = (\<Sum>j \<in> dom m - {i}. f (the (m j)))"
      by (intro sum.cong) auto
    then show ?thesis unfolding total_of_def d using assms(1) by (subst sum.insert) auto
  qed
  moreover have "total_of f m = (case m i of None \<Rightarrow> 0 | Some a \<Rightarrow> f a) + (\<Sum>j \<in> dom m - {i}. f (the (m j)))"
  proof (cases "m i")
    case None
    then have "dom m - {i} = dom m" by auto
    then show ?thesis using None by (simp add: total_of_def)
  next
    case (Some a)
    then show ?thesis unfolding total_of_def using assms(1) by (subst sum.remove [of _ i]) auto
  qed
  ultimately show ?thesis using assms(2) by (simp add: ac_simps)
qed

lemma total_of_ge: "finite (dom m) \<Longrightarrow> m i = Some a \<Longrightarrow> f a \<le> (total_of f m :: nat)"
  unfolding total_of_def by (metis domI member_le_sum option.sel zero_le)

lemma total_of_list:
  "enumerates ks m \<Longrightarrow> sum_list (map f (List.map_filter m ks)) = total_of f m"
proof -
  assume e: "enumerates ks m"
  have "sum_list (map f (List.map_filter m ks)) = sum_list (map (\<lambda>i. f (the (m i))) ks)"
    if "set ks \<subseteq> dom m" using that by (induction ks) (auto simp: List.map_filter_simps)
  then show ?thesis using e by (simp add: enumerates_def total_of_def sum_list_distinct_conv_sum_set)
qed

abbreviation sizes :: "string \<Rightarrow> ClientTimingStats \<Rightarrow> nat" where
  "sizes k t \<equiv> size (durations k t)"

interpretation sizes: measured_merge merged_stats "sizes k" for k
  by unfold_locales (drule durations.merge_adds [of _ _ _ k], auto split: option.splits)

text \<open>The parsing loop on well-formed logs: it returns, and any measure that merging adds up is
  added up over the logs.\<close>

lemma parse_loop_total:
  assumes "ro_ok ro" "0 \<le> B" "B < 2 ^ 50" "\<forall>x \<in> set input. well_formed_log B x"
    and "finite (dom m)" "\<forall>i t. m i = Some t \<longrightarrow> measured B t \<and> summarised B t"
    and "\<And>k. total_of (sizes k) m + sum_list (map (sizes k) (logged_timings input)) < 2 ^ 49"
  shows "\<exists>m'. parse_loop ro input m found = Some (Inr (m', found \<or> input \<noteq> [])) \<and> finite (dom m') \<and>
     (\<forall>i t. m' i = Some t \<longrightarrow> measured B t \<and> summarised B t) \<and> (m' = Map.empty \<longleftrightarrow> m = Map.empty \<and> logged_timings input = []) \<and>
     (\<forall>k. total_of (hits k) m' = total_of (hits k) m + sum_list (map (hits k) (logged_timings input)) \<and>
          total_of (errors k) m' = total_of (errors k) m + sum_list (map (errors k) (logged_timings input)) \<and>
          total_of (durations k) m' = total_of (durations k) m + sum_list (map (durations k) (logged_timings input)) \<and>
          total_of (sizes k) m' = total_of (sizes k) m + sum_list (map (sizes k) (logged_timings input)))"
  using assms(4-)
proof (induction input arbitrary: m found)
  case Nil
  then show ?case by simp
next
  case (Cons x input)
  obtain rec where x: "x = Inr rec" "log_instance_id rec \<noteq> JOther" "pred_option (measured B) (logged x)"
    using Cons.prems(1) by (cases x) (auto simp: well_formed_log_def)
  show ?case
  proof (cases "logged x")
    case None
    then have "parse_loop ro (x # input) m found = parse_loop ro input m True"
      using x by (auto simp: logged_def split: if_splits sum.splits)
    moreover have "\<exists>m'. parse_loop ro input m True = Some (Inr (m', True \<or> input \<noteq> [])) \<and> finite (dom m') \<and>
       (\<forall>i t. m' i = Some t \<longrightarrow> measured B t \<and> summarised B t) \<and> (m' = Map.empty \<longleftrightarrow> m = Map.empty \<and> logged_timings input = []) \<and>
       (\<forall>k. total_of (hits k) m' = total_of (hits k) m + sum_list (map (hits k) (logged_timings input)) \<and>
            total_of (errors k) m' = total_of (errors k) m + sum_list (map (errors k) (logged_timings input)) \<and>
            total_of (durations k) m' = total_of (durations k) m + sum_list (map (durations k) (logged_timings input)) \<and>
            total_of (sizes k) m' = total_of (sizes k) m + sum_list (map (sizes k) (logged_timings input)))"
      using Cons.prems None by (intro Cons.IH) auto
    ultimately show ?thesis using None by simp
  next
    case (Some t)
    have tag: "log_tag rec = JString ''timings''" "log_timings rec = Inr t"
      using Some x(1) by (auto simp: logged_def split: if_splits sum.splits)
    obtain s where s: "(case log_instance_id rec of JNull \<Rightarrow> Some [] | JString s \<Rightarrow> Some s | JOther \<Rightarrow> None) = Some s"
      using x(2) by (cases "log_instance_id rec") auto
    define i where "i = (if s = [] then ''default'' else s)"
    have t: "measured B t" using x(3) Some by simp
    have b: "sizes k t + total_of (sizes k) m < 2 ^ 49" for k
      using Cons.prems(4) [of k] Some by simp
    have mi: "(case m i of None \<Rightarrow> 0 | Some a \<Rightarrow> sizes k a) \<le> total_of (sizes k) m" for k
      using total_of_ge [OF Cons.prems(2)] by (auto split: option.splits)
    have pm: "pred_option (measured B) (m i)" using Cons.prems(3) by (cases "m i") auto
    have "(case m i of None \<Rightarrow> 0 | Some a \<Rightarrow> sizes k a) < 2 ^ 49" for k using mi [of k] b [of k] by linarith
    moreover have "sizes k t < 2 ^ 49" for k using b [of k] by linarith
    ultimately obtain z where z: "merge_in ro (m i) (Some t) = Some z" "measured B z" "summarised B z" "merged_stats (m i) (Some t) z"
      using merge_in_total [OF assms(1) pm t assms(2,3)] by blast
    have p: "parse_loop ro (x # input) m found = parse_loop ro input (m(i \<mapsto> z)) True"
      using x(1) tag s z(1) by (simp add: i_def)
    have up: "total_of (hits k) (m(i \<mapsto> z)) = total_of (hits k) m + hits k t"
      "total_of (errors k) (m(i \<mapsto> z)) = total_of (errors k) m + errors k t"
      "total_of (durations k) (m(i \<mapsto> z)) = total_of (durations k) m + durations k t"
      "total_of (sizes k) (m(i \<mapsto> z)) = total_of (sizes k) m + sizes k t" for k
      using hits.merge_adds [OF z(4), of k] errors.merge_adds [OF z(4), of k]
        durations.merge_adds [OF z(4), of k] sizes.merge_adds [OF z(4), of k]
      by (intro total_of_upd [OF Cons.prems(2)]; simp)+
    have "\<exists>m'. parse_loop ro input (m(i \<mapsto> z)) True = Some (Inr (m', True \<or> input \<noteq> [])) \<and> finite (dom m') \<and>
       (\<forall>i t. m' i = Some t \<longrightarrow> measured B t \<and> summarised B t) \<and> (m' = Map.empty \<longleftrightarrow> m(i \<mapsto> z) = Map.empty \<and> logged_timings input = []) \<and>
       (\<forall>k. total_of (hits k) m' = total_of (hits k) (m(i \<mapsto> z)) + sum_list (map (hits k) (logged_timings input)) \<and>
            total_of (errors k) m' = total_of (errors k) (m(i \<mapsto> z)) + sum_list (map (errors k) (logged_timings input)) \<and>
            total_of (durations k) m' = total_of (durations k) (m(i \<mapsto> z)) + sum_list (map (durations k) (logged_timings input)) \<and>
            total_of (sizes k) m' = total_of (sizes k) (m(i \<mapsto> z)) + sum_list (map (sizes k) (logged_timings input)))"
    proof (rule Cons.IH)
      show "finite (dom (m(i \<mapsto> z)))" using Cons.prems(2) by (simp only: dom_fun_upd) simp
      fix k
      show "total_of (sizes k) (m(i \<mapsto> z)) + sum_list (map (sizes k) (logged_timings input)) < 2 ^ 49"
        unfolding up using Cons.prems(4) [of k] Some by (simp add: add.assoc)
    qed (use Cons.prems z in auto)
    then show ?thesis unfolding p up using Some by (auto simp: add.assoc)
  qed
qed

lemma aggregate_loop_total:
  assumes "ro_ok ro" "0 \<le> B" "B < 2 ^ 50" "\<forall>t \<in> set ts. measured B t" "pred_option (measured B) x"
    and "\<And>k. (case x of None \<Rightarrow> 0 | Some a \<Rightarrow> sizes k a) + sum_list (map (sizes k) ts) < 2 ^ 49"
  shows "\<exists>r. aggregate_loop ro x ts = Some r \<and> fold_rel merged_stats x ts r \<and> (r = None \<longleftrightarrow> x = None \<and> ts = []) \<and>
    (\<forall>t. r = Some t \<longrightarrow> ts \<noteq> [] \<longrightarrow> measured B t \<and> summarised B t)"
  using assms(4-)
proof (induction ts arbitrary: x)
  case Nil
  then show ?case by (auto intro: fold_rel.Nil)
next
  case (Cons t ts)
  have b: "(case x of None \<Rightarrow> 0 | Some a \<Rightarrow> sizes k a) + sizes k t + sum_list (map (sizes k) ts) < 2 ^ 49" for k
    using Cons.prems(3) [of k] by (simp add: add.assoc)
  have b': "(case x of None \<Rightarrow> 0 | Some a \<Rightarrow> sizes k a) < 2 ^ 49 \<and> sizes k t < 2 ^ 49" for k
    using b [of k] by linarith
  obtain z where z: "merge_in ro x (Some t) = Some z" "measured B z" "summarised B z" "merged_stats x (Some t) z"
    using merge_in_total [OF assms(1) Cons.prems(2) _ assms(2,3) b' [THEN conjunct1] b' [THEN conjunct2]] Cons.prems(1)
    by auto
  have "sizes k z = (case x of None \<Rightarrow> 0 | Some a \<Rightarrow> sizes k a) + sizes k t" for k
    using sizes.merge_adds [OF z(4), of k] by simp
  then have "(case Some z of None \<Rightarrow> 0 | Some a \<Rightarrow> sizes k a) + sum_list (map (sizes k) ts) < 2 ^ 49" for k
    using b [of k] by simp
  then obtain r where r: "aggregate_loop ro (Some z) ts = Some r" "fold_rel merged_stats (Some z) ts r" "r \<noteq> None"
    "\<forall>t. r = Some t \<longrightarrow> ts \<noteq> [] \<longrightarrow> measured B t \<and> summarised B t"
    using Cons.IH [of "Some z"] Cons.prems(1) z(2) by auto
  have "fold_rel merged_stats x (t # ts) r" using z(4) r(2) by (rule fold_rel.Cons)
  moreover have "measured B t' \<and> summarised B t'" if "r = Some t'" for t'
    using that r z by (cases ts) auto
  ultimately show ?case using z(1) r by auto
qed

text \<open>What \<open>parseTimings\<close> returns on well-formed logs with at least one result.\<close>

lemma parseTimings_total:
  assumes "ro_ok ro" "io_ok io" "0 \<le> B" "B < 2 ^ 50" "\<forall>x \<in> set input. well_formed_log B x"
    and "\<And>k. sum_list (map (sizes k) (logged_timings input)) < 2 ^ 49" "logged_timings input \<noteq> []"
  shows "\<exists>ts. parseTimings ro io input = Some (Inr ts) \<and> ts \<noteq> [] \<and> (\<forall>t \<in> set ts. measured B t \<and> summarised B t) \<and>
    (\<forall>k. sum_list (map (hits k) ts) = sum_list (map (hits k) (logged_timings input)) \<and>
         sum_list (map (errors k) ts) = sum_list (map (errors k) (logged_timings input)) \<and>
         sum_list (map (durations k) ts) = sum_list (map (durations k) (logged_timings input)) \<and>
         sum_list (map (sizes k) ts) = sum_list (map (sizes k) (logged_timings input)))"
proof -
  have e': "total_of (hits k) Map.empty = 0" "total_of (errors k) Map.empty = 0" "total_of (durations k) Map.empty = 0"
    "total_of (sizes k) Map.empty = 0" for k by (simp_all add: total_of_def)
  obtain m' where m': "parse_loop ro input Map.empty False = Some (Inr (m', input \<noteq> []))" "finite (dom m')"
    "\<forall>i t. m' i = Some t \<longrightarrow> measured B t \<and> summarised B t" "m' \<noteq> Map.empty"
    "\<And>k. total_of (hits k) m' = sum_list (map (hits k) (logged_timings input)) \<and>
          total_of (errors k) m' = sum_list (map (errors k) (logged_timings input)) \<and>
          total_of (durations k) m' = sum_list (map (durations k) (logged_timings input)) \<and>
          total_of (sizes k) m' = sum_list (map (sizes k) (logged_timings input))"
    using parse_loop_total [OF assms(1,3,4,5), of Map.empty False] assms(6,7) by (auto simp: e')
  have io: "enumerates (io m') m'" using assms(2) m'(2) by (simp add: io_ok_def)
  let ?ts = "List.map_filter m' (io m')"
  have ne: "input \<noteq> []" using assms(7) by auto
  have mem: "\<exists>i. m' i = Some t" if "t \<in> set ?ts" for t
    using that by (auto simp: List.map_filter_def)
  obtain i t where "m' i = Some t" using m'(4) by (metis not_Some_eq)
  then have "t \<in> set ?ts" using io by (force simp: List.map_filter_def enumerates_def)
  then have "?ts \<noteq> []" by auto
  moreover have "parseTimings ro io input = Some (Inr ?ts)" using m'(1,4) ne by (simp add: parseTimings_def)
  moreover have "\<forall>t \<in> set ?ts. measured B t \<and> summarised B t" using mem m'(3) by blast
  ultimately show ?thesis using m'(5) by (intro exI [of _ ?ts]) (simp add: total_of_list [OF io])
qed

lemma merge_in_finite:
  assumes "merge_in ro x y = Some z" "ro_ok ro" "finite (dom (routes_of x))" "finite (dom (routes_of y))"
  shows "finite (dom (Routes z))"
proof -
  have "enumerates (ro (routes_of x)) (routes_of x)" "enumerates (ro (routes_of y)) (routes_of y)"
    using assms(2-4) by (simp_all add: ro_ok_def)
  from MergeStats_route [OF assms(1) [unfolded merge_in_def] this]
  have "dom (Routes z) \<subseteq> dom (routes_of x) \<union> dom (routes_of y)" by (force split: option.splits)
  then show ?thesis using assms(3,4) by (meson finite_UnI finite_subset)
qed

lemma parse_loop_dom:
  "parse_loop ro input m found = Some (Inr (m', found')) \<Longrightarrow> finite (dom m) \<Longrightarrow> finite (dom m')"
proof (induction input arbitrary: m found)
  case (Cons x input)
  show ?case
  proof (cases x)
    case (Inl e)
    then show ?thesis using Cons.prems by simp
  next
    case (Inr rec)
    then show ?thesis using Cons.prems Cons.IH by (force simp: Let_def split: if_splits sum.splits option.splits)
  qed
qed simp

lemma parseTimings_nonempty:
  assumes "io_ok io" "parseTimings ro io input = Some (Inr ts)"
  shows "ts \<noteq> []"
proof -
  obtain m where m: "parse_loop ro input Map.empty False = Some (Inr (m, True))" "m \<noteq> Map.empty"
    "ts = List.map_filter m (io m)"
    using assms(2) by (auto simp: parseTimings_def split: option.splits sum.splits if_splits)
  obtain i t where i: "m i = Some t" using m(2) by (metis not_Some_eq)
  have "finite (dom m)" using parse_loop_dom [OF m(1)] by simp
  then have "i \<in> set (io m)" using assms(1) i by (auto simp: io_ok_def enumerates_def)
  then have "t \<in> set ts" using m(3) i by (force simp: List.map_filter_def)
  then show ?thesis by auto
qed

lemma baseline_loop_last:
  "baseline_loop ro x y (ts @ [t]) = Some r \<Longrightarrow> \<exists>z. r = Some z \<and> merge_in ro x (Some t) = Some z"
  by (induction ts arbitrary: y) (auto split: option.splits dest: sym)

lemma baseline_loop_total:
  assumes "\<And>t. t \<in> set ts \<Longrightarrow> merge_in ro x (Some t) \<noteq> None"
  shows "\<exists>r. baseline_loop ro x y ts = Some r"
  using assms
proof (induction ts arbitrary: y)
  case (Cons t ts)
  then obtain z where "merge_in ro x (Some t) = Some z" by fastforce
  then show ?case using Cons.IH [of "Some z"] Cons.prems by simp
qed simp

section \<open>Properties\<close>

text \<open>C22. Aggregation loses nothing and counts nothing twice: for well-formed logs the aggregate
  exists, and the hits, errors and samples of every route are the sums over all logged results,
  whatever the instances and the map iteration orders.\<close>

theorem aggregate_totals:
  assumes "ro_ok ro" "io_ok io" "0 \<le> B" "B < 2 ^ 50" "\<forall>x \<in> set input. well_formed_log B x"
    and "\<forall>k. sum_list (map (sizes k) (logged_timings input)) < 2 ^ 49" "logged_timings input \<noteq> []"
  shows "\<exists>ts t. parseTimings ro io input = Some (Inr ts) \<and> select_timings ro True ts = Some (Some t) \<and>
    (\<forall>k. hits k t = sum_list (map (hits k) (logged_timings input)) \<and>
         errors k t = sum_list (map (errors k) (logged_timings input)) \<and>
         durations k t = sum_list (map (durations k) (logged_timings input)))"
proof -
  obtain ts where ts: "parseTimings ro io input = Some (Inr ts)" "ts \<noteq> []" "\<forall>t \<in> set ts. measured B t \<and> summarised B t"
    "\<And>k. sum_list (map (hits k) ts) = sum_list (map (hits k) (logged_timings input)) \<and>
         sum_list (map (errors k) ts) = sum_list (map (errors k) (logged_timings input)) \<and>
         sum_list (map (durations k) ts) = sum_list (map (durations k) (logged_timings input)) \<and>
         sum_list (map (sizes k) ts) = sum_list (map (sizes k) (logged_timings input))"
    using parseTimings_total [OF assms(1-5) assms(6) [rule_format] assms(7)] by blast
  have "(case None of None \<Rightarrow> 0 | Some a \<Rightarrow> sizes k a) + sum_list (map (sizes k) ts) < 2 ^ 49" for k
    using ts(4) [of k] assms(6) by simp
  moreover have "\<forall>t \<in> set ts. measured B t" using ts(3) by blast
  ultimately obtain r where r: "aggregate_loop ro None ts = Some r" "fold_rel merged_stats None ts r" "r \<noteq> None"
    using aggregate_loop_total [OF assms(1,3,4), of ts None] ts(2) by auto
  then obtain t where t: "r = Some t" by blast
  have "hits k t = sum_list (map (hits k) ts) \<and> errors k t = sum_list (map (errors k) ts) \<and>
      durations k t = sum_list (map (durations k) ts)" for k
    using hits.fold_adds [OF r(2), of k] errors.fold_adds [OF r(2), of k] durations.fold_adds [OF r(2), of k] t
    by simp
  then show ?thesis using ts(1,4) r(1) t by (auto simp: select_timings_def)
qed

text \<open>C23. In aggregate mode the baseline is not the baseline: each iteration starts again from the
  actual timings, so the result is the actual timings merged with the last of the baselines; for
  every route its hits are those two together, and the other baselines are lost.\<close>

theorem aggregated_baseline_includes_actual:
  assumes "ro_ok ro" "0 \<le> B" "B < 2 ^ 50" "measured B t" "\<forall>b \<in> set (bs @ [b]). measured B b"
    and "\<forall>k. sizes k t < 2 ^ 49" "\<forall>k. \<forall>b \<in> set (bs @ [b]). sizes k b < 2 ^ 49"
  shows "\<exists>z. select_baseline ro True (Some t) (bs @ [b]) = Some (Some z) \<and>
    (\<forall>k. hits k z = hits k t + hits k b \<and> durations k z = durations k t + durations k b)"
proof -
  have m: "\<exists>z. merge_in ro (Some t) (Some c) = Some z \<and> merged_stats (Some t) (Some c) z"
    if "c \<in> set (bs @ [b])" for c
    using merge_in_total [OF assms(1) _ _ assms(2,3), of "Some t" c] that assms(4-) by auto
  then have "merge_in ro (Some t) (Some c) \<noteq> None" if "c \<in> set (bs @ [b])" for c using that by force
  then obtain r where r: "baseline_loop ro (Some t) None (bs @ [b]) = Some r" using baseline_loop_total by blast
  from baseline_loop_last [OF r] m [of b] obtain z where z: "r = Some z" "merged_stats (Some t) (Some b) z" by auto
  have "select_baseline ro True (Some t) (bs @ [b]) = Some (Some z)" using r z(1) by (simp add: select_baseline_def)
  moreover have "hits k z = hits k t + hits k b \<and> durations k z = durations k t + durations k b" for k
    using hits.merge_adds [OF z(2), of k] durations.merge_adds [OF z(2), of k] by simp
  ultimately show ?thesis by blast
qed

text \<open>Small inputs for the witnesses.\<close>

lemma sorted_ro_ok: "ro_ok (\<lambda>m. sorted_list_of_set (dom m))" "io_ok (\<lambda>m. sorted_list_of_set (dom m))"
  by (simp_all add: ro_ok_def io_ok_def enumerates_def)

definition failed_once :: "string \<Rightarrow> ClientTimingStats" where
  "failed_once k = AddRouteSample NewClientTimingStats k 0 500"

lemma failed_once_measures:
  "hits j (failed_once k) = (if j = k then 1 else 0)" "durations j (failed_once k) = {#}"
  by (simp_all add: failed_once_def AddRouteSample_measures)

lemma failed_once_measured: "measured 10 (failed_once k)"
proof -
  have "stats_ok 10 (failed_once k)" unfolding failed_once_def by (intro AddRouteSample_ok) simp_all
  moreover have "finite (dom (Routes (failed_once k)))"
    by (simp add: failed_once_def AddRouteSample_def NewClientTimingStats_def)
  ultimately show ?thesis by (simp add: measured_def)
qed

lemmas failed_once_facts = failed_once_measures failed_once_measured

theorem aggregated_baseline_includes_actual_witness:
  "\<exists>z. select_baseline (\<lambda>m. sorted_list_of_set (dom m)) True (Some (failed_once ''a'')) [failed_once ''b'', failed_once ''c''] = Some (Some z) \<and>
     hits ''a'' z = 1 \<and> hits ''b'' z = 0 \<and> hits ''c'' z = 1"
proof -
  obtain z where z: "select_baseline (\<lambda>m. sorted_list_of_set (dom m)) True (Some (failed_once ''a''))
      ([failed_once ''b''] @ [failed_once ''c'']) = Some (Some z)"
    "\<And>k. hits k z = hits k (failed_once ''a'') + hits k (failed_once ''c'')"
    using aggregated_baseline_includes_actual [OF sorted_ro_ok(1), of 10 "failed_once ''a''" "[failed_once ''b'']" "failed_once ''c''"]
    by (auto simp: failed_once_facts)
  show ?thesis using z(1) by (intro exI [of _ z]) (simp add: z(2) failed_once_measures)
qed

definition log_of :: "ClientTimingStats \<Rightarrow> log_record result" where
  "log_of t = Inr \<lparr>log_tag = JString ''timings'', log_instance_id = JNull, log_timings = Inr t\<rparr>"

lemma log_of_facts [simp]: "logged (log_of t) = Some t" "well_formed_log B (log_of t) \<longleftrightarrow> measured B t"
  by (simp_all add: logged_def log_of_def well_formed_log_def)

theorem aggregate_totals_witness:
  "\<exists>ts t. parseTimings (\<lambda>m. sorted_list_of_set (dom m)) (\<lambda>m. sorted_list_of_set (dom m))
      [log_of (failed_once ''a''), log_of (failed_once ''a'')] = Some (Inr ts) \<and>
     select_timings (\<lambda>m. sorted_list_of_set (dom m)) True ts = Some (Some t) \<and> hits ''a'' t = 2"
proof -
  let ?in = "[log_of (failed_once ''a''), log_of (failed_once ''a'')]"
  obtain ts t where t: "parseTimings (\<lambda>m. sorted_list_of_set (dom m)) (\<lambda>m. sorted_list_of_set (dom m)) ?in = Some (Inr ts)"
    "select_timings (\<lambda>m. sorted_list_of_set (dom m)) True ts = Some (Some t)"
    "\<And>k. hits k t = sum_list (map (hits k) (logged_timings ?in))"
  proof -
    have i1: "\<forall>x \<in> set ?in. well_formed_log 10 x" by (simp add: failed_once_measured)
    have i2: "\<forall>k. sum_list (map (sizes k) (logged_timings ?in)) < 2 ^ 49" by (simp add: failed_once_measures)
    have i3: "logged_timings ?in \<noteq> []" by simp
    show thesis
      by (rule exE [OF aggregate_totals [OF sorted_ro_ok _ _ i1 i2 i3]], simp, simp, elim exE conjE, rule that, assumption, assumption, drule spec, elim conjE, assumption)
  qed
  show ?thesis using t(1,2) by (intro exI [of _ ts] exI [of _ t]) (simp add: t(3) failed_once_measures)
qed

text \<open>Without aggregation the result printed is not the last one logged: for every instance
  that logged timings there is an iteration order of the instance map that selects it.\<close>

theorem last_result_is_arbitrary:
  assumes "parse_loop ro input Map.empty False = Some (Inr (m, True))" "finite (dom m)" "m i = Some t"
  shows "\<exists>io ts. enumerates (io m) m \<and> parseTimings ro io input = Some (Inr ts) \<and>
    select_timings ro False ts = Some (Some t)"
proof -
  obtain ks where ks: "set ks = dom m - {i}" "distinct ks" using finite_distinct_list [OF finite_Diff [OF assms(2)]] by blast
  define io where "io = (\<lambda>_ :: string \<rightharpoonup> ClientTimingStats. ks @ [i])"
  have "insert i (dom m - {i}) = dom m" using domI [of m i t, OF assms(3)] by (rule insert_Diff)
  then have "enumerates (io m) m" using ks by (simp add: io_def enumerates_def)
  moreover have "m \<noteq> Map.empty" using assms(3) by auto
  moreover have "List.map_filter m (io m) = List.map_filter m ks @ [t]"
    using assms(3) by (simp add: io_def List.map_filter_def)
  ultimately have "parseTimings ro io input = Some (Inr (List.map_filter m ks @ [t]))"
    using assms(1) by (simp add: parseTimings_def)
  moreover have "select_timings ro False (List.map_filter m ks @ [t]) = Some (Some t)"
    by (simp add: select_timings_def go_nth_def)
  ultimately show ?thesis using \<open>enumerates (io m) m\<close> by blast
qed

theorem last_result_is_arbitrary_witness:
  "\<exists>m io ts. enumerates (io m) m \<and>
     parseTimings (\<lambda>m. sorted_list_of_set (dom m)) io [log_of (failed_once ''a'')] = Some (Inr ts) \<and>
     select_timings (\<lambda>m. sorted_list_of_set (dom m)) False ts = Some (m ''default'')"
proof -
  let ?ro = "\<lambda>m. sorted_list_of_set (dom m)"
  have "measured 10 (failed_once ''a'')" "\<And>k. sizes k (failed_once ''a'') < 2 ^ 49" by (simp_all add: failed_once_facts)
  then obtain z where z: "merge_in ?ro None (Some (failed_once ''a'')) = Some z"
    using merge_in_total [OF sorted_ro_ok(1), of 10 None "failed_once ''a''"] by auto
  have "parse_loop ?ro [log_of (failed_once ''a'')] Map.empty False = Some (Inr ([''default'' \<mapsto> z], True))"
    using z by (simp add: log_of_def)
  from last_result_is_arbitrary [OF this, of "''default''" z] show ?thesis by fastforce
qed

text \<open>The routes of a report come in the byte order of their names, each once, whatever the
  iteration order of the map.\<close>

theorem sortedRoutes_sorted:
  assumes "finite (dom m)" "ro_ok ro" "\<forall>k s. m k = Some s \<longrightarrow> Name s = k"
  shows "map Name (sortedRoutes ro m) = sorted_list_of_set (dom m) \<and> set (sortedRoutes ro m) = ran m"
proof -
  have e: "enumerates (ro m) m" using assms(1,2) by (simp add: ro_ok_def)
  then have s: "sort (ro m) = sorted_list_of_set (dom m)"
    by (metis sorted_list_of_set_sort_remdups distinct_remdups_id enumerates_def)
  have "map Name (List.map_filter m ks) = ks" if "set ks \<subseteq> dom m" for ks
    using that assms(3) by (induction ks) (auto simp: List.map_filter_simps)
  then have "map Name (sortedRoutes ro m) = sorted_list_of_set (dom m)"
    unfolding sortedRoutes_def s using assms(1) by simp
  moreover have "set (sortedRoutes ro m) = ran m"
    unfolding sortedRoutes_def s using assms(1) by (force simp: List.map_filter_def ran_def)
  ultimately show ?thesis by blast
qed

theorem sortedRoutes_sorted_witness:
  "map Name (sortedRoutes (\<lambda>m. sorted_list_of_set (dom m)) (Routes (failed_once ''b''))) = [''b'']"
  using sortedRoutes_sorted [OF _ sorted_ro_ok(1), of "Routes (failed_once ''b'')"]
  by (simp add: failed_once_def AddRouteSample_def NewClientTimingStats_def AddSample_def NewRouteStats_def)

text \<open>A comparison in text format is refused: it never prints anything, and the command line
  check refuses any format other than the two before a file is opened.\<close>

theorem text_comparison_refused:
  assumes "io_ok io"
  shows "(\<forall>out. ParseResults v ro io \<lparr>Input = inp, BaselineInput = Some base, Display = ''text'', Aggregate = a, Verbose = vb\<rparr>
        \<noteq> Some (Inr out)) \<and>
   (d \<noteq> ''text'' \<and> d \<noteq> ''markdown'' \<longrightarrow>
      resultsCmd v ro io open_file stdin d a f b vb = Some (Inl (''unexpected --display flag: '' @ d)))"
  using parseTimings_nonempty [OF assms, of ro base]
  by (auto simp: ParseResults_def resultsCmd_def split: option.splits sum.splits bind_splits if_splits)

theorem text_comparison_refused_witness:
  "resultsCmd (\<lambda>_. []) (\<lambda>m. sorted_list_of_set (dom m)) (\<lambda>m. sorted_list_of_set (dom m)) (\<lambda>_. Inr []) [] ''html'' False [] [] False =
     Some (Inl ''unexpected --display flag: html'')"
  using text_comparison_refused [OF sorted_ro_ok(2), where d = "''html''"] by simp

end
