(* ===== verification/Bulk_Types.thy ===== *)
theory Bulk_Types
  imports Rand_Util Go_Float
begin

text \<open>
  The data of \<^verbatim>\<open>loadtest/bulkload.go\<close>: the environment configuration, the import line formats,
  the generated users with their weighted choices, the pick functions the test actions use, and the
  generators of teams, schemes and emoji. Every record carries the fields of the Go struct; the
  struct's name prefixes a field where several structs share it.
\<close>

record LoadtestEnviromentConfig =
  NumTeams :: int
  NumChannelsPerTeam :: int
  NumPrivateChannelsPerTeam :: int
  NumDirectMessageChannels :: int
  NumGroupMessageChannels :: int
  NumUsers :: int
  NumTeamSchemes :: int
  NumChannelSchemes :: int
  NumEmoji :: int
  NumPlugins :: int
  PercentHighVolumeChannels :: real
  PercentMidVolumeChannels :: real
  PercentLowVolumeChannels :: real
  PercentUsersHighVolumeChannel :: real
  PercentUsersMidVolumeChannel :: real
  PercentUsersLowVolumeChannel :: real
  PercentHighVolumeTeams :: real
  PercentMidVolumeTeams :: real
  PercentLowVolumeTeams :: real
  PercentUsersHighVolumeTeams :: real
  PercentUsersMidVolumeTeams :: real
  PercentUsersLowVolumeTeams :: real
  HighVolumeTeamSelectionWeight :: int
  MidVolumeTeamSelectionWeight :: int
  LowVolumeTeamSelectionWeight :: int
  HighVolumeChannelSelectionWeight :: int
  MidVolumeChannelSelectionWeight :: int
  LowVolumeChannelSelectionWeight :: int
  NumPosts :: int
  PostTimeRange :: int
  ReplyChance :: real
  PercentCustomSchemeTeams :: real
  PercentCustomSchemeChannels :: real

record TeamImportData =
  team_Name :: string
  team_DisplayName :: string
  team_Type :: string
  team_Description :: string
  team_AllowOpenInvite :: bool
  team_Scheme :: string

record ChannelImportData =
  channel_Team :: string
  channel_Name :: string
  channel_DisplayName :: string
  channel_Type :: string
  channel_Header :: string
  channel_Purpose :: string
  channel_Scheme :: string

record DirectChannelImportData =
  Members :: "string list option"
  FavoritedBy :: "string list option"
  direct_Header :: "string option"

record UserChannelImportData =
  uchannel_Name :: string
  uchannel_Roles :: string

record UserTeamImportData =
  uteam_Name :: string
  uteam_Roles :: string
  Channels :: "UserChannelImportData list"
  ChannelChoice :: "int choice list"

record UserImportData =
  Username :: string
  Email :: string
  AuthService :: string
  AuthData :: string
  Password :: string
  Nickname :: string
  FirstName :: string
  LastName :: string
  Position :: string
  user_Roles :: string
  Locale :: string
  Teams :: "UserTeamImportData list"
  TeamChoice :: "int choice list"
  Theme :: string
  SelectedFont :: string
  UseMilitaryTime :: string
  NameFormat :: string
  CollapsePreviews :: string
  MessageDisplay :: string
  ChannelDisplayMode :: string

record VersionImportData =
  version_Type :: string
  version_Version :: string

record PostImportData =
  post_Team :: "string option"
  post_Channel :: "string option"
  post_User :: "string option"
  post_Message :: "string option"
  post_CreateAt :: "int option"
  post_FlaggedBy :: "string list option"

record RoleImportData =
  role_Name :: string
  role_DisplayName :: string
  role_Description :: string
  role_Permissions :: "string list"

record SchemeImportData =
  scheme_Name :: string
  scheme_DisplayName :: string
  scheme_Description :: string
  Scope :: string
  DefaultTeamAdminRole :: "RoleImportData option"
  DefaultTeamUserRole :: "RoleImportData option"
  DefaultChannelAdminRole :: "RoleImportData option"
  DefaultChannelUserRole :: "RoleImportData option"

record EmojiImportData =
  emoji_Name :: string
  emoji_Image :: string

record LineImportData =
  line_Type :: string
  line_Scheme :: "SchemeImportData option"
  line_Team :: "TeamImportData option"
  line_Channel :: "ChannelImportData option"
  line_User :: "UserImportData option"
  line_Post :: "PostImportData option"
  line_DirectChannel :: "DirectChannelImportData option"
  line_Emoji :: "EmojiImportData option"
  line_Version :: int

text \<open>The file is the sequence of the lines the encoder wrote.\<close>

record GenerateBulkloadFileResult =
  File :: "LineImportData list"
  res_Users :: "UserImportData list"
  res_Teams :: "TeamImportData list"
  res_Channels :: "ChannelImportData list"
  res_Schemes :: "SchemeImportData list"
  res_Emojis :: "EmojiImportData list"

section \<open>Picking\<close>

text \<open>A nil pointer is \<open>None\<close> inside the outer option, whose \<open>None\<close> is a panic.\<close>

definition PickUser :: "UserImportData list \<Rightarrow> rng \<Rightarrow> (UserImportData option \<times> rng) option" where
  "PickUser users r =
     (let len = int (length users) in
      if len = 0 then Some (None, r)
      else (case IntRange r 0 len of
              None \<Rightarrow> None
            | Some (Inl err, r') \<Rightarrow> Some (None, r')
            | Some (Inr idx, r') \<Rightarrow>
                (case go_nth users idx of None \<Rightarrow> None | Some u \<Rightarrow> Some (Some u, r'))))"

definition PickEmoji :: "LoadtestEnviromentConfig \<Rightarrow> rng \<Rightarrow> (string \<times> rng) option" where
  "PickEmoji c r =
     (case intn (NumEmoji c - 1) r of
        None \<Rightarrow> None
      | Some (n, r') \<Rightarrow> Some (''loadtestemoji'' @ itoa n, r'))"

text \<open>\<open>PickTeam\<close> and \<open>PickChannel\<close> return a pointer into the user's slice: its index.\<close>

definition PickTeam :: "UserImportData \<Rightarrow> rng \<Rightarrow> (int option \<times> rng) option" where
  "PickTeam s r =
     (if TeamChoice s = [] then Some (None, r)
      else (case WeightedChoice r (TeamChoice s) of
              None \<Rightarrow> None
            | Some (Inl err, r') \<Rightarrow> None
            | Some (Inr c, r') \<Rightarrow>
                (case go_nth (Teams s) (Item c) of None \<Rightarrow> None | Some _ \<Rightarrow> Some (Some (Item c), r'))))"

definition PickChannel :: "UserTeamImportData \<Rightarrow> rng \<Rightarrow> (int option \<times> rng) option" where
  "PickChannel team r =
     (if ChannelChoice team = [] then Some (None, r)
      else (case WeightedChoice r (ChannelChoice team) of
              None \<Rightarrow> None
            | Some (Inl err, r') \<Rightarrow> None
            | Some (Inr c, r') \<Rightarrow>
                (case go_nth (Channels team) (Item c) of None \<Rightarrow> None | Some _ \<Rightarrow> Some (Some (Item c), r'))))"

definition PickTeamChannel :: "UserImportData \<Rightarrow> rng \<Rightarrow> ((int option \<times> int option) \<times> rng) option" where
  "PickTeamChannel s r =
     (case PickTeam s r of
        None \<Rightarrow> None
      | Some (None, r') \<Rightarrow> Some ((None, None), r')
      | Some (Some t, r') \<Rightarrow>
          (case PickChannel (Teams s ! nat t) r' of
             None \<Rightarrow> None
           | Some (ch, r'') \<Rightarrow> Some ((Some t, ch), r'')))"

section \<open>Teams, schemes, emoji\<close>

definition DEFAULT_PERMISSIONS_TEAM_ADMIN :: string where
  "DEFAULT_PERMISSIONS_TEAM_ADMIN = ''edit_others_posts remove_user_from_team manage_team import_team manage_team_roles manage_channel_roles manage_others_webhooks manage_slash_commands manage_others_slash_commands manage_webhooks delete_post delete_others_posts''"

definition DEFAULT_PERMISSIONS_TEAM_USER :: string where
  "DEFAULT_PERMISSIONS_TEAM_USER = ''list_team_channels join_public_channels read_public_channel view_team create_public_channel manage_public_channel_properties delete_public_channel create_private_channel manage_private_channel_properties delete_private_channel invite_user add_user_to_team''"

definition DEFAULT_PERMISSIONS_CHANNEL_ADMIN :: string where
  "DEFAULT_PERMISSIONS_CHANNEL_ADMIN = ''manage_channel_roles''"

definition DEFAULT_PERMISSIONS_CHANNEL_USER :: string where
  "DEFAULT_PERMISSIONS_CHANNEL_USER = ''read_channel add_reaction remove_reaction manage_public_channel_members upload_file get_public_link create_post use_slash_commands manage_private_channel_members delete_post edit_post''"

text \<open>Slices made with a negative capacity panic.\<close>

definition make_cap :: "int \<Rightarrow> unit option" where
  "make_cap n = (if n < 0 then None else Some ())"

text \<open>The first scheme draw happens only when there are schemes (\<open>&&\<close> is lazy). The scheme is
  chosen once for all teams.\<close>

definition generateTeams :: "int \<Rightarrow> rng \<Rightarrow> real \<Rightarrow> SchemeImportData list \<Rightarrow> (TeamImportData list \<times> rng) option" where
  "generateTeams numTeams r percentCustomSchemeTeams teamSchemes = do {
     make_cap numTeams;
     (scheme, r) \<leftarrow>
       (if teamSchemes = [] then Some ([], r)
        else (let (x, r1) = float64 r in
              if x < percentCustomSchemeTeams
              then do {
                (n, r2) \<leftarrow> intn (int (length teamSchemes)) r1;
                s \<leftarrow> go_nth teamSchemes n;
                Some (scheme_Name s, r2)
              }
              else Some ([], r1)));
     Some (map (\<lambda>teamNum.
        \<lparr>team_Name = ''loadtestteam'' @ itoa teamNum,
         team_DisplayName = ''Loadtest Team '' @ itoa teamNum,
         team_Type = ''O'',
         team_Description = ''This is loadtest team '' @ itoa teamNum,
         team_AllowOpenInvite = True,
         team_Scheme = scheme\<rparr>) [0 .. numTeams - 1], r)
   }"

definition role :: "string \<Rightarrow> string \<Rightarrow> string \<Rightarrow> RoleImportData" where
  "role name displayName permissions =
     \<lparr>role_Name = name, role_DisplayName = displayName, role_Description = [], role_Permissions = str_fields permissions\<rparr>"

definition generateTeamSchemes :: "int \<Rightarrow> SchemeImportData list option" where
  "generateTeamSchemes numSchemes = do {
     make_cap numSchemes;
     Some (map (\<lambda>schemeNum.
       \<lparr>scheme_Name = ''loadtestteamscheme'' @ itoa schemeNum,
        scheme_DisplayName = ''Loadtest Team Scheme '' @ itoa schemeNum,
        scheme_Description = [],
        Scope = ''team'',
        DefaultTeamAdminRole = Some (role (''loadtest_tsta_role_'' @ itoa schemeNum)
          (''Loadtest Team Scheme DTA Role '' @ itoa schemeNum) DEFAULT_PERMISSIONS_TEAM_ADMIN),
        DefaultTeamUserRole = Some (role (''loadtest_tstu_role_'' @ itoa schemeNum)
          (''Loadtest Team Scheme DTU Role '' @ itoa schemeNum) DEFAULT_PERMISSIONS_TEAM_USER),
        DefaultChannelAdminRole = Some (role (''loadtest_tsca_role_'' @ itoa schemeNum)
          (''Loadtest Team Scheme DCA Role '' @ itoa schemeNum) DEFAULT_PERMISSIONS_CHANNEL_ADMIN),
        DefaultChannelUserRole = Some (role (''loadtest_tscu_role_'' @ itoa schemeNum)
          (''Loadtest Team Scheme DCU Role '' @ itoa schemeNum) DEFAULT_PERMISSIONS_CHANNEL_USER)\<rparr>)
       [0 .. numSchemes - 1])
   }"

definition generateChannelSchemes :: "int \<Rightarrow> SchemeImportData list option" where
  "generateChannelSchemes numSchemes = do {
     make_cap numSchemes;
     Some (map (\<lambda>schemeNum.
       \<lparr>scheme_Name = ''loadtestchannelscheme'' @ itoa schemeNum,
        scheme_DisplayName = ''Loadtest Channel Scheme '' @ itoa schemeNum,
        scheme_Description = [],
        Scope = ''channel'',
        DefaultTeamAdminRole = None,
        DefaultTeamUserRole = None,
        DefaultChannelAdminRole = Some (role (''loadtest_csca_role_'' @ itoa schemeNum)
          (''Loadtest Channel Scheme DCA Role '' @ itoa schemeNum) DEFAULT_PERMISSIONS_CHANNEL_ADMIN),
        DefaultChannelUserRole = Some (role (''loadtest_cscu_role_'' @ itoa schemeNum)
          (''Loadtest Channel Scheme DCU Role '' @ itoa schemeNum) DEFAULT_PERMISSIONS_CHANNEL_USER)\<rparr>)
       [0 .. numSchemes - 1])
   }"

definition generateEmoji :: "int \<Rightarrow> EmojiImportData list option" where
  "generateEmoji numEmoji = do {
     make_cap numEmoji;
     Some (map (\<lambda>emojiNum.
       \<lparr>emoji_Name = ''loadtestemoji'' @ itoa emojiNum, emoji_Image = ''./testfiles/test_emoji.png''\<rparr>)
       [0 .. numEmoji - 1])
   }"

section \<open>Names from the \<^verbatim>\<open>fake\<close> package\<close>

text \<open>The text generator of the package \<^verbatim>\<open>icrowley/fake\<close>: a stream of words, sentences and names
  of which nothing is assumed.\<close>

record faker =
  fk_src :: "string \<Rightarrow> nat \<Rightarrow> string"
  fk_pos :: nat

definition fake :: "string \<Rightarrow> faker \<Rightarrow> string \<times> faker" where
  "fake kind f = (fk_src f kind (fk_pos f), f\<lparr>fk_pos := Suc (fk_pos f)\<rparr>)"

definition makeUserName :: "int \<Rightarrow> faker \<Rightarrow> string \<times> faker" where
  "makeUserName userNumber f =
     (let (u, f) = fake ''UserName'' f in (to_lower u @ ''-'' @ itoa userNumber, f))"

definition makeChannelName :: "int \<Rightarrow> faker \<Rightarrow> string \<times> faker" where
  "makeChannelName channelNumber f =
     (let (w, f) = fake ''WordsN 2'' f in (join (str_fields w) ''-'' @ ''-loadtestchannel'' @ itoa channelNumber, f))"

definition makeChannelDisplayName :: "int \<Rightarrow> faker \<Rightarrow> string \<times> faker" where
  "makeChannelDisplayName channelNumber f =
     (let (w, f) = fake ''WordsN 2'' f in (w @ '' Loadtest Channel '' @ itoa channelNumber, f))"

definition makeChannelHeader :: "faker \<Rightarrow> string \<times> faker" where
  "makeChannelHeader f = fake ''Sentence'' f"

definition makeChannelPurpose :: "faker \<Rightarrow> string \<times> faker" where
  "makeChannelPurpose f = fake ''Sentence'' f"

section \<open>Names are distinct\<close>

text \<open>A generated name ends in a separator and the number; the number has no minus sign.\<close>

lemma itoa_no_minus: "0 \<le> i \<Longrightarrow> CHR ''-'' \<notin> set (itoa i)"
  by (simp add: itoa_nat minus_notin_dec_nat)

lemma makeUserName_inj:
  "0 \<le> i \<Longrightarrow> 0 \<le> j \<Longrightarrow> fst (makeUserName i f) = fst (makeUserName j g) \<Longrightarrow> i = j"
proof -
  assume ij: "0 \<le> i" "0 \<le> j" and eq: "fst (makeUserName i f) = fst (makeUserName j g)"
  have form: "fst (makeUserName n h) = to_lower (fk_src h ''UserName'' (fk_pos h)) @ CHR ''-'' # itoa n" for n h
    by (simp add: makeUserName_def fake_def)
  note eq [unfolded form]
  from append_sep_inj [OF this itoa_no_minus itoa_no_minus] ij itoa_inj show ?thesis by blast
qed

lemma itoa_digits: "0 \<le> i \<Longrightarrow> set (itoa i) \<subseteq> set ''0123456789''"
  by (simp only: itoa_nat dec_nat_digits)

lemma makeChannelName_inj:
  "0 \<le> i \<Longrightarrow> 0 \<le> j \<Longrightarrow> fst (makeChannelName i f) = fst (makeChannelName j g) \<Longrightarrow> i = j"
proof -
  assume ij: "0 \<le> i" "0 \<le> j" and eq: "fst (makeChannelName i f) = fst (makeChannelName j g)"
  let ?w = "\<lambda>f. join (str_fields (fk_src f ''WordsN 2'' (fk_pos f))) ''-''"
  have form: "fst (makeChannelName n h) = (?w h @ ''-loadtestchanne'') @ CHR ''l'' # itoa n" for n h
    by (simp add: makeChannelName_def fake_def)
  have "(?w f @ ''-loadtestchanne'') @ CHR ''l'' # itoa i = (?w g @ ''-loadtestchanne'') @ CHR ''l'' # itoa j"
    using eq unfolding form .
  moreover have l: "CHR ''l'' \<notin> set (itoa n)" if "0 \<le> n" for n
  proof -
    have "CHR ''l'' \<notin> set ''0123456789''" by simp
    then show ?thesis using itoa_digits [OF that] by blast
  qed
  ultimately have "itoa i = itoa j" using append_sep_inj [OF _ l [OF ij(1)] l [OF ij(2)]] by blast
  then show ?thesis by (rule itoa_inj)
qed

text \<open>Empty values, to build concrete inputs from.\<close>

definition blank_user :: "string \<Rightarrow> UserImportData" where
  "blank_user name = \<lparr>Username = name, Email = [], AuthService = [], AuthData = [], Password = [], Nickname = [],
     FirstName = [], LastName = [], Position = [], user_Roles = [], Locale = [], Teams = [], TeamChoice = [],
     Theme = [], SelectedFont = [], UseMilitaryTime = [], NameFormat = [], CollapsePreviews = [],
     MessageDisplay = [], ChannelDisplayMode = []\<rparr>"

lemma blank_user_name [simp]: "Username (blank_user s) = s"
  by (simp add: blank_user_def)

definition blank_config :: LoadtestEnviromentConfig where
  "blank_config = \<lparr>NumTeams = 0, NumChannelsPerTeam = 0, NumPrivateChannelsPerTeam = 0, NumDirectMessageChannels = 0,
     NumGroupMessageChannels = 0, NumUsers = 0, NumTeamSchemes = 0, NumChannelSchemes = 0, NumEmoji = 0, NumPlugins = 0,
     PercentHighVolumeChannels = 0, PercentMidVolumeChannels = 0, PercentLowVolumeChannels = 0,
     PercentUsersHighVolumeChannel = 0, PercentUsersMidVolumeChannel = 0, PercentUsersLowVolumeChannel = 0,
     PercentHighVolumeTeams = 0, PercentMidVolumeTeams = 0, PercentLowVolumeTeams = 0,
     PercentUsersHighVolumeTeams = 0, PercentUsersMidVolumeTeams = 0, PercentUsersLowVolumeTeams = 0,
     HighVolumeTeamSelectionWeight = 0, MidVolumeTeamSelectionWeight = 0, LowVolumeTeamSelectionWeight = 0,
     HighVolumeChannelSelectionWeight = 0, MidVolumeChannelSelectionWeight = 0, LowVolumeChannelSelectionWeight = 0,
     NumPosts = 0, PostTimeRange = 0, ReplyChance = 0, PercentCustomSchemeTeams = 0, PercentCustomSchemeChannels = 0\<rparr>"

end
