(* ===== verification/Bulk_Direct.thy ===== *)
theory Bulk_Direct
  imports Bulk_Types "HOL-Library.List_Lexorder" "HOL-Library.Char_ord"
begin

text \<open>
  \<open>makeDirectChannels\<close> and \<open>makeGroupChannels\<close> of \<^verbatim>\<open>loadtest/bulkload.go\<close>.

  Direct channels are enumerated by an index into the upper triangle of the user matrix, computed
  with a floating point square root; the lemmas show that the rounded computation finds the right
  row for up to \<open>2^24\<close> users. Group channels are drawn at random, with at most three attempts to
  avoid a group that was drawn before.
\<close>

section \<open>Direct channels\<close>

definition direct_row :: "int \<Rightarrow> int \<Rightarrow> int" where
  "direct_row n k =
     n - 2 - \<lfloor>f64 (f64 (f64 (sqrt (f64 (of_int (- 8 * k + 4 * n * (n - 1) - 7)))) / 2) - 1 / 2)\<rfloor>"

definition direct_col :: "int \<Rightarrow> int \<Rightarrow> int \<Rightarrow> int" where
  "direct_col n k i = k + i + 1 - go_div (n * (n - 1)) 2 + go_div ((n - i) * ((n - i) - 1)) 2"

fun direct_loop :: "int list \<Rightarrow> UserImportData list \<Rightarrow> faker \<Rightarrow> (DirectChannelImportData list \<times> faker) option" where
  "direct_loop [] users f = Some ([], f)"
| "direct_loop (k # ks) users f = do {
     let n = int (length users);
     let i = direct_row n k;
     let j = direct_col n k i;
     let (header, f) = makeChannelHeader f;
     ui \<leftarrow> go_nth users i;
     uj \<leftarrow> go_nth users j;
     (rest, f) \<leftarrow> direct_loop ks users f;
     Some (\<lparr>Members = Some [Username ui, Username uj], FavoritedBy = None, direct_Header = Some header\<rparr> # rest, f)
   }"

text \<open>\<open>for k := range permutation\<close> ranges over the indices of the permutation, not its values.\<close>

definition makeDirectChannels :: "LoadtestEnviromentConfig \<Rightarrow> rng \<Rightarrow> UserImportData list \<Rightarrow> faker \<Rightarrow>
    ((DirectChannelImportData list \<times> rng) \<times> faker) option" where
  "makeDirectChannels config r users f = do {
     let len = int (length users);
     let maxDirectMessageChannels = go_div len 2 * (len - 1);
     let num = (if NumDirectMessageChannels config > maxDirectMessageChannels
                then maxDirectMessageChannels else NumDirectMessageChannels config);
     make_cap num;
     (permutation, r) \<leftarrow> perm num r;
     (channels, f) \<leftarrow> direct_loop (map int [0..<length permutation]) users f;
     Some ((channels, r), f)
   }"

section \<open>The rounded index is the exact one\<close>

text \<open>Rounding does not cross a half-integer either.\<close>

lemma f64_exp_le_m1: "\<bar>x\<bar> < 2 ^ 52 \<Longrightarrow> x \<noteq> 0 \<Longrightarrow> f64_exp x \<le> - 1"
proof -
  assume "\<bar>x\<bar> < 2 ^ 52" "x \<noteq> 0"
  then have "\<lfloor>log 2 \<bar>x\<bar>\<rfloor> < 52" using log2_less_iff [of x 52] by (simp add: power_int_def)
  then show ?thesis by (simp add: f64_exp_def)
qed

lemma half_scaled: "k \<le> - 1 \<Longrightarrow> of_int c / 2 / (2::real) powi k = of_int (c * 2 ^ nat (- 1 - k))"
  using powi_split [of k "- 1"] by (simp add: power_int_minus field_simps)

lemma f64_ge_half:
  assumes "of_int c / 2 \<le> x" "\<bar>x\<bar> < 2 ^ 52"
  shows "of_int c / 2 \<le> f64 x"
proof (cases "x = 0")
  case False
  let ?e = "f64_exp x"
  note sc = half_scaled [OF f64_exp_le_m1 [OF assms(2) False], of c]
  have p: "(0::real) < 2 powi ?e" by simp
  have "of_int c / 2 / 2 powi ?e \<le> x / 2 powi ?e" using assms(1) p by (intro divide_right_mono) auto
  then have "c * 2 ^ nat (- 1 - ?e) \<le> round_half_even (x / 2 powi ?e)" unfolding sc by (rule round_half_even_ge)
  then have "of_int c / 2 / (2::real) powi ?e \<le> of_int (round_half_even (x / 2 powi ?e))"
    unfolding sc by (simp only: of_int_le_iff)
  then show ?thesis using False p by (simp add: f64_def pos_divide_le_eq)
qed (use assms in simp)

lemma sq_minus:
  fixes u :: real
  assumes "5 \<le> u"
  shows "0 \<le> u - 4 / u" "u ^ 2 - 8 \<le> (u - 4 / u) ^ 2"
proof -
  have "4 / u \<le> 1" using assms by simp
  then show "0 \<le> u - 4 / u" using assms by linarith
  have "(u - 4 / u) ^ 2 = u ^ 2 - 2 * u * (4 / u) + (4 / u) ^ 2" by (rule power2_diff [THEN trans]) simp
  also have "2 * u * (4 / u) = 8" using assms by simp
  finally show "u ^ 2 - 8 \<le> (u - 4 / u) ^ 2" by simp
qed

lemma error_chain:
  fixes h s q w a b c :: real
  assumes "h \<le> s / 2 + a" "s \<le> q + b" "q \<le> w"
  shows "h - 1 / 2 + c \<le> w / 2 - 1 / 2 + b / 2 + a + c"
proof -
  have "s / 2 \<le> w / 2 + b / 2" using assms(2,3) by (simp add: add_divide_distrib [symmetric])
  then show ?thesis using assms(1) by linarith
qed

lemma error_slack:
  fixes u v x :: real
  shows "4 / 2 ^ 26 \<le> v \<Longrightarrow> x = u / 2 - 1 / 2 \<Longrightarrow>
    (u - v) / 2 - 1 / 2 + 2 ^ 26 / 2 ^ 53 / 2 + 2 ^ 26 / 2 ^ 53 + 2 ^ 26 / 2 ^ 53 < x"
  by (simp add: diff_divide_distrib)

lemma floor_root:
  fixes t m :: int
  assumes "0 \<le> t" "t < 2 ^ 24" "t * (t + 1) \<le> 2 * m" "2 * m < (t + 1) * (t + 2)"
  shows "\<lfloor>f64 (f64 (f64 (sqrt (of_int (8 * m + 1))) / 2) - 1 / 2)\<rfloor> = t"
proof (cases "t = 0")
  case True
  then have m: "m = 0" using assms(3,4) by simp
  have h: "f64 (1 / 2) = 1 / 2" using f64_half [of 1] by simp
  show ?thesis using True m by (simp add: h)
next
  case False
  then have t1: "1 \<le> t" using assms(1) by simp
  let ?u = "of_int (2 * t + 3) :: real" and ?q = "sqrt (of_int (8 * m + 1)) :: real"
  have u: "5 \<le> ?u" "?u < 2 ^ 26" using t1 assms(2) by simp_all
  have lo2: "(of_int (2 * t + 1) :: real) ^ 2 \<le> of_int (8 * m + 1)"
  proof -
    have "(2 * t + 1) ^ 2 \<le> 8 * m + 1" using assms(3) by (simp add: power2_eq_square algebra_simps)
    then show ?thesis by (metis of_int_le_iff of_int_power)
  qed
  have hi2: "of_int (8 * m + 1) \<le> ?u ^ 2 - 8"
  proof -
    have "2 * m \<le> (t + 1) * (t + 2) - 2"
    proof -
      have "even ((t + 1) * (t + 2))" by simp
      then obtain p where p: "(t + 1) * (t + 2) = 2 * p" by blast
      show ?thesis using assms(4) unfolding p by simp
    qed
    then have "8 * m + 1 \<le> (2 * t + 3) ^ 2 - 8" by (simp add: power2_eq_square algebra_simps)
    then have "of_int (8 * m + 1) \<le> (of_int ((2 * t + 3) ^ 2 - 8) :: real)" by (simp only: of_int_le_iff)
    then show ?thesis by simp
  qed
  have qlo: "of_int (2 * t + 1) \<le> ?q" using lo2 by (intro real_le_rsqrt)
  have qhi: "?q \<le> ?u - 4 / ?u"
  proof (rule real_le_lsqrt)
    show "0 \<le> ?u - 4 / ?u" using sq_minus(1) [OF u(1)] .
    have "?u ^ 2 - 8 \<le> (?u - 4 / ?u) ^ 2" using sq_minus(2) [OF u(1)] .
    then show "of_int (8 * m + 1) \<le> (?u - 4 / ?u) ^ 2" using hi2 by linarith
  qed
  have q27: "\<bar>?q\<bar> < 2 ^ 26" "3 \<le> ?q"
  proof -
    have "0 < 4 / ?u" using u by simp
    show q3: "3 \<le> ?q" using qlo t1 by simp
    have "?q < 2 ^ 26" using qhi u(2) \<open>0 < 4 / ?u\<close> by linarith
    then show "\<bar>?q\<bar> < 2 ^ 26" using q3 by linarith
  qed
  let ?s = "f64 ?q"
  have slo: "of_int (2 * t + 1) \<le> ?s" using qlo q27 by (intro f64_ge_int) auto
  have shi: "?s \<le> ?q + 2 ^ 26 / 2 ^ 53"
    using q27 by (intro f64_upper) linarith+
  have s28: "\<bar>?s / 2\<bar> < 2 ^ 26" "1 \<le> ?s / 2" using shi q27 slo t1 by simp_all
  let ?h = "f64 (?s / 2)"
  have hlo: "of_int (2 * t + 1) / 2 \<le> ?h" using slo s28 by (intro f64_ge_half) auto
  have hhi: "?h \<le> ?s / 2 + 2 ^ 26 / 2 ^ 53" using s28 by (intro f64_upper) linarith+
  have d: "1 \<le> ?h - 1 / 2" "\<bar>?h - 1 / 2\<bar> < 2 ^ 26" using hlo hhi s28 t1 by simp_all
  let ?d = "f64 (?h - 1 / 2)"
  have dlo: "of_int t \<le> ?d" using hlo d by (intro f64_ge_int) auto
  have "?d \<le> ?h - 1 / 2 + 2 ^ 26 / 2 ^ 53" using d by (intro f64_upper) linarith+
  also have "\<dots> \<le> (?u - 4 / ?u) / 2 - 1 / 2 + 2 ^ 26 / 2 ^ 53 / 2 + 2 ^ 26 / 2 ^ 53 + 2 ^ 26 / 2 ^ 53"
    by (rule error_chain [OF hhi shi qhi])
  also have "\<dots> < of_int t + 1"
  proof -
    have "4 / 2 ^ 26 \<le> 4 / ?u" using u by (intro divide_left_mono) auto
    moreover have "of_int t + 1 = ?u / 2 - 1 / 2" by (simp add: field_simps)
    ultimately show ?thesis using error_slack by metis
  qed
  finally have "?d < of_int t + 1" .
  with dlo show ?thesis by (simp add: floor_eq_iff)
qed

lemma root_exists: "\<exists>t::nat. t * (t + 1) \<le> 2 * m \<and> 2 * m < (t + 1) * (t + 2)"
proof (induction m)
  case 0
  show ?case by (intro exI [of _ 0]) simp
next
  case (Suc m)
  then obtain t where t: "t * (t + 1) \<le> 2 * m" "2 * m < (t + 1) * (t + 2)" by blast
  show ?case
  proof (cases "2 * Suc m < (t + 1) * (t + 2)")
    case True
    with t show ?thesis by (intro exI [of _ t]) simp
  next
    case False
    have "even ((t + 1) * (t + 2))" by simp
    then obtain p where p: "(t + 1) * (t + 2) = 2 * p" by blast
    have "2 * Suc m = (t + 1) * (t + 2)" using False t(2) unfolding p by simp
    then show ?thesis by (intro exI [of _ "t + 1"]) simp
  qed
qed

text \<open>The pair at position \<open>k\<close>, for \<open>k\<close> below the number of pairs: with \<open>m\<close> the position from the
  end and \<open>t\<close> its triangular root, the row is \<open>n - 2 - t\<close> and the column follows from \<open>m\<close>.\<close>

lemma direct_pair:
  fixes n k :: int
  assumes "1 \<le> n" "n \<le> 2 ^ 24" "0 \<le> k" "2 * k < n * (n - 1)"
  shows "\<exists>t m. 0 \<le> t \<and> t \<le> n - 2 \<and> 2 * (m + 1 + k) = n * (n - 1) \<and> t * (t + 1) \<le> 2 * m \<and> 2 * m < (t + 1) * (t + 2) \<and>
    direct_row n k = n - 2 - t \<and> 2 * (direct_col n k (n - 2 - t) - (n - 2 - t)) = (t + 1) * (t + 2) - 2 * m"
proof -
  have ev: "even (n * (n - 1))" by simp
  define m where "m = n * (n - 1) div 2 - 1 - k"
  have mk: "2 * (m + 1 + k) = n * (n - 1)" using ev by (simp add: m_def)
  have m0: "0 \<le> m" using mk assms(4) by simp
  obtain t' :: nat where "t' * (t' + 1) \<le> 2 * nat m \<and> 2 * nat m < (t' + 1) * (t' + 2)" using root_exists by blast
  then have "int (t' * (t' + 1)) \<le> int (2 * nat m) \<and> int (2 * nat m) < int ((t' + 1) * (t' + 2))"
    by (simp only: of_nat_le_iff of_nat_less_iff)
  then obtain t where t: "0 \<le> t" "t * (t + 1) \<le> 2 * m" "2 * m < (t + 1) * (t + 2)"
    using m0 by (intro that [of "int t'"]) (simp_all add: algebra_simps)
  have tn: "t \<le> n - 2"
  proof (rule ccontr)
    assume "\<not> t \<le> n - 2"
    then have "(n - 1) * n \<le> t * (t + 1)" using assms(1) by (intro mult_mono) auto
    then show False using t(2) mk assms(3) by (simp add: algebra_simps)
  qed
  have arg: "- 8 * k + 4 * n * (n - 1) - 7 = 8 * m + 1" using mk by (simp add: algebra_simps)
  have small: "\<bar>8 * m + 1\<bar> < 2 ^ 53"
  proof -
    have "n * (n - 1) \<le> 2 ^ 24 * 2 ^ 24" using assms(1,2) by (intro mult_mono) auto
    then show ?thesis using mk m0 assms(3) by simp
  qed
  have row: "direct_row n k = n - 2 - t"
    unfolding direct_row_def arg f64_int [OF small] using t tn assms(2) by (subst floor_root) auto
  have "go_div (n * (n - 1)) 2 = n * (n - 1) div 2" using assms(1) by (intro go_div_nonneg) auto
  moreover have "go_div ((t + 2) * (t + 1)) 2 = (t + 2) * (t + 1) div 2" using t(1) by (intro go_div_nonneg) auto
  ultimately have "direct_col n k (n - 2 - t) = k + (n - 2 - t) + 1 - n * (n - 1) div 2 + (t + 2) * (t + 1) div 2"
  proof -
    have "n - (n - 2 - t) = t + 2" "n - (n - 2 - t) - 1 = t + 1" by simp_all
    then show ?thesis unfolding direct_col_def
      by (simp only: \<open>go_div (n * (n - 1)) 2 = n * (n - 1) div 2\<close> \<open>go_div ((t + 2) * (t + 1)) 2 = (t + 2) * (t + 1) div 2\<close>)
  qed
  then have "2 * (direct_col n k (n - 2 - t) - (n - 2 - t)) =
      2 * k + 2 - 2 * (n * (n - 1) div 2) + 2 * ((t + 2) * (t + 1) div 2)" by simp
  also have "2 * ((t + 2) * (t + 1) div 2) = (t + 2) * (t + 1)" by simp
  also have "2 * (n * (n - 1) div 2) = n * (n - 1)" using ev by simp
  also have "2 * k + 2 - n * (n - 1) + (t + 2) * (t + 1) = (t + 1) * (t + 2) - 2 * m"
    unfolding mk [symmetric] by (simp add: algebra_simps)
  finally have "2 * (direct_col n k (n - 2 - t) - (n - 2 - t)) = (t + 1) * (t + 2) - 2 * m" .
  then show ?thesis using t tn mk row by blast
qed

lemma direct_bounds:
  assumes "1 \<le> n" "n \<le> 2 ^ 24" "0 \<le> k" "2 * k < n * (n - 1)"
  shows "0 \<le> direct_row n k" "direct_row n k < direct_col n k (direct_row n k)" "direct_col n k (direct_row n k) < n"
proof -
  obtain t m where t: "0 \<le> t" "t \<le> n - 2" "t * (t + 1) \<le> 2 * m" "2 * m < (t + 1) * (t + 2)"
    "direct_row n k = n - 2 - t" "2 * (direct_col n k (n - 2 - t) - (n - 2 - t)) = (t + 1) * (t + 2) - 2 * m"
    using direct_pair [OF assms] by blast
  have "(t + 1) * (t + 2) - 2 * m \<le> 2 * (t + 1)" using t(3) by (simp add: algebra_simps)
  then have "2 * (direct_col n k (n - 2 - t) - (n - 2 - t)) \<le> 2 * (t + 1)" unfolding t(6) .
  then have "direct_col n k (n - 2 - t) < n" by simp
  moreover have "0 < 2 * (direct_col n k (n - 2 - t) - (n - 2 - t))" unfolding t(6) using t(4) by simp
  then have "n - 2 - t < direct_col n k (n - 2 - t)" by simp
  ultimately show "0 \<le> direct_row n k" "direct_row n k < direct_col n k (direct_row n k)"
    "direct_col n k (direct_row n k) < n" unfolding t(5) using t(2) by simp_all
qed

lemma direct_inj:
  assumes "1 \<le> n" "n \<le> 2 ^ 24" "0 \<le> k" "2 * k < n * (n - 1)" "0 \<le> l" "2 * l < n * (n - 1)"
    and "direct_row n k = direct_row n l" "direct_col n k (direct_row n k) = direct_col n l (direct_row n l)"
  shows "k = l"
proof -
  obtain t m where t: "2 * (m + 1 + k) = n * (n - 1)" "direct_row n k = n - 2 - t"
    "2 * (direct_col n k (n - 2 - t) - (n - 2 - t)) = (t + 1) * (t + 2) - 2 * m"
    using direct_pair [OF assms(1-4)] by blast
  obtain s p where s: "2 * (p + 1 + l) = n * (n - 1)" "direct_row n l = n - 2 - s"
    "2 * (direct_col n l (n - 2 - s) - (n - 2 - s)) = (s + 1) * (s + 2) - 2 * p"
    using direct_pair [OF assms(1,2,5,6)] by blast
  have ts: "t = s" using t(2) s(2) assms(7) by simp
  have "m = p" using t(2,3) s(2,3) assms(8) unfolding ts by simp
  then show ?thesis using t(1) s(1) by simp
qed

lemma direct_loop_total:
  assumes "int (length users) \<le> 2 ^ 24" "\<forall>k \<in> set ks. 0 \<le> k \<and> 2 * k < int (length users) * (int (length users) - 1)"
  shows "\<exists>cs f'. direct_loop ks users f = Some (cs, f') \<and> map Members cs =
    map (\<lambda>k. let i = direct_row (int (length users)) k; j = direct_col (int (length users)) k i
             in Some [Username (users ! nat i), Username (users ! nat j)]) ks"
  using assms(2)
proof (induction ks arbitrary: f)
  case (Cons k ks)
  let ?n = "int (length users)"
  have n1: "1 \<le> ?n" using Cons.prems by (cases users) auto
  note b = direct_bounds [OF n1 assms(1), of k]
  have k: "0 \<le> k" "2 * k < ?n * (?n - 1)" using Cons.prems by auto
  have "0 \<le> direct_row ?n k" "direct_row ?n k < ?n" "0 \<le> direct_col ?n k (direct_row ?n k)"
    "direct_col ?n k (direct_row ?n k) < ?n" using b [OF k] by linarith+
  then have g: "go_nth users (direct_row ?n k) = Some (users ! nat (direct_row ?n k))"
    "go_nth users (direct_col ?n k (direct_row ?n k)) = Some (users ! nat (direct_col ?n k (direct_row ?n k)))"
    by (simp_all add: go_nth_def)
  obtain header f1 where h: "makeChannelHeader f = (header, f1)" by force
  obtain cs f' where "direct_loop ks users f1 = Some (cs, f')" "map Members cs =
    map (\<lambda>k. let i = direct_row ?n k; j = direct_col ?n k i
             in Some [Username (users ! nat i), Username (users ! nat j)]) ks"
    using Cons.IH [of f1] Cons.prems by auto
  then show ?case using g h by (simp add: Let_def)
qed simp

section \<open>Group channels\<close>

text \<open>\<open>model.CHANNEL_GROUP_MAX_USERS\<close>, and the \<open>float32\<close> nearest to 0.05.\<close>

definition CHANNEL_GROUP_MAX_USERS :: nat where "CHANNEL_GROUP_MAX_USERS = 8"

definition float32_005 :: real where "float32_005 = 13421773 / 2 ^ 28"

fun pick_names :: "nat \<Rightarrow> int \<Rightarrow> string list \<Rightarrow> string list \<Rightarrow> rng \<Rightarrow> (string list result \<times> string list \<times> rng) option" where
  "pick_names 0 currentLength usernames acc r = Some (Inr acc, usernames, r)"
| "pick_names (Suc i) currentLength usernames acc r =
     (if currentLength = 0 then Some (Inl ''ran out of usernames picking random usernames'', usernames, r)
      else do {
        (index, r) \<leftarrow> intn currentLength r;
        u \<leftarrow> go_nth usernames index;
        usernames \<leftarrow> swap_elems usernames index (currentLength - 1);
        pick_names i (currentLength - 1) usernames (acc @ [u]) r
      })"

fun pickRandomUsernames :: "nat \<Rightarrow> nat \<Rightarrow> string list \<Rightarrow> string set \<Rightarrow> rng \<Rightarrow>
    (string list result \<times> string list \<times> string set \<times> rng) option" where
  "pickRandomUsernames 0 cnt usernames seen r =
     Some (Inl ''failed to generate unique group message channel after 3 tries'', usernames, seen, r)"
| "pickRandomUsernames (Suc attempts) cnt usernames seen r = do {
     (res, usernames, r) \<leftarrow> pick_names cnt (int (length usernames)) usernames [] r;
     (case res of
        Inl err \<Rightarrow> Some (Inl err, usernames, seen, r)
      | Inr names \<Rightarrow>
          (let randomUsernames = sort names; key = join randomUsernames '','' in
           if key \<in> seen then pickRandomUsernames attempts cnt usernames seen r
           else Some (Inr randomUsernames, usernames, insert key seen, r)))
   }"

text \<open>\<open>for cnt < max && r.Float32() < 0.05\<close>: the argument is the room that is left.\<close>

fun group_count :: "nat \<Rightarrow> nat \<Rightarrow> rng \<Rightarrow> nat \<times> rng" where
  "group_count 0 cnt r = (cnt, r)"
| "group_count (Suc room) cnt r =
     (let (x, r') = float32 r in
      if x < float32_005 then group_count room (cnt + 1) r' else (cnt, r'))"

fun group_loop :: "nat \<Rightarrow> string list \<Rightarrow> string set \<Rightarrow> rng \<Rightarrow> faker \<Rightarrow>
    (DirectChannelImportData list \<times> rng \<times> faker) option" where
  "group_loop 0 usernames seen r f = Some ([], r, f)"
| "group_loop (Suc i) usernames seen r f = do {
     let (cnt, r) = group_count (CHANNEL_GROUP_MAX_USERS - 3) 3 r;
     let (header, f) = makeChannelHeader f;
     (res, usernames, seen, r) \<leftarrow> pickRandomUsernames 3 cnt usernames seen r;
     (case res of
        Inl err \<Rightarrow> Some ([], r, f)
      | Inr members \<Rightarrow> do {
          (rest, r, f) \<leftarrow> group_loop i usernames seen r f;
          Some (\<lparr>Members = Some members, FavoritedBy = None, direct_Header = Some header\<rparr> # rest, r, f)
        })
   }"

definition makeGroupChannels :: "LoadtestEnviromentConfig \<Rightarrow> rng \<Rightarrow> UserImportData list \<Rightarrow> faker \<Rightarrow>
    (DirectChannelImportData list \<times> rng \<times> faker) option" where
  "makeGroupChannels config r users f = do {
     make_cap (NumGroupMessageChannels config);
     group_loop (nat (NumGroupMessageChannels config)) (map Username users) {} r f
   }"

text \<open>Picking moves what was picked behind the current length.\<close>

lemma pick_names_inv:
  assumes "0 \<le> cl" "cl \<le> int (length us)" "mset acc = mset (drop (nat cl) us)"
  shows "\<exists>res us' r'. pick_names i cl us acc r = Some (res, us', r') \<and> mset us' = mset us \<and>
    (case res of Inl _ \<Rightarrow> int i > cl | Inr names \<Rightarrow> length names = length acc + i \<and> mset names \<subseteq># mset us)"
  using assms
proof (induction i arbitrary: cl us acc r)
  case 0
  have "mset (drop (nat cl) us) \<subseteq># mset us" by (metis append_take_drop_id mset_append mset_subset_eq_add_right)
  then show ?case using 0 by simp
next
  case (Suc i)
  show ?case
  proof (cases "cl = 0")
    case False
    then have cl: "0 < cl" using Suc.prems by simp
    obtain j where j: "intn cl r = Some (j, r\<lparr>pos := Suc (pos r)\<rparr>)" "0 \<le> j" "j < cl"
      using cl by (simp add: intn_def draw_def)
    let ?a = "nat j" and ?b = "nat (cl - 1)"
    let ?us = "(us[?a := us ! ?b])[?b := us ! ?a]"
    have ab: "?a < length us" "?b < length us" "?a \<le> ?b" using j cl Suc.prems(2) by linarith+
    have sw: "swap_elems us j (cl - 1) = Some ?us" "go_nth us j = Some (us ! ?a)"
      using j cl Suc.prems(2) by (simp_all add: swap_elems_def go_nth_def)
    have m: "mset ?us = mset us" using ab by (intro mset_swap2)
    have "drop ?b ?us = us ! ?a # drop (Suc ?b) us"
      using ab by (simp add: drop_update_swap Cons_nth_drop_Suc [symmetric])
    moreover have "Suc ?b = nat cl" using cl by linarith
    ultimately have dr: "mset (acc @ [us ! ?a]) = mset (drop ?b ?us)" using Suc.prems(3) by simp
    obtain res us' r' where IH: "pick_names i (cl - 1) ?us (acc @ [us ! ?a]) (r\<lparr>pos := Suc (pos r)\<rparr>) = Some (res, us', r')"
      "mset us' = mset ?us"
      "case res of Inl _ \<Rightarrow> int i > cl - 1 | Inr names \<Rightarrow> length names = length (acc @ [us ! ?a]) + i \<and> mset names \<subseteq># mset ?us"
    proof -
      have "\<exists>res us' r'. pick_names i (cl - 1) ?us (acc @ [us ! ?a]) (r\<lparr>pos := Suc (pos r)\<rparr>) = Some (res, us', r') \<and> mset us' = mset ?us \<and>
      (case res of Inl _ \<Rightarrow> int i > cl - 1 | Inr names \<Rightarrow> length names = length (acc @ [us ! ?a]) + i \<and> mset names \<subseteq># mset ?us)"
        using cl Suc.prems(2) dr by (intro Suc.IH) auto
      then show thesis using that by blast
    qed
    have "pick_names (Suc i) cl us acc r = Some (res, us', r')" using False j(1) sw IH(1) by simp
    moreover have "mset us' = mset us" using IH(2) m by simp
    moreover have "case res of Inl _ \<Rightarrow> int (Suc i) > cl | Inr names \<Rightarrow> length names = length acc + Suc i \<and> mset names \<subseteq># mset us"
      using IH(3) m by (auto split: sum.splits)
    ultimately show ?thesis by blast
  qed (use Suc.prems in simp)
qed

definition group_ok :: "string list \<Rightarrow> string list \<Rightarrow> bool" where
  "group_ok us names \<longleftrightarrow> sorted names \<and> distinct names \<and> set names \<subseteq> set us \<and> 3 \<le> length names \<and> length names \<le> CHANNEL_GROUP_MAX_USERS"

lemma submset_distinct: "mset xs \<subseteq># mset ys \<Longrightarrow> distinct ys \<Longrightarrow> distinct xs"
proof -
  assume "mset xs \<subseteq># mset ys" and d: "distinct ys"
  then obtain Z where "mset ys = mset xs + Z" by (auto simp: subset_mset.le_iff_add)
  moreover obtain zs where "mset zs = Z" using ex_mset by blast
  ultimately have "mset ys = mset (xs @ zs)" by simp
  from mset_eq_imp_distinct_iff [OF this] d show "distinct xs" by simp
qed

lemma pickRandomUsernames_inv:
  assumes "distinct us"
  shows "\<exists>res us' seen' r'. pickRandomUsernames a cnt us seen r = Some (res, us', seen', r') \<and> mset us' = mset us \<and>
    (case res of Inl _ \<Rightarrow> seen' = seen
     | Inr names \<Rightarrow> sorted names \<and> distinct names \<and> set names \<subseteq> set us \<and> length names = cnt \<and>
         join names '','' \<notin> seen \<and> seen' = insert (join names '','') seen)"
  using assms
proof (induction a arbitrary: us r)
  case (Suc a)
  obtain res us' r' where p: "pick_names cnt (int (length us)) us [] r = Some (res, us', r')" "mset us' = mset us"
    "case res of Inl _ \<Rightarrow> int cnt > int (length us) | Inr names \<Rightarrow> length names = cnt \<and> mset names \<subseteq># mset us"
  proof -
    have "\<exists>res us' r'. pick_names cnt (int (length us)) us [] r = Some (res, us', r') \<and> mset us' = mset us \<and>
      (case res of Inl _ \<Rightarrow> int cnt > int (length us) | Inr names \<Rightarrow> length names = cnt \<and> mset names \<subseteq># mset us)"
      using pick_names_inv [of "int (length us)" us "[]" cnt r] unfolding list.size(3) add_0_left by simp
    then show thesis using that by blast
  qed
  show ?case
  proof (cases res)
    case (Inl e)
    then show ?thesis using p by simp
  next
    case (Inr names)
    have sub: "mset names \<subseteq># mset us" "length names = cnt" using p(3) Inr by simp_all
    then have "distinct names" using submset_distinct Suc.prems by blast
    moreover have "set names \<subseteq> set us" using sub(1) by (metis set_mset_mono set_mset_mset)
    moreover have "distinct us'" using p(2) Suc.prems using mset_eq_imp_distinct_iff by blast
    ultimately have ok: "distinct names" "set names \<subseteq> set us" "distinct us'" by simp_all
    let ?key = "join (sort names) '',''"
    show ?thesis
    proof (cases "?key \<in> seen")
      case True
      have st: "pickRandomUsernames (Suc a) cnt us seen r = pickRandomUsernames a cnt us' seen r'"
        using p(1) Inr True by (simp add: Let_def)
      show ?thesis unfolding st by (rule Suc.IH [OF ok(3), of r', unfolded mset_eq_setD [OF p(2)] p(2)])
    next
      case False
      then show ?thesis using p(1,2) Inr ok sub(2) by (simp add: Let_def)
    qed
  qed
qed simp

lemma group_count_bounds: "fst (group_count room c r) \<in> {c .. c + room}"
proof (induction room arbitrary: c r)
  case (Suc room)
  obtain x r' where "float32 r = (x, r')" by force
  then show ?case using Suc [of "c + 1" r'] by auto
qed simp

lemma group_loop_inv:
  assumes "distinct us"
  shows "\<exists>cs r' f'. group_loop i us seen r f = Some (cs, r', f') \<and> length cs \<le> i \<and>
    (\<forall>c \<in> set cs. \<exists>names. Members c = Some names \<and> group_ok us names \<and> join names '','' \<notin> seen) \<and>
    distinct (map Members cs)"
  using assms
proof (induction i arbitrary: us seen r f)
  case (Suc i)
  obtain cnt r1 where c: "group_count (CHANNEL_GROUP_MAX_USERS - 3) 3 r = (cnt, r1)" by force
  have cb: "3 \<le> cnt" "cnt \<le> CHANNEL_GROUP_MAX_USERS"
    using group_count_bounds [of "CHANNEL_GROUP_MAX_USERS - 3" 3 r] c by (simp_all add: CHANNEL_GROUP_MAX_USERS_def)
  obtain header f1 where h: "makeChannelHeader f = (header, f1)" by force
  obtain res us' seen' r2 where p: "pickRandomUsernames 3 cnt us seen r1 = Some (res, us', seen', r2)" "mset us' = mset us"
    "case res of Inl _ \<Rightarrow> seen' = seen
     | Inr names \<Rightarrow> sorted names \<and> distinct names \<and> set names \<subseteq> set us \<and> length names = cnt \<and>
         join names '','' \<notin> seen \<and> seen' = insert (join names '','') seen"
    using pickRandomUsernames_inv [OF Suc.prems] by blast
  show ?case
  proof (cases res)
    case (Inl e)
    then show ?thesis using c h p by (simp add: Let_def)
  next
    case (Inr names)
    have g: "group_ok us names" "join names '','' \<notin> seen" "seen' = insert (join names '','') seen"
      using p(3) Inr cb by (simp_all add: group_ok_def)
    have d: "distinct us'" using p(2) Suc.prems using mset_eq_imp_distinct_iff by blast
    obtain cs r' f' where IH: "group_loop i us' seen' r2 f1 = Some (cs, r', f')" "length cs \<le> i"
      "\<forall>c \<in> set cs. \<exists>names. Members c = Some names \<and> group_ok us' names \<and> join names '','' \<notin> seen'"
      "distinct (map Members cs)" using Suc.IH [OF d] by blast
    have "group_ok us' = group_ok us" using mset_eq_setD [OF p(2)] by (simp add: group_ok_def fun_eq_iff)
    then have new: "\<forall>c \<in> set cs. \<exists>n. Members c = Some n \<and> group_ok us n \<and> join n '','' \<notin> seen"
      "Some names \<notin> Members ` set cs"
      using IH(3) g(3) by fastforce+
    show ?thesis using c h p(1) Inr IH(1,2,4) new g(1,2) by (auto simp: Let_def)
  qed
qed simp

section \<open>Properties\<close>

definition direct_cap :: "int \<Rightarrow> int" where
  "direct_cap n = go_div n 2 * (n - 1)"

lemma min_by_if: "(if a > b then b else a) = min a (b :: int)"
  by (simp add: min_def)

lemma makeDirectChannels_alt:
  "makeDirectChannels config r users f = do {
     make_cap (min (NumDirectMessageChannels config) (direct_cap (int (length users))));
     (permutation, r) \<leftarrow> perm (min (NumDirectMessageChannels config) (direct_cap (int (length users)))) r;
     (channels, f) \<leftarrow> direct_loop (map int [0..<length permutation]) users f;
     Some ((channels, r), f)
   }"
  by (simp only: makeDirectChannels_def Let_def direct_cap_def min_by_if)

lemma direct_cap_le: "0 \<le> n \<Longrightarrow> 2 * direct_cap n \<le> n * (n - 1)"
proof -
  assume n: "0 \<le> n"
  then have "direct_cap n = n div 2 * (n - 1)" by (simp add: direct_cap_def go_div_nonneg)
  moreover have "2 * (n div 2) \<le> n" by simp
  ultimately show ?thesis using n
  proof (cases "n = 0")
    case False
    then have "2 * (n div 2) * (n - 1) \<le> n * (n - 1)" using n by (intro mult_right_mono) auto
    then show ?thesis using \<open>direct_cap n = n div 2 * (n - 1)\<close> by simp
  qed simp
qed

lemma direct_cap_nonneg: "0 \<le> n \<Longrightarrow> 0 \<le> direct_cap n"
proof -
  assume "0 \<le> n"
  then have "n = 0 \<or> 0 \<le> n - 1 \<and> 0 \<le> n div 2" by linarith
  then show ?thesis by (auto simp: direct_cap_def go_div_nonneg)
qed

text \<open>The whole function: the channels do not depend on the generator.\<close>

lemma makeDirectChannels_run:
  assumes "int (length users) \<le> 2 ^ 24" "0 \<le> NumDirectMessageChannels config"
  shows "\<exists>cs f'. (\<forall>s. \<exists>r'. makeDirectChannels config s users f = Some ((cs, r'), f')) \<and> map Members cs =
    map (\<lambda>k. let i = direct_row (int (length users)) k; j = direct_col (int (length users)) k i
             in Some [Username (users ! nat i), Username (users ! nat j)])
      (map int [0..<nat (min (NumDirectMessageChannels config) (direct_cap (int (length users))))])"
proof -
  let ?n = "int (length users)" and ?num = "min (NumDirectMessageChannels config) (direct_cap (int (length users)))"
  have num: "0 \<le> ?num" using assms(2) direct_cap_nonneg [of ?n] by simp
  let ?ks = "map int [0..<nat ?num]"
  have ks: "\<forall>k \<in> set ?ks. 0 \<le> k \<and> 2 * k < ?n * (?n - 1)"
    using num direct_cap_le [of ?n] by (auto simp: min_def split: if_splits)
  obtain cs f' where cs: "direct_loop ?ks users f = Some (cs, f')" "map Members cs =
    map (\<lambda>k. let i = direct_row ?n k; j = direct_col ?n k i in Some [Username (users ! nat i), Username (users ! nat j)]) ?ks"
    using direct_loop_total [OF assms(1) ks] by blast
  have "\<exists>r'. makeDirectChannels config s users f = Some ((cs, r'), f')" for s
  proof -
    obtain p r' where p: "perm ?num s = Some (p, r')" "length p = nat ?num"
      using perm_total [OF num, of s] perm_props(1) by metis
    have "\<not> ?num < 0" using num by (simp only: not_less)
    then have "make_cap ?num = Some ()" by (simp only: make_cap_def if_False)
    then show ?thesis unfolding makeDirectChannels_alt using p cs(1) by simp
  qed
  then show ?thesis using cs(2) by blast
qed

text \<open>C24. For up to \<open>2^24\<close> users with distinct names \<open>makeDirectChannels\<close> never panics; it makes
  the requested number of channels, or the cap, between different pairs of different users. The
  pairs do not depend on the random permutation (the code ranges over its indices), so the first
  channels are all those of the first user; and for an odd number of users the cap is below the
  number of pairs.\<close>

theorem makeDirectChannels_distinct:
  assumes "int (length users) \<le> 2 ^ 24" "distinct (map Username users)" "0 \<le> NumDirectMessageChannels config" "users \<noteq> []"
  shows "\<exists>cs r' f'. makeDirectChannels config r users f = Some ((cs, r'), f') \<and>
    int (length cs) = min (NumDirectMessageChannels config) (direct_cap (int (length users))) \<and>
    distinct (map Members cs) \<and>
    (\<forall>c \<in> set cs. \<exists>i j. i < j \<and> j < length users \<and> Members c = Some [Username (users ! i), Username (users ! j)]) \<and>
    (\<forall>s. \<exists>r'' f''. makeDirectChannels config s users f = Some ((cs, r''), f'')) \<and>
    (odd (length users) \<and> 3 \<le> length users \<longrightarrow>
       2 * direct_cap (int (length users)) < int (length users) * (int (length users) - 1))"
proof -
  let ?n = "int (length users)" and ?num = "min (NumDirectMessageChannels config) (direct_cap (int (length users)))"
  have n1: "1 \<le> ?n" using assms(4) by (cases users) auto
  have num: "0 \<le> ?num" using assms(3) direct_cap_nonneg [of ?n] by simp
  let ?ks = "map int [0..<nat ?num]"
  have ks: "\<forall>k \<in> set ?ks. 0 \<le> k \<and> 2 * k < ?n * (?n - 1)"
    using num direct_cap_le [of ?n] by (auto simp: min_def split: if_splits)
  obtain cs f' where run: "\<forall>s. \<exists>r'. makeDirectChannels config s users f = Some ((cs, r'), f')" and cs: "map Members cs =
    map (\<lambda>k. let i = direct_row ?n k; j = direct_col ?n k i in Some [Username (users ! nat i), Username (users ! nat j)]) ?ks"
    using makeDirectChannels_run [OF assms(1,3), of f] by blast
  have len: "length cs = nat ?num" using arg_cong [OF cs, of length] by simp
  have pair: "\<exists>i j. i < j \<and> j < length users \<and> Members (cs ! k) = Some [Username (users ! i), Username (users ! j)] \<and>
      int i = direct_row ?n (int k) \<and> int j = direct_col ?n (int k) (direct_row ?n (int k))" if k: "k < length cs" for k
  proof -
    have kk: "0 \<le> int k" "2 * int k < ?n * (?n - 1)" using ks k len by auto
    note b = direct_bounds [OF n1 assms(1) kk]
    have "Members (cs ! k) = map Members cs ! k" using k by simp
    also have "\<dots> = Some [Username (users ! nat (direct_row ?n (int k))), Username (users ! nat (direct_col ?n (int k) (direct_row ?n (int k))))]"
      unfolding cs using k len by (simp add: Let_def)
    finally show ?thesis using b by (intro exI [of _ "nat (direct_row ?n (int k))"] exI [of _ "nat (direct_col ?n (int k) (direct_row ?n (int k)))"]) linarith
  qed
  have inj: "Username (users ! i) = Username (users ! j) \<Longrightarrow> i < length users \<Longrightarrow> j < length users \<Longrightarrow> i = j" for i j
    using assms(2) by (auto simp: distinct_conv_nth)
  have "distinct (map Members cs)"
  proof (subst distinct_conv_nth, intro allI impI)
    fix k l assume kl: "k < length (map Members cs)" "l < length (map Members cs)" "k \<noteq> l"
    obtain i j where ij: "i < j" "j < length users" "Members (cs ! k) = Some [Username (users ! i), Username (users ! j)]"
      "int i = direct_row ?n (int k)" "int j = direct_col ?n (int k) (direct_row ?n (int k))" using pair [of k] kl(1) by auto
    obtain i' j' where ij': "i' < j'" "j' < length users" "Members (cs ! l) = Some [Username (users ! i'), Username (users ! j')]"
      "int i' = direct_row ?n (int l)" "int j' = direct_col ?n (int l) (direct_row ?n (int l))" using pair [of l] kl(2) by auto
    show "map Members cs ! k \<noteq> map Members cs ! l"
    proof
      assume "map Members cs ! k = map Members cs ! l"
      then have "i = i'" "j = j'" using ij ij' kl inj [of i i'] inj [of j j'] by auto
      then have "direct_row ?n (int k) = direct_row ?n (int l)"
        "direct_col ?n (int k) (direct_row ?n (int k)) = direct_col ?n (int l) (direct_row ?n (int l))"
        using ij(4,5) ij'(4,5) by metis+
      moreover have "0 \<le> int k" "2 * int k < ?n * (?n - 1)" "0 \<le> int l" "2 * int l < ?n * (?n - 1)" using ks kl len by auto
      ultimately have "int k = int l" using direct_inj [OF n1 assms(1)] by blast
      then show False using kl(3) by simp
    qed
  qed
  moreover have "\<forall>c \<in> set cs. \<exists>i j. i < j \<and> j < length users \<and> Members c = Some [Username (users ! i), Username (users ! j)]"
  proof
    fix c assume "c \<in> set cs"
    then obtain k where "k < length cs" "c = cs ! k" by (auto simp: in_set_conv_nth)
    with pair [of k] show "\<exists>i j. i < j \<and> j < length users \<and> Members c = Some [Username (users ! i), Username (users ! j)]"
      by blast
  qed
  moreover have "2 * direct_cap ?n < ?n * (?n - 1)" if "odd (length users)" "3 \<le> length users"
  proof -
    have "2 * (?n div 2) = ?n - 1" using that(1) by presburger
    then have "2 * direct_cap ?n = (?n - 1) * (?n - 1)" using n1 by (simp add: direct_cap_def go_div_nonneg)
    moreover have "(?n - 1) * (?n - 1) < ?n * (?n - 1)" using that(2) by (intro mult_strict_right_mono) auto
    ultimately show ?thesis by simp
  qed
  ultimately show ?thesis using run len num by (metis (no_types, lifting) int_nat_eq)
qed

theorem makeDirectChannels_distinct_witness:
  "\<exists>cs r' f'. makeDirectChannels (blank_config\<lparr>NumDirectMessageChannels := 100\<rparr>) \<lparr>src = (\<lambda>_. 0), pos = 0\<rparr>
      [blank_user ''a'', blank_user ''b'', blank_user ''c'', blank_user ''d''] \<lparr>fk_src = (\<lambda>_ _. []), fk_pos = 0\<rparr> = Some ((cs, r'), f') \<and>
      length cs = 6 \<and> distinct (map Members cs)"
proof -
  let ?us = "[blank_user ''a'', blank_user ''b'', blank_user ''c'', blank_user ''d'']"
  let ?c = "blank_config\<lparr>NumDirectMessageChannels := 100\<rparr>"
  have c4: "direct_cap 4 = 6" by (simp add: direct_cap_def go_div_nonneg)
  have u: "int (length ?us) \<le> 2 ^ 24" "distinct (map Username ?us)" "0 \<le> NumDirectMessageChannels ?c" "?us \<noteq> []"
    by simp_all
  obtain cs r' f' where w: "makeDirectChannels ?c \<lparr>src = (\<lambda>_. 0), pos = 0\<rparr> ?us \<lparr>fk_src = (\<lambda>_ _. []), fk_pos = 0\<rparr> = Some ((cs, r'), f')"
    "int (length cs) = min (NumDirectMessageChannels ?c) (direct_cap (int (length ?us)))" "distinct (map Members cs)"
    using makeDirectChannels_distinct [OF u, of "\<lparr>src = (\<lambda>_. 0), pos = 0\<rparr>" "\<lparr>fk_src = (\<lambda>_ _. []), fk_pos = 0\<rparr>"]
    by blast
  have "length cs = 6" using w(2) c4 by simp
  then show ?thesis using w(1,3) by blast
qed

lemma makeGroupChannels_run:
  assumes "distinct (map Username users)" "0 \<le> NumGroupMessageChannels config"
  shows "\<exists>cs r' f'. makeGroupChannels config r users f = Some (cs, r', f') \<and>
    int (length cs) \<le> NumGroupMessageChannels config \<and> distinct (map Members cs) \<and>
    (\<forall>c \<in> set cs. \<exists>names. Members c = Some names \<and> group_ok (map Username users) names)"
proof -
  obtain cs r' f' where cs: "group_loop (nat (NumGroupMessageChannels config)) (map Username users) {} r f = Some (cs, r', f')"
    "length cs \<le> nat (NumGroupMessageChannels config)"
    "\<forall>c \<in> set cs. \<exists>names. Members c = Some names \<and> group_ok (map Username users) names \<and> join names '','' \<notin> {}"
    "distinct (map Members cs)"
    using group_loop_inv [OF assms(1)] by blast
  have "makeGroupChannels config r users f = Some (cs, r', f')" using cs(1) assms(2) by (simp add: makeGroupChannels_def make_cap_def)
  moreover have "int (length cs) \<le> NumGroupMessageChannels config" using cs(2) assms(2) by linarith
  ultimately show ?thesis using cs(3,4) by blast
qed

text \<open>\<open>makeGroupChannels\<close> never panics; every group it makes is a sorted list of three to eight
  different users, no two groups are the same, and it makes at most the requested number.\<close>

theorem makeGroupChannels_valid:
  assumes "distinct (map Username users)" "0 \<le> NumGroupMessageChannels config"
  shows "\<exists>cs r' f'. makeGroupChannels config r users f = Some (cs, r', f') \<and>
    int (length cs) \<le> NumGroupMessageChannels config \<and> distinct (map Members cs) \<and>
    (\<forall>c \<in> set cs. \<exists>names. Members c = Some names \<and> sorted names \<and> distinct names \<and>
       set names \<subseteq> set (map Username users) \<and> 3 \<le> length names \<and> length names \<le> 8)"
proof -
  obtain cs r' f' where cs: "makeGroupChannels config r users f = Some (cs, r', f')"
    "int (length cs) \<le> NumGroupMessageChannels config" "distinct (map Members cs)"
    "\<forall>c \<in> set cs. \<exists>names. Members c = Some names \<and> group_ok (map Username users) names"
    using makeGroupChannels_run [OF assms] by blast
  have "8 = CHANNEL_GROUP_MAX_USERS" by (simp add: CHANNEL_GROUP_MAX_USERS_def)
  then show ?thesis using cs by (metis group_ok_def)
qed

theorem makeGroupChannels_valid_witness:
  "\<exists>cs r' f'. makeGroupChannels (blank_config\<lparr>NumGroupMessageChannels := 2\<rparr>) \<lparr>src = (\<lambda>i. i), pos = 0\<rparr>
      [blank_user ''a'', blank_user ''b'', blank_user ''c'', blank_user ''d''] \<lparr>fk_src = (\<lambda>_ _. []), fk_pos = 0\<rparr> = Some (cs, r', f') \<and>
      distinct (map Members cs)"
proof -
  let ?us = "[blank_user ''a'', blank_user ''b'', blank_user ''c'', blank_user ''d'']"
  have "distinct (map Username ?us)" "0 \<le> NumGroupMessageChannels (blank_config\<lparr>NumGroupMessageChannels := 2\<rparr>)"
    by simp_all
  from makeGroupChannels_valid [OF this, of "\<lparr>src = (\<lambda>i. i), pos = 0\<rparr>" "\<lparr>fk_src = (\<lambda>_ _. []), fk_pos = 0\<rparr>"]
  show ?thesis by blast
qed

end
