(* ===== verification/Bulk_Generate.thy ===== *)
theory Bulk_Generate
  imports Bulk_Direct
begin

text \<open>
  \<open>GenerateBulkloadFile\<close> of \<^verbatim>\<open>loadtest/bulkload.go\<close> up to the point where the lines are written:
  the channels of every team, the users, and the distribution of users over teams and channels by
  volume class. Every slice access keeps its bounds check, so a configuration that makes the code
  index past a permutation is a \<open>None\<close> here.
\<close>

definition volume :: "int \<Rightarrow> real \<Rightarrow> int" where
  "volume n p = \<lfloor>f64 (f64 (of_int n) * p)\<rfloor>"

section \<open>Channels\<close>

definition make_channel :: "LoadtestEnviromentConfig \<Rightarrow> SchemeImportData list \<Rightarrow> string \<Rightarrow> int \<Rightarrow> rng \<Rightarrow> faker \<Rightarrow>
    (ChannelImportData \<times> rng \<times> faker) option" where
  "make_channel config channelSchemes teamName channelNum r f = do {
     (scheme, r) \<leftarrow>
       (if channelSchemes = [] then Some ([], r)
        else (let (x, r1) = float64 r in
              if x < PercentCustomSchemeChannels config
              then do {
                (n, r2) \<leftarrow> intn (int (length channelSchemes)) r1;
                s \<leftarrow> go_nth channelSchemes n;
                Some (scheme_Name s, r2)
              }
              else Some ([], r1)));
     let channelType = (if channelNum \<ge> NumChannelsPerTeam config then ''P'' else ''O'');
     let (name, f) = makeChannelName channelNum f;
     let (displayName, f) = makeChannelDisplayName channelNum f;
     let (header, f) = makeChannelHeader f;
     let (purpose, f) = makeChannelPurpose f;
     Some (\<lparr>channel_Team = teamName, channel_Name = name, channel_DisplayName = displayName, channel_Type = channelType,
            channel_Header = header, channel_Purpose = purpose, channel_Scheme = scheme\<rparr>, r, f)
   }"

text \<open>The inner loop: new channels are appended to \<open>channels\<close>, their indices to the team's list.\<close>

fun channel_loop :: "LoadtestEnviromentConfig \<Rightarrow> SchemeImportData list \<Rightarrow> string \<Rightarrow> int list \<Rightarrow>
    ChannelImportData list \<Rightarrow> int list \<Rightarrow> rng \<Rightarrow> faker \<Rightarrow> (ChannelImportData list \<times> int list \<times> rng \<times> faker) option" where
  "channel_loop config schemes teamName [] channels inTeam r f = Some (channels, inTeam, r, f)"
| "channel_loop config schemes teamName (channelNum # rest) channels inTeam r f = do {
     (c, r, f) \<leftarrow> make_channel config schemes teamName channelNum r f;
     let channels = channels @ [c];
     channel_loop config schemes teamName rest channels (inTeam @ [int (length channels) - 1]) r f
   }"

fun team_channel_loop :: "LoadtestEnviromentConfig \<Rightarrow> SchemeImportData list \<Rightarrow> int \<Rightarrow> int list \<Rightarrow>
    ChannelImportData list \<Rightarrow> int list list \<Rightarrow> rng \<Rightarrow> faker \<Rightarrow>
    (ChannelImportData list \<times> int list list \<times> rng \<times> faker) option" where
  "team_channel_loop config schemes totalPerTeam [] channels byTeam r f = Some (channels, byTeam, r, f)"
| "team_channel_loop config schemes totalPerTeam (teamNum # rest) channels byTeam r f = do {
     make_cap totalPerTeam;
     (channels, inTeam, r, f) \<leftarrow>
       channel_loop config schemes (''loadtestteam'' @ itoa teamNum) [0 .. totalPerTeam - 1] channels [] r f;
     team_channel_loop config schemes totalPerTeam rest channels (byTeam @ [inTeam]) r f
   }"

section \<open>Users\<close>

definition make_user :: "int \<Rightarrow> rng \<Rightarrow> faker \<Rightarrow> (UserImportData \<times> rng \<times> faker) option" where
  "make_user userNum r f = do {
     let (username, f) = makeUserName userNum f;
     let user = (blank_user username)\<lparr>user_Roles := ''system_user'',
        Email := ''success+user'' @ itoa userNum @ ''@simulator.amazonses.com'',
        Password := ''Loadtestpassword1@#%''\<rparr>;
     (a, r) \<leftarrow> intn 10 r;
     let (user, f) = (if a < 3 then (let (first, f) = fake ''FirstName'' f; (last_name, f) = fake ''LastName'' f
                                     in (user\<lparr>FirstName := first, LastName := last_name\<rparr>, f))
                      else (user, f));
     (b, r) \<leftarrow> intn 10 r;
     let (user, f) = (if b < 3 then (let (nick, f) = fake ''Word'' f in (user\<lparr>Nickname := nick\<rparr>, f))
                      else (user, f));
     Some (user, r, f)
   }"

fun user_loop :: "int list \<Rightarrow> UserImportData list \<Rightarrow> rng \<Rightarrow> faker \<Rightarrow> (UserImportData list \<times> rng \<times> faker) option" where
  "user_loop [] users r f = Some (users, r, f)"
| "user_loop (userNum # rest) users r f = do {
     (u, r, f) \<leftarrow> make_user userNum r f;
     user_loop rest (users @ [u]) r f
   }"

section \<open>Membership\<close>

definition add_team :: "string \<Rightarrow> int \<Rightarrow> UserImportData \<Rightarrow> UserImportData" where
  "add_team name weight u =
     (let teams = Teams u @ [\<lparr>uteam_Name = name, uteam_Roles = [], Channels = [], ChannelChoice = []\<rparr>]
      in u\<lparr>Teams := teams, TeamChoice := TeamChoice u @ [\<lparr>Weight = weight, Item = int (length teams) - 1\<rparr>]\<rparr>)"

definition add_channel :: "string \<Rightarrow> int \<Rightarrow> UserImportData \<Rightarrow> UserImportData option" where
  "add_channel name weight u = do {
     let k = int (length (Teams u)) - 1;
     t \<leftarrow> go_nth (Teams u) k;
     let channels = Channels t @ [\<lparr>uchannel_Name = name, uchannel_Roles = []\<rparr>];
     teams \<leftarrow> go_set (Teams u) k (t\<lparr>Channels := channels,
                ChannelChoice := ChannelChoice t @ [\<lparr>Weight = weight, Item = int (length channels) - 1\<rparr>]\<rparr>);
     Some (u\<lparr>Teams := teams\<rparr>)
   }"

text \<open>The loop over \<open>userNum < numUsersToAdd\<close>; the first argument is how many are left.\<close>

fun add_users :: "nat \<Rightarrow> int \<Rightarrow> nat list \<Rightarrow> string \<Rightarrow> int \<Rightarrow> UserImportData list \<Rightarrow> int list \<Rightarrow>
    (UserImportData list \<times> int list) option" where
  "add_users 0 userNum permutation name weight users inTeam = Some (users, inTeam)"
| "add_users (Suc left) userNum permutation name weight users inTeam = do {
     p \<leftarrow> go_nth permutation userNum;
     u \<leftarrow> go_nth users (int p);
     users \<leftarrow> go_set users (int p) (add_team name weight u);
     add_users left (userNum + 1) permutation name weight users (inTeam @ [int p])
   }"

fun add_users_to_channel :: "nat \<Rightarrow> int \<Rightarrow> nat list \<Rightarrow> int list \<Rightarrow> string \<Rightarrow> int \<Rightarrow> UserImportData list \<Rightarrow>
    UserImportData list option" where
  "add_users_to_channel 0 k permutation inTeam name weight users = Some users"
| "add_users_to_channel (Suc left) k permutation inTeam name weight users = do {
     p \<leftarrow> go_nth permutation k;
     userNum \<leftarrow> go_nth inTeam (int p);
     u \<leftarrow> go_nth users userNum;
     u' \<leftarrow> add_channel name weight u;
     users \<leftarrow> go_set users userNum u';
     add_users_to_channel left (k + 1) permutation inTeam name weight users
   }"

text \<open>The volume class of a position: the three-way comparison is the same for teams and channels.\<close>

definition by_volume :: "int \<Rightarrow> int \<Rightarrow> int \<Rightarrow> 'a \<Rightarrow> 'a \<Rightarrow> 'a \<Rightarrow> 'a" where
  "by_volume sequenceNum numHigh numMid high mid low =
     (let x = high;
          x = (if sequenceNum > numHigh then mid else x);
          x = (if sequenceNum > numHigh + numMid then low else x)
      in x)"

fun channels_in_team_loop :: "LoadtestEnviromentConfig \<Rightarrow> ChannelImportData list \<Rightarrow> int \<Rightarrow> int \<Rightarrow> int list \<Rightarrow> int \<Rightarrow> int list \<Rightarrow>
    UserImportData list \<Rightarrow> rng \<Rightarrow> (UserImportData list \<times> rng) option" where
  "channels_in_team_loop config channels numUsersToAdd numChannels inTeam sequenceNum [] users r = Some (users, r)"
| "channels_in_team_loop config channels numUsersToAdd numChannels inTeam sequenceNum (channelNum # rest) users r = do {
     channel \<leftarrow> go_nth channels channelNum;
     let numHigh = volume numChannels (PercentHighVolumeChannels config);
     let numMid = volume numChannels (PercentMidVolumeChannels config);
     let (toAdd, weight) = by_volume sequenceNum numHigh numMid
       (volume numUsersToAdd (PercentUsersHighVolumeChannel config), HighVolumeChannelSelectionWeight config)
       (volume numUsersToAdd (PercentUsersMidVolumeChannel config), MidVolumeChannelSelectionWeight config)
       (volume numUsersToAdd (PercentUsersLowVolumeChannel config), LowVolumeChannelSelectionWeight config);
     let toAdd = (if toAdd > int (length inTeam) then int (length inTeam) else toAdd);
     (permutation, r) \<leftarrow> perm (int (length inTeam)) r;
     users \<leftarrow> add_users_to_channel (nat toAdd) 0 permutation inTeam (channel_Name channel) weight users;
     channels_in_team_loop config channels numUsersToAdd numChannels inTeam (sequenceNum + 1) rest users r
   }"

definition fill_team :: "LoadtestEnviromentConfig \<Rightarrow> TeamImportData list \<Rightarrow> ChannelImportData list \<Rightarrow> int list list \<Rightarrow>
    int \<Rightarrow> nat \<Rightarrow> UserImportData list \<Rightarrow> rng \<Rightarrow> (UserImportData list \<times> rng) option" where
  "fill_team config teams channels channelsByTeam sequenceNum teamNum users r = do {
     currentTeam \<leftarrow> go_nth teams (int teamNum);
     channelsInTeam \<leftarrow> go_nth channelsByTeam (int teamNum);
     let numHigh = volume (NumTeams config) (PercentHighVolumeTeams config);
     let numMid = volume (NumTeams config) (PercentMidVolumeTeams config);
     let (numUsersToAdd, weight) = by_volume sequenceNum numHigh numMid
       (volume (NumUsers config) (PercentUsersHighVolumeTeams config), HighVolumeTeamSelectionWeight config)
       (volume (NumUsers config) (PercentUsersMidVolumeTeams config), MidVolumeTeamSelectionWeight config)
       (volume (NumUsers config) (PercentUsersLowVolumeTeams config), LowVolumeTeamSelectionWeight config);
     (permutation, r) \<leftarrow> perm (int (length users)) r;
     make_cap numUsersToAdd;
     (users, inTeam) \<leftarrow> add_users (nat numUsersToAdd) 0 permutation (team_Name currentTeam) weight users [];
     channels_in_team_loop config channels numUsersToAdd (int (length channelsInTeam)) inTeam 0 channelsInTeam users r
   }"

fun fill_teams :: "LoadtestEnviromentConfig \<Rightarrow> TeamImportData list \<Rightarrow> ChannelImportData list \<Rightarrow> int list list \<Rightarrow>
    int \<Rightarrow> nat list \<Rightarrow> UserImportData list \<Rightarrow> rng \<Rightarrow> (UserImportData list \<times> rng) option" where
  "fill_teams config teams channels channelsByTeam sequenceNum [] users r = Some (users, r)"
| "fill_teams config teams channels channelsByTeam sequenceNum (teamNum # rest) users r = do {
     (users, r) \<leftarrow> fill_team config teams channels channelsByTeam sequenceNum teamNum users r;
     fill_teams config teams channels channelsByTeam (sequenceNum + 1) rest users r
   }"

section \<open>The generated objects\<close>

record generated =
  g_teamSchemes :: "SchemeImportData list"
  g_channelSchemes :: "SchemeImportData list"
  g_teams :: "TeamImportData list"
  g_channels :: "ChannelImportData list"
  g_users :: "UserImportData list"
  g_emojis :: "EmojiImportData list"
  g_direct :: "DirectChannelImportData list"

text \<open>\<open>rand.NewSource(29)\<close> is the generator \<open>r\<close>; \<open>fake.Seed\<close> is the parameter \<open>seed_faker\<close>.\<close>

definition generate_objects :: "(nat \<Rightarrow> faker) \<Rightarrow> rng \<Rightarrow> LoadtestEnviromentConfig \<Rightarrow> generated option" where
  "generate_objects seed_faker r config = do {
     let (s, r) = draw r;
     let f = seed_faker s;
     make_cap (NumUsers config);
     let totalPerTeam = NumChannelsPerTeam config + NumPrivateChannelsPerTeam config;
     make_cap (totalPerTeam * NumTeams config);
     teamSchemes \<leftarrow> generateTeamSchemes (NumTeamSchemes config);
     (teams, r) \<leftarrow> generateTeams (NumTeams config) r (PercentCustomSchemeTeams config) teamSchemes;
     channelSchemes \<leftarrow> generateChannelSchemes (NumChannelSchemes config);
     make_cap (NumChannelsPerTeam config * NumTeams config);
     emojis \<leftarrow> generateEmoji (NumEmoji config);
     (channels, channelsByTeam, r, f) \<leftarrow> team_channel_loop config channelSchemes totalPerTeam [0 .. NumTeams config - 1] [] [] r f;
     (users, r, f) \<leftarrow> user_loop [0 .. NumUsers config - 1] [] r f;
     (teamPermutation, r) \<leftarrow> perm (int (length teams)) r;
     (users, r) \<leftarrow> fill_teams config teams channels channelsByTeam 0 teamPermutation users r;
     ((direct, r), f) \<leftarrow> makeDirectChannels config r users f;
     (group, r, f) \<leftarrow> makeGroupChannels config r users f;
     Some \<lparr>g_teamSchemes = teamSchemes, g_channelSchemes = channelSchemes, g_teams = teams, g_channels = channels,
           g_users = users, g_emojis = emojis, g_direct = direct @ group\<rparr>
   }"

section \<open>Updating users by index\<close>

definition upd_at :: "('a \<Rightarrow> 'a) \<Rightarrow> nat set \<Rightarrow> 'a list \<Rightarrow> 'a list" where
  "upd_at f I us = map (\<lambda>i. if i \<in> I then f (us ! i) else us ! i) [0..<length us]"

lemma upd_at_length [simp]: "length (upd_at f I us) = length us"
  by (simp add: upd_at_def)

lemma upd_at_nth [simp]: "i < length us \<Longrightarrow> upd_at f I us ! i = (if i \<in> I then f (us ! i) else us ! i)"
  by (simp add: upd_at_def)

lemma upd_at_empty [simp]: "upd_at f {} us = us"
  by (rule nth_equalityI) auto

lemma upd_at_insert: "j < length us \<Longrightarrow> j \<notin> I \<Longrightarrow> upd_at f I (us[j := f (us ! j)]) = upd_at f (insert j I) us"
  by (rule nth_equalityI) (auto simp: nth_list_update)

lemma upd_at_map: "(\<And>u. g (f u) = g u) \<Longrightarrow> map g (upd_at f I us) = map g us"
  by (rule nth_equalityI) auto

lemma upd_at_mem: "u \<in> set (upd_at f I us) \<Longrightarrow> u \<in> set us \<or> (\<exists>i \<in> I. i < length us \<and> u = f (us ! i))"
  by (auto simp: in_set_conv_nth split: if_splits)

lemma add_users_result:
  assumes "distinct p" "set p \<subseteq> {0..<length us}" "k + left \<le> length p"
  shows "add_users left (int k) p name w us inTeam =
    Some (upd_at (add_team name w) (set (take left (drop k p))) us, inTeam @ map int (take left (drop k p)))"
  using assms
proof (induction left arbitrary: k us inTeam)
  case (Suc left)
  have k: "k < length p" using Suc.prems(3) by simp
  then have pk: "p ! k < length us" using subsetD [OF Suc.prems(2) nth_mem [OF k]] by simp
  have d: "drop k p = p ! k # drop (Suc k) p" using k by (rule Cons_nth_drop_Suc [symmetric])
  have nin: "p ! k \<notin> set (take left (drop (Suc k) p))"
    using Suc.prems(1) d by (metis distinct.simps(2) distinct_drop in_set_takeD)
  let ?us = "us[p ! k := add_team name w (us ! (p ! k))]"
  have "add_users (Suc left) (int k) p name w us inTeam = add_users left (int (Suc k)) p name w ?us (inTeam @ [int (p ! k)])"
    using k pk by (simp add: go_nth_def go_set_def add.commute)
  also have "\<dots> = Some (upd_at (add_team name w) (set (take left (drop (Suc k) p))) ?us,
      (inTeam @ [int (p ! k)]) @ map int (take left (drop (Suc k) p)))"
    using Suc.prems by (intro Suc.IH) auto
  finally show ?case using d upd_at_insert [OF pk nin] by simp
qed simp

definition add_channel_last :: "string \<Rightarrow> int \<Rightarrow> UserImportData \<Rightarrow> UserImportData" where
  "add_channel_last name w u =
     (let t = last (Teams u); cs = Channels t @ [\<lparr>uchannel_Name = name, uchannel_Roles = []\<rparr>]
      in u\<lparr>Teams := butlast (Teams u) @ [t\<lparr>Channels := cs,
            ChannelChoice := ChannelChoice t @ [\<lparr>Weight = w, Item = int (length cs) - 1\<rparr>]\<rparr>]\<rparr>)"

lemma add_channel_Some: "Teams u \<noteq> [] \<Longrightarrow> add_channel name w u = Some (add_channel_last name w u)"
proof -
  assume ne: "Teams u \<noteq> []"
  have i: "nat (int (length (Teams u)) - 1) = length (Teams u) - 1" by simp
  have "0 \<le> int (length (Teams u)) - 1 \<and> int (length (Teams u)) - 1 < int (length (Teams u))"
    using ne by (cases "Teams u") auto
  moreover have "Teams u ! (length (Teams u) - 1) = last (Teams u)" using ne by (simp add: last_conv_nth)
  moreover have "(Teams u)[length (Teams u) - 1 := x] = butlast (Teams u) @ [x]" for x
    using ne by (metis append_butlast_last_id length_append_singleton diff_Suc_1 list_update_length length_butlast)
  ultimately show ?thesis
    by (simp add: add_channel_def add_channel_last_def go_nth_def go_set_def Let_def i)
qed

lemma add_users_to_channel_result:
  assumes "distinct p" "set p \<subseteq> {0..<length js}" "k + left \<le> length p" "distinct js" "set js \<subseteq> {0..<length us}"
    and "\<forall>j \<in> set js. Teams (us ! j) \<noteq> []"
  shows "add_users_to_channel left (int k) p (map int js) name w us =
    Some (upd_at (add_channel_last name w) ((!) js ` set (take left (drop k p))) us)"
  using assms(3,5,6)
proof (induction left arbitrary: k us)
  case (Suc left)
  have k: "k < length p" using Suc.prems(1) by simp
  then have pk: "p ! k < length js" using subsetD [OF assms(2) nth_mem [OF k]] by simp
  have j: "js ! (p ! k) < length us" "js ! (p ! k) \<in> set js" using subsetD [OF Suc.prems(2) nth_mem [OF pk]] nth_mem [OF pk] by simp_all
  have d: "drop k p = p ! k # drop (Suc k) p" using k by (rule Cons_nth_drop_Suc [symmetric])
  let ?I = "(!) js ` set (take left (drop (Suc k) p))"
  have nin: "js ! (p ! k) \<notin> ?I"
  proof
    assume "js ! (p ! k) \<in> ?I"
    then obtain x where x: "x \<in> set (take left (drop (Suc k) p))" "js ! (p ! k) = js ! x" by auto
    then have "x \<in> set (drop (Suc k) p)" by (meson in_set_takeD)
    moreover from this have "x < length js" using assms(2) by (meson atLeastLessThan_iff in_set_dropD subsetD)
    ultimately have "x = p ! k" using x(2) pk assms(4) by (simp add: nth_eq_iff_index_eq)
    with \<open>x \<in> set (drop (Suc k) p)\<close> show False using assms(1) d by (metis distinct.simps(2) distinct_drop)
  qed
  let ?us = "us[js ! (p ! k) := add_channel_last name w (us ! (js ! (p ! k)))]"
  have "add_users_to_channel (Suc left) (int k) p (map int js) name w us =
      add_users_to_channel left (int (Suc k)) p (map int js) name w ?us"
    using k pk j Suc.prems(3) by (simp add: go_nth_def go_set_def add_channel_Some add.commute)
  also have "\<dots> = Some (upd_at (add_channel_last name w) ?I ?us)"
  proof (rule Suc.IH)
    show "\<forall>j \<in> set js. Teams (?us ! j) \<noteq> []"
      using Suc.prems(3) j by (auto simp: nth_list_update add_channel_last_def Let_def)
  qed (use Suc.prems in auto)
  finally show ?case using d upd_at_insert [OF j(1) nin] by simp
qed simp

section \<open>What membership must satisfy\<close>

definition choices_ok :: "UserImportData \<Rightarrow> bool" where
  "choices_ok u \<longleftrightarrow> map Item (TeamChoice u) = map int [0..<length (Teams u)] \<and>
     (\<forall>t \<in> set (Teams u). map Item (ChannelChoice t) = map int [0..<length (Channels t)])"

definition channels_of :: "ChannelImportData list \<Rightarrow> string \<Rightarrow> string set" where
  "channels_of channels team = channel_Name ` {c \<in> set channels. channel_Team c = team}"

definition team_member_ok :: "ChannelImportData list \<Rightarrow> UserTeamImportData \<Rightarrow> bool" where
  "team_member_ok channels t \<longleftrightarrow> distinct (map uchannel_Name (Channels t)) \<and>
     uchannel_Name ` set (Channels t) \<subseteq> channels_of channels (uteam_Name t)"

definition member_ok :: "ChannelImportData list \<Rightarrow> UserImportData \<Rightarrow> bool" where
  "member_ok channels u \<longleftrightarrow> choices_ok u \<and> distinct (map uteam_Name (Teams u)) \<and> (\<forall>t \<in> set (Teams u). team_member_ok channels t)"

lemma add_team_keeps:
  "Username (add_team n w u) = Username u" "Email (add_team n w u) = Email u"
  "map uteam_Name (Teams (add_team n w u)) = map uteam_Name (Teams u) @ [n]" "Teams (add_team n w u) \<noteq> []"
  by (simp_all add: add_team_def Let_def)

lemma add_team_ok: "member_ok cs u \<Longrightarrow> n \<notin> uteam_Name ` set (Teams u) \<Longrightarrow> member_ok cs (add_team n w u)"
  by (auto simp: member_ok_def choices_ok_def team_member_ok_def add_team_def Let_def)

lemma add_channel_last_keeps:
  "Username (add_channel_last n w u) = Username u" "Email (add_channel_last n w u) = Email u"
  "Teams (add_channel_last n w u) \<noteq> []"
  by (simp_all add: add_channel_last_def Let_def)

lemma add_channel_last_teams:
  "Teams u \<noteq> [] \<Longrightarrow> map uteam_Name (Teams (add_channel_last n w u)) = map uteam_Name (Teams u) \<and>
    map uchannel_Name (Channels (last (Teams (add_channel_last n w u)))) = map uchannel_Name (Channels (last (Teams u))) @ [n]"
proof -
  assume "Teams u \<noteq> []"
  then have "map uteam_Name (butlast (Teams u)) @ [uteam_Name (last (Teams u))] = map uteam_Name (Teams u)"
    by (metis append_butlast_last_id list.simps(8,9) map_append)
  then show ?thesis by (simp add: add_channel_last_def Let_def)
qed

lemma add_channel_last_ok:
  assumes "member_ok cs u" "Teams u \<noteq> []" "n \<in> channels_of cs (uteam_Name (last (Teams u)))"
    and "n \<notin> uchannel_Name ` set (Channels (last (Teams u)))"
  shows "member_ok cs (add_channel_last n w u)"
proof -
  have l: "last (Teams u) \<in> set (Teams u)" using assms(2) by simp
  have "distinct (map uteam_Name (Teams (add_channel_last n w u)))"
    using assms(1) add_channel_last_teams [OF assms(2)] by (simp add: member_ok_def)
  moreover have "choices_ok (add_channel_last n w u)"
    using assms(1,2) l by (auto simp: member_ok_def choices_ok_def add_channel_last_def Let_def dest: in_set_butlastD)
  moreover have "team_member_ok cs t" if t: "t \<in> set (Teams (add_channel_last n w u))" for t
  proof (cases "t \<in> set (butlast (Teams u))")
    case True
    then have "t \<in> set (Teams u)" by (rule in_set_butlastD)
    then show ?thesis using assms(1) by (simp add: member_ok_def)
  next
    case False
    then have "t = last (Teams (add_channel_last n w u))" using t by (auto simp: add_channel_last_def Let_def)
    moreover have "team_member_ok cs (last (Teams u))" using assms(1) l by (simp add: member_ok_def)
    ultimately show ?thesis using assms(3,4) by (simp add: add_channel_last_def Let_def team_member_ok_def)
  qed
  ultimately show ?thesis by (simp add: member_ok_def)
qed

section \<open>Filling a team\<close>

definition names_of :: "UserImportData \<Rightarrow> string list" where
  "names_of u = map uteam_Name (Teams u)"

text \<open>What the membership loops leave alone.\<close>

definition same_users :: "UserImportData list \<Rightarrow> UserImportData list \<Rightarrow> bool" where
  "same_users us us' \<longleftrightarrow> length us' = length us \<and> map Username us' = map Username us \<and> map Email us' = map Email us"

lemma same_users_refl [simp]: "same_users us us"
  by (simp add: same_users_def)

lemma same_users_trans: "same_users a b \<Longrightarrow> same_users b c \<Longrightarrow> same_users a c"
  by (simp add: same_users_def)

lemma same_users_upd:
  "(\<And>u. Username (f u) = Username u \<and> Email (f u) = Email u) \<Longrightarrow> same_users us (upd_at f I us)"
  unfolding same_users_def by (intro conjI upd_at_map upd_at_length) simp_all

text \<open>The users at \<open>js\<close> are in the middle of joining team \<open>cur\<close>, with channels among \<open>used\<close>.\<close>

definition joining :: "ChannelImportData list \<Rightarrow> string \<Rightarrow> nat list \<Rightarrow> string set \<Rightarrow> UserImportData list \<Rightarrow> bool" where
  "joining channels cur js used us \<longleftrightarrow> (\<forall>u \<in> set us. member_ok channels u) \<and>
     (\<forall>j \<in> set js. Teams (us ! j) \<noteq> [] \<and> uteam_Name (last (Teams (us ! j))) = cur \<and>
        uchannel_Name ` set (Channels (last (Teams (us ! j)))) \<subseteq> used)"

lemma last_name: "Teams u \<noteq> [] \<Longrightarrow> uteam_Name (last (Teams u)) = last (map uteam_Name (Teams u))"
  by (simp add: last_map)

lemma joining_step:
  assumes "joining channels cur js used us" "I \<subseteq> set js" "set js \<subseteq> {0..<length us}"
    and "n \<in> channels_of channels cur" "n \<notin> used"
  shows "joining channels cur js (insert n used) (upd_at (add_channel_last n w) I us) \<and>
    map names_of (upd_at (add_channel_last n w) I us) = map names_of us"
proof -
  let ?f = "add_channel_last n w"
  have j: "Teams (us ! j) \<noteq> []" "uteam_Name (last (Teams (us ! j))) = cur"
    "uchannel_Name ` set (Channels (last (Teams (us ! j)))) \<subseteq> used" if "j \<in> set js" for j
    using assms(1) that by (auto simp: joining_def)
  have lt: "j < length us" if "j \<in> set js" for j using subsetD [OF assms(3) that] by simp
  have names: "names_of (?f (us ! j)) = names_of (us ! j)" if "j \<in> set js" for j
    using add_channel_last_teams [OF j(1) [OF that]] by (simp add: names_of_def)
  have "member_ok channels u" if mem: "u \<in> set (upd_at ?f I us)" for u
  proof -
    consider "u \<in> set us" | i where "i \<in> I" "i < length us" "u = ?f (us ! i)" using upd_at_mem [OF mem] by blast
    then show ?thesis
    proof cases
      case 1
      then show ?thesis using assms(1) by (simp add: joining_def)
    next
      case 2
      then have js: "i \<in> set js" using assms(2) by blast
      have "member_ok channels (us ! i)" using assms(1) 2(2) by (simp add: joining_def)
      then show ?thesis unfolding 2(3) using j [OF js] assms(4,5) by (intro add_channel_last_ok) auto
    qed
  qed
  moreover have "Teams (upd_at ?f I us ! i) \<noteq> [] \<and> uteam_Name (last (Teams (upd_at ?f I us ! i))) = cur \<and>
      uchannel_Name ` set (Channels (last (Teams (upd_at ?f I us ! i)))) \<subseteq> insert n used" if i: "i \<in> set js" for i
  proof (cases "i \<in> I")
    case False
    then show ?thesis using j [OF i] lt [OF i] by auto
  next
    case True
    have u: "upd_at ?f I us ! i = ?f (us ! i)" using True lt [OF i] by simp
    note T = add_channel_last_teams [OF j(1) [OF i], of n w]
    have "uteam_Name (last (Teams (?f (us ! i)))) = last (map uteam_Name (Teams (us ! i)))"
      using last_name [OF add_channel_last_keeps(3)] T by simp
    also have "\<dots> = cur" using last_name [OF j(1) [OF i]] j(2) [OF i] by simp
    finally have "uteam_Name (last (Teams (?f (us ! i)))) = cur" .
    moreover have "uchannel_Name ` set (Channels (last (Teams (?f (us ! i))))) = insert n (uchannel_Name ` set (Channels (last (Teams (us ! i)))))"
      using arg_cong [OF T [THEN conjunct2], of set] by simp
    ultimately show ?thesis unfolding u using add_channel_last_keeps(3) j(3) [OF i] by auto
  qed
  moreover have "map names_of (upd_at ?f I us) = map names_of us"
  proof (rule nth_equalityI)
    fix i assume "i < length (map names_of (upd_at ?f I us))"
    then show "map names_of (upd_at ?f I us) ! i = map names_of us ! i" using names assms(2) by auto
  qed simp
  ultimately show ?thesis by (simp add: joining_def)
qed

lemma channels_in_team_loop_result:
  assumes "distinct js" "set js \<subseteq> {0..<length us}" "joining channels cur js used us"
    and "\<forall>c \<in> set nums. 0 \<le> c \<and> c < int (length channels) \<and> channel_Team (channels ! nat c) = cur"
    and "distinct (map (\<lambda>c. channel_Name (channels ! nat c)) nums)"
    and "\<forall>c \<in> set nums. channel_Name (channels ! nat c) \<notin> used"
  shows "\<exists>us' r'. channels_in_team_loop config channels toAdd numChannels (map int js) s nums us r = Some (us', r') \<and>
    same_users us us' \<and> map names_of us' = map names_of us \<and> (\<forall>u \<in> set us'. member_ok channels u)"
  using assms
proof (induction nums arbitrary: s us r used)
  case Nil
  then show ?case by (simp add: joining_def)
next
  case (Cons c nums)
  let ?ch = "channels ! nat c"
  have "nat c < length channels" using Cons.prems(4) by auto
  then have c: "go_nth channels c = Some ?ch" "?ch \<in> set channels" "channel_Team ?ch = cur"
    using Cons.prems(4) by (auto simp: go_nth_def)
  obtain add w where aw: "by_volume s (volume numChannels (PercentHighVolumeChannels config)) (volume numChannels (PercentMidVolumeChannels config))
       (volume toAdd (PercentUsersHighVolumeChannel config), HighVolumeChannelSelectionWeight config)
       (volume toAdd (PercentUsersMidVolumeChannel config), MidVolumeChannelSelectionWeight config)
       (volume toAdd (PercentUsersLowVolumeChannel config), LowVolumeChannelSelectionWeight config) = (add, w)" by force
  define left where "left = nat (if add > int (length (map int js)) then int (length (map int js)) else add)"
  have "0 \<le> int (length (map int js))" by simp
  then obtain p r1 where p1: "perm (int (length (map int js))) r = Some (p, r1)" using perm_total by blast
  note p = p1 perm_props [OF p1, simplified]
  have left: "0 + left \<le> length p" using p(2) by (auto simp: left_def)
  let ?I = "(!) js ` set (take left (drop 0 p))"
  let ?us = "upd_at (add_channel_last (channel_Name ?ch) w) ?I us"
  have ne: "\<forall>j \<in> set js. Teams (us ! j) \<noteq> []" using Cons.prems(3) by (simp add: joining_def)
  have run: "add_users_to_channel left (int 0) p (map int js) (channel_Name ?ch) w us = Some ?us"
    using add_users_to_channel_result [OF p(3) _ left Cons.prems(1,2) ne, of "channel_Name ?ch" w] p(4) by simp
  have "set (take left p) \<subseteq> set p" by (rule set_take_subset)
  then have "?I \<subseteq> set js" using p(4) by auto
  moreover have "channel_Name ?ch \<in> channels_of channels cur" using c by (auto simp: channels_of_def)
  ultimately have st: "joining channels cur js (insert (channel_Name ?ch) used) ?us" "map names_of ?us = map names_of us"
    using joining_step [OF Cons.prems(3) _ Cons.prems(2), of ?I "channel_Name ?ch" w] Cons.prems(6) by simp_all
  have su: "same_users us ?us" by (rule same_users_upd) (simp add: add_channel_last_keeps)
  have js: "set js \<subseteq> {0..<length ?us}" using Cons.prems(2) by simp
  have d1: "distinct (map (\<lambda>c. channel_Name (channels ! nat c)) nums)"
    and other: "channel_Name ?ch \<notin> (\<lambda>c. channel_Name (channels ! nat c)) ` set nums"
    using Cons.prems(5) by simp_all
  have d2: "\<forall>c' \<in> set nums. channel_Name (channels ! nat c') \<notin> insert (channel_Name ?ch) used"
  proof
    fix c' assume c': "c' \<in> set nums"
    have "channel_Name (channels ! nat c') \<noteq> channel_Name ?ch"
      using other imageI [OF c', of "\<lambda>c. channel_Name (channels ! nat c)"] by metis
    then show "channel_Name (channels ! nat c') \<notin> insert (channel_Name ?ch) used"
      using Cons.prems(6) c' by simp
  qed
  note d = d1 d2
  have v: "\<forall>c \<in> set nums. 0 \<le> c \<and> c < int (length channels) \<and> channel_Team (channels ! nat c) = cur"
    using Cons.prems(4) by simp
  obtain us' r' where IH: "channels_in_team_loop config channels toAdd numChannels (map int js) (s + 1) nums ?us r1 = Some (us', r')"
    "same_users ?us us'" "map names_of us' = map names_of ?us" "\<forall>u \<in> set us'. member_ok channels u"
    using Cons.IH [OF Cons.prems(1) js st(1) v d, of "s + 1" r1] by blast
  have "channels_in_team_loop config channels toAdd numChannels (map int js) s (c # nums) us r = Some (us', r')"
    using c(1) aw p(1) run IH(1) by (simp add: Let_def left_def)
  then show ?case using su st(2) IH same_users_trans by metis
qed

text \<open>A configuration whose percentages are percentages and whose counts are counts.\<close>

definition config_ok :: "LoadtestEnviromentConfig \<Rightarrow> bool" where
  "config_ok c \<longleftrightarrow> 0 \<le> NumTeams c \<and> 0 \<le> NumChannelsPerTeam c \<and> 0 \<le> NumPrivateChannelsPerTeam c \<and>
     0 \<le> NumDirectMessageChannels c \<and> 0 \<le> NumGroupMessageChannels c \<and> 0 \<le> NumUsers c \<and> NumUsers c \<le> 2 ^ 24 \<and>
     0 \<le> NumTeamSchemes c \<and> 0 \<le> NumChannelSchemes c \<and> 0 \<le> NumEmoji c \<and>
     0 \<le> PercentUsersHighVolumeTeams c \<and> PercentUsersHighVolumeTeams c \<le> 1 \<and>
     0 \<le> PercentUsersMidVolumeTeams c \<and> PercentUsersMidVolumeTeams c \<le> 1 \<and>
     0 \<le> PercentUsersLowVolumeTeams c \<and> PercentUsersLowVolumeTeams c \<le> 1"

lemma volume_bounds: "0 \<le> n \<Longrightarrow> n \<le> 2 ^ 24 \<Longrightarrow> 0 \<le> p \<Longrightarrow> p \<le> 1 \<Longrightarrow> 0 \<le> volume n p \<and> volume n p \<le> n"
proof -
  assume n: "0 \<le> n" "n \<le> 2 ^ 24" and p: "0 \<le> p" "p \<le> 1"
  have fn: "f64 (of_int n) = of_int n" using n by (intro f64_int) simp
  have x: "0 \<le> of_int n * p" "of_int n * p \<le> of_int n" using n(1) p by (simp_all add: mult_left_le)
  have "(of_int n :: real) \<le> 2 ^ 24" using n(2) by (metis of_int_le_iff of_int_numeral of_int_power)
  then have b: "\<bar>of_int n * p\<bar> < 2 ^ 53" using x by simp
  have "0 \<le> f64 (of_int n * p)" using f64_ge_int [of 0, OF _ b] x(1) by simp
  moreover have "f64 (of_int n * p) \<le> of_int n" using f64_le_int [of _ n, OF x(2) b] .
  ultimately show ?thesis by (simp add: volume_def fn floor_le_iff)
qed

text \<open>How many users join the team at a position of the permutation.\<close>

definition team_share :: "LoadtestEnviromentConfig \<Rightarrow> int \<Rightarrow> int" where
  "team_share config sequenceNum =
     by_volume sequenceNum (volume (NumTeams config) (PercentHighVolumeTeams config)) (volume (NumTeams config) (PercentMidVolumeTeams config))
       (volume (NumUsers config) (PercentUsersHighVolumeTeams config))
       (volume (NumUsers config) (PercentUsersMidVolumeTeams config))
       (volume (NumUsers config) (PercentUsersLowVolumeTeams config))"

definition team_weight :: "LoadtestEnviromentConfig \<Rightarrow> int \<Rightarrow> int" where
  "team_weight config sequenceNum =
     by_volume sequenceNum (volume (NumTeams config) (PercentHighVolumeTeams config)) (volume (NumTeams config) (PercentMidVolumeTeams config))
       (HighVolumeTeamSelectionWeight config) (MidVolumeTeamSelectionWeight config) (LowVolumeTeamSelectionWeight config)"

lemma by_volume_pair: "by_volume s h m (a, x) (b, y) (c, z) = (by_volume s h m a b c, by_volume s h m x y z)"
  by (simp add: by_volume_def Let_def)

lemma team_share_bounds: "config_ok config \<Longrightarrow> 0 \<le> team_share config s \<and> team_share config s \<le> NumUsers config"
  using volume_bounds [of "NumUsers config"] by (auto simp: team_share_def by_volume_def Let_def config_ok_def)

text \<open>The channels of a team, as indices with different names.\<close>

definition team_channels_ok :: "ChannelImportData list \<Rightarrow> string \<Rightarrow> int list \<Rightarrow> bool" where
  "team_channels_ok channels team nums \<longleftrightarrow>
     (\<forall>c \<in> set nums. 0 \<le> c \<and> c < int (length channels) \<and> channel_Team (channels ! nat c) = team) \<and>
     distinct (map (\<lambda>c. channel_Name (channels ! nat c)) nums)"

lemma fill_team_result:
  assumes "config_ok config" "int (length us) = NumUsers config" "t < length teams" "t < length byTeam"
    and "team_channels_ok channels (team_Name (teams ! t)) (byTeam ! t)"
    and "\<forall>u \<in> set us. member_ok channels u \<and> team_Name (teams ! t) \<notin> set (names_of u)"
  shows "\<exists>us' r' js. fill_team config teams channels byTeam s t us r = Some (us', r') \<and> same_users us us' \<and>
    (\<forall>u \<in> set us'. member_ok channels u) \<and> distinct js \<and> set js \<subseteq> {0..<length us} \<and> int (length js) = team_share config s \<and>
    (\<forall>i < length us. names_of (us' ! i) = names_of (us ! i) @ (if i \<in> set js then [team_Name (teams ! t)] else []))"
proof -
  let ?cur = "team_Name (teams ! t)" and ?n = "team_share config s" and ?w = "team_weight config s"
  have n: "0 \<le> ?n" "?n \<le> int (length us)" using team_share_bounds [OF assms(1)] assms(2) by simp_all
  have "0 \<le> int (length us)" by simp
  then obtain p r1 where p1: "perm (int (length us)) r = Some (p, r1)" using perm_total by blast
  note p = perm_props [OF p1, simplified]
  let ?js = "take (nat ?n) p"
  let ?us = "upd_at (add_team ?cur ?w) (set ?js) us"
  have js: "distinct ?js" "set ?js \<subseteq> {0..<length us}" "length ?js = nat ?n"
    using p n by (auto dest: in_set_takeD)
  have run: "add_users (nat ?n) (int 0) p ?cur ?w us [] = Some (?us, map int ?js)"
    using add_users_result [OF p(2), of us 0 "nat ?n"] p n by simp
  have mem: "member_ok channels u" if mem: "u \<in> set ?us" for u
  proof -
    consider "u \<in> set us" | i where "i \<in> set ?js" "i < length us" "u = add_team ?cur ?w (us ! i)"
      using upd_at_mem [OF mem] by blast
    then show ?thesis
    proof cases
      case 2
      then have "member_ok channels (us ! i)" "?cur \<notin> set (names_of (us ! i))" using assms(6) by auto
      then show ?thesis unfolding 2(3) by (intro add_team_ok) (simp_all add: names_of_def)
    qed (use assms(6) in blast)
  qed
  have lst: "Teams (?us ! j) \<noteq> [] \<and> uteam_Name (last (Teams (?us ! j))) = ?cur \<and>
      uchannel_Name ` set (Channels (last (Teams (?us ! j)))) \<subseteq> {}" if j: "j \<in> set ?js" for j
  proof -
    have "j < length us" using subsetD [OF js(2) j] by simp
    then have "?us ! j = add_team ?cur ?w (us ! j)" using j by simp
    then show ?thesis by (simp add: add_team_def Let_def)
  qed
  have joining: "joining channels ?cur ?js {} ?us" unfolding joining_def using mem lst by blast
  have su: "same_users us ?us" by (rule same_users_upd) (simp add: add_team_keeps)
  have jsu: "set ?js \<subseteq> {0..<length ?us}" using js(2) by simp
  note ch = assms(5) [unfolded team_channels_ok_def]
  obtain us' r' where loop: "channels_in_team_loop config channels ?n (int (length (byTeam ! t))) (map int ?js) 0 (byTeam ! t) ?us r1 = Some (us', r')"
    "same_users ?us us'" "map names_of us' = map names_of ?us" "\<forall>u \<in> set us'. member_ok channels u"
    using channels_in_team_loop_result [OF js(1) jsu joining ch [THEN conjunct1] ch [THEN conjunct2]] by blast
  have names: "names_of (us' ! i) = names_of (us ! i) @ (if i \<in> set ?js then [?cur] else [])" if i: "i < length us" for i
  proof -
    have "length us' = length us" using loop(2) su by (simp add: same_users_def)
    then have "names_of (us' ! i) = map names_of us' ! i" using i by simp
    also have "\<dots> = names_of (?us ! i)" unfolding loop(3) using i by simp
    also have "\<dots> = names_of (us ! i) @ (if i \<in> set ?js then [?cur] else [])"
      using i by (simp add: names_of_def add_team_keeps)
    finally show ?thesis .
  qed
  have "make_cap ?n = Some ()" using n by (simp add: make_cap_def)
  then have "fill_team config teams channels byTeam s t us r = Some (us', r')"
    using assms(3,4) p1 run loop(1)
    by (simp add: fill_team_def Let_def by_volume_pair team_share_def [symmetric] team_weight_def [symmetric])
  moreover have "same_users us us'" using su loop(2) by (rule same_users_trans)
  moreover have "int (length ?js) = ?n" using js(3) n by simp
  ultimately show ?thesis using loop(4) js(1,2) names by blast
qed

lemma fill_teams_result:
  assumes "config_ok config" "int (length us) = NumUsers config" "length byTeam = length teams"
    and "\<forall>t < length teams. team_channels_ok channels (team_Name (teams ! t)) (byTeam ! t)"
    and "distinct (map team_Name teams)" "distinct order" "set order \<subseteq> {0..<length teams}"
    and "\<forall>u \<in> set us. member_ok channels u \<and> set (names_of u) \<inter> (\<lambda>t. team_Name (teams ! t)) ` set order = {}"
  shows "\<exists>us' r'. fill_teams config teams channels byTeam s order us r = Some (us', r') \<and> same_users us us' \<and>
    (\<forall>u \<in> set us'. member_ok channels u) \<and>
    (\<forall>i < length us. set (names_of (us' ! i)) \<subseteq> set (names_of (us ! i)) \<union> (\<lambda>t. team_Name (teams ! t)) ` set order) \<and>
    (\<forall>name. name \<notin> (\<lambda>t. team_Name (teams ! t)) ` set order \<longrightarrow>
       (\<forall>i < length us. name \<in> set (names_of (us' ! i)) \<longleftrightarrow> name \<in> set (names_of (us ! i)))) \<and>
    (\<forall>q < length order. int (card {i. i < length us \<and> team_Name (teams ! (order ! q)) \<in> set (names_of (us' ! i))}) =
       team_share config (s + int q))"
  using assms(2,6-)
proof (induction order arbitrary: s us r)
  case Nil
  then show ?case by simp
next
  case (Cons t order)
  let ?name = "\<lambda>t. team_Name (teams ! t)"
  have t: "t < length teams" using Cons.prems(3) by simp
  have inj: "?name a = ?name b \<Longrightarrow> a < length teams \<Longrightarrow> b < length teams \<Longrightarrow> a = b" for a b
    using assms(5) by (auto simp: distinct_conv_nth)
  have fresh: "?name t \<notin> ?name ` set order"
  proof
    assume "?name t \<in> ?name ` set order"
    then obtain b where "b \<in> set order" "?name t = ?name b" by auto
    then have "t = b" using inj [of t b] t Cons.prems(3) by auto
    with \<open>b \<in> set order\<close> Cons.prems(2) show False by simp
  qed
  have tb: "t < length byTeam" using t assms(3) by simp
  have pre: "\<forall>u \<in> set us. member_ok channels u \<and> ?name t \<notin> set (names_of u)"
    using Cons.prems(4) by auto
  obtain us1 r1 js where f: "fill_team config teams channels byTeam s t us r = Some (us1, r1)" "same_users us us1"
    "\<forall>u \<in> set us1. member_ok channels u" "distinct js" "set js \<subseteq> {0..<length us}" "int (length js) = team_share config s"
    "\<And>i. i < length us \<Longrightarrow> names_of (us1 ! i) = names_of (us ! i) @ (if i \<in> set js then [?name t] else [])"
    using fill_team_result [OF assms(1) Cons.prems(1) t tb _ pre] assms(4) t by blast
  have len: "length us1 = length us" using f(2) by (simp add: same_users_def)
  have n1: "int (length us1) = NumUsers config" using Cons.prems(1) len by simp
  have dis: "\<forall>u \<in> set us1. member_ok channels u \<and> set (names_of u) \<inter> ?name ` set order = {}"
  proof
    fix u assume u: "u \<in> set us1"
    then obtain i where i: "i < length us" "u = us1 ! i" using len by (auto simp: in_set_conv_nth)
    have "set (names_of (us ! i)) \<inter> ?name ` set order = {}" using Cons.prems(4) nth_mem [OF i(1)] by auto
    moreover have "set (names_of u) \<subseteq> insert (?name t) (set (names_of (us ! i)))"
      unfolding i(2) f(7) [OF i(1)] by (cases "i \<in> set js") auto
    ultimately have "set (names_of u) \<inter> ?name ` set order \<subseteq> {}"
      using Int_mono [of "set (names_of u)" _ "?name ` set order", OF _ subset_refl] fresh by (metis Int_insert_left)
    then show "member_ok channels u \<and> set (names_of u) \<inter> ?name ` set order = {}"
      using f(3) u by blast
  qed
  have od: "distinct order" "set order \<subseteq> {0..<length teams}" using Cons.prems(2,3) by simp_all
  obtain us' r' where IH: "fill_teams config teams channels byTeam (s + 1) order us1 r1 = Some (us', r')" "same_users us1 us'"
    "\<forall>u \<in> set us'. member_ok channels u"
    "\<forall>i < length us1. set (names_of (us' ! i)) \<subseteq> set (names_of (us1 ! i)) \<union> ?name ` set order"
    "\<forall>name. name \<notin> ?name ` set order \<longrightarrow> (\<forall>i < length us1. name \<in> set (names_of (us' ! i)) \<longleftrightarrow> name \<in> set (names_of (us1 ! i)))"
    "\<forall>q < length order. int (card {i. i < length us1 \<and> ?name (order ! q) \<in> set (names_of (us' ! i))}) = team_share config (s + 1 + int q)"
    using Cons.IH [OF n1 od dis, of "s + 1" r1] by blast
  have run: "fill_teams config teams channels byTeam s (t # order) us r = Some (us', r')" using f(1) IH(1) by simp
  have here: "{i. i < length us \<and> ?name t \<in> set (names_of (us' ! i))} = set js"
  proof -
    have "?name t \<in> set (names_of (us' ! i)) \<longleftrightarrow> i \<in> set js" if i: "i < length us" for i
    proof -
      have "?name t \<notin> set (names_of (us ! i))" using pre nth_mem [OF i] by blast
      then have "?name t \<in> set (names_of (us1 ! i)) \<longleftrightarrow> i \<in> set js" unfolding f(7) [OF i] by simp
      then show ?thesis using IH(5) fresh i len by simp
    qed
    then show ?thesis using f(5) by auto
  qed
  have cnt: "int (card {i. i < length us \<and> ?name ((t # order) ! q) \<in> set (names_of (us' ! i))}) = team_share config (s + int q)"
    if q: "q < length (t # order)" for q
  proof (cases q)
    case 0
    then show ?thesis using here f(4,6) by (simp add: distinct_card)
  next
    case (Suc q')
    then show ?thesis using IH(6) q len by (simp add: add.assoc)
  qed
  have sub: "set (names_of (us' ! i)) \<subseteq> set (names_of (us ! i)) \<union> ?name ` set (t # order)" if i: "i < length us" for i
    using IH(4) [rule_format, of i] i len f(7) [OF i] by (auto split: if_splits)
  have keep: "name \<in> set (names_of (us' ! i)) \<longleftrightarrow> name \<in> set (names_of (us ! i))"
    if "name \<notin> ?name ` set (t # order)" "i < length us" for name i
    using IH(5) that len f(7) [OF that(2)] by auto
  show ?case using run f(2) IH(2,3) sub keep cnt same_users_trans by blast
qed

end
