(* ===== verification/Bulk_Objects.thy ===== *)
theory Bulk_Objects
  imports Bulk_Generate
begin

text \<open>
  What \<open>generate_objects\<close> delivers for a well-formed configuration: the loops that make channels and
  users never panic and give distinct names, and the whole generator returns users whose memberships
  and weighted choices are consistent, so that the pick functions of the test actions are safe on them.
\<close>

section \<open>Channels and users\<close>

lemma scheme_draw_total:
  "\<exists>s r'. (if schemes = [] then Some ([], r)
     else (let (x, r1) = float64 r in if x < p then do { (n, r2) \<leftarrow> intn (int (length schemes)) r1; s \<leftarrow> go_nth schemes n; Some (scheme_Name s, r2) }
           else Some ([], r1))) = Some (s, r')"
proof (cases "schemes = []")
  case False
  obtain x r1 where f: "float64 r = (x, r1)" by force
  have "0 < int (length schemes)" using False by simp
  then obtain n r2 where n: "intn (int (length schemes)) r1 = Some (n, r2)" using intn_total by blast
  then obtain s where "go_nth schemes n = Some s" using intn_range [OF n] go_nth_total by blast
  then show ?thesis using False f n by simp
qed simp

lemma make_channel_total:
  "\<exists>c r' f' g. make_channel config schemes team n r f = Some (c, r', f') \<and> channel_Team c = team \<and>
     channel_Name c = fst (makeChannelName n g)"
proof -
  obtain s r1 where "(if schemes = [] then Some ([], r)
     else (let (x, r1) = float64 r in if x < PercentCustomSchemeChannels config
        then do { (n, r2) \<leftarrow> intn (int (length schemes)) r1; s \<leftarrow> go_nth schemes n; Some (scheme_Name s, r2) }
        else Some ([], r1))) = Some (s, r1)" using scheme_draw_total by blast
  then show ?thesis unfolding make_channel_def by (simp add: Let_def case_prod_beta) (use surjective_pairing in blast)
qed

lemma channel_loop_result:
  "\<exists>new r' f'. channel_loop config schemes team nums channels inTeam r f =
      Some (channels @ new, inTeam @ map int [length channels..<length channels + length nums], r', f') \<and>
    length new = length nums \<and> (\<forall>c \<in> set new. channel_Team c = team) \<and>
    (\<forall>k < length nums. \<exists>g. channel_Name (new ! k) = fst (makeChannelName (nums ! k) g))"
proof (induction nums arbitrary: channels inTeam r f)
  case (Cons n nums)
  obtain c r1 f1 g where c: "make_channel config schemes team n r f = Some (c, r1, f1)" "channel_Team c = team"
    "channel_Name c = fst (makeChannelName n g)" using make_channel_total by blast
  obtain new r' f' where IH: "channel_loop config schemes team nums (channels @ [c]) (inTeam @ [int (length channels)]) r1 f1 =
      Some ((channels @ [c]) @ new, (inTeam @ [int (length channels)]) @
        map int [length (channels @ [c])..<length (channels @ [c]) + length nums], r', f')"
    "length new = length nums" "\<forall>c \<in> set new. channel_Team c = team"
    "\<forall>k < length nums. \<exists>g. channel_Name (new ! k) = fst (makeChannelName (nums ! k) g)" using Cons.IH by blast
  have "\<exists>g. channel_Name ((c # new) ! k) = fst (makeChannelName ((n # nums) ! k) g)" if "k < length (n # nums)" for k
    using that c(3) IH(4) by (cases k) auto
  moreover have "[length channels..<length channels + length (n # nums)] =
      length channels # [length (channels @ [c])..<length (channels @ [c]) + length nums]"
    by (simp add: upt_conv_Cons del: upt_Suc)
  ultimately show ?case using c(1,2) IH(1,2,3)
    by (intro exI [of _ "c # new"] exI [of _ r'] exI [of _ f']) (simp del: upt_Suc)
qed simp

lemma team_channels_ok_new:
  assumes "length new = length nums" "\<forall>c \<in> set new. channel_Team c = team"
    and "\<forall>k < length nums. \<exists>g. channel_Name (new ! k) = fst (makeChannelName (nums ! k) g)"
    and "distinct nums" "\<forall>n \<in> set nums. 0 \<le> n"
  shows "team_channels_ok (channels @ new) team (map int [length channels..<length channels + length nums])"
proof -
  let ?L = "length channels"
  have at: "(channels @ new) ! nat (int j) = new ! (j - ?L)" if "j \<in> {?L..<?L + length nums}" for j
    using that by (simp add: nth_append)
  have "channel_Name (new ! a) \<noteq> channel_Name (new ! b)" if ab: "a < length nums" "b < length nums" "a \<noteq> b" for a b
  proof
    assume eq: "channel_Name (new ! a) = channel_Name (new ! b)"
    obtain g h where "channel_Name (new ! a) = fst (makeChannelName (nums ! a) g)"
      "channel_Name (new ! b) = fst (makeChannelName (nums ! b) h)" using assms(3) ab by blast
    then have "nums ! a = nums ! b" using eq makeChannelName_inj assms(5) ab nth_mem by metis
    then show False using ab assms(4) nth_eq_iff_index_eq by blast
  qed
  then have d: "distinct (map (\<lambda>c. channel_Name ((channels @ new) ! nat c)) (map int [?L..<?L + length nums]))"
    by (auto simp: distinct_conv_nth nth_append)
  have "0 \<le> c \<and> c < int (length (channels @ new)) \<and> channel_Team ((channels @ new) ! nat c) = team"
    if c: "c \<in> set (map int [?L..<?L + length nums])" for c
  proof -
    obtain j where j: "c = int j" "j \<in> {?L..<?L + length nums}" using c by (auto simp del: upt_Suc)
    then have "j - ?L < length new" using assms(1) by auto
    then show ?thesis using j assms(1,2) at [OF j(2)] by simp
  qed
  then show ?thesis using d unfolding team_channels_ok_def by blast
qed

lemma team_channels_ok_append: "team_channels_ok cs team nums \<Longrightarrow> team_channels_ok (cs @ xs) team nums"
proof -
  assume ok: "team_channels_ok cs team nums"
  then have same: "(cs @ xs) ! nat c = cs ! nat c" if "c \<in> set nums" for c
    using that by (simp add: team_channels_ok_def nth_append nat_less_iff)
  have "map (\<lambda>c. channel_Name ((cs @ xs) ! nat c)) nums = map (\<lambda>c. channel_Name (cs ! nat c)) nums"
    using same by simp
  moreover have "0 \<le> c \<and> c < int (length (cs @ xs)) \<and> channel_Team ((cs @ xs) ! nat c) = team" if c: "c \<in> set nums" for c
    using ok c same [OF c] by (auto simp: team_channels_ok_def)
  ultimately show ?thesis using ok by (simp only: team_channels_ok_def) blast
qed

definition team_name :: "int \<Rightarrow> string" where
  "team_name n = ''loadtestteam'' @ itoa n"

lemma team_channel_loop_result:
  assumes "0 \<le> total_per_team"
  shows "\<exists>channels' lists r' f'. team_channel_loop config schemes total_per_team nums channels byTeam r f =
      Some (channels @ channels', byTeam @ lists, r', f') \<and> length lists = length nums \<and>
    (\<forall>k < length nums. int (length (lists ! k)) = total_per_team \<and> team_channels_ok (channels @ channels') (team_name (nums ! k)) (lists ! k))"
proof (induction nums arbitrary: channels byTeam r f)
  case (Cons n nums)
  let ?ns = "[0 .. total_per_team - 1]"
  let ?l = "map int [length channels..<length channels + length ?ns]"
  have cap: "make_cap total_per_team = Some ()" using assms by (simp add: make_cap_def)
  obtain new r1 f1 where c: "channel_loop config schemes (team_name n) ?ns channels [] r f = Some (channels @ new, [] @ ?l, r1, f1)"
    "length new = length ?ns" "\<forall>c \<in> set new. channel_Team c = team_name n"
    "\<forall>k < length ?ns. \<exists>g. channel_Name (new ! k) = fst (makeChannelName (?ns ! k) g)"
    using channel_loop_result [of config schemes "team_name n" ?ns channels "[]" r f] by blast
  have ok: "team_channels_ok (channels @ new) (team_name n) ?l" using c by (intro team_channels_ok_new) auto
  obtain more lists r' f' where IH: "team_channel_loop config schemes total_per_team nums (channels @ new) (byTeam @ [?l]) r1 f1 =
      Some ((channels @ new) @ more, (byTeam @ [?l]) @ lists, r', f')" "length lists = length nums"
    "\<forall>k < length nums. int (length (lists ! k)) = total_per_team \<and> team_channels_ok ((channels @ new) @ more) (team_name (nums ! k)) (lists ! k)"
    using Cons.IH by blast
  have "int (length ((?l # lists) ! k)) = total_per_team \<and>
      team_channels_ok ((channels @ new) @ more) (team_name ((n # nums) ! k)) ((?l # lists) ! k)" if "k < length (n # nums)" for k
    using that IH(3) team_channels_ok_append [OF ok, of more] assms by (cases k) auto
  moreover have "team_channel_loop config schemes total_per_team (n # nums) channels byTeam r f =
      Some (channels @ (new @ more), byTeam @ (?l # lists), r', f')"
    using cap c(1) IH(1) by (simp add: team_name_def)
  ultimately show ?case using IH(2) by (intro exI [of _ "new @ more"] exI [of _ "?l # lists"] exI [of _ r'] exI [of _ f']) simp
qed simp

text \<open>A new user: the name ends in the number, and no team is joined yet.\<close>

definition fresh_user :: "int \<Rightarrow> UserImportData \<Rightarrow> bool" where
  "fresh_user n u \<longleftrightarrow> (\<exists>g. Username u = fst (makeUserName n g)) \<and>
     Email u = ''success+user'' @ itoa n @ ''@simulator.amazonses.com'' \<and> Teams u = [] \<and> TeamChoice u = []"

lemma make_user_total: "\<exists>u r' f'. make_user n r f = Some (u, r', f') \<and> fresh_user n u"
proof -
  have i: "intn 10 r = Some (int (src r (pos r)) mod 10, r\<lparr>pos := Suc (pos r)\<rparr>)" for r by (rule intn_total) simp
  show ?thesis unfolding make_user_def
    by (auto simp: i fresh_user_def Let_def case_prod_beta blank_user_def)
qed

lemma user_loop_result:
  "\<exists>new r' f'. user_loop nums users r f = Some (users @ new, r', f') \<and> length new = length nums \<and>
    (\<forall>k < length nums. fresh_user (nums ! k) (new ! k))"
proof (induction nums arbitrary: users r f)
  case (Cons n nums)
  obtain u r1 f1 where u: "make_user n r f = Some (u, r1, f1)" "fresh_user n u" using make_user_total by blast
  obtain new r' f' where IH: "user_loop nums (users @ [u]) r1 f1 = Some ((users @ [u]) @ new, r', f')" "length new = length nums"
    "\<forall>k < length nums. fresh_user (nums ! k) (new ! k)" using Cons.IH by blast
  have "fresh_user ((n # nums) ! k) ((u # new) ! k)" if "k < length (n # nums)" for k
    using that u(2) IH(3) by (cases k) auto
  then show ?case using u(1) IH(1,2) by (intro exI [of _ "u # new"] exI [of _ r'] exI [of _ f']) simp
qed simp

lemma generateTeams_result:
  "0 \<le> n \<Longrightarrow> \<exists>teams r'. generateTeams n r p schemes = Some (teams, r') \<and> map team_Name teams = map team_name [0 .. n - 1]"
proof -
  assume n: "0 \<le> n"
  obtain s r1 where "(if schemes = [] then Some ([], r)
     else (let (x, r1) = float64 r in if x < p
        then do { (n, r2) \<leftarrow> intn (int (length schemes)) r1; s \<leftarrow> go_nth schemes n; Some (scheme_Name s, r2) }
        else Some ([], r1))) = Some (s, r1)" using scheme_draw_total by blast
  then show ?thesis using n unfolding generateTeams_def by (simp add: make_cap_def team_name_def)
qed

lemma team_name_inj: "team_name i = team_name j \<Longrightarrow> i = j"
  by (simp add: team_name_def itoa_inj)

section \<open>The whole generator\<close>

lemma make_cap_ok [simp]: "0 \<le> n \<Longrightarrow> make_cap n = Some ()"
  by (simp add: make_cap_def)

lemma fresh_member_ok: "fresh_user n u \<Longrightarrow> member_ok channels u \<and> names_of u = []"
  by (simp add: fresh_user_def member_ok_def choices_ok_def names_of_def)

lemma fresh_users_distinct:
  assumes "length us = length nums" "\<forall>k < length nums. fresh_user (nums ! k) (us ! k)" "distinct nums" "\<forall>n \<in> set nums. 0 \<le> n"
  shows "distinct (map Username us)"
proof (subst distinct_conv_nth, intro allI impI)
  fix a b assume ab: "a < length (map Username us)" "b < length (map Username us)" "a \<noteq> b"
  obtain g h where "Username (us ! a) = fst (makeUserName (nums ! a) g)" "Username (us ! b) = fst (makeUserName (nums ! b) h)"
    using assms(1,2) ab by (fastforce simp: fresh_user_def)
  moreover have "nums ! a \<noteq> nums ! b" using assms(1,3) ab nth_eq_iff_index_eq by (metis length_map)
  ultimately show "map Username us ! a \<noteq> map Username us ! b"
    using makeUserName_inj assms(1,4) ab by (metis length_map nth_map nth_mem)
qed

definition email_of :: "int \<Rightarrow> string" where
  "email_of n = ''success+user'' @ itoa n @ ''@simulator.amazonses.com''"

text \<open>The generated users, their teams and channels, and how many users a team gets.\<close>

definition generated_ok :: "LoadtestEnviromentConfig \<Rightarrow> generated \<Rightarrow> bool" where
  "generated_ok config g \<longleftrightarrow>
     map Email (g_users g) = map email_of [0 .. NumUsers config - 1] \<and> distinct (map Username (g_users g)) \<and>
     map team_Name (g_teams g) = map team_name [0 .. NumTeams config - 1] \<and>
     (\<forall>u \<in> set (g_users g). member_ok (g_channels g) u \<and> set (names_of u) \<subseteq> team_Name ` set (g_teams g)) \<and>
     (\<exists>order. distinct order \<and> set order = {0..<length (g_teams g)} \<and>
        (\<forall>q < length order. int (card {i. i < length (g_users g) \<and>
            team_Name (g_teams g ! (order ! q)) \<in> set (names_of (g_users g ! i))}) = team_share config (int q)))"

lemma generate_objects_run:
  assumes ok: "config_ok config"
  shows "\<exists>g. generate_objects seed_faker r config = Some g \<and> generated_ok config g"
proof -
  let ?N = "[0 .. NumUsers config - 1]" and ?T = "[0 .. NumTeams config - 1]"
  let ?per = "NumChannelsPerTeam config + NumPrivateChannelsPerTeam config"
  have nn: "0 \<le> NumUsers config" "NumUsers config \<le> 2 ^ 24" "0 \<le> NumTeams config" "0 \<le> ?per" "0 \<le> NumChannelsPerTeam config"
    "0 \<le> NumTeamSchemes config" "0 \<le> NumChannelSchemes config" "0 \<le> NumEmoji config"
    "0 \<le> NumDirectMessageChannels config" "0 \<le> NumGroupMessageChannels config"
    using ok by (simp_all add: config_ok_def)
  obtain s r0 where dr: "draw r = (s, r0)" by force
  obtain ts where ts: "generateTeamSchemes (NumTeamSchemes config) = Some ts" using nn by (simp add: generateTeamSchemes_def)
  obtain teams r1 where tm: "generateTeams (NumTeams config) r0 (PercentCustomSchemeTeams config) ts = Some (teams, r1)"
    "map team_Name teams = map team_name ?T" using generateTeams_result [OF nn(3)] by blast
  obtain cs where cs: "generateChannelSchemes (NumChannelSchemes config) = Some cs" using nn by (simp add: generateChannelSchemes_def)
  obtain em where em: "generateEmoji (NumEmoji config) = Some em" using nn by (simp add: generateEmoji_def)
  obtain channels lists r2 f2 where ch: "team_channel_loop config cs ?per ?T [] [] r1 (seed_faker s) = Some ([] @ channels, [] @ lists, r2, f2)"
    "length lists = length ?T" "\<forall>k < length ?T. int (length (lists ! k)) = ?per \<and> team_channels_ok ([] @ channels) (team_name (?T ! k)) (lists ! k)"
    using team_channel_loop_result [OF nn(4), of config cs ?T "[]" "[]" r1 "seed_faker s"] by blast
  obtain us r3 f3 where us: "user_loop ?N [] r2 f2 = Some ([] @ us, r3, f3)" "length us = length ?N"
    "\<forall>k < length ?N. fresh_user (?N ! k) (us ! k)" using user_loop_result [of ?N "[]" r2 f2] by blast
  have lt: "length teams = length ?T" using arg_cong [OF tm(2), of length] by simp
  have tn: "team_Name (teams ! k) = team_name (?T ! k)" if "k < length teams" for k
    using arg_cong [OF tm(2), of "\<lambda>l. l ! k"] that lt by simp
  obtain order r4 where pm: "perm (int (length teams)) r3 = Some (order, r4)" using perm_total [of "int (length teams)" r3] by auto
  note od = perm_props [OF pm, simplified]
  have uN: "int (length us) = NumUsers config" using us(2) nn(1) by simp
  have um: "\<forall>u \<in> set us. member_ok channels u \<and> set (names_of u) \<inter> (\<lambda>t. team_Name (teams ! t)) ` set order = {}"
    using us(2,3) fresh_member_ok by (metis empty_set in_set_conv_nth inf_bot_left)
  have dn: "distinct (map team_Name teams)" unfolding tm(2) by (simp add: distinct_map inj_on_def team_name_inj)
  have tco: "\<forall>t < length teams. team_channels_ok channels (team_Name (teams ! t)) (lists ! t)" using ch(3) lt tn by simp
  have lt2: "length lists = length teams" using ch(2) lt by simp
  have sub: "set order \<subseteq> {0..<length teams}" using od by simp
  obtain us' r5 where fl: "fill_teams config teams channels lists 0 order us r4 = Some (us', r5)" "same_users us us'"
    "\<forall>u \<in> set us'. member_ok channels u"
    "\<forall>i < length us. set (names_of (us' ! i)) \<subseteq> set (names_of (us ! i)) \<union> (\<lambda>t. team_Name (teams ! t)) ` set order"
    "\<forall>q < length order. int (card {i. i < length us \<and> team_Name (teams ! (order ! q)) \<in> set (names_of (us' ! i))}) =
       team_share config (0 + int q)"
    using fill_teams_result [OF ok uN lt2 tco dn od(2) sub um, of 0 r4] by blast
  have same: "length us' = length us" "map Username us' = map Username us" "map Email us' = map Email us"
    using fl(2) by (simp_all add: same_users_def)
  have du: "distinct (map Username us')" unfolding same(2) using us(2,3) by (intro fresh_users_distinct [of _ ?N]) auto
  have "int (length us') \<le> 2 ^ 24" using uN same(1) nn(2) by simp
  then obtain direct r6 f6 where di: "makeDirectChannels config r5 us' f3 = Some ((direct, r6), f6)"
    using makeDirectChannels_run [OF _ nn(9), of us' f3] by blast
  obtain grp r7 f7 where gr: "makeGroupChannels config r6 us' f6 = Some (grp, r7, f7)"
    using makeGroupChannels_run [OF du nn(10), of r6 f6] by blast
  let ?g = "\<lparr>g_teamSchemes = ts, g_channelSchemes = cs, g_teams = teams, g_channels = channels, g_users = us',
    g_emojis = em, g_direct = direct @ grp\<rparr>"
  have "generate_objects seed_faker r config = Some ?g"
    using dr ts tm(1) cs em ch(1) us(1) pm fl(1) di gr nn by (simp add: generate_objects_def Let_def)
  moreover have "map Email us' = map email_of ?N"
  proof (rule nth_equalityI)
    fix i assume "i < length (map Email us')"
    then show "map Email us' ! i = map email_of ?N ! i" unfolding same(3) using us(2,3) same(1) by (auto simp: fresh_user_def email_of_def)
  qed (use us(2) same(1) in simp)
  moreover have "set (names_of u) \<subseteq> team_Name ` set teams" if u: "u \<in> set us'" for u
  proof -
    obtain i where i: "i < length us" "u = us' ! i" using u same(1) by (auto simp: in_set_conv_nth)
    have e: "names_of (us ! i) = []" using us(2,3) i(1) fresh_member_ok by metis
    have "(\<lambda>t. team_Name (teams ! t)) ` set order \<subseteq> team_Name ` set teams" using sub by auto
    then show ?thesis using fl(4) i e by fastforce
  qed
  ultimately show ?thesis using du tm(2) fl(3,5) same(1) od unfolding generated_ok_def by (intro exI [of _ ?g]) (auto intro!: exI [of _ order])
qed

section \<open>Picking among the memberships\<close>

text \<open>Choices whose items are the indices of a list never lead out of it.\<close>

lemma pick_index:
  assumes "map Item cs = map int [0..<n]" "\<forall>c \<in> set cs. 0 < Weight c" "n \<noteq> 0"
  obtains c r' where "WeightedChoice r cs = Some (Inr c, r')" "0 \<le> Item c" "nat (Item c) < n"
proof -
  have "length cs = n" using arg_cong [OF assms(1), of length] by simp
  then have "cs \<noteq> []" using assms(3) by auto
  then obtain c r' where c: "WeightedChoice r cs = Some (Inr c, r')" "c \<in> set cs" by (rule wc.picks_pos [OF _ assms(2)])
  have "Item c \<in> set (map Item cs)" using c(2) by simp
  then have "Item c \<in> int ` {0..<n}" unfolding assms(1) by simp
  then show thesis using c(1) by (auto intro: that)
qed

lemma PickTeam_ok:
  assumes "map Item (TeamChoice u) = map int [0..<length (Teams u)]" "\<forall>c \<in> set (TeamChoice u). 0 < Weight c"
  shows "\<exists>t r'. PickTeam u r = Some (t, r') \<and> (t = None \<longleftrightarrow> Teams u = []) \<and>
    (\<forall>i. t = Some i \<longrightarrow> 0 \<le> i \<and> nat i < length (Teams u))"
proof (cases "length (Teams u) = 0")
  case True
  then show ?thesis using assms(1) by (simp add: PickTeam_def)
next
  case False
  obtain c r' where c: "WeightedChoice r (TeamChoice u) = Some (Inr c, r')" "0 \<le> Item c" "nat (Item c) < length (Teams u)"
    by (rule pick_index [OF assms False])
  have "TeamChoice u \<noteq> []" using assms(1) False by auto
  then show ?thesis using c False by (simp add: PickTeam_def go_nth_def)
qed

lemma PickChannel_ok:
  assumes "map Item (ChannelChoice t) = map int [0..<length (Channels t)]" "\<forall>c \<in> set (ChannelChoice t). 0 < Weight c"
  shows "\<exists>ch r'. PickChannel t r = Some (ch, r') \<and> (ch = None \<longleftrightarrow> Channels t = []) \<and>
    (\<forall>i. ch = Some i \<longrightarrow> 0 \<le> i \<and> nat i < length (Channels t))"
proof (cases "length (Channels t) = 0")
  case True
  then show ?thesis using assms(1) by (simp add: PickChannel_def)
next
  case False
  obtain c r' where c: "WeightedChoice r (ChannelChoice t) = Some (Inr c, r')" "0 \<le> Item c" "nat (Item c) < length (Channels t)"
    by (rule pick_index [OF assms False])
  have "ChannelChoice t \<noteq> []" using assms(1) False by auto
  then show ?thesis using c False by (simp add: PickChannel_def go_nth_def)
qed

section \<open>Properties\<close>

text \<open>C25. For every well-formed configuration the generator runs without a panic, whatever the random
  draws and the text library yield, and delivers: the users with the e-mail addresses that the log-in
  code expects and different user names; the teams by number; memberships only in existing teams and in
  channels of those teams, each team and channel once per user, with choice items that index the user's
  own lists; and, for some order of the teams, exactly \<open>team_share\<close> members in each.\<close>

theorem generate_objects_well_formed:
  assumes "config_ok config"
  shows "\<exists>g. generate_objects seed_faker r config = Some g \<and> generated_ok config g"
  using assms by (rule generate_objects_run)

definition small_config :: LoadtestEnviromentConfig where
  "small_config = blank_config\<lparr>NumTeams := 2, NumChannelsPerTeam := 1, NumUsers := 3, NumDirectMessageChannels := 2,
     PercentUsersHighVolumeTeams := 1, PercentUsersHighVolumeChannel := 1,
     HighVolumeTeamSelectionWeight := 1, HighVolumeChannelSelectionWeight := 1\<rparr>"

theorem generate_objects_well_formed_witness:
  "\<exists>g. generate_objects (\<lambda>_. \<lparr>fk_src = (\<lambda>_ _. ''word''), fk_pos = 0\<rparr>) \<lparr>src = (\<lambda>i. i), pos = 0\<rparr> small_config = Some g \<and>
     generated_ok small_config g"
  by (rule generate_objects_well_formed) (simp add: small_config_def blank_config_def config_ok_def)

text \<open>On a user with consistent memberships and positive weights \<open>PickTeamChannel\<close> never panics; it
  picks a team exactly when the user has one, and then one of that team's channels exactly when the user
  is in one, and the channel is one that was generated for the team.\<close>

theorem PickTeamChannel_safe:
  assumes "member_ok channels u" "\<forall>c \<in> set (TeamChoice u). 0 < Weight c"
    and "\<forall>t \<in> set (Teams u). \<forall>c \<in> set (ChannelChoice t). 0 < Weight c"
  shows "\<exists>t ch r'. PickTeamChannel u r = Some ((t, ch), r') \<and> (t = None \<longleftrightarrow> Teams u = []) \<and>
    (\<forall>i. t = Some i \<longrightarrow> 0 \<le> i \<and> nat i < length (Teams u) \<and> (ch = None \<longleftrightarrow> Channels (Teams u ! nat i) = []) \<and>
      (\<forall>j. ch = Some j \<longrightarrow> 0 \<le> j \<and> nat j < length (Channels (Teams u ! nat i)) \<and>
         uchannel_Name (Channels (Teams u ! nat i) ! nat j) \<in> channels_of channels (uteam_Name (Teams u ! nat i))))"
proof -
  have ok: "map Item (TeamChoice u) = map int [0..<length (Teams u)]"
    using assms(1) by (simp add: member_ok_def choices_ok_def)
  obtain t r1 where t: "PickTeam u r = Some (t, r1)" "t = None \<longleftrightarrow> Teams u = []"
    "\<forall>i. t = Some i \<longrightarrow> 0 \<le> i \<and> nat i < length (Teams u)" using PickTeam_ok [OF ok assms(2)] by blast
  show ?thesis
  proof (cases t)
    case None
    then show ?thesis using t by (simp add: PickTeamChannel_def)
  next
    case (Some i)
    let ?t = "Teams u ! nat i"
    have i: "0 \<le> i" "nat i < length (Teams u)" using t(3) Some by simp_all
    then have mem: "?t \<in> set (Teams u)" by simp
    then have "map Item (ChannelChoice ?t) = map int [0..<length (Channels ?t)]" "\<forall>c \<in> set (ChannelChoice ?t). 0 < Weight c"
      and tm: "team_member_ok channels ?t" using assms(1,3) by (simp_all add: member_ok_def choices_ok_def)
    then obtain ch r2 where ch: "PickChannel ?t r1 = Some (ch, r2)" "ch = None \<longleftrightarrow> Channels ?t = []"
      "\<forall>j. ch = Some j \<longrightarrow> 0 \<le> j \<and> nat j < length (Channels ?t)" using PickChannel_ok by blast
    have "uchannel_Name (Channels ?t ! nat j) \<in> channels_of channels (uteam_Name ?t)" if "ch = Some j" for j
      using tm ch(3) that by (auto simp: team_member_ok_def)
    then show ?thesis using t Some ch i by (intro exI [of _ t] exI [of _ ch] exI [of _ r2]) (auto simp: PickTeamChannel_def)
  qed
qed

definition one_channel :: ChannelImportData where
  "one_channel = \<lparr>channel_Team = ''a'', channel_Name = ''b'', channel_DisplayName = [], channel_Type = ''O'',
     channel_Header = [], channel_Purpose = [], channel_Scheme = []\<rparr>"

lemma one_channel_of: "channels_of [one_channel] ''a'' = {''b''}"
proof -
  have "{c \<in> set [one_channel]. channel_Team c = ''a''} = {one_channel}" by (auto simp: one_channel_def)
  then show ?thesis by (simp add: channels_of_def one_channel_def)
qed

definition member_user :: UserImportData where
  "member_user = (blank_user ''u'')\<lparr>
     Teams := [\<lparr>uteam_Name = ''a'', uteam_Roles = [], Channels = [\<lparr>uchannel_Name = ''b'', uchannel_Roles = []\<rparr>],
                ChannelChoice = [\<lparr>Weight = 3, Item = 0\<rparr>]\<rparr>],
     TeamChoice := [\<lparr>Weight = 2, Item = 0\<rparr>]\<rparr>"

theorem PickTeamChannel_safe_witness:
  "\<exists>t ch r'. PickTeamChannel member_user \<lparr>src = (\<lambda>_. 0), pos = 0\<rparr> = Some ((t, ch), r') \<and> t \<noteq> None"
proof -
  have "member_ok [one_channel] member_user" "\<forall>c \<in> set (TeamChoice member_user). 0 < Weight c"
    "\<forall>t \<in> set (Teams member_user). \<forall>c \<in> set (ChannelChoice t). 0 < Weight c"
    by (simp_all add: member_ok_def choices_ok_def team_member_ok_def member_user_def one_channel_of)
  from PickTeamChannel_safe [OF this, of "\<lparr>src = (\<lambda>_. 0), pos = 0\<rparr>"]
  show ?thesis by (auto simp: member_user_def)
qed

text \<open>The volume classes are off by one: with \<open>h\<close> high and \<open>m\<close> mid volume teams (or channels) asked
  for, the positions up to and including \<open>h\<close> are high, so one more than asked (as far as there are that
  many), the next \<open>m\<close> are mid, the rest low.\<close>

theorem by_volume_classes:
  assumes "0 \<le> h" "0 \<le> m" "0 \<le> n"
  shows "map (\<lambda>s. by_volume s h m high mid low) [0 .. n - 1] =
    take (nat n) (replicate (nat h + 1) high @ replicate (nat m) mid @ replicate (nat n) low)"
proof -
  obtain a b where ab: "h = int a" "m = int b" using assms(1,2) by (metis nonneg_int_cases)
  let ?l = "replicate (a + 1) high @ replicate b mid @ replicate (nat n) low"
  have "by_volume (int i) h m high mid low = take (nat n) ?l ! i" if "i < nat n" for i
    using that by (auto simp: ab by_volume_def Let_def nth_append simp del: replicate_Suc)
  then have "map (\<lambda>s. by_volume s h m high mid low) [0 .. n - 1] = take (nat n) ?l"
    using assms(3) by (intro nth_equalityI) simp_all
  then show ?thesis by (simp add: ab)
qed

theorem by_volume_classes_witness:
  "map (\<lambda>s. by_volume s 1 1 ''high'' ''mid'' ''low'') [0 .. 3] = [''high'', ''high'', ''mid'', ''low'']"
  using by_volume_classes [of 1 1 4 "''high''" "''mid''" "''low''"] by (simp add: numeral_eq_Suc)

end
