(* ===== verification/Bulk_File.thy ===== *)
theory Bulk_File
  imports Bulk_Objects
begin

text \<open>
  The second half of \<open>GenerateBulkloadFile\<close>: the import lines go through a channel of 100 places to an
  encoder goroutine, while the generating goroutine replaces the teams of its users by a version
  without channels and later puts them back. A line holds a pointer to its user, so the user is read
  when the encoder gets to it; the two goroutines are a step function over explicit schedules.
\<close>

section \<open>Lines\<close>

definition blank_line :: "string \<Rightarrow> LineImportData" where
  "blank_line t = \<lparr>line_Type = t, line_Scheme = None, line_Team = None, line_Channel = None, line_User = None,
     line_Post = None, line_DirectChannel = None, line_Emoji = None, line_Version = 1\<rparr>"

definition version_line :: LineImportData where
  "version_line = blank_line ''version''"

definition scheme_line :: "SchemeImportData \<Rightarrow> LineImportData" where
  "scheme_line x = (blank_line ''scheme'')\<lparr>line_Scheme := Some x\<rparr>"

definition team_line :: "TeamImportData \<Rightarrow> LineImportData" where
  "team_line x = (blank_line ''team'')\<lparr>line_Team := Some x\<rparr>"

definition channel_line :: "ChannelImportData \<Rightarrow> LineImportData" where
  "channel_line x = (blank_line ''channel'')\<lparr>line_Channel := Some x\<rparr>"

definition user_line :: "UserImportData \<Rightarrow> LineImportData" where
  "user_line x = (blank_line ''user'')\<lparr>line_User := Some x\<rparr>"

definition emoji_line :: "EmojiImportData \<Rightarrow> LineImportData" where
  "emoji_line x = (blank_line ''emoji'')\<lparr>line_Emoji := Some x\<rparr>"

definition direct_line :: "DirectChannelImportData \<Rightarrow> LineImportData" where
  "direct_line x = (blank_line ''direct_channel'')\<lparr>line_DirectChannel := Some x\<rparr>"

definition stripped_teams :: "UserTeamImportData list \<Rightarrow> UserTeamImportData list" where
  "stripped_teams ts = map (\<lambda>t. \<lparr>uteam_Name = uteam_Name t, uteam_Roles = uteam_Roles t, Channels = [], ChannelChoice = []\<rparr>) ts"

text \<open>The loop over a team's channels: full chunks of a hundred, then the rest.\<close>

fun chunk_loop :: "UserChannelImportData list \<Rightarrow> UserChannelImportData list \<Rightarrow> UserChannelImportData list list" where
  "chunk_loop [] channels = (if length channels > 0 then [channels] else [])"
| "chunk_loop (c # rest) channels =
     (let channels = channels @ [c]
      in if length channels \<ge> 100 then channels # chunk_loop rest [] else chunk_loop rest channels)"

definition chunk_user :: "UserImportData \<Rightarrow> UserTeamImportData \<Rightarrow> UserChannelImportData list \<Rightarrow> UserImportData" where
  "chunk_user u t teamChannels =
     (blank_user (Username u))\<lparr>Email := Email u, user_Roles := user_Roles u, Password := Password u,
        Teams := [\<lparr>uteam_Name = uteam_Name t, uteam_Roles = uteam_Roles t, Channels = teamChannels, ChannelChoice = []\<rparr>]\<rparr>"

definition chunk_lines :: "UserImportData \<Rightarrow> LineImportData list" where
  "chunk_lines u = concat (map (\<lambda>t. map (\<lambda>ch. user_line (chunk_user u t ch)) (chunk_loop (Channels t) [])) (Teams u))"

section \<open>The generating goroutine\<close>

text \<open>What it does to shared memory, in order: it sends a line that nobody changes any more, it sends
  the pointer to a user, or it assigns the teams of a user.\<close>

datatype sent = Line LineImportData | UserPtr nat

datatype action = Send sent | SetTeams nat "UserTeamImportData list"

definition strip_program :: "UserImportData list \<Rightarrow> action list" where
  "strip_program us = concat (map (\<lambda>i. [SetTeams i (stripped_teams (Teams (us ! i))), Send (UserPtr i)]) [0..<length us])"

definition restore_program :: "UserImportData list \<Rightarrow> action list" where
  "restore_program us = concat (map (\<lambda>i. SetTeams i (Teams (us ! i)) # map (Send \<circ> Line) (chunk_lines (us ! i))) [0..<length us])"

definition head_lines :: "generated \<Rightarrow> LineImportData list" where
  "head_lines g = version_line # map scheme_line (g_teamSchemes g) @ map scheme_line (g_channelSchemes g) @
     map team_line (g_teams g) @ map channel_line (g_channels g)"

definition file_program :: "generated \<Rightarrow> action list" where
  "file_program g = map (Send \<circ> Line) (head_lines g) @ strip_program (g_users g) @
     map (Send \<circ> Line \<circ> emoji_line) (g_emojis g) @ restore_program (g_users g) @
     map (Send \<circ> Line \<circ> direct_line) (g_direct g)"

section \<open>Two goroutines and a channel\<close>

record enc_state =
  todo :: "action list"
  chan :: "sent list"
  held :: "sent option"
  shared_users :: "UserImportData list"
  encoded :: "LineImportData list"

definition chan_cap :: nat where "chan_cap = 100"

datatype event = Produce | Take | Encode

definition resolve :: "UserImportData list \<Rightarrow> sent \<Rightarrow> LineImportData" where
  "resolve us x = (case x of Line l \<Rightarrow> l | UserPtr i \<Rightarrow> user_line (us ! i))"

fun set_teams :: "action \<Rightarrow> UserImportData list \<Rightarrow> UserImportData list" where
  "set_teams (Send x) us = us"
| "set_teams (SetTeams i ts) us = us[i := (us ! i)\<lparr>Teams := ts\<rparr>]"

text \<open>One step; a step that is not enabled is \<open>None\<close> (the goroutine is blocked).\<close>

fun enc_fire :: "event \<Rightarrow> enc_state \<Rightarrow> enc_state option" where
  "enc_fire Produce s =
     (case todo s of
        [] \<Rightarrow> None
      | Send x # p \<Rightarrow> if length (chan s) < chan_cap then Some (s\<lparr>todo := p, chan := chan s @ [x]\<rparr>) else None
      | a # p \<Rightarrow> Some (s\<lparr>todo := p, shared_users := set_teams a (shared_users s)\<rparr>))"
| "enc_fire Take s =
     (case (held s, chan s) of
        (None, x # q) \<Rightarrow> Some (s\<lparr>held := Some x, chan := q\<rparr>)
      | _ \<Rightarrow> None)"
| "enc_fire Encode s =
     (case held s of
        None \<Rightarrow> None
      | Some x \<Rightarrow> Some (s\<lparr>held := None, encoded := encoded s @ [resolve (shared_users s) x]\<rparr>))"

fun enc_run :: "event list \<Rightarrow> enc_state \<Rightarrow> enc_state option" where
  "enc_run [] s = Some s"
| "enc_run (e # es) s = (case enc_fire e s of None \<Rightarrow> None | Some s \<Rightarrow> enc_run es s)"

definition enc_init :: "generated \<Rightarrow> enc_state" where
  "enc_init g = \<lparr>todo = file_program g, chan = [], held = None, shared_users = g_users g, encoded = []\<rparr>"

text \<open>The channel is closed and the encoder has said that it is done.\<close>

definition enc_done :: "enc_state \<Rightarrow> bool" where
  "enc_done s \<longleftrightarrow> todo s = [] \<and> chan s = [] \<and> held s = None"

definition GenerateBulkloadFile :: "(nat \<Rightarrow> faker) \<Rightarrow> rng \<Rightarrow> event list \<Rightarrow> LoadtestEnviromentConfig \<Rightarrow> GenerateBulkloadFileResult option" where
  "GenerateBulkloadFile seed_faker r schedule config = do {
     g \<leftarrow> generate_objects seed_faker r config;
     s \<leftarrow> enc_run schedule (enc_init g);
     (if enc_done s
      then Some \<lparr>File = encoded s, res_Users = shared_users s, res_Teams = g_teams g, res_Channels = g_channels g,
                 res_Schemes = [], res_Emojis = g_emojis g\<rparr>
      else None)
   }"

section \<open>Chunks\<close>

lemma chunk_loop_concat: "concat (chunk_loop cs acc) = acc @ cs"
  by (induction cs acc rule: chunk_loop.induct) (auto simp: Let_def)

lemma chunk_loop_sizes: "length acc < 100 \<Longrightarrow> ch \<in> set (chunk_loop cs acc) \<Longrightarrow> 0 < length ch \<and> length ch \<le> 100"
proof (induction cs acc rule: chunk_loop.induct)
  case (2 c rest channels)
  then show ?case by (cases "length (channels @ [c]) \<ge> 100") (auto simp: Let_def)
qed (auto split: if_splits)

section \<open>What a run does\<close>

definition sends :: "action list \<Rightarrow> sent list" where
  "sends p = concat (map (\<lambda>a. case a of Send x \<Rightarrow> [x] | SetTeams i ts \<Rightarrow> []) p)"

lemma sends_simps [simp]:
  "sends [] = []" "sends (Send x # p) = x # sends p" "sends (SetTeams i ts # p) = sends p" "sends (p @ q) = sends p @ sends q"
  "sends (map (Send \<circ> f) xs) = map f xs"
  by (simp_all add: sends_def) (induction xs, simp_all)

lemma sends_map [simp]: "sends (map (\<lambda>x. Send (f x)) xs) = map f xs"
  by (induction xs) simp_all

lemma sends_concat [simp]: "sends (concat ps) = concat (map sends ps)"
  by (induction ps) simp_all

definition opt_list :: "'a option \<Rightarrow> 'a list" where
  "opt_list x = (case x of None \<Rightarrow> [] | Some y \<Rightarrow> [y])"

lemma opt_list_simps [simp]: "opt_list None = []" "opt_list (Some x) = [x]"
  by (simp_all add: opt_list_def)

text \<open>Every encoded line was resolved when the producer had sent it and at most a hundred more lines.\<close>

definition encoded_ok :: "action list \<Rightarrow> UserImportData list \<Rightarrow> LineImportData list \<Rightarrow> bool" where
  "encoded_ok P us out \<longleftrightarrow> (\<forall>k < length out. \<exists>pre post. P = pre @ post \<and> k < length (sends pre) \<and>
     length (sends pre) \<le> k + 101 \<and> out ! k = resolve (fold set_teams pre us) (sends P ! k))"

definition enc_inv :: "action list \<Rightarrow> UserImportData list \<Rightarrow> enc_state \<Rightarrow> bool" where
  "enc_inv P us s \<longleftrightarrow> (\<exists>pre. P = pre @ todo s \<and> shared_users s = fold set_teams pre us \<and> length (chan s) \<le> 100 \<and>
     (\<exists>old. sends pre = old @ opt_list (held s) @ chan s \<and> length old = length (encoded s)) \<and> encoded_ok P us (encoded s))"

lemma enc_inv_init: "enc_inv (file_program g) (g_users g) (enc_init g)"
  by (auto simp: enc_inv_def enc_init_def encoded_ok_def)

lemma enc_fire_inv:
  assumes "enc_inv P us s" "enc_fire e s = Some s'"
  shows "enc_inv P us s'"
proof -
  obtain pre old where inv: "P = pre @ todo s" "shared_users s = fold set_teams pre us" "length (chan s) \<le> 100"
    "sends pre = old @ opt_list (held s) @ chan s" "length old = length (encoded s)" "encoded_ok P us (encoded s)"
    using assms(1) by (auto simp: enc_inv_def)
  show ?thesis
  proof (cases e)
    case Produce
    then obtain a p where t: "todo s = a # p" using assms(2) by (cases "todo s") auto
    have P: "P = (pre @ [a]) @ p" using inv(1) t by simp
    show ?thesis
    proof (cases a)
      case (Send x)
      then show ?thesis using assms(2) Produce t inv P
        by (auto simp: enc_inv_def chan_cap_def split: if_splits intro!: exI [of _ "pre @ [a]"])
    next
      case (SetTeams i ts)
      then show ?thesis using assms(2) Produce t inv P
        by (auto simp: enc_inv_def intro!: exI [of _ "pre @ [a]"])
    qed
  next
    case Take
    then obtain x q where t: "held s = None" "chan s = x # q" "s' = s\<lparr>held := Some x, chan := q\<rparr>"
      using assms(2) by (auto split: option.splits list.splits)
    then show ?thesis using inv by (auto simp: enc_inv_def)
  next
    case Encode
    then obtain x where x: "held s = Some x" "s' = s\<lparr>held := None, encoded := encoded s @ [resolve (shared_users s) x]\<rparr>"
      using assms(2) by (auto split: option.splits)
    have len: "length (encoded s) < length (sends pre)" "length (sends pre) \<le> length (encoded s) + 101"
      using inv x(1) by simp_all
    have at: "sends P ! length (encoded s) = x"
      using inv(1,4,5) x(1) by (simp add: nth_append)
    have "encoded_ok P us (encoded s')"
      unfolding encoded_ok_def
    proof (intro allI impI)
      fix k assume k: "k < length (encoded s')"
      show "\<exists>pre post. P = pre @ post \<and> k < length (sends pre) \<and> length (sends pre) \<le> k + 101 \<and>
          encoded s' ! k = resolve (fold set_teams pre us) (sends P ! k)"
      proof (cases "k = length (encoded s)")
        case True
        then show ?thesis using inv(1,2) len at x(2) by (intro exI [of _ pre] exI [of _ "todo s"]) simp
      next
        case False
        then have "k < length (encoded s)" using k x(2) by simp
        then show ?thesis using inv(6) x(2) by (simp add: encoded_ok_def nth_append)
      qed
    qed
    then show ?thesis using inv x by (auto simp: enc_inv_def intro!: exI [of _ pre] exI [of _ "old @ [x]"])
  qed
qed

lemma enc_run_inv: "enc_inv P us s \<Longrightarrow> enc_run es s = Some s' \<Longrightarrow> enc_inv P us s'"
proof (induction es arbitrary: s)
  case (Cons e es)
  then show ?case by (cases "enc_fire e s") (auto dest: enc_fire_inv)
qed simp

lemma enc_done_result:
  assumes "enc_run es (enc_init g) = Some s" "enc_done s"
  shows "length (encoded s) = length (sends (file_program g))" "encoded_ok (file_program g) (g_users g) (encoded s)"
    "shared_users s = fold set_teams (file_program g) (g_users g)"
  using enc_run_inv [OF enc_inv_init assms(1)] assms(2) by (auto simp: enc_inv_def enc_done_def)

section \<open>Runs end\<close>

definition enc_left :: "enc_state \<Rightarrow> nat" where
  "enc_left s = 3 * length (todo s) + 2 * length (chan s) + length (opt_list (held s))"

lemma enc_fire_decreases: "enc_fire e s = Some s' \<Longrightarrow> enc_left s' < enc_left s"
  by (cases e) (auto simp: enc_left_def split: list.splits action.splits if_splits option.splits)

lemma enc_progress: "\<not> enc_done s \<Longrightarrow> \<exists>e s'. enc_fire e s = Some s'"
proof -
  assume nd: "\<not> enc_done s"
  show ?thesis
  proof (cases "held s")
    case (Some x)
    then show ?thesis by (intro exI [of _ Encode]) simp
  next
    case held: None
    show ?thesis
    proof (cases "chan s")
      case (Cons x q)
      then show ?thesis using held by (intro exI [of _ Take]) simp
    next
      case Nil
      then obtain a p where "todo s = a # p" using nd held by (cases "todo s") (auto simp: enc_done_def)
      then show ?thesis using Nil by (intro exI [of _ Produce]) (cases a, simp_all add: chan_cap_def)
    qed
  qed
qed

lemma enc_run_append: "enc_run (es @ fs) s = (case enc_run es s of None \<Rightarrow> None | Some s \<Rightarrow> enc_run fs s)"
  by (induction es arbitrary: s) (auto split: option.splits)

lemma enc_run_bound: "enc_run es s = Some s' \<Longrightarrow> length es + enc_left s' \<le> enc_left s"
proof (induction es arbitrary: s)
  case (Cons e es)
  then obtain t where t: "enc_fire e s = Some t" "enc_run es t = Some s'" by (cases "enc_fire e s") auto
  then show ?case using Cons.IH [OF t(2)] enc_fire_decreases [OF t(1)] by simp
qed simp

lemma enc_completes: "\<exists>es s'. enc_run es s = Some s' \<and> enc_done s'"
proof (induction "enc_left s" arbitrary: s rule: less_induct)
  case less
  show ?case
  proof (cases "enc_done s")
    case True
    then show ?thesis by (intro exI [of _ "[]"]) simp
  next
    case False
    then obtain e t where t: "enc_fire e s = Some t" using enc_progress by blast
    obtain es s' where "enc_run es t = Some s'" "enc_done s'" using less [OF enc_fire_decreases [OF t]] by blast
    then show ?thesis using t by (intro exI [of _ "e # es"]) auto
  qed
qed

lemma enc_fire_prefix: "enc_fire e s = Some s' \<Longrightarrow> \<exists>more. encoded s' = encoded s @ more"
  by (cases e) (auto split: list.splits action.splits if_splits option.splits)

lemma enc_run_prefix: "enc_run es s = Some s' \<Longrightarrow> \<exists>more. encoded s' = encoded s @ more"
proof (induction es arbitrary: s)
  case (Cons e es)
  then obtain t where t: "enc_fire e s = Some t" "enc_run es t = Some s'" by (cases "enc_fire e s") auto
  then show ?case using Cons.IH [OF t(2)] enc_fire_prefix [OF t(1)] by auto
qed simp

section \<open>The user a pointer is read as\<close>

definition teams_after :: "nat \<Rightarrow> action list \<Rightarrow> UserTeamImportData list \<Rightarrow> UserTeamImportData list" where
  "teams_after i p ts = fold (\<lambda>a ts. case a of Send x \<Rightarrow> ts | SetTeams j ts' \<Rightarrow> if j = i then ts' else ts) p ts"

lemma teams_after_simps [simp]:
  "teams_after i [] ts = ts" "teams_after i (Send x # p) ts = teams_after i p ts"
  "teams_after i (SetTeams j ts' # p) ts = teams_after i p (if j = i then ts' else ts)"
  "teams_after i (p @ q) ts = teams_after i q (teams_after i p ts)"
  by (simp_all add: teams_after_def)

lemma fold_set_teams_length [simp]: "length (fold set_teams p us) = length us"
proof (induction p arbitrary: us)
  case (Cons a p)
  then show ?case by (cases a) simp_all
qed simp

lemma fold_set_teams_nth:
  "i < length us \<Longrightarrow> fold set_teams p us ! i = (us ! i)\<lparr>Teams := teams_after i p (Teams (us ! i))\<rparr>"
proof (induction p arbitrary: us)
  case (Cons a p)
  show ?case
  proof (cases a)
    case (SetTeams j ts)
    have "i < length (us[j := (us ! j)\<lparr>Teams := ts\<rparr>])" using Cons.prems by simp
    from Cons.IH [OF this] show ?thesis using SetTeams Cons.prems by (cases "i = j") simp_all
  qed (use Cons in simp)
qed simp

definition sets :: "nat \<Rightarrow> action list \<Rightarrow> bool" where
  "sets i p \<longleftrightarrow> (\<exists>ts. SetTeams i ts \<in> set p)"

lemma sets_simps [simp]:
  "\<not> sets i []" "sets i (Send x # p) = sets i p" "sets i (SetTeams j ts # p) = (i = j \<or> sets i p)"
  "sets i (p @ q) = (sets i p \<or> sets i q)"
  by (auto simp: sets_def)

lemma sets_map_Send [simp]: "\<not> sets i (map (Send \<circ> f) xs)"
  by (auto simp: sets_def)

lemma sets_concat: "sets i (concat ps) \<longleftrightarrow> (\<exists>p \<in> set ps. sets i p)"
  by (auto simp: sets_def)

lemma teams_after_unset: "\<not> sets i p \<Longrightarrow> teams_after i p ts = ts"
proof (induction p arbitrary: ts)
  case (Cons a p)
  then show ?case by (cases a) simp_all
qed simp

text \<open>The places of the program that concern one user.\<close>

definition strip_at :: "UserImportData list \<Rightarrow> nat \<Rightarrow> action list" where
  "strip_at us i = [SetTeams i (stripped_teams (Teams (us ! i))), Send (UserPtr i)]"

definition restore_at :: "UserImportData list \<Rightarrow> nat \<Rightarrow> action list" where
  "restore_at us i = SetTeams i (Teams (us ! i)) # map (Send \<circ> Line) (chunk_lines (us ! i))"

definition before_user :: "generated \<Rightarrow> nat \<Rightarrow> action list" where
  "before_user g i = map (Send \<circ> Line) (head_lines g) @ concat (map (strip_at (g_users g)) [0..<i])"

definition between :: "generated \<Rightarrow> nat \<Rightarrow> action list" where
  "between g i = concat (map (strip_at (g_users g)) [Suc i..<length (g_users g)]) @
     map (Send \<circ> Line \<circ> emoji_line) (g_emojis g) @ concat (map (restore_at (g_users g)) [0..<i])"

definition after_user :: "generated \<Rightarrow> nat \<Rightarrow> action list" where
  "after_user g i = map (Send \<circ> Line) (chunk_lines (g_users g ! i)) @
     concat (map (restore_at (g_users g)) [Suc i..<length (g_users g)]) @ map (Send \<circ> Line \<circ> direct_line) (g_direct g)"

lemma upt_around: "i < n \<Longrightarrow> [0..<n] = [0..<i] @ i # [Suc i..<n]"
  using upt_add_eq_append [of 0 i "n - i"] upt_conv_Cons [of i n] by simp

lemma file_program_at:
  assumes "i < length (g_users g)"
  shows "file_program g = before_user g i @ SetTeams i (stripped_teams (Teams (g_users g ! i))) # Send (UserPtr i) #
    between g i @ SetTeams i (Teams (g_users g ! i)) # after_user g i"
proof -
  have "strip_program (g_users g) = concat (map (strip_at (g_users g)) [0..<i]) @ strip_at (g_users g) i @
      concat (map (strip_at (g_users g)) [Suc i..<length (g_users g)])"
    unfolding strip_program_def strip_at_def upt_around [OF assms] by simp
  moreover have "restore_program (g_users g) = concat (map (restore_at (g_users g)) [0..<i]) @ restore_at (g_users g) i @
      concat (map (restore_at (g_users g)) [Suc i..<length (g_users g)])"
    unfolding restore_program_def restore_at_def upt_around [OF assms] by simp
  ultimately show ?thesis
    by (simp add: file_program_def before_user_def between_def after_user_def strip_at_def [of _ i] restore_at_def [of _ i])
qed

lemma sends_parts [simp]:
  "sends (strip_at us i) = [UserPtr i]" "sends (restore_at us i) = map Line (chunk_lines (us ! i))"
  "sends (map (Send \<circ> Line \<circ> f) xs) = map (Line \<circ> f) xs"
  by (simp_all add: strip_at_def restore_at_def comp_assoc)

lemma concat_single [simp]: "concat (map (\<lambda>i. [f i]) xs) = map f xs"
  by (induction xs) simp_all

lemma sends_before [simp]: "sends (before_user g i) = map Line (head_lines g) @ map UserPtr [0..<i]"
  by (simp add: before_user_def o_def)

lemma sets_parts [simp]: "sets i (strip_at us j) = (i = j)" "sets i (restore_at us j) = (i = j)"
  "\<not> sets i (map (Send \<circ> Line \<circ> f) xs)"
  by (auto simp: strip_at_def restore_at_def comp_assoc)

lemma not_sets_between: "\<not> sets i (between g i)"
  by (auto simp: between_def sets_concat)

lemma not_sets_after: "\<not> sets i (after_user g i)"
  by (auto simp: after_user_def sets_concat)

text \<open>How many lines follow a user's line before the user gets its channels back.\<close>

definition slack :: "generated \<Rightarrow> nat \<Rightarrow> nat" where
  "slack g i = (length (g_users g) - Suc i) + length (g_emojis g) + (\<Sum>j\<leftarrow>[0..<i]. length (chunk_lines (g_users g ! j)))"

lemma length_between: "length (sends (between g i)) = slack g i"
  by (simp add: between_def slack_def o_def length_concat)

lemma sends_file_program:
  "sends (file_program g) = map Line (head_lines g) @ map UserPtr [0..<length (g_users g)] @ map (Line \<circ> emoji_line) (g_emojis g) @
     map Line (concat (map chunk_lines (g_users g))) @ map (Line \<circ> direct_line) (g_direct g)"
proof -
  have s: "strip_program us = concat (map (strip_at us) [0..<length us])" for us
    by (simp add: strip_program_def strip_at_def [abs_def])
  have r: "restore_program us = concat (map (restore_at us) [0..<length us])" for us
    by (simp add: restore_program_def restore_at_def [abs_def])
  have "map (\<lambda>i. map Line (chunk_lines (us ! i))) [0..<length us] = map (\<lambda>u. map Line (chunk_lines u)) us" for us
    by (rule nth_equalityI) simp_all
  then have "concat (map (\<lambda>i. map Line (chunk_lines (us ! i))) [0..<length us]) = map Line (concat (map chunk_lines us))" for us
    by (simp add: map_concat o_def)
  then show ?thesis by (simp add: file_program_def s r o_def)
qed

definition stripped_line :: "UserImportData \<Rightarrow> LineImportData" where
  "stripped_line u = user_line (u\<lparr>Teams := stripped_teams (Teams u)\<rparr>)"

text \<open>What the comments say the file holds.\<close>

definition intended_file :: "generated \<Rightarrow> LineImportData list" where
  "intended_file g = head_lines g @ map stripped_line (g_users g) @ map emoji_line (g_emojis g) @
     concat (map chunk_lines (g_users g)) @ map direct_line (g_direct g)"

lemma intended_file_resolved:
  "intended_file g = map (resolve (map (\<lambda>u. u\<lparr>Teams := stripped_teams (Teams u)\<rparr>) (g_users g))) (sends (file_program g))"
proof -
  have "map (resolve (map (\<lambda>u. u\<lparr>Teams := stripped_teams (Teams u)\<rparr>) (g_users g)) \<circ> UserPtr) [0..<length (g_users g)] =
      map stripped_line (g_users g)"
    by (rule nth_equalityI) (simp_all add: resolve_def stripped_line_def)
  then show ?thesis by (simp add: intended_file_def sends_file_program resolve_def o_def)
qed

lemma prefix_cases:
  assumes "pre @ post = A @ B" "length (sends pre) < length (sends A)"
  obtains C where "A = pre @ C"
proof -
  from assms(1) consider C where "A = pre @ C" | C where "pre = A @ C" by (auto simp: append_eq_append_conv2)
  then show thesis using assms(2) that by cases auto
qed

lemma suffix_cases:
  assumes "pre @ post = A @ B" "length (sends A) < length (sends pre)"
  obtains C where "pre = A @ C"
proof -
  from assms(1) consider C where "A = pre @ C" | C where "pre = A @ C" by (auto simp: append_eq_append_conv2)
  then show thesis using assms(2) that by cases auto
qed

text \<open>Resolved within its slack, a pointer gives the stripped user.\<close>

lemma pointer_in_slack:
  assumes i: "i < length (g_users g)" and P: "file_program g = pre @ post"
    and k: "length (head_lines g) + i < length (sends pre)" "length (sends pre) \<le> length (head_lines g) + i + slack g i"
  shows "teams_after i pre (Teams (g_users g ! i)) = stripped_teams (Teams (g_users g ! i))"
proof -
  let ?S = "[SetTeams i (stripped_teams (Teams (g_users g ! i))), Send (UserPtr i)]"
  let ?A = "before_user g i @ ?S @ between g i"
  have split: "pre @ post = ?A @ SetTeams i (Teams (g_users g ! i)) # after_user g i"
    using P file_program_at [OF i] by simp
  have "length (sends pre) < length (sends ?A)" using k(2) by (simp add: length_between)
  then obtain C where C: "?A = pre @ C" by (rule prefix_cases [OF split])
  have "pre @ C = before_user g i @ ?S @ between g i" using C by simp
  then obtain D where D: "pre = before_user g i @ D" using k(1) suffix_cases by (metis diff_zero length_append length_map length_upt sends_before)
  then have DC: "D @ C = ?S @ between g i" using C by simp
  have "D \<noteq> [] \<and> D \<noteq> [hd ?S]" using D k(1) by auto
  then obtain E where E: "D = ?S @ E" "E @ C = between g i" using DC by (auto simp: Cons_eq_append_conv append_eq_Cons_conv)
  then have "\<not> sets i E" using not_sets_between [of i g] by (metis sets_simps(4))
  then show ?thesis using D E(1) by (simp add: teams_after_unset)
qed

lemma final_users: "fold set_teams (file_program g) (g_users g) = g_users g"
proof (rule nth_equalityI)
  fix i assume "i < length (fold set_teams (file_program g) (g_users g))"
  then have i: "i < length (g_users g)" by simp
  have "teams_after i (file_program g) ts = Teams (g_users g ! i)" for ts
    unfolding file_program_at [OF i] by (simp add: teams_after_unset not_sets_after)
  then show "fold set_teams (file_program g) (g_users g) ! i = g_users g ! i" using i by (simp add: fold_set_teams_nth)
qed simp

lemma encoded_intended:
  assumes "encoded_ok (file_program g) (g_users g) out" "length out = length (sends (file_program g))"
    and slack: "\<forall>i < length (g_users g). 100 < slack g i"
  shows "out = intended_file g"
proof (rule nth_equalityI)
  show "length out = length (intended_file g)" using assms(2) by (simp add: intended_file_resolved)
  fix k assume k: "k < length out"
  obtain pre post where p: "file_program g = pre @ post" "k < length (sends pre)" "length (sends pre) \<le> k + 101"
    "out ! k = resolve (fold set_teams pre (g_users g)) (sends (file_program g) ! k)"
    using assms(1) k unfolding encoded_ok_def by blast
  let ?x = "sends (file_program g) ! k" and ?us = "map (\<lambda>u. u\<lparr>Teams := stripped_teams (Teams u)\<rparr>) (g_users g)"
  have goal: "intended_file g ! k = resolve ?us ?x" using k assms(2) by (simp add: intended_file_resolved)
  show "out ! k = intended_file g ! k"
  proof (cases ?x)
    case (Line l)
    then show ?thesis using p(4) goal by (simp add: resolve_def)
  next
    case (UserPtr i)
    let ?h = "length (head_lines g)" and ?n = "length (g_users g)"
    have "\<exists>j < ?n. k = ?h + j \<and> i = j"
    proof (rule ccontr)
      assume no: "\<not> (\<exists>j < ?n. k = ?h + j \<and> i = j)"
      define rest where "rest = map (Line \<circ> emoji_line) (g_emojis g) @ map Line (concat (map chunk_lines (g_users g))) @
        map (Line \<circ> direct_line) (g_direct g)"
      have S: "sends (file_program g) = map Line (head_lines g) @ map UserPtr [0..<?n] @ rest"
        by (simp add: sends_file_program rest_def)
      consider "k < ?h" | "?h \<le> k" "k - ?h < ?n" | "?h + ?n \<le> k" by linarith
      then show False
      proof cases
        case 1
        then show ?thesis using UserPtr by (simp add: sends_file_program nth_append)
      next
        case 2
        then show ?thesis using UserPtr no by (simp add: sends_file_program nth_append)
      next
        case 3
        then have "\<not> k < ?h" "\<not> k - ?h < ?n" by linarith+
        then have "?x = rest ! (k - ?h - ?n)" by (simp add: S nth_append)
        moreover have "k - ?h - ?n < length rest" using k assms(2) 3 by (simp add: S)
        ultimately have "UserPtr i \<in> set rest" using UserPtr by (metis nth_mem)
        then show ?thesis by (auto simp: rest_def)
      qed
    qed
    then have i: "i < ?n" "k = ?h + i" by auto
    have "length (sends pre) \<le> ?h + i + slack g i" using p(3) i slack by fastforce
    then have "teams_after i pre (Teams (g_users g ! i)) = stripped_teams (Teams (g_users g ! i))"
      using pointer_in_slack [OF i(1) p(1)] p(2) i(2) by simp
    then show ?thesis using p(4) goal UserPtr i(1) by (simp add: resolve_def fold_set_teams_nth)
  qed
qed

section \<open>A schedule that races\<close>

lemma run_through:
  "chan s = [] \<Longrightarrow> held s = None \<Longrightarrow> todo s = A @ C \<Longrightarrow>
   \<exists>es s'. enc_run es s = Some s' \<and> todo s' = C \<and> chan s' = [] \<and> held s' = None \<and>
     shared_users s' = fold set_teams A (shared_users s) \<and> length (encoded s') = length (encoded s) + length (sends A)"
proof (induction A arbitrary: s)
  case Nil
  then show ?case by (intro exI [of _ "[]"]) simp
next
  case (Cons a A)
  have step: "\<exists>es t. enc_run es s = Some t \<and> todo t = A @ C \<and> chan t = [] \<and> held t = None \<and>
     shared_users t = set_teams a (shared_users s) \<and> length (encoded t) = length (encoded s) + length (sends [a])"
  proof (cases a)
    case (Send x)
    then show ?thesis using Cons.prems by (intro exI [of _ "[Produce, Take, Encode]"]) (simp add: chan_cap_def)
  next
    case (SetTeams i ts)
    then show ?thesis using Cons.prems by (intro exI [of _ "[Produce]"]) simp
  qed
  then obtain es t where t: "enc_run es s = Some t" "todo t = A @ C" "chan t = []" "held t = None"
    "shared_users t = set_teams a (shared_users s)" "length (encoded t) = length (encoded s) + length (sends [a])" by blast
  obtain fs s' where r: "enc_run fs t = Some s'" "todo s' = C" "chan s' = []" "held s' = None"
    "shared_users s' = fold set_teams A (shared_users t)" "length (encoded s') = length (encoded t) + length (sends A)"
    using Cons.IH [OF t(3,4,2)] by blast
  have "sends (a # A) = sends [a] @ sends A" using sends_simps(4) [of "[a]" A] by simp
  then show ?case using t r by (intro exI [of _ "es @ fs"] exI [of _ s']) (simp add: enc_run_append)
qed

lemma run_ahead:
  "todo s = B @ C \<Longrightarrow> length (chan s) + length (sends B) \<le> 100 \<Longrightarrow>
   \<exists>s'. enc_run (replicate (length B) Produce) s = Some s' \<and> todo s' = C \<and> held s' = held s \<and> encoded s' = encoded s \<and>
     shared_users s' = fold set_teams B (shared_users s) \<and> chan s' = chan s @ sends B"
proof (induction B arbitrary: s)
  case (Cons a B)
  show ?case
  proof (cases a)
    case (Send x)
    let ?s = "s\<lparr>todo := B @ C, chan := chan s @ [x]\<rparr>"
    have "enc_fire Produce s = Some ?s" using Cons.prems Send by (simp add: chan_cap_def)
    then show ?thesis using Cons.IH [of ?s] Cons.prems Send by simp
  next
    case (SetTeams i ts)
    let ?s = "s\<lparr>todo := B @ C, shared_users := set_teams a (shared_users s)\<rparr>"
    have "enc_fire Produce s = Some ?s" using Cons.prems SetTeams by simp
    then show ?thesis using Cons.IH [of ?s] Cons.prems SetTeams by simp
  qed
qed simp

lemma race_run:
  assumes i: "i < length (g_users g)" and slack: "slack g i \<le> 100"
  shows "\<exists>es s. enc_run es (enc_init g) = Some s \<and> enc_done s \<and>
    length (head_lines g) + i < length (encoded s) \<and> encoded s ! (length (head_lines g) + i) = user_line (g_users g ! i)"
proof -
  let ?T = "Teams (g_users g ! i)" and ?k = "length (head_lines g) + i"
  let ?A = "before_user g i @ [SetTeams i (stripped_teams ?T)]" and ?B = "between g i @ [SetTeams i ?T]"
  have P: "file_program g = ?A @ Send (UserPtr i) # ?B @ after_user g i" using file_program_at [OF i] by simp
  obtain es s1 where r1: "enc_run es (enc_init g) = Some s1" "todo s1 = Send (UserPtr i) # ?B @ after_user g i" "chan s1 = []" "held s1 = None"
    "shared_users s1 = fold set_teams ?A (g_users g)" "length (encoded s1) = ?k"
    using run_through [of "enc_init g" ?A "Send (UserPtr i) # ?B @ after_user g i"] P by (auto simp: enc_init_def)
  let ?s2 = "s1\<lparr>todo := ?B @ after_user g i, held := Some (UserPtr i), chan := []\<rparr>"
  have r2: "enc_run [Produce, Take] s1 = Some ?s2" using r1 by (simp add: chan_cap_def)
  obtain s3 where r3: "enc_run (replicate (length ?B) Produce) ?s2 = Some s3" "todo s3 = after_user g i" "held s3 = Some (UserPtr i)"
    "encoded s3 = encoded s1" "shared_users s3 = fold set_teams ?B (shared_users s1)"
    using run_ahead [of ?s2 ?B "after_user g i"] slack length_between [of g i] by auto
  let ?s4 = "s3\<lparr>held := None, encoded := encoded s3 @ [resolve (shared_users s3) (UserPtr i)]\<rparr>"
  have r4: "enc_run [Encode] s3 = Some ?s4" using r3 by simp
  obtain fs s5 where r5: "enc_run fs ?s4 = Some s5" "enc_done s5" using enc_completes by blast
  obtain more where more: "encoded s5 = encoded ?s4 @ more" using enc_run_prefix [OF r5(1)] by blast
  have "shared_users s3 ! i = g_users g ! i"
    using i r1(5) r3(5) by (simp add: fold_set_teams_nth fold_append [symmetric] del: fold_append)
  then have "encoded s5 ! ?k = user_line (g_users g ! i)"
    using more r3(4) r1(6) by (simp add: resolve_def nth_append)
  moreover have "?k < length (encoded s5)" using more r3(4) r1(6) by simp
  moreover have "enc_run (es @ [Produce, Take] @ replicate (length ?B) Produce @ [Encode] @ fs) (enc_init g) = Some s5"
    using r1(1) r2 r3(1) r4 r5(1) by (simp only: enc_run_append option.case)
  ultimately show ?thesis using r5(2) by blast
qed

section \<open>What the import reads back\<close>

text \<open>The channels a file makes a user join in a team, in the order of the lines.\<close>

definition imported_by :: "string \<Rightarrow> string \<Rightarrow> LineImportData \<Rightarrow> UserChannelImportData list" where
  "imported_by name team l = (case line_User l of None \<Rightarrow> []
     | Some u \<Rightarrow> if Username u = name then concat (map Channels (filter (\<lambda>t. uteam_Name t = team) (Teams u))) else [])"

definition imported :: "LineImportData list \<Rightarrow> string \<Rightarrow> string \<Rightarrow> UserChannelImportData list" where
  "imported file name team = concat (map (imported_by name team) file)"

lemma imported_append [simp]: "imported (f @ g) name team = imported f name team @ imported g name team"
  by (simp add: imported_def)

lemma imported_other:
  "imported (map scheme_line ss) name team = []" "imported (map team_line ts) name team = []"
  "imported (map channel_line cs) name team = []" "imported (map emoji_line es) name team = []"
  "imported (map direct_line ds) name team = []" "imported [version_line] name team = []"
  by (simp_all add: imported_def imported_by_def scheme_line_def team_line_def channel_line_def emoji_line_def direct_line_def
      version_line_def blank_line_def o_def)

lemma imported_stripped: "imported (map stripped_line us) name team = []"
proof -
  have "imported_by name team (stripped_line u) = []" for u
    by (auto simp: imported_by_def stripped_line_def user_line_def stripped_teams_def)
  then show ?thesis by (simp add: imported_def o_def)
qed

lemma concat_only:
  assumes "distinct (map f xs)" "x \<in> set xs" "\<forall>y \<in> set xs. f y \<noteq> f x \<longrightarrow> g y = []"
  shows "concat (map g xs) = g x"
  using assms
proof (induction xs)
  case (Cons y xs)
  show ?case
  proof (cases "y = x")
    case True
    have "g z = []" if z: "z \<in> set xs" for z
    proof -
      have "f y \<notin> f ` set xs" using Cons.prems(1) by simp
      then have "f z \<noteq> f x" using True imageI [OF z, of f] by metis
      then show ?thesis using Cons.prems(3) z by simp
    qed
    then show ?thesis using True by simp
  next
    case False
    then have x: "x \<in> set xs" using Cons.prems(2) by simp
    have "f y \<notin> f ` set xs" using Cons.prems(1) by simp
    then have "f y \<noteq> f x" using imageI [OF x, of f] by metis
    then show ?thesis using Cons.IH [OF _ x] Cons.prems(1,3) by simp
  qed
qed simp

lemma imported_chunks:
  assumes "distinct (map uteam_Name (Teams u))" "t \<in> set (Teams u)"
  shows "imported (chunk_lines u) (Username u) (uteam_Name t) = Channels t"
proof -
  have one: "imported (map (\<lambda>ch. user_line (chunk_user u t' ch)) chunks) (Username u) (uteam_Name t) =
      (if uteam_Name t' = uteam_Name t then concat chunks else [])" for t' chunks
    by (simp add: imported_def imported_by_def user_line_def chunk_user_def o_def)
  have "imported (concat (map (\<lambda>t'. map (\<lambda>ch. user_line (chunk_user u t' ch)) (chunk_loop (Channels t') [])) ts)) (Username u) (uteam_Name t) =
      concat (map (\<lambda>t'. if uteam_Name t' = uteam_Name t then Channels t' else []) ts)" for ts
  proof (induction ts)
    case (Cons a ts)
    then show ?case by (simp add: one chunk_loop_concat)
  qed (simp add: imported_def)
  from this [of "Teams u"] have "imported (chunk_lines u) (Username u) (uteam_Name t) =
      concat (map (\<lambda>t'. if uteam_Name t' = uteam_Name t then Channels t' else []) (Teams u))"
    unfolding chunk_lines_def .
  also have "\<dots> = Channels t" using concat_only [OF assms, of "\<lambda>t'. if uteam_Name t' = uteam_Name t then Channels t' else []"] by simp
  finally show ?thesis .
qed

lemma imported_chunks_other: "Username u \<noteq> name \<Longrightarrow> imported (chunk_lines u) name team = []"
  by (auto simp: imported_def imported_by_def chunk_lines_def user_line_def chunk_user_def)

lemma chunk_line_size: "l \<in> set (chunk_lines u) \<Longrightarrow>
  \<exists>v t. line_User l = Some v \<and> Teams v = [t] \<and> 0 < length (Channels t) \<and> length (Channels t) \<le> 100"
  using chunk_loop_sizes [of "[]"] by (fastforce simp: chunk_lines_def user_line_def chunk_user_def)

lemma GenerateBulkloadFile_returns:
  assumes "config_ok config"
  shows "\<exists>es res. GenerateBulkloadFile seed_faker r es config = Some res"
proof -
  obtain g where g: "generate_objects seed_faker r config = Some g" using generate_objects_run [OF assms] by blast
  obtain es s where "enc_run es (enc_init g) = Some s" "enc_done s" using enc_completes by blast
  then show ?thesis using g by (auto simp: GenerateBulkloadFile_def intro!: exI [of _ es])
qed

section \<open>Properties\<close>


definition no_objects :: generated where
  "no_objects = \<lparr>g_teamSchemes = [], g_channelSchemes = [], g_teams = [], g_channels = [], g_users = [], g_emojis = [], g_direct = []\<rparr>"


text \<open>C27. When more than a hundred lines lie between a user's line and the moment the user gets its
  channels back, for every user, then every schedule writes the intended file: the version first, then
  schemes, teams and channels, the users without channels, the emoji, the membership chunks and the
  direct channels. The users that are returned have their channels again.\<close>

theorem bulk_file_intended:
  assumes "enc_run es (enc_init g) = Some s" "enc_done s" "\<forall>i < length (g_users g). 100 < slack g i"
  shows "encoded s = intended_file g \<and> shared_users s = g_users g"
proof
  show "encoded s = intended_file g"
    using encoded_intended [OF enc_done_result(2,1) [OF assms(1,2)] assms(3)] .
  show "shared_users s = g_users g" using enc_done_result(3) [OF assms(1,2)] by (simp add: final_users)
qed

definition many_emoji :: generated where
  "many_emoji = no_objects\<lparr>g_users := [member_user], g_emojis := replicate 101 \<lparr>emoji_Name = ''e'', emoji_Image = ''i''\<rparr>\<rparr>"

theorem bulk_file_intended_witness:
  "\<exists>es s. enc_run es (enc_init many_emoji) = Some s \<and> encoded s = intended_file many_emoji \<and> shared_users s = [member_user]"
proof -
  obtain es s where s: "enc_run es (enc_init many_emoji) = Some s" "enc_done s" using enc_completes by blast
  have "\<forall>i < length (g_users many_emoji). 100 < slack many_emoji i"
    by (simp add: many_emoji_def no_objects_def slack_def)
  from bulk_file_intended [OF s this] s(1) show ?thesis by (auto simp: many_emoji_def)
qed

text \<open>C28. The bound is exact, so small files race: when at most a hundred lines follow a user's line
  before the user gets its channels back, some schedule writes the line with all the channels, although
  the comment in the code says the first version of the user is without channel memberships.\<close>

theorem bulk_file_race:
  assumes "i < length (g_users g)" "slack g i \<le> 100"
  shows "\<exists>es s. enc_run es (enc_init g) = Some s \<and> enc_done s \<and> length (head_lines g) + i < length (encoded s) \<and>
    encoded s ! (length (head_lines g) + i) = user_line (g_users g ! i)"
  using assms by (rule race_run)

theorem bulk_file_race_witness:
  "\<exists>es s. enc_run es (enc_init (no_objects\<lparr>g_users := [member_user]\<rparr>)) = Some s \<and> enc_done s \<and>
     encoded s ! 1 \<noteq> intended_file (no_objects\<lparr>g_users := [member_user]\<rparr>) ! 1"
proof -
  let ?g = "no_objects\<lparr>g_users := [member_user]\<rparr>"
  have "0 < length (g_users ?g)" "slack ?g 0 \<le> 100" by (simp_all add: no_objects_def slack_def)
  moreover have h: "head_lines ?g = [version_line]" by (simp add: head_lines_def no_objects_def)
  ultimately obtain es s where "enc_run es (enc_init ?g) = Some s" "enc_done s" "encoded s ! 1 = user_line member_user"
    using bulk_file_race [of 0 ?g] by auto
  moreover have "intended_file ?g ! 1 \<noteq> user_line member_user"
    unfolding intended_file_def h
    by (simp add: stripped_line_def user_line_def member_user_def stripped_teams_def blank_line_def blank_user_def)
  ultimately show ?thesis by metis
qed

text \<open>C5. Chunking loses nothing: with different user names and different teams per user, reading the
  intended file back gives each user exactly the channels of each of its teams, in order, and no user
  line lists more than a hundred channels.\<close>

theorem memberships_roundtrip:
  assumes "distinct (map Username (g_users g))" "u \<in> set (g_users g)" "distinct (map uteam_Name (Teams u))" "t \<in> set (Teams u)"
  shows "imported (intended_file g) (Username u) (uteam_Name t) = Channels t \<and>
    (\<forall>l \<in> set (intended_file g). \<forall>v t. line_User l = Some v \<longrightarrow> t \<in> set (Teams v) \<longrightarrow> length (Channels t) \<le> 100)"
proof
  have chunks: "imported (concat (map chunk_lines us)) name team = concat (map (\<lambda>u. imported (chunk_lines u) name team) us)" for us name team
    by (induction us) (simp_all add: imported_def [of "[]"])
  have head: "imported (head_lines g) name team = []" for name team
    unfolding head_lines_def using imported_append [of "[version_line]"] by (simp add: imported_other)
  have "imported (concat (map chunk_lines (g_users g))) (Username u) (uteam_Name t) = imported (chunk_lines u) (Username u) (uteam_Name t)"
    unfolding chunks using assms(1,2) by (rule concat_only) (simp add: imported_chunks_other)
  then show "imported (intended_file g) (Username u) (uteam_Name t) = Channels t"
    by (simp add: intended_file_def head imported_other imported_stripped imported_chunks [OF assms(3,4)])
  show "\<forall>l \<in> set (intended_file g). \<forall>v t. line_User l = Some v \<longrightarrow> t \<in> set (Teams v) \<longrightarrow> length (Channels t) \<le> 100"
  proof (intro ballI allI impI)
    fix l v t assume l: "l \<in> set (intended_file g)" "line_User l = Some v" "t \<in> set (Teams v)"
    then consider "l \<in> set (concat (map chunk_lines (g_users g)))" | "l \<in> set (map stripped_line (g_users g))"
      by (auto simp: intended_file_def head_lines_def version_line_def scheme_line_def team_line_def channel_line_def
          emoji_line_def direct_line_def blank_line_def)
    then show "length (Channels t) \<le> 100"
    proof cases
      case 1
      then show ?thesis using l(2,3) chunk_line_size by fastforce
    next
      case 2
      then show ?thesis using l(2,3) by (auto simp: stripped_line_def user_line_def stripped_teams_def)
    qed
  qed
qed

theorem memberships_roundtrip_witness:
  "imported (intended_file (no_objects\<lparr>g_users := [member_user]\<rparr>)) ''u'' ''a'' = [\<lparr>uchannel_Name = ''b'', uchannel_Roles = []\<rparr>]"
proof -
  let ?g = "no_objects\<lparr>g_users := [member_user]\<rparr>"
  have "distinct (map Username (g_users ?g))" "member_user \<in> set (g_users ?g)" "distinct (map uteam_Name (Teams member_user))"
    "hd (Teams member_user) \<in> set (Teams member_user)" by (simp_all add: member_user_def)
  from memberships_roundtrip [OF this] show ?thesis by (simp add: member_user_def)
qed

text \<open>For a well-formed configuration \<open>GenerateBulkloadFile\<close> completes under some schedule, and under
  every schedule with which it returns, the returned users are the generated ones with consistent
  memberships and the returned schemes are empty although schemes may have been written.\<close>

theorem GenerateBulkloadFile_result:
  assumes "config_ok config"
  shows "(\<exists>es res. GenerateBulkloadFile seed_faker r es config = Some res) \<and>
    (\<forall>es res. GenerateBulkloadFile seed_faker r es config = Some res \<longrightarrow>
       int (length (res_Users res)) = NumUsers config \<and> (\<forall>u \<in> set (res_Users res). member_ok (res_Channels res) u) \<and>
       File res \<noteq> [] \<and> hd (File res) = version_line \<and> res_Schemes res = [])"
proof -
  obtain g where g: "generate_objects seed_faker r config = Some g" "generated_ok config g"
    using generate_objects_run [OF assms] by blast
  have "\<exists>es res. GenerateBulkloadFile seed_faker r es config = Some res"
    using GenerateBulkloadFile_returns [OF assms] .
  moreover have "int (length (res_Users res)) = NumUsers config \<and> (\<forall>u \<in> set (res_Users res). member_ok (res_Channels res) u) \<and>
       File res \<noteq> [] \<and> hd (File res) = version_line \<and> res_Schemes res = []"
    if run: "GenerateBulkloadFile seed_faker r es config = Some res" for es res
  proof -
    obtain s where s: "enc_run es (enc_init g) = Some s" "enc_done s" "File res = encoded s" "res_Users res = shared_users s"
      "res_Channels res = g_channels g" "res_Schemes res = []"
      using run g(1) by (cases "enc_run es (enc_init g)") (auto simp: GenerateBulkloadFile_def split: if_splits)
    note d = enc_done_result [OF s(1,2)]
    have first: "sends (file_program g) ! 0 = Line version_line" "0 < length (sends (file_program g))"
      by (simp_all add: sends_file_program head_lines_def)
    have "\<exists>pre. encoded s ! 0 = resolve (fold set_teams pre (g_users g)) (sends (file_program g) ! 0)"
      using d(1,2) first(2) unfolding encoded_ok_def by metis
    then have "encoded s ! 0 = version_line" by (auto simp: first(1) resolve_def)
    then have "encoded s \<noteq> [] \<and> hd (encoded s) = version_line" using d(1) first(2) by (cases "encoded s") simp_all
    moreover have "length (g_users g) = nat (NumUsers config)"
    proof -
      have "map Email (g_users g) = map email_of [0 .. NumUsers config - 1]" using g(2) by (simp add: generated_ok_def)
      from arg_cong [OF this, of length] show ?thesis by simp
    qed
    moreover have "\<forall>u \<in> set (g_users g). member_ok (g_channels g) u" using g(2) by (simp add: generated_ok_def)
    moreover have "0 \<le> NumUsers config" using assms by (simp add: config_ok_def)
    ultimately show ?thesis using s(3-6) d(3) by (simp add: final_users)
  qed
  ultimately show ?thesis by blast
qed

theorem GenerateBulkloadFile_result_witness:
  "\<exists>es res. GenerateBulkloadFile (\<lambda>_. \<lparr>fk_src = (\<lambda>_ _. ''word''), fk_pos = 0\<rparr>) \<lparr>src = (\<lambda>i. i), pos = 0\<rparr> es small_config = Some res \<and>
     length (res_Users res) = 3"
proof -
  have "config_ok small_config" by (simp add: small_config_def blank_config_def config_ok_def)
  from GenerateBulkloadFile_result [OF this, of "\<lambda>_. \<lparr>fk_src = (\<lambda>_ _. ''word''), fk_pos = 0\<rparr>" "\<lparr>src = (\<lambda>i. i), pos = 0\<rparr>"]
  show ?thesis by (force simp: small_config_def blank_config_def)
qed

end
