(* ===== verification/Bulk_Posts.thy ===== *)
theory Bulk_Posts
  imports Bulk_Types Thread_Split
begin

text \<open>
  Loading posts straight into the database: \<open>ConnectToDB\<close>, \<open>LoadPosts\<close> and \<open>importCSVToSQL\<close> of
  \<^verbatim>\<open>loadtest/bulkload.go\<close>. The Mattermost server (teams, channels and users by page), the database
  and the file system are parameters; a panic of any goroutine ends the program and is \<open>None\<close>.
\<close>

section \<open>The database connection\<close>

record url =
  url_base :: string
  RawQuery :: string

record db_env =
  parse_url :: "string \<Rightarrow> url option"
  open_db :: "string \<Rightarrow> url \<Rightarrow> bool"
  ping_db :: "string \<Rightarrow> url \<Rightarrow> bool"

text \<open>The result is the address the connection was opened with, or \<open>None\<close> for the nil pointer.\<close>

definition ConnectToDB :: "db_env \<Rightarrow> string \<Rightarrow> string \<Rightarrow> url option" where
  "ConnectToDB env driverName dataSource =
     (case parse_url env dataSource of
        None \<Rightarrow> None
      | Some u \<Rightarrow>
          (let u = (if driverName = ''mysql'' then u\<lparr>RawQuery := ''charset=utf8mb4,utf8''\<rparr> else u)
           in if \<not> open_db env driverName u then None
              else if \<not> ping_db env driverName u then None
              else Some u))"

section \<open>Pages\<close>

text \<open>The loop over pages of 200 until a page is shorter. A server that always has another full page
  makes it run forever: the outer option. \<open>Inl ()\<close> is the early return after an error.\<close>

partial_function (option) page_loop :: "(nat \<Rightarrow> 'a list option) \<Rightarrow> nat \<Rightarrow> 'a list \<Rightarrow> (unit + 'a list) option" where
  [code]: "page_loop get page acc =
     (case get page of
        None \<Rightarrow> Some (Inl ())
      | Some new \<Rightarrow> if length new = 200 then page_loop get (page + 1) (acc @ new) else Some (Inr (acc @ new)))"

text \<open>The users' loop also stops once ten thousand users are there.\<close>

partial_function (option) user_page_loop :: "(nat \<Rightarrow> 'a list option) \<Rightarrow> nat \<Rightarrow> 'a list \<Rightarrow> nat \<Rightarrow> (unit + 'a list) option" where
  [code]: "user_page_loop get page acc received =
     (case get page of
        None \<Rightarrow> Some (Inl ())
      | Some new \<Rightarrow>
          if length new > 0 \<and> received + length new \<ge> 10000 then Some (Inr (acc @ new))
          else if length new = 200 then user_page_loop get (page + 1) (acc @ new) (received + length new)
          else Some (Inr (acc @ new)))"

section \<open>Posts\<close>

text \<open>The clock, the random source, the new identifiers and the text library, each read in order.\<close>

record world =
  w_rng :: rng
  w_clock :: "nat \<Rightarrow> int"
  w_ticks :: nat
  w_ids :: "nat \<Rightarrow> string"
  w_idpos :: nat
  w_fake :: faker

definition tick :: "world \<Rightarrow> int \<times> world" where
  "tick w = (w_clock w (w_ticks w), w\<lparr>w_ticks := Suc (w_ticks w)\<rparr>)"

definition new_id :: "world \<Rightarrow> string \<times> world" where
  "new_id w = (w_ids w (w_idpos w), w\<lparr>w_idpos := Suc (w_idpos w)\<rparr>)"

definition w_intn :: "int \<Rightarrow> world \<Rightarrow> (int \<times> world) option" where
  "w_intn n w = (case intn n (w_rng w) of None \<Rightarrow> None | Some (v, r) \<Rightarrow> Some (v, w\<lparr>w_rng := r\<rparr>))"

definition w_float64 :: "world \<Rightarrow> real \<times> world" where
  "w_float64 w = (let (x, r) = float64 (w_rng w) in (x, w\<lparr>w_rng := r\<rparr>))"

definition w_sentence :: "world \<Rightarrow> string \<times> world" where
  "w_sentence w = (let (s, f) = fake ''SentencesN 1'' (w_fake w) in (s, w\<lparr>w_fake := f\<rparr>))"

text \<open>Times are in nanoseconds; the configured range is in seconds.\<close>

definition randomTime :: "int \<Rightarrow> int option \<Rightarrow> world \<Rightarrow> (int \<times> world) option" where
  "randomTime postTimeRange after w =
     (let (now, w) = tick w in
      case after of
        None \<Rightarrow> (case w_intn postTimeRange w of None \<Rightarrow> None | Some (v, w) \<Rightarrow> Some (now + -1 * v * 10 ^ 9, w))
      | Some a \<Rightarrow> (case w_intn (now - a) w of None \<Rightarrow> None | Some (v, w) \<Rightarrow> Some (a + v, w)))"

text \<open>The columns of a line that are not constant.\<close>

record post_row =
  post_id :: string
  post_created :: int
  post_user :: string
  post_channel :: string
  post_root :: string
  post_message :: string

definition unix_ms :: "int \<Rightarrow> int" where
  "unix_ms t = t div 10 ^ 9 * 1000"

definition make_post :: "int \<Rightarrow> real \<Rightarrow> string list \<Rightarrow> string \<Rightarrow> nat \<Rightarrow> int \<Rightarrow> nat \<Rightarrow> (string \<times> int) list \<Rightarrow> world \<Rightarrow>
    (post_row \<times> (string \<times> int) list \<times> world) option" where
  "make_post postTimeRange replyChance users channelId channelNum i j rootPosts w = do {
     let (sentence, w) = w_sentence w;
     let message = ''PL'' @ sentence;
     (now, w) \<leftarrow> randomTime postTimeRange None w;
     let (newId, w) = new_id w;
     (parentRoot, now, rootPosts, w) \<leftarrow>
       (if j = 0 then Some ([], now, rootPosts @ [(newId, now)], w)
        else (let (x, w) = w_float64 w in
              if x < replyChance
              then do {
                (k, w) \<leftarrow> w_intn (int (length rootPosts)) w;
                (rootId, created) \<leftarrow> go_nth rootPosts k;
                (now, w) \<leftarrow> randomTime postTimeRange (Some created) w;
                Some (rootId, now, rootPosts, w)
              }
              else Some ([], now, rootPosts, w)));
     (if users = [] then None
      else Some (\<lparr>post_id = newId, post_created = unix_ms now,
                  post_user = users ! nat ((int j + i + int channelNum) mod int (length users)),
                  post_channel = channelId, post_root = parentRoot, post_message = message\<rparr>, rootPosts, w))
   }"

fun batch :: "int \<Rightarrow> real \<Rightarrow> string list \<Rightarrow> string \<Rightarrow> nat \<Rightarrow> int \<Rightarrow> nat list \<Rightarrow> (string \<times> int) list \<Rightarrow> world \<Rightarrow>
    (post_row list \<times> (string \<times> int) list \<times> world) option" where
  "batch rng_s chance users channelId channelNum i [] roots w = Some ([], roots, w)"
| "batch rng_s chance users channelId channelNum i (j # js) roots w = do {
     (p, roots, w) \<leftarrow> make_post rng_s chance users channelId channelNum i j roots w;
     (ps, roots, w) \<leftarrow> batch rng_s chance users channelId channelNum i js roots w;
     Some (p # ps, roots, w)
   }"

text \<open>\<open>for i := 0; i < numPostsPerChannel; i += 100\<close>.\<close>

function channel_posts :: "int \<Rightarrow> real \<Rightarrow> string list \<Rightarrow> string \<Rightarrow> nat \<Rightarrow> int \<Rightarrow> int \<Rightarrow> (string \<times> int) list \<Rightarrow> world \<Rightarrow>
    (post_row list \<times> world) option" where
  "channel_posts rng_s chance users channelId channelNum numPosts i roots w =
     (if i < numPosts
      then (case batch rng_s chance users channelId channelNum i [0..<100] roots w of
              None \<Rightarrow> None
            | Some (ps, roots, w) \<Rightarrow>
                (case channel_posts rng_s chance users channelId channelNum numPosts (i + 100) roots w of
                   None \<Rightarrow> None
                 | Some (qs, w) \<Rightarrow> Some (ps @ qs, w)))
      else Some ([], w))"
  by pat_completeness auto

termination channel_posts
  by (relation "measure (\<lambda>(_, _, _, _, _, numPosts, i, _, _). nat (numPosts - i))") auto

declare channel_posts.simps [simp del]

text \<open>\<open>int(math.Floor(a / b))\<close>; a division by zero gives an infinity or a NaN, which the conversion on
  the platforms the program runs on turns into the least integer.\<close>

definition posts_per_channel :: "int \<Rightarrow> int \<Rightarrow> int \<Rightarrow> int" where
  "posts_per_channel numPosts numTeams numChannels =
     (if numTeams * numChannels = 0 then - (2 ^ 63)
      else \<lfloor>f64 (f64 (of_int numPosts) / f64 (of_int (numTeams * numChannels)))\<rfloor>)"

section \<open>Importing\<close>

text \<open>What a worker meets outside: whether the next temporary file can be created, and whether the
  database accepts the next file.\<close>

record import_env =
  can_create :: "nat \<Rightarrow> bool"
  can_load :: "nat \<Rightarrow> bool"

text \<open>One worker on the lines it receives until the channel is closed. Result: the files it loaded, and
  whether it left the loop before the channel was closed. A failed \<^verbatim>\<open>LOAD DATA\<close> leaves a nil result,
  on which \<open>RowsAffected\<close> is called.\<close>

function importCSVToSQL :: "import_env \<Rightarrow> nat \<Rightarrow> 'a list \<Rightarrow> ('a list list \<times> bool) option" where
  "importCSVToSQL env n csvLines =
     (if \<not> can_create env n then Some ([], True)
      else if \<not> can_load env n then None
      else if length csvLines \<ge> 1000
      then (case importCSVToSQL env (n + 1) (drop 1000 csvLines) of
              None \<Rightarrow> None
            | Some (files, early) \<Rightarrow> Some (take 1000 csvLines # files, early))
      else Some ([csvLines], False))"
  by pat_completeness auto

termination importCSVToSQL
  by (relation "measure (\<lambda>(_, _, csvLines). length csvLines)") auto

declare importCSVToSQL.simps [simp del]

section \<open>Loading all posts\<close>

record post_server =
  GetAllTeams :: "int \<Rightarrow> (string \<times> string) list option"
  GetPublicChannelsForTeam :: "string \<Rightarrow> nat \<Rightarrow> string list option"
  GetUsersInTeam :: "string \<Rightarrow> nat \<Rightarrow> string list option"

datatype db_op = BulkOn | LoadFile "post_row list" | BulkOff

text \<open>The rows of one team, a channel at a time; the goroutines of \<open>ThreadSplit\<close> share nothing but the
  random source, so each channel has a world of its own.\<close>

fun team_rows :: "int \<Rightarrow> real \<Rightarrow> string list \<Rightarrow> int \<Rightarrow> (nat \<Rightarrow> world) \<Rightarrow> nat \<Rightarrow> string list \<Rightarrow> post_row list list option" where
  "team_rows rng_s chance users numPosts worlds channelNum [] = Some []"
| "team_rows rng_s chance users numPosts worlds channelNum (c # cs) = do {
     (ps, w) \<leftarrow> channel_posts rng_s chance users c channelNum numPosts 0 [] (worlds channelNum);
     rest \<leftarrow> team_rows rng_s chance users numPosts worlds (Suc channelNum) cs;
     Some (ps # rest)
   }"

text \<open>Four workers share the channel of lines; which worker gets which line is the scheduler's
  choice \<open>deliver\<close>. Temporary files can be created here.\<close>

fun run_workers :: "(nat \<Rightarrow> nat \<Rightarrow> bool) \<Rightarrow> nat \<Rightarrow> post_row list list \<Rightarrow> post_row list list option" where
  "run_workers loads k [] = Some []"
| "run_workers loads k (lines # rest) = do {
     (files, early) \<leftarrow> importCSVToSQL \<lparr>can_create = (\<lambda>_. True), can_load = loads k\<rparr> 0 lines;
     more \<leftarrow> run_workers loads (Suc k) rest;
     Some (files @ more)
   }"

record post_run =
  p_server :: post_server
  p_worlds :: "string \<Rightarrow> nat \<Rightarrow> world"
  p_deliver :: "string \<Rightarrow> post_row list list \<Rightarrow> post_row list list"
  p_loads :: "string \<Rightarrow> nat \<Rightarrow> nat \<Rightarrow> bool"

text \<open>The result is what happened to the database and how many deferred restorations are pending.\<close>

fun load_teams :: "post_run \<Rightarrow> LoadtestEnviromentConfig \<Rightarrow> int \<Rightarrow> (string \<times> string) list \<Rightarrow> (db_op list \<times> nat) option" where
  "load_teams run cfg numPostsPerChannel [] = Some ([], 0)"
| "load_teams run cfg numPostsPerChannel ((teamId, name) # rest) =
     (if \<not> has_prefix name ''loadtestteam'' then load_teams run cfg numPostsPerChannel rest
      else (case page_loop (GetPublicChannelsForTeam (p_server run) teamId) 0 [] of
              None \<Rightarrow> None
            | Some (Inl _) \<Rightarrow> Some ([], 0)
            | Some (Inr channels) \<Rightarrow>
                (case user_page_loop (GetUsersInTeam (p_server run) teamId) 0 [] 0 of
                   None \<Rightarrow> None
                 | Some (Inl _) \<Rightarrow> Some ([], 0)
                 | Some (Inr users) \<Rightarrow> do {
                     rows \<leftarrow> team_rows (PostTimeRange cfg) (ReplyChance cfg) users numPostsPerChannel (p_worlds run teamId) 0 channels;
                     files \<leftarrow> run_workers (p_loads run teamId) 0 (p_deliver run teamId rows);
                     (ops, pending) \<leftarrow> load_teams run cfg numPostsPerChannel rest;
                     Some (BulkOn # map LoadFile files @ ops, Suc pending)
                   })))"

definition LoadPosts :: "db_env \<Rightarrow> post_run \<Rightarrow> LoadtestEnviromentConfig \<Rightarrow> string \<Rightarrow> string \<Rightarrow> db_op list option" where
  "LoadPosts env run cfg driverName dataSource =
     (case ConnectToDB env driverName dataSource of
        None \<Rightarrow> Some []
      | Some db \<Rightarrow>
          (case GetAllTeams (p_server run) (NumTeams cfg + 200) of
             None \<Rightarrow> Some []
           | Some teams \<Rightarrow>
               (case load_teams run cfg (posts_per_channel (NumPosts cfg) (NumTeams cfg) (NumChannelsPerTeam cfg)) teams of
                  None \<Rightarrow> None
                | Some (ops, pending) \<Rightarrow> Some (ops @ replicate pending BulkOff))))"

section \<open>Pages\<close>

definition page_of :: "'a list \<Rightarrow> nat \<Rightarrow> 'a list option" where
  "page_of xs p = Some (take 200 (drop (200 * p) xs))"

lemma page_take: "take n xs @ take m (drop n xs) = take (n + m) xs"
  by (simp add: take_add)

lemma page_loop_all: "page_loop (page_of xs) p (take (200 * p) xs) = Some (Inr xs)"
proof (induction "length xs - 200 * p" arbitrary: p rule: less_induct)
  case less
  have acc: "take (200 * p) xs @ take 200 (drop (200 * p) xs) = take (200 * (p + 1)) xs"
    by (simp add: page_take add.commute)
  show ?case
  proof (cases "length (take 200 (drop (200 * p) xs)) = 200")
    case True
    then have "length xs - 200 * (p + 1) < length xs - 200 * p" by auto
    from less [OF this] show ?thesis using True acc
      by (subst page_loop.simps) (simp add: page_of_def)
  next
    case False
    then have "take (200 * (p + 1)) xs = xs" by (auto simp: min_def split: if_splits)
    then show ?thesis using False acc by (subst page_loop.simps) (simp add: page_of_def)
  qed
qed

lemma user_page_loop_all:
  "200 * p < 10000 \<Longrightarrow> 200 * p \<le> length xs \<Longrightarrow>
   user_page_loop (page_of xs) p (take (200 * p) xs) (200 * p) = Some (Inr (take 10000 xs))"
proof (induction "length xs - 200 * p" arbitrary: p rule: less_induct)
  case less
  let ?new = "take 200 (drop (200 * p) xs)"
  have acc: "take (200 * p) xs @ ?new = take (200 * (p + 1)) xs" by (simp add: page_take add.commute)
  show ?case
  proof (cases "length ?new = 200")
    case True
    then have len: "200 * (p + 1) \<le> length xs" by auto
    show ?thesis
    proof (cases "p = 49")
      case True
      then show ?thesis using len acc \<open>length ?new = 200\<close> by (subst user_page_loop.simps) (simp add: page_of_def)
    next
      case False
      then have p: "200 * (p + 1) < 10000" using less.prems(1) by simp
      have "length xs - 200 * (p + 1) < length xs - 200 * p" using len by simp
      from less.hyps [OF this p len] show ?thesis using len acc p \<open>length ?new = 200\<close>
        by (subst user_page_loop.simps) (simp add: page_of_def add.commute [of "200 * p" 200])
    qed
  next
    case False
    then have l: "length xs < 200 * (p + 1)" using less.prems by (auto simp: min_def split: if_splits)
    moreover have "length ?new = length xs - 200 * p" using l by simp
    moreover have "length xs < 10000"
    proof -
      have "200 * (p + 1) \<le> 10000" using less.prems(1) by presburger
      with l show ?thesis by (rule less_le_trans)
    qed
    moreover have "take 10000 xs = xs" "take (200 * (p + 1)) xs = xs" using l calculation(3) by simp_all
    ultimately show ?thesis using acc less.prems(2) False
      by (subst user_page_loop.simps) (simp add: page_of_def)
  qed
qed

section \<open>Files\<close>

lemma import_files:
  assumes "\<forall>k \<ge> n. can_create env k \<and> can_load env k"
  shows "\<exists>files. importCSVToSQL env n xs = Some (files, False) \<and> concat files = xs \<and>
    length files = length xs div 1000 + 1 \<and> (\<forall>f \<in> set (butlast files). length f = 1000) \<and> length (last files) < 1000"
  using assms
proof (induction "length xs" arbitrary: xs n rule: less_induct)
  case less
  have ok: "can_create env n" "can_load env n" using less.prems by simp_all
  show ?case
  proof (cases "length xs \<ge> 1000")
    case True
    then have "length (drop 1000 xs) < length xs" by simp
    moreover have "\<forall>k \<ge> n + 1. can_create env k \<and> can_load env k" using less.prems by simp
    ultimately obtain files where IH: "importCSVToSQL env (n + 1) (drop 1000 xs) = Some (files, False)"
      "concat files = drop 1000 xs" "length files = length (drop 1000 xs) div 1000 + 1"
      "\<forall>f \<in> set (butlast files). length f = 1000" "length (last files) < 1000" using less.hyps by blast
    have "length xs div 1000 = length (drop 1000 xs) div 1000 + 1" using True by (simp add: le_div_geq)
    moreover have "files \<noteq> []" using IH(3) by auto
    ultimately show ?thesis using ok True IH
      by (intro exI [of _ "take 1000 xs # files"], subst importCSVToSQL.simps) auto
  next
    case False
    then show ?thesis using ok by (intro exI [of _ "[xs]"], subst importCSVToSQL.simps) simp
  qed
qed

section \<open>Posts of a channel\<close>

text \<open>The clock never stands still.\<close>

definition ticking :: "world \<Rightarrow> bool" where
  "ticking w \<longleftrightarrow> (\<forall>a b. a < b \<longrightarrow> w_clock w a < w_clock w b)"

definition later :: "world \<Rightarrow> world \<Rightarrow> bool" where
  "later w w' \<longleftrightarrow> w_clock w' = w_clock w \<and> w_ticks w \<le> w_ticks w'"

lemma later_refl [simp]: "later w w"
  by (simp add: later_def)

lemma later_trans: "later a b \<Longrightarrow> later b c \<Longrightarrow> later a c"
  by (auto simp: later_def)

lemma ticking_later: "later w w' \<Longrightarrow> ticking w' = ticking w"
  by (simp add: later_def ticking_def)

lemma w_intn_ok: "0 < n \<Longrightarrow> \<exists>v w'. w_intn n w = Some (v, w') \<and> 0 \<le> v \<and> v < n \<and> later w w' \<and> w_ticks w' = w_ticks w"
  by (simp add: w_intn_def intn_total later_def)

text \<open>The root posts made so far lie before the next tick.\<close>

definition roots_ok :: "(string \<times> int) list \<Rightarrow> world \<Rightarrow> bool" where
  "roots_ok roots w \<longleftrightarrow> (\<forall>(rootId, created) \<in> set roots. created < w_clock w (w_ticks w))"

lemma roots_ok_later: "ticking w \<Longrightarrow> later w w' \<Longrightarrow> roots_ok roots w \<Longrightarrow> roots_ok roots w'"
proof -
  assume w: "ticking w" "later w w'" "roots_ok roots w"
  have "w_clock w (w_ticks w) \<le> w_clock w' (w_ticks w')"
    using w(1,2) by (cases "w_ticks w = w_ticks w'") (auto simp: later_def ticking_def less_imp_le)
  then show ?thesis using w(3) by (fastforce simp: roots_ok_def)
qed

lemma randomTime_past:
  assumes "0 < n" "ticking w"
  shows "\<exists>t w'. randomTime n None w = Some (t, w') \<and> later w w' \<and> t < w_clock w' (w_ticks w')"
proof -
  obtain v w1 where v: "w_intn n (w\<lparr>w_ticks := Suc (w_ticks w)\<rparr>) = Some (v, w1)" "0 \<le> v"
    "later (w\<lparr>w_ticks := Suc (w_ticks w)\<rparr>) w1" "w_ticks w1 = Suc (w_ticks w)"
    using w_intn_ok [OF assms(1), of "w\<lparr>w_ticks := Suc (w_ticks w)\<rparr>"] by auto
  have "w_clock w (w_ticks w) < w_clock w (Suc (w_ticks w))" using assms(2) by (simp add: ticking_def)
  then have "w_clock w (w_ticks w) - v * 10 ^ 9 < w_clock w1 (w_ticks w1)" using v(2-4) by (simp add: later_def)
  then show ?thesis using v by (simp add: randomTime_def tick_def later_def)
qed

lemma randomTime_after:
  assumes "a < w_clock w (w_ticks w)"
  shows "\<exists>t w'. randomTime n (Some a) w = Some (t, w') \<and> later w w' \<and> a \<le> t"
proof -
  have "0 < w_clock w (w_ticks w) - a" using assms by simp
  then obtain v w1 where "w_intn (w_clock w (w_ticks w) - a) (w\<lparr>w_ticks := Suc (w_ticks w)\<rparr>) = Some (v, w1)" "0 \<le> v"
    "later (w\<lparr>w_ticks := Suc (w_ticks w)\<rparr>) w1"
    using w_intn_ok by blast
  then show ?thesis by (simp add: randomTime_def tick_def later_def)
qed

definition reply_ok :: "(string \<times> int) list \<Rightarrow> post_row \<Rightarrow> bool" where
  "reply_ok roots p \<longleftrightarrow> post_root p = [] \<or> (\<exists>created. (post_root p, created) \<in> set roots \<and> unix_ms created \<le> post_created p)"

lemma make_post_ok:
  assumes "0 < n" "users \<noteq> []" "ticking w" "roots_ok roots w" "j = 0 \<or> roots \<noteq> []"
  shows "\<exists>p roots' w'. make_post n chance users c channelNum i j roots w = Some (p, roots', w') \<and> later w w' \<and> roots_ok roots' w' \<and>
    roots' \<noteq> [] \<and> (\<exists>new. roots' = roots @ new) \<and> reply_ok roots' p \<and> post_channel p = c \<and> post_user p \<in> set users \<and>
    (j = 0 \<longrightarrow> post_root p = [] \<and> (\<exists>t. roots' = roots @ [(post_id p, t)] \<and> post_created p = unix_ms t)) \<and> (j \<noteq> 0 \<longrightarrow> roots' = roots)"
proof -
  obtain s w1 where s: "w_sentence w = (s, w1)" by force
  then have l1: "later w w1" by (auto simp: w_sentence_def later_def Let_def split: prod.splits)
  then have t1: "ticking w1" using assms(3) ticking_later by blast
  obtain now w2 where t: "randomTime n None w1 = Some (now, w2)" "later w1 w2" "now < w_clock w2 (w_ticks w2)"
    using randomTime_past [OF assms(1) t1] by blast
  obtain pid w3 where d: "new_id w2 = (pid, w3)" by force
  then have l3: "later w2 w3" "w_clock w3 = w_clock w2" "w_ticks w3 = w_ticks w2" by (auto simp: new_id_def later_def)
  have l: "later w w3" using l1 t(2) l3(1) later_trans by blast
  have r3: "roots_ok roots w3" using roots_ok_later [OF assms(3) l assms(4)] .
  let ?u = "users ! nat ((int j + i + int channelNum) mod int (length users))"
  have u: "?u \<in> set users" using assms(2) by (intro nth_mem) (simp add: nat_less_iff)
  show ?thesis
  proof (cases "j = 0")
    case True
    have "roots_ok (roots @ [(pid, now)]) w3" using r3 t(3) l3 by (auto simp: roots_ok_def)
    then show ?thesis using True s t(1) d l u assms(2) by (auto simp: make_post_def reply_ok_def)
  next
    case False
    obtain x w4 where x: "w_float64 w3 = (x, w4)" by force
    then have l4: "later w3 w4" by (auto simp: w_float64_def later_def Let_def split: prod.splits)
    show ?thesis
    proof (cases "x < chance")
      case reply: True
      have "0 < int (length roots)" using assms(5) False by simp
      then obtain k w5 where k: "w_intn (int (length roots)) w4 = Some (k, w5)" "0 \<le> k" "k < int (length roots)" "later w4 w5"
        using w_intn_ok by blast
      then obtain rid created where g: "go_nth roots k = Some (rid, created)" using go_nth_total by (metis surj_pair)
      then have mem: "(rid, created) \<in> set roots" by (rule go_nth_mem)
      have l5: "later w w5" using l l4 k(4) later_trans by blast
      have r5: "roots_ok roots w5" using roots_ok_later [OF assms(3) l5 assms(4)] .
      then have "created < w_clock w5 (w_ticks w5)" using mem by (auto simp: roots_ok_def)
      then obtain t' w6 where t': "randomTime n (Some created) w5 = Some (t', w6)" "later w5 w6" "created \<le> t'"
        using randomTime_after by blast
      have l6: "later w w6" using l5 t'(2) later_trans by blast
      have "unix_ms created \<le> unix_ms t'" using t'(3) by (simp add: unix_ms_def zdiv_mono1)
      then show ?thesis using False reply s t(1) d x k(1) g t'(1) mem u l6 roots_ok_later [OF assms(3) l6 assms(4)] assms(2,5)
        by (auto simp: make_post_def reply_ok_def)
    next
      case no: False
      have l7: "later w w4" using l l4 later_trans by blast
      then show ?thesis using False no s t(1) d x u roots_ok_later [OF assms(3) l7 assms(4)] assms(2,5)
        by (auto simp: make_post_def reply_ok_def)
    qed
  qed
qed

lemma reply_ok_more: "reply_ok roots p \<Longrightarrow> reply_ok (roots @ new) p"
  by (auto simp: reply_ok_def)

text \<open>What a list of rows of one channel satisfies, given the root posts known after it.\<close>

definition rows_ok :: "string list \<Rightarrow> string \<Rightarrow> (string \<times> int) list \<Rightarrow> post_row list \<Rightarrow> bool" where
  "rows_ok users c roots ps \<longleftrightarrow> (\<forall>p \<in> set ps. post_channel p = c \<and> post_user p \<in> set users \<and> reply_ok roots p)"

definition roots_in :: "(string \<times> int) list \<Rightarrow> post_row list \<Rightarrow> bool" where
  "roots_in roots ps \<longleftrightarrow> (\<forall>(r, t) \<in> set roots. \<exists>p \<in> set ps. post_id p = r \<and> post_created p = unix_ms t \<and> post_root p = [])"

lemma batch_ok:
  assumes "0 < n" "users \<noteq> []" "ticking w" "roots_ok roots w" "roots \<noteq> [] \<or> js = [] \<or> hd js = 0"
  shows "\<exists>ps roots' w' new. batch n chance users c channelNum i js roots w = Some (ps, roots', w') \<and> later w w' \<and> roots_ok roots' w' \<and>
    length ps = length js \<and> roots' = roots @ new \<and> rows_ok users c roots' ps \<and> roots_in new ps"
  using assms(3-)
proof (induction js arbitrary: roots w)
  case Nil
  then show ?case by (auto simp: rows_ok_def roots_in_def)
next
  case (Cons j js)
  have j: "j = 0 \<or> roots \<noteq> []" using Cons.prems(3) by auto
  obtain p roots1 w1 where p: "make_post n chance users c channelNum i j roots w = Some (p, roots1, w1)" "later w w1" "roots_ok roots1 w1"
    "roots1 \<noteq> []" "reply_ok roots1 p" "post_channel p = c" "post_user p \<in> set users"
    "j = 0 \<longrightarrow> post_root p = [] \<and> (\<exists>t. roots1 = roots @ [(post_id p, t)] \<and> post_created p = unix_ms t)" "j \<noteq> 0 \<longrightarrow> roots1 = roots"
    using make_post_ok [OF assms(1,2) Cons.prems(1,2) j, of chance c channelNum i] by blast
  have t1: "ticking w1" using Cons.prems(1) p(2) ticking_later by blast
  obtain ps roots2 w2 new where IH: "batch n chance users c channelNum i js roots1 w1 = Some (ps, roots2, w2)" "later w1 w2" "roots_ok roots2 w2"
    "length ps = length js" "roots2 = roots1 @ new" "rows_ok users c roots2 ps" "roots_in new ps"
    using Cons.IH [OF t1 p(3)] p(4) by blast
  obtain new1 where new1: "roots1 = roots @ new1" "roots_in new1 [p]"
  proof (cases "j = 0")
    case True
    then show ?thesis using p(8) that by (auto simp: roots_in_def)
  next
    case False
    then show ?thesis using p(9) that [of "[]"] by (simp add: roots_in_def)
  qed
  have "rows_ok users c roots2 (p # ps)" using IH(5,6) p(5,6,7) reply_ok_more by (auto simp: rows_ok_def)
  moreover have "roots_in (new1 @ new) (p # ps)" using new1(2) IH(7) by (fastforce simp: roots_in_def)
  moreover have "later w w2" using p(2) IH(2) later_trans by blast
  ultimately show ?case using p(1) IH new1(1) by simp
qed

lemma channel_posts_run:
  assumes "0 < n" "users \<noteq> []" "ticking w" "roots_ok roots w"
  shows "\<exists>ps roots' w'. channel_posts n chance users c channelNum numPosts i roots w = Some (ps, w') \<and>
    length ps = 100 * nat ((numPosts - i + 99) div 100) \<and> rows_ok users c (roots @ roots') ps \<and> roots_in roots' ps"
  using assms(3,4)
proof (induction "nat (numPosts - i)" arbitrary: i roots w rule: less_induct)
  case less
  show ?case
  proof (cases "i < numPosts")
    case True
    obtain ps roots1 w1 new where b: "batch n chance users c channelNum i [0..<100] roots w = Some (ps, roots1, w1)" "later w w1" "roots_ok roots1 w1"
      "length ps = length [0..<100]" "roots1 = roots @ new" "rows_ok users c roots1 ps" "roots_in new ps"
      using batch_ok [OF assms(1,2) less.prems, of "[0..<100]" chance c channelNum i] by auto
    have "nat (numPosts - (i + 100)) < nat (numPosts - i)" using True by simp
    moreover have "ticking w1" using less.prems(1) b(2) ticking_later by blast
    ultimately obtain qs roots2 w2 where IH: "channel_posts n chance users c channelNum numPosts (i + 100) roots1 w1 = Some (qs, w2)"
      "length qs = 100 * nat ((numPosts - (i + 100) + 99) div 100)" "rows_ok users c (roots1 @ roots2) qs" "roots_in roots2 qs"
      using less.hyps b(3) by blast
    have "numPosts - i + 99 = (numPosts - (i + 100) + 99) + 1 * 100" by simp
    then have "(numPosts - i + 99) div 100 = (numPosts - (i + 100) + 99) div 100 + 1" by (simp only: div_mult_self1)
    moreover have "0 \<le> (numPosts - (i + 100) + 99) div 100" using True by (intro pos_imp_zdiv_nonneg_iff [THEN iffD2]) auto
    ultimately have "length (ps @ qs) = 100 * nat ((numPosts - i + 99) div 100)" using b(4) IH(2) by (simp add: nat_add_distrib)
    moreover have "rows_ok users c (roots @ (new @ roots2)) (ps @ qs)"
      using b(5,6) IH(3) reply_ok_more by (fastforce simp: rows_ok_def)
    moreover have "roots_in (new @ roots2) (ps @ qs)" using b(7) IH(4) by (fastforce simp: roots_in_def)
    moreover have "channel_posts n chance users c channelNum numPosts i roots w = Some (ps @ qs, w2)"
      using True b(1) IH(1) by (subst channel_posts.simps) simp
    ultimately show ?thesis by blast
  next
    case False
    then have "(numPosts - i + 99) div 100 \<le> 0" by simp
    then show ?thesis using False by (subst channel_posts.simps) (auto simp: rows_ok_def roots_in_def intro!: exI [of _ "[]"])
  qed
qed

section \<open>Properties\<close>

text \<open>C29. A channel gets the configured number of posts, rounded up to a multiple of a hundred. With users
  in the team, a positive time range and a running clock nothing panics; every post is by a user of the
  team; and every reply names a root post of the same channel that is not younger than the reply.\<close>

theorem channel_posts_wf:
  assumes "0 < postTimeRange" "users \<noteq> []" "ticking w"
  shows "\<exists>ps w'. channel_posts postTimeRange chance users c channelNum numPosts 0 [] w = Some (ps, w') \<and>
    length ps = 100 * nat ((numPosts + 99) div 100) \<and>
    (\<forall>p \<in> set ps. post_channel p = c \<and> post_user p \<in> set users \<and>
       (post_root p = [] \<or> (\<exists>q \<in> set ps. post_id q = post_root p \<and> post_root q = [] \<and> post_created q \<le> post_created p)))"
proof -
  have "roots_ok [] w" by (simp add: roots_ok_def)
  from channel_posts_run [OF assms this, of chance c channelNum numPosts 0]
  obtain ps roots w' where run: "channel_posts postTimeRange chance users c channelNum numPosts 0 [] w = Some (ps, w')"
    "length ps = 100 * nat ((numPosts + 99) div 100)" "rows_ok users c roots ps" "roots_in roots ps" by auto
  have "post_root p = [] \<or> (\<exists>q \<in> set ps. post_id q = post_root p \<and> post_root q = [] \<and> post_created q \<le> post_created p)"
    if "reply_ok roots p" for p
    using that run(4) by (fastforce simp: reply_ok_def roots_in_def)
  then show ?thesis using run(1-3) unfolding rows_ok_def by blast
qed

definition steady_world :: world where
  "steady_world = \<lparr>w_rng = \<lparr>src = (\<lambda>i. i), pos = 0\<rparr>, w_clock = (\<lambda>k. 10 ^ 18 + int k), w_ticks = 0,
     w_ids = (\<lambda>k. ''id'' @ dec_nat k), w_idpos = 0, w_fake = \<lparr>fk_src = (\<lambda>_ _. ''text''), fk_pos = 0\<rparr>\<rparr>"

theorem channel_posts_wf_witness:
  "\<exists>ps w'. channel_posts 2600000 (3 / 10) [''u'', ''v''] ''c'' 0 150 0 [] steady_world = Some (ps, w') \<and> length ps = 200"
proof -
  have "ticking steady_world" by (simp add: ticking_def steady_world_def)
  then show ?thesis using channel_posts_wf [of 2600000 "[''u'', ''v'']" steady_world "3 / 10" "''c''" 0 150] by auto
qed

text \<open>Paging loses nothing and ends: against a server that serves a list in pages of 200, the channel
  loop returns the whole list and the user loop its first ten thousand, also when the length is a
  multiple of the page size.\<close>

theorem paging_complete:
  "page_loop (page_of channels) 0 [] = Some (Inr channels) \<and> user_page_loop (page_of users) 0 [] 0 = Some (Inr (take 10000 users))"
  using page_loop_all [of channels 0] user_page_loop_all [of 0 users] by simp



end
