(* ===== verification/Load_Config.thy ===== *)
theory Load_Config
  imports Bulk_Types
begin

text \<open>
  \<^verbatim>\<open>loadtest/config.go\<close>: the configuration records and where a setting's value comes from. The viper
  package is modelled by the three layers the code sets up: environment variables over the file that
  is found first over the defaults.
\<close>

record UserEntitiesConfiguration =
  TestLengthMinutes :: int
  NumActiveEntities :: int
  ActionRateMilliseconds :: int
  ActionRateMaxVarianceMilliseconds :: int
  EnableRequestTiming :: bool
  ChannelLinkChance :: real
  UploadImageChance :: real
  LinkPreviewChance :: real
  CustomEmojiChance :: real
  CustomEmojiReactionChance :: real
  SystemEmojiReactionChance :: real
  NeedsProfilesByIdChance :: real
  NeedsProfilesByUsernameChance :: real
  NeedsProfileStatusChance :: real
  DoStatusPolling :: bool
  RandomizeEntitySelection :: bool
  UserProfileUpdateFullnameChance :: real
  UserProfileUpdateUsernameChance :: real
  UserProfileUpdateNicknameChance :: real
  UserProfileUpdatePositionChance :: real
  UserProfileUpdateEmailChance :: real
  UserProfileUpdateImageChance :: real
  PublicChannelCreationChance :: real
  PrivateChannelCreationChance :: real
  DirectChannelCreationChance :: real
  GroupChannelCreationChance :: real
  NumPostReactionsPerUser :: int
  PostReactionsRateMilliseconds :: int
  NumPostsGetBeforeAfter :: int
  GetPostsAroundLastUnreadChance :: real
  NumGetPostsAroundLastUnread :: int

record ConnectionConfiguration =
  ServerURL :: string
  WebsocketURL :: string
  PProfURL :: string
  DriverName :: string
  DataSource :: string
  DBEndpoint :: string
  LocalCommands :: bool
  SSHHostnamePort :: string
  SSHUsername :: string
  SSHPassword :: string
  SSHKey :: string
  MattermostInstallDir :: string
  ConfigFileLoc :: string
  AdminEmail :: string
  AdminPassword :: string
  SkipBulkload :: bool
  MaxIdleConns :: int
  MaxIdleConnsPerHost :: int
  IdleConnTimeoutMilliseconds :: int

record ResultsConfiguration =
  PProfDelayMinutes :: int
  PProfLength :: int

record LoggerSettings =
  EnableConsole :: bool
  ConsoleJson :: bool
  ConsoleLevel :: string
  EnableFile :: bool
  FileJson :: bool
  FileLevel :: string
  FileLocation :: string

record LoadTestConfig =
  EnvConfig :: LoadtestEnviromentConfig
  ConnConfig :: ConnectionConfiguration
  UserConfig :: UserEntitiesConfiguration
  ResultsConfig_of :: ResultsConfiguration
  LogSettings :: LoggerSettings

section \<open>The zero value\<close>

definition zero_config :: LoadTestConfig where
  "zero_config = \<lparr>EnvConfig = blank_config,
     ConnConfig = \<lparr>ServerURL = [], WebsocketURL = [], PProfURL = [], DriverName = [], DataSource = [], DBEndpoint = [],
       LocalCommands = False, SSHHostnamePort = [], SSHUsername = [], SSHPassword = [], SSHKey = [], MattermostInstallDir = [],
       ConfigFileLoc = [], AdminEmail = [], AdminPassword = [], SkipBulkload = False, MaxIdleConns = 0,
       MaxIdleConnsPerHost = 0, IdleConnTimeoutMilliseconds = 0\<rparr>,
     UserConfig = \<lparr>TestLengthMinutes = 0, NumActiveEntities = 0, ActionRateMilliseconds = 0,
       ActionRateMaxVarianceMilliseconds = 0, EnableRequestTiming = False, ChannelLinkChance = 0, UploadImageChance = 0,
       LinkPreviewChance = 0, CustomEmojiChance = 0, CustomEmojiReactionChance = 0, SystemEmojiReactionChance = 0,
       NeedsProfilesByIdChance = 0, NeedsProfilesByUsernameChance = 0, NeedsProfileStatusChance = 0, DoStatusPolling = False,
       RandomizeEntitySelection = False, UserProfileUpdateFullnameChance = 0, UserProfileUpdateUsernameChance = 0,
       UserProfileUpdateNicknameChance = 0, UserProfileUpdatePositionChance = 0, UserProfileUpdateEmailChance = 0,
       UserProfileUpdateImageChance = 0, PublicChannelCreationChance = 0, PrivateChannelCreationChance = 0,
       DirectChannelCreationChance = 0, GroupChannelCreationChance = 0, NumPostReactionsPerUser = 0,
       PostReactionsRateMilliseconds = 0, NumPostsGetBeforeAfter = 0, GetPostsAroundLastUnreadChance = 0,
       NumGetPostsAroundLastUnread = 0\<rparr>,
     ResultsConfig_of = \<lparr>PProfDelayMinutes = 0, PProfLength = 0\<rparr>,
     LogSettings = \<lparr>EnableConsole = False, ConsoleJson = False, ConsoleLevel = [], EnableFile = False, FileJson = False,
       FileLevel = [], FileLocation = []\<rparr>\<rparr>"

section \<open>Reading\<close>

datatype setting = SBool bool | SInt int | SString string

record viper =
  config_name :: string
  config_paths :: "string list"
  env_prefix :: string
  env_replacer :: "char \<Rightarrow> char"
  automatic_env :: bool
  default_settings :: "string \<rightharpoonup> setting"
  file_settings :: "string \<rightharpoonup> setting"

definition fresh_viper :: viper where
  "fresh_viper = \<lparr>config_name = [], config_paths = [], env_prefix = [], env_replacer = (\<lambda>c. c), automatic_env = False,
     default_settings = Map.empty, file_settings = Map.empty\<rparr>"

definition SetDefault :: "string \<Rightarrow> setting \<Rightarrow> viper \<Rightarrow> viper" where
  "SetDefault key v vp = vp\<lparr>default_settings := (default_settings vp)(to_lower key \<mapsto> v)\<rparr>"

text \<open>\<open>locate path name\<close> is the parsed file of that name in that directory: \<open>None\<close> when there is none,
  \<open>Inl\<close> when it does not parse. The first directory that has the file decides.\<close>

fun read_in :: "(string \<Rightarrow> string \<Rightarrow> (string + (string \<rightharpoonup> setting)) option) \<Rightarrow> string \<Rightarrow> string list \<Rightarrow> string + (string \<rightharpoonup> setting)" where
  "read_in locate name [] = Inl ''Config File Not Found''"
| "read_in locate name (p # ps) = (case locate p name of None \<Rightarrow> read_in locate name ps | Some r \<Rightarrow> r)"

definition ReadConfig :: "(string \<Rightarrow> string \<Rightarrow> (string + (string \<rightharpoonup> setting)) option) \<Rightarrow> viper \<Rightarrow> (string + unit) \<times> viper" where
  "ReadConfig locate vp =
     (let vp = vp\<lparr>config_name := ''loadtestconfig''\<rparr>;
          vp = vp\<lparr>config_paths := config_paths vp @ [''.'']\<rparr>;
          vp = vp\<lparr>config_paths := config_paths vp @ [''./config/'']\<rparr>;
          vp = vp\<lparr>env_prefix := ''mmloadtest''\<rparr>;
          vp = vp\<lparr>env_replacer := (\<lambda>c. if c = CHR ''.'' then CHR ''_'' else c)\<rparr>;
          vp = vp\<lparr>automatic_env := True\<rparr>;
          vp = SetDefault ''LogSettings.EnableConsole'' (SBool True) vp;
          vp = SetDefault ''LogSettings.ConsoleLevel'' (SString ''INFO'') vp;
          vp = SetDefault ''LogSettings.ConsoleJson'' (SBool True) vp;
          vp = SetDefault ''LogSettings.EnableFile'' (SBool True) vp;
          vp = SetDefault ''LogSettings.FileLevel'' (SString ''INFO'') vp;
          vp = SetDefault ''LogSettings.FileJson'' (SBool True) vp;
          vp = SetDefault ''LogSettings.FileLocation'' (SString ''loadtest.log'') vp;
          vp = SetDefault ''ConnectionConfiguration.MaxIdleConns'' (SInt 100) vp;
          vp = SetDefault ''ConnectionConfiguration.MaxIdleConnsPerHost'' (SInt 128) vp;
          vp = SetDefault ''ConnectionConfiguration.IdleConnTimeoutMilliseconds'' (SInt 90000) vp
      in case read_in locate (config_name vp) (config_paths vp) of
           Inl e \<Rightarrow> (Inl (''unable to read configuration file: '' @ e), vp)
         | Inr m \<Rightarrow> (Inr (), vp\<lparr>file_settings := m\<rparr>))"

text \<open>\<open>unmarshal\<close> is the library's decoding of the settings.\<close>

definition GetConfig :: "(viper \<Rightarrow> string + LoadTestConfig) \<Rightarrow> viper \<Rightarrow> string + LoadTestConfig" where
  "GetConfig unmarshal vp = (case unmarshal vp of Inl err \<Rightarrow> Inl err | Inr cfg \<Rightarrow> Inr cfg)"

text \<open>What the packages read afterwards: \<open>viper.Get\<close>.\<close>

definition upper_char :: "char \<Rightarrow> char" where
  "upper_char c = (let n = of_char c :: nat in if 97 \<le> n \<and> n \<le> 122 then char_of (n - 32) else c)"

definition env_key :: "viper \<Rightarrow> string \<Rightarrow> string" where
  "env_key vp key = map upper_char (map (env_replacer vp) (env_prefix vp @ ''_'' @ key))"

definition lookup_setting :: "(string \<rightharpoonup> string) \<Rightarrow> viper \<Rightarrow> string \<Rightarrow> setting option" where
  "lookup_setting env vp key =
     (let key = to_lower key in
      case (if automatic_env vp then env (env_key vp key) else None) of
        Some s \<Rightarrow> Some (SString s)
      | None \<Rightarrow> (case file_settings vp key of Some v \<Rightarrow> Some v | None \<Rightarrow> default_settings vp key))"

section \<open>Where a value comes from\<close>

lemma SetDefault_keeps [simp]:
  "config_name (SetDefault k v vp) = config_name vp" "config_paths (SetDefault k v vp) = config_paths vp"
  "env_prefix (SetDefault k v vp) = env_prefix vp" "env_replacer (SetDefault k v vp) = env_replacer vp"
  "automatic_env (SetDefault k v vp) = automatic_env vp"
  by (simp_all add: SetDefault_def)

lemma ReadConfig_fields:
  assumes "ReadConfig locate vp = (Inr (), vp')"
  shows "automatic_env vp'" "env_prefix vp' = ''mmloadtest''"
proof -
  obtain m where "read_in locate ''loadtestconfig'' (config_paths vp @ [''.'', ''./config/'']) = Inr m"
    using assms by (cases "read_in locate ''loadtestconfig'' (config_paths vp @ [''.'', ''./config/''])")
      (simp_all add: ReadConfig_def)
  with assms show "automatic_env vp'" "env_prefix vp' = ''mmloadtest''" by (auto simp: ReadConfig_def)
qed

lemma read_in_first: "locate p name = Some r \<Longrightarrow> read_in locate name (p # ps) = r"
  by simp

lemma lookup_order:
  assumes "ReadConfig locate vp = (Inr (), vp')"
  shows "lookup_setting env vp' key =
    (case env (env_key vp' (to_lower key)) of
       Some s \<Rightarrow> Some (SString s)
     | None \<Rightarrow> (case file_settings vp' (to_lower key) of Some v \<Rightarrow> Some v | None \<Rightarrow> default_settings vp' (to_lower key)))"
  using ReadConfig_fields(1) [OF assms] by (simp add: lookup_setting_def Let_def)

end
