(* ===== verification/Command_Runner.thy ===== *)
theory Command_Runner
  imports Prelude
begin

text \<open>
  The two ways to issue commands on the application server, \<^verbatim>\<open>loadtest/local_command_runner.go\<close> and
  \<^verbatim>\<open>loadtest/ssh_command_runner.go\<close>, and the interface \<open>ServerCLICommandRunner\<close> they share as a
  locale. The hosts are records: what a command answers is a parameter of the host, what was run (and
  with which import file in place) is its history. \<open>'b\<close> is the content of an import file.
\<close>

section \<open>Local commands\<close>

record 'b local_host =
  local_dir :: string
  lh_cwd :: string
  lh_getwd_ok :: bool
  lh_is_dir :: "string \<Rightarrow> bool"
  lh_exec :: "string \<Rightarrow> string list \<Rightarrow> string option \<times> string"
  lh_write :: "'b \<Rightarrow> string option"
  lh_file :: "'b option"
  lh_history :: "((string \<times> string list) \<times> 'b option) list"

text \<open>\<open>os.Chdir\<close>; a failure is ignored by the caller.\<close>

definition abs_path :: "string \<Rightarrow> string \<Rightarrow> string" where
  "abs_path cwd d = (if has_prefix d ''/'' then d else cwd @ ''/'' @ d)"

definition chdir :: "string \<Rightarrow> 'b local_host \<Rightarrow> 'b local_host" where
  "chdir d s = (if d \<noteq> [] \<and> lh_is_dir s (abs_path (lh_cwd s) d) then s\<lparr>lh_cwd := abs_path (lh_cwd s) d\<rparr> else s)"

definition Local_RunCommand :: "string \<Rightarrow> 'b local_host \<Rightarrow> ((bool \<times> string) \<times> 'b local_host) option" where
  "Local_RunCommand command s =
     (case str_fields command of
        [] \<Rightarrow> None
      | argv \<Rightarrow>
          (let (err, out) = lh_exec s (lh_cwd s) argv;
               s = s\<lparr>lh_history := lh_history s @ [((lh_cwd s, argv), lh_file s)]\<rparr>
           in case err of
                Some e \<Rightarrow> Some ((False, e @ '' : '' @ out), s)
              | None \<Rightarrow> Some ((True, out), s)))"

definition Local_RunPlatformCommand :: "string \<Rightarrow> 'b local_host \<Rightarrow> ((bool \<times> string) \<times> 'b local_host) option" where
  "Local_RunPlatformCommand args s =
     (let wd = (if lh_getwd_ok s then lh_cwd s else []);
          s = chdir (local_dir s) s
      in case Local_RunCommand (''./bin/mattermost '' @ args) s of
           None \<Rightarrow> None
         | Some (r, s) \<Rightarrow> Some (r, chdir wd s))"

definition Local_SendLoadtestFile :: "'b \<Rightarrow> 'b local_host \<Rightarrow> (string + unit) \<times> 'b local_host" where
  "Local_SendLoadtestFile buf s =
     (case lh_write s buf of
        Some e \<Rightarrow> (Inl e, s)
      | None \<Rightarrow> (Inr (), s\<lparr>lh_file := Some buf\<rparr>))"

section \<open>Commands over SSH\<close>

datatype auth = KeyAuth string | PasswordAuth string

record ssh_env =
  read_key_file :: "string \<Rightarrow> string + string"
  parse_key :: "string \<Rightarrow> (string + string)"
  dial_error :: "string \<Rightarrow> string \<Rightarrow> auth \<Rightarrow> string option"

record 'b ssh_host =
  ssh_dir :: string
  ssh_config :: string
  sh_session :: "nat \<Rightarrow> string option"
  sh_sessions :: nat
  sh_run :: "string \<Rightarrow> string option \<times> string"
  sh_scp :: "string \<Rightarrow> 'b \<Rightarrow> string option"
  sh_file :: "'b option"
  sh_history :: "(string \<times> 'b option) list"
  sh_closed :: bool

text \<open>A key with a line break is the key itself, one without is a file name.\<close>

definition ConnectSSH :: "ssh_env \<Rightarrow> string \<Rightarrow> string \<Rightarrow> string \<Rightarrow> string \<Rightarrow> string \<Rightarrow> string \<Rightarrow> 'b ssh_host \<Rightarrow> string + 'b ssh_host" where
  "ConnectSSH env hostPort sshKey user password dir configLoc remote =
     (let connect = (\<lambda>a. case dial_error env hostPort user a of
             Some e \<Rightarrow> Inl (''Unable to connect to server '' @ e)
           | None \<Rightarrow> Inr (remote\<lparr>ssh_dir := dir, ssh_config := configLoc\<rparr>))
      in if sshKey \<noteq> []
         then (case (if CHR 0x0A \<notin> set sshKey then read_key_file env sshKey else Inr sshKey) of
                 Inl e \<Rightarrow> Inl (''Unable to read SSH key provided: '' @ e)
               | Inr key \<Rightarrow>
                   (case parse_key env key of
                      Inl e \<Rightarrow> Inl (''Unable to parse SSH key provided: '' @ e)
                    | Inr signer \<Rightarrow> connect (KeyAuth signer)))
         else connect (PasswordAuth password))"

text \<open>\<open>NewSession\<close>: the next session opens or gives an error.\<close>

definition new_session :: "'b ssh_host \<Rightarrow> string option \<times> 'b ssh_host" where
  "new_session s = (sh_session s (sh_sessions s), s\<lparr>sh_sessions := Suc (sh_sessions s)\<rparr>)"

definition SSH_RunCommand :: "string \<Rightarrow> 'b ssh_host \<Rightarrow> (bool \<times> string) \<times> 'b ssh_host" where
  "SSH_RunCommand command s =
     (case new_session s of
        (Some e, s) \<Rightarrow> ((False, ''Failed to open session: '' @ e), s)
      | (None, s) \<Rightarrow>
          (let (err, out) = sh_run s command;
               s = s\<lparr>sh_history := sh_history s @ [(command, sh_file s)]\<rparr>
           in case err of
                Some e \<Rightarrow> ((False, ''Unable to run command in session. Error: '' @ e @ ''. Output: '' @ out), s)
              | None \<Rightarrow> ((True, out), s)))"

definition ssh_platform_command :: "'b ssh_host \<Rightarrow> string \<Rightarrow> string" where
  "ssh_platform_command s args =
     (if ssh_config s \<noteq> []
      then ''cd '' @ ssh_dir s @ '' && ./bin/mattermost '' @ args @ '' --config '' @ ssh_config s
      else ''cd '' @ ssh_dir s @ '' && ./bin/mattermost '' @ args)"

definition SSH_RunPlatformCommand :: "string \<Rightarrow> 'b ssh_host \<Rightarrow> (bool \<times> string) \<times> 'b ssh_host" where
  "SSH_RunPlatformCommand args s = SSH_RunCommand (ssh_platform_command s args) s"

text \<open>\<open>sendBuffer\<close>: the scp protocol on the session's input, \<^verbatim>\<open>scp -t\<close> on the other side.\<close>

definition scp_header :: "nat \<Rightarrow> string \<Rightarrow> string" where
  "scp_header len fileName = ''C0666 '' @ dec_nat len @ '' '' @ fileName @ [CHR 0x0A]"

definition sendBuffer :: "'b \<Rightarrow> string \<Rightarrow> 'b ssh_host \<Rightarrow> (string + unit) \<times> 'b ssh_host" where
  "sendBuffer buf destination s =
     (case new_session s of
        (Some e, s) \<Rightarrow> (Inl e, s)
      | (None, s) \<Rightarrow>
          (case sh_scp s (''scp -t '' @ destination) buf of
             Some e \<Rightarrow> (Inl e, s)
           | None \<Rightarrow> (Inr (), s\<lparr>sh_file := Some buf\<rparr>)))"

definition SSH_SendLoadtestFile :: "'b \<Rightarrow> 'b ssh_host \<Rightarrow> (string + unit) \<times> 'b ssh_host" where
  "SSH_SendLoadtestFile buf s = sendBuffer buf (ssh_dir s) s"

definition SSH_Close :: "'b ssh_host \<Rightarrow> 'b ssh_host" where
  "SSH_Close s = s\<lparr>sh_closed := True\<rparr>"

section \<open>The interface\<close>

text \<open>
  What the set-up of the server relies on: a command that succeeded was run on the host exactly once,
  with the import file that was sent last in place; sending a file runs nothing; and a command changes
  neither the file nor what later commands look like. \<open>good\<close> is the condition under which the host can
  be used (the directory exists), \<open>invoke\<close> what the host runs for a platform command.
\<close>

locale command_runner =
  fixes platform :: "string \<Rightarrow> 's \<Rightarrow> ((bool \<times> string) \<times> 's) option"
    and send :: "'b \<Rightarrow> 's \<Rightarrow> (string + unit) \<times> 's"
    and good :: "'s \<Rightarrow> bool"
    and loaded :: "'s \<Rightarrow> 'b option"
    and invoke :: "'s \<Rightarrow> string \<Rightarrow> 'c"
    and history :: "'s \<Rightarrow> ('c \<times> 'b option) list"
  assumes platform_total: "good s \<Longrightarrow> \<exists>r s'. platform a s = Some (r, s')"
    and platform_good: "good s \<Longrightarrow> platform a s = Some (r, s') \<Longrightarrow> good s' \<and> loaded s' = loaded s \<and> invoke s' = invoke s"
    and platform_runs: "good s \<Longrightarrow> platform a s = Some ((True, out), s') \<Longrightarrow> history s' = history s @ [(invoke s a, loaded s)]"
    and platform_at_most: "good s \<Longrightarrow> platform a s = Some (r, s') \<Longrightarrow> history s' = history s \<or> history s' = history s @ [(invoke s a, loaded s)]"
    and send_good: "good s \<Longrightarrow> send b s = (q, s') \<Longrightarrow> good s' \<and> invoke s' = invoke s \<and> history s' = history s"
    and send_loads: "good s \<Longrightarrow> send b s = (Inr u, s') \<Longrightarrow> loaded s' = Some b"

section \<open>The two hosts provide it\<close>

text \<open>The local host must be in a directory it can return to, and the installation directory must be an
  absolute path of a directory.\<close>

definition local_good :: "'b local_host \<Rightarrow> bool" where
  "local_good s \<longleftrightarrow> lh_getwd_ok s \<and> has_prefix (lh_cwd s) ''/'' \<and> lh_is_dir s (lh_cwd s) \<and>
     has_prefix (local_dir s) ''/'' \<and> lh_is_dir s (local_dir s)"

definition local_invoke :: "'b local_host \<Rightarrow> string \<Rightarrow> string \<times> string list" where
  "local_invoke s args = (local_dir s, str_fields (''./bin/mattermost '' @ args))"

lemma fields_platform: "str_fields (''./bin/mattermost '' @ args) \<noteq> []"
  by (simp add: str_fields_def is_space_def)

lemma has_prefix_nonempty: "has_prefix d ''/'' \<Longrightarrow> d \<noteq> []"
  by (auto simp: has_prefix_iff)

lemma chdir_abs: "has_prefix d ''/'' \<Longrightarrow> lh_is_dir s d \<Longrightarrow> chdir d s = s\<lparr>lh_cwd := d\<rparr>"
  by (simp add: chdir_def abs_path_def has_prefix_nonempty)

lemma Local_platform:
  assumes "local_good s"
  shows "Local_RunPlatformCommand args s =
    (let (err, out) = lh_exec s (local_dir s) (str_fields (''./bin/mattermost '' @ args));
         s' = s\<lparr>lh_history := lh_history s @ [(local_invoke s args, lh_file s)]\<rparr>
     in Some (case err of Some e \<Rightarrow> (False, e @ '' : '' @ out) | None \<Rightarrow> (True, out), s'))"
proof -
  obtain x xs where f: "str_fields (''./bin/mattermost '' @ args) = x # xs"
    using fields_platform by (metis neq_Nil_conv)
  have ret: "chdir (lh_cwd s) (s\<lparr>lh_cwd := local_dir s, lh_history := h\<rparr>) = s\<lparr>lh_history := h\<rparr>" for h
    using assms by (simp add: local_good_def chdir_abs)
  show ?thesis using assms f ret
    by (simp add: Local_RunPlatformCommand_def Local_RunCommand_def local_invoke_def local_good_def chdir_abs Let_def
        split: prod.splits option.splits)
qed

interpretation local_runner: command_runner Local_RunPlatformCommand Local_SendLoadtestFile local_good lh_file local_invoke lh_history
proof unfold_locales
  fix s :: "'a local_host" and a r q s' out b u
  assume g: "local_good s"
  show "\<exists>r s'. Local_RunPlatformCommand a s = Some (r, s')" using g by (simp add: Local_platform Let_def case_prod_beta)
  show "local_good s' \<and> lh_file s' = lh_file s \<and> local_invoke s' = local_invoke s" if "Local_RunPlatformCommand a s = Some (r, s')"
    using that g by (auto simp: Local_platform Let_def case_prod_beta local_good_def local_invoke_def [abs_def])
  show "lh_history s' = lh_history s @ [(local_invoke s a, lh_file s)]" if "Local_RunPlatformCommand a s = Some ((True, out), s')"
    using that g by (auto simp: Local_platform Let_def case_prod_beta)
  show "lh_history s' = lh_history s \<or> lh_history s' = lh_history s @ [(local_invoke s a, lh_file s)]"
    if "Local_RunPlatformCommand a s = Some (r, s')"
    using that g by (auto simp: Local_platform Let_def case_prod_beta)
  show "local_good s' \<and> local_invoke s' = local_invoke s \<and> lh_history s' = lh_history s" if "Local_SendLoadtestFile b s = (q, s')"
    using that g by (auto simp: Local_SendLoadtestFile_def local_good_def local_invoke_def [abs_def] split: option.splits)
  show "lh_file s' = Some b" if "Local_SendLoadtestFile b s = (Inr u, s')"
    using that by (auto simp: Local_SendLoadtestFile_def split: option.splits)
qed

definition SSH_platform :: "string \<Rightarrow> 'b ssh_host \<Rightarrow> ((bool \<times> string) \<times> 'b ssh_host) option" where
  "SSH_platform args s = Some (SSH_RunPlatformCommand args s)"

interpretation ssh_runner: command_runner SSH_platform SSH_SendLoadtestFile "\<lambda>_. True" sh_file ssh_platform_command sh_history
  by unfold_locales
    (auto simp: SSH_platform_def SSH_RunPlatformCommand_def SSH_RunCommand_def SSH_SendLoadtestFile_def sendBuffer_def
      new_session_def ssh_platform_command_def [abs_def] Let_def split: option.splits prod.splits if_splits)

end
