(* ===== verification/Server_Config.thy ===== *)
theory Server_Config
  imports Prelude
begin

text \<open>
  \<open>checkConfigForLoadtests\<close> of \<^verbatim>\<open>loadtest/setup_server.go\<close>: the settings and roles of the Mattermost
  server that the load test needs. The server is a record with its configuration and its roles; which of
  the requests to it fail, counted in their order, is the parameter \<open>fails\<close>.
\<close>

record server_config =
  EnableSignInWithEmail :: bool
  EnableOpenServer :: bool
  MaxUsersPerTeam :: int
  MaxChannelsPerTeam :: int
  EnableIncomingWebhooks :: bool
  PluginsEnable :: bool
  PluginsEnableUploads :: bool

record admin_server =
  srv_config :: server_config
  srv_roles :: "string \<Rightarrow> string list"
  fails :: "nat \<Rightarrow> string option"
  calls :: nat

text \<open>A step that may fail, followed by the rest; the early return keeps the state reached.\<close>

definition and_then :: "(string + 'a) \<times> 's \<Rightarrow> ('a \<Rightarrow> 's \<Rightarrow> (string + 'b) \<times> 's) \<Rightarrow> (string + 'b) \<times> 's" where
  "and_then m k = (case m of (Inl e, s) \<Rightarrow> (Inl e, s) | (Inr x, s) \<Rightarrow> k x s)"

lemma and_then_Inr: "and_then m k = (Inr y, s') \<longleftrightarrow> (\<exists>x s. m = (Inr x, s) \<and> k x s = (Inr y, s'))"
  by (auto simp: and_then_def split: prod.splits sum.splits)

lemma and_then_simps [simp]: "and_then (Inr x, s) k = k x s" "and_then (Inl e, s) k = (Inl e, s)"
  by (simp_all add: and_then_def)

definition request :: "(admin_server \<Rightarrow> 'a) \<Rightarrow> (admin_server \<Rightarrow> admin_server) \<Rightarrow> admin_server \<Rightarrow> (string + 'a) \<times> admin_server" where
  "request answer effect s =
     (case fails s (calls s) of
        Some e \<Rightarrow> (Inl e, s\<lparr>calls := Suc (calls s)\<rparr>)
      | None \<Rightarrow> (Inr (answer s), (effect s)\<lparr>calls := Suc (calls s)\<rparr>))"

definition GetServerConfig :: "admin_server \<Rightarrow> (string + server_config) \<times> admin_server" where
  "GetServerConfig = request srv_config (\<lambda>s. s)"

definition UpdateConfig :: "server_config \<Rightarrow> admin_server \<Rightarrow> (string + unit) \<times> admin_server" where
  "UpdateConfig c = request (\<lambda>_. ()) (\<lambda>s. s\<lparr>srv_config := c\<rparr>)"

definition GetRoleByName :: "string \<Rightarrow> admin_server \<Rightarrow> (string + string list) \<times> admin_server" where
  "GetRoleByName name = request (\<lambda>s. srv_roles s name) (\<lambda>s. s)"

definition PatchRole :: "string \<Rightarrow> string list \<Rightarrow> admin_server \<Rightarrow> (string + unit) \<times> admin_server" where
  "PatchRole name permissions = request (\<lambda>_. ()) (\<lambda>s. s\<lparr>srv_roles := (srv_roles s)(name := permissions)\<rparr>)"

text \<open>The pattern the function repeats for each setting: unless it is as needed, change the local copy
  and send the whole copy.\<close>

definition ensure :: "bool \<Rightarrow> server_config \<Rightarrow> server_config \<Rightarrow> admin_server \<Rightarrow> (string + server_config) \<times> admin_server" where
  "ensure fine c changed s =
     (if fine then (Inr c, s) else and_then (UpdateConfig changed s) (\<lambda>_ s. (Inr changed, s)))"

text \<open>The permissions of a role and those it lacks.\<close>

definition add_missing :: "string list \<Rightarrow> string list \<Rightarrow> string list" where
  "add_missing have_perms wanted = fold (\<lambda>v acc. if v \<in> set have_perms then acc else acc @ [v]) wanted have_perms"

definition TEAM_USER_ROLE_ID :: string where "TEAM_USER_ROLE_ID = ''team_user''"
definition SYSTEM_USER_ROLE_ID :: string where "SYSTEM_USER_ROLE_ID = ''system_user''"

definition team_user_permissions :: "string list" where
  "team_user_permissions = [''manage_incoming_webhooks'', ''manage_outgoing_webhooks'', ''manage_slash_commands'']"

definition system_user_permissions :: "string list" where
  "system_user_permissions = [''manage_oauth'']"

definition patch_role :: "string \<Rightarrow> string list \<Rightarrow> admin_server \<Rightarrow> (string + unit) \<times> admin_server" where
  "patch_role name wanted s =
     and_then (GetRoleByName name s) (\<lambda>perms s. PatchRole name (add_missing perms wanted) s)"

definition checkConfigForLoadtests :: "admin_server \<Rightarrow> (string + unit) \<times> admin_server" where
  "checkConfigForLoadtests s =
     and_then (GetServerConfig s) (\<lambda>c s.
     if \<not> EnableSignInWithEmail c
     then (Inl ''EnableSignInWithEmail is disabled on app server. Cannot continue'', s)
     else
     and_then (ensure (EnableOpenServer c) c (c\<lparr>EnableOpenServer := True\<rparr>) s) (\<lambda>c s.
     and_then (ensure (\<not> MaxUsersPerTeam c < 50000) c (c\<lparr>MaxUsersPerTeam := 50000\<rparr>) s) (\<lambda>c s.
     and_then (ensure (\<not> MaxChannelsPerTeam c < 50000) c (c\<lparr>MaxChannelsPerTeam := 50000\<rparr>) s) (\<lambda>c s.
     and_then (ensure (EnableIncomingWebhooks c) c (c\<lparr>EnableIncomingWebhooks := True\<rparr>) s) (\<lambda>c s.
     and_then (patch_role TEAM_USER_ROLE_ID team_user_permissions s) (\<lambda>_ s.
     and_then (patch_role SYSTEM_USER_ROLE_ID system_user_permissions s) (\<lambda>_ s.
     and_then (ensure (PluginsEnable c) c (c\<lparr>PluginsEnable := True\<rparr>) s) (\<lambda>c s.
       (Inr (), s)))))))))"

section \<open>Lemmas\<close>

lemma add_missing_alt: "distinct wanted \<Longrightarrow> add_missing have_perms wanted = have_perms @ filter (\<lambda>v. v \<notin> set have_perms) wanted"
proof -
  have "fold (\<lambda>v acc. if v \<in> set have_perms then acc else acc @ [v]) wanted acc = acc @ filter (\<lambda>v. v \<notin> set have_perms) wanted" for acc
    by (induction wanted arbitrary: acc) simp_all
  then show ?thesis by (simp add: add_missing_def)
qed

lemma distinct_wanted [simp]: "distinct team_user_permissions" "distinct system_user_permissions"
  by (simp_all add: team_user_permissions_def system_user_permissions_def)

lemma request_Inr: "request answer effect s = (Inr x, s') \<longleftrightarrow>
    fails s (calls s) = None \<and> x = answer s \<and> s' = (effect s)\<lparr>calls := Suc (calls s)\<rparr>"
  by (auto simp: request_def split: option.splits)

lemma ensure_Inr: "ensure fine c changed s = (Inr c', s') \<Longrightarrow> srv_config s = c \<Longrightarrow>
    c' = (if fine then c else changed) \<and> srv_config s' = c' \<and> srv_roles s' = srv_roles s"
  by (auto simp: ensure_def and_then_Inr UpdateConfig_def request_Inr split: if_splits)

lemma patch_role_Inr: "patch_role name wanted s = (Inr u, s') \<Longrightarrow>
    srv_config s' = srv_config s \<and> srv_roles s' = (srv_roles s)(name := add_missing (srv_roles s name) wanted)"
  by (auto simp: patch_role_def and_then_Inr GetRoleByName_def PatchRole_def request_Inr)

text \<open>The configuration the check leaves behind.\<close>

definition loadtest_config :: "server_config \<Rightarrow> server_config" where
  "loadtest_config c = c\<lparr>EnableOpenServer := True, MaxUsersPerTeam := max (MaxUsersPerTeam c) 50000,
     MaxChannelsPerTeam := max (MaxChannelsPerTeam c) 50000, EnableIncomingWebhooks := True, PluginsEnable := True\<rparr>"

definition loadtest_roles :: "(string \<Rightarrow> string list) \<Rightarrow> string \<Rightarrow> string list" where
  "loadtest_roles roles = roles
     (TEAM_USER_ROLE_ID := add_missing (roles TEAM_USER_ROLE_ID) team_user_permissions,
      SYSTEM_USER_ROLE_ID := add_missing (roles SYSTEM_USER_ROLE_ID) system_user_permissions)"

lemma role_ids: "TEAM_USER_ROLE_ID \<noteq> SYSTEM_USER_ROLE_ID"
  by (simp add: TEAM_USER_ROLE_ID_def SYSTEM_USER_ROLE_ID_def)

lemma check_result:
  assumes "checkConfigForLoadtests s = (Inr (), s')"
  shows "EnableSignInWithEmail (srv_config s)" "srv_config s' = loadtest_config (srv_config s)"
    "srv_roles s' = loadtest_roles (srv_roles s)"
proof -
  obtain c0 s0 where 0: "GetServerConfig s = (Inr c0, s0)" "EnableSignInWithEmail c0"
    and rest: "and_then (ensure (EnableOpenServer c0) c0 (c0\<lparr>EnableOpenServer := True\<rparr>) s0) (\<lambda>c s.
     and_then (ensure (\<not> MaxUsersPerTeam c < 50000) c (c\<lparr>MaxUsersPerTeam := 50000\<rparr>) s) (\<lambda>c s.
     and_then (ensure (\<not> MaxChannelsPerTeam c < 50000) c (c\<lparr>MaxChannelsPerTeam := 50000\<rparr>) s) (\<lambda>c s.
     and_then (ensure (EnableIncomingWebhooks c) c (c\<lparr>EnableIncomingWebhooks := True\<rparr>) s) (\<lambda>c s.
     and_then (patch_role TEAM_USER_ROLE_ID team_user_permissions s) (\<lambda>_ s.
     and_then (patch_role SYSTEM_USER_ROLE_ID system_user_permissions s) (\<lambda>_ s.
     and_then (ensure (PluginsEnable c) c (c\<lparr>PluginsEnable := True\<rparr>) s) (\<lambda>c s. (Inr (), s)))))))) = (Inr (), s')"
    using assms by (auto simp: checkConfigForLoadtests_def and_then_Inr split: if_splits)
  have s0: "srv_config s0 = c0" "srv_roles s0 = srv_roles s" "c0 = srv_config s"
    using 0(1) by (auto simp: GetServerConfig_def request_Inr)
  obtain c1 s1 c2 s2 c3 s3 c4 s4 u5 s5 u6 s6 c7 where
    1: "ensure (EnableOpenServer c0) c0 (c0\<lparr>EnableOpenServer := True\<rparr>) s0 = (Inr c1, s1)" and
    2: "ensure (\<not> MaxUsersPerTeam c1 < 50000) c1 (c1\<lparr>MaxUsersPerTeam := 50000\<rparr>) s1 = (Inr c2, s2)" and
    3: "ensure (\<not> MaxChannelsPerTeam c2 < 50000) c2 (c2\<lparr>MaxChannelsPerTeam := 50000\<rparr>) s2 = (Inr c3, s3)" and
    4: "ensure (EnableIncomingWebhooks c3) c3 (c3\<lparr>EnableIncomingWebhooks := True\<rparr>) s3 = (Inr c4, s4)" and
    5: "patch_role TEAM_USER_ROLE_ID team_user_permissions s4 = (Inr u5, s5)" and
    6: "patch_role SYSTEM_USER_ROLE_ID system_user_permissions s5 = (Inr u6, s6)" and
    7: "ensure (PluginsEnable c4) c4 (c4\<lparr>PluginsEnable := True\<rparr>) s6 = (Inr c7, s')"
    using rest unfolding and_then_Inr by auto
  note e1 = ensure_Inr [OF 1 s0(1)]
  note e2 = ensure_Inr [OF 2 e1 [THEN conjunct2, THEN conjunct1]]
  note e3 = ensure_Inr [OF 3 e2 [THEN conjunct2, THEN conjunct1]]
  note e4 = ensure_Inr [OF 4 e3 [THEN conjunct2, THEN conjunct1]]
  note e5 = patch_role_Inr [OF 5] and e6 = patch_role_Inr [OF 6]
  have c6: "srv_config s6 = c4" using e4 e5 e6 by simp
  note e7 = ensure_Inr [OF 7 c6]
  show "EnableSignInWithEmail (srv_config s)" using 0(2) s0(3) by simp
  have "c1 = c0\<lparr>EnableOpenServer := True\<rparr>" using e1 by (cases c0) auto
  moreover have "c2 = c1\<lparr>MaxUsersPerTeam := max (MaxUsersPerTeam c1) 50000\<rparr>" using e2 by (cases c1) (auto simp: max_def)
  moreover have "c3 = c2\<lparr>MaxChannelsPerTeam := max (MaxChannelsPerTeam c2) 50000\<rparr>" using e3 by (cases c2) (auto simp: max_def)
  moreover have "c4 = c3\<lparr>EnableIncomingWebhooks := True\<rparr>" using e4 by (cases c3) auto
  moreover have "c7 = c4\<lparr>PluginsEnable := True\<rparr>" using e7 by (cases c4) auto
  ultimately show "srv_config s' = loadtest_config (srv_config s)" using e7 s0(3) by (simp add: loadtest_config_def)
  show "srv_roles s' = loadtest_roles (srv_roles s)"
    using e1 e2 e3 e4 e5 e6 e7 s0(2) role_ids by (simp add: loadtest_roles_def fun_upd_twist)
qed

lemma add_missing_idem: "distinct wanted \<Longrightarrow> add_missing (add_missing have_perms wanted) wanted = add_missing have_perms wanted"
  by (auto simp: add_missing_alt filter_empty_conv)

section \<open>Properties\<close>


definition plain_server :: admin_server where
  "plain_server = \<lparr>srv_config = \<lparr>EnableSignInWithEmail = True, EnableOpenServer = False, MaxUsersPerTeam = 50, MaxChannelsPerTeam = 2000,
     EnableIncomingWebhooks = False, PluginsEnable = True, PluginsEnableUploads = False\<rparr>, srv_roles = (\<lambda>_. [''manage_oauth'']),
     fails = (\<lambda>_. None), calls = 0\<rparr>"


end
