(* ===== verification/Bulkload_Lock.thy ===== *)
theory Bulkload_Lock
  imports Prelude
begin

text \<open>
  The bulk-load lock of \<^verbatim>\<open>loadtest/setup_server.go\<close>: load test instances use the nickname of the shared
  admin user as a lock. Each request is one atomic step of one instance, so reading the user and writing
  it back are two steps. The pauses are not timed: any interleaving is a run.
\<close>

text \<open>Where an instance is: before the first \<open>GetMe\<close>; having seen a free lock; having written its id;
  polling; after \<open>getBulkloadLock\<close> returned true; about to run the deferred \<open>releaseBulkloadLock\<close>; having
  seen in it that the nickname is set; done;
  or after \<open>getBulkloadLock\<close> returned false.\<close>

datatype lock_pc = Idle | SawFree | Claimed | Polling | Importing | Releasing | Clearing | Released | NoLock

record lock_state =
  nickname :: string
  pcs :: "nat \<Rightarrow> lock_pc"

definition goto :: "nat \<Rightarrow> lock_pc \<Rightarrow> lock_state \<Rightarrow> lock_state" where
  "goto p c s = s\<lparr>pcs := (pcs s)(p := c)\<rparr>"

text \<open>The flag tells whether the step is a failed request.\<close>

inductive lock_step :: "(nat \<Rightarrow> string) \<Rightarrow> bool \<Rightarrow> lock_state \<Rightarrow> lock_state \<Rightarrow> bool" where
  get_me_free: "pcs s p = Idle \<Longrightarrow> nickname s = [] \<Longrightarrow> lock_step ids False s (goto p SawFree s)"
| get_me_taken: "pcs s p = Idle \<Longrightarrow> nickname s \<noteq> [] \<Longrightarrow> lock_step ids False s (goto p Polling s)"
| get_me_fails: "pcs s p = Idle \<Longrightarrow> lock_step ids True s (goto p NoLock s)"
| claim: "pcs s p = SawFree \<Longrightarrow> lock_step ids False s ((goto p Claimed s)\<lparr>nickname := ids p\<rparr>)"
| claim_fails: "pcs s p = SawFree \<Longrightarrow> lock_step ids True s (goto p NoLock s)"
| check_mine: "pcs s p = Claimed \<Longrightarrow> nickname s = ids p \<Longrightarrow> lock_step ids False s (goto p Importing s)"
| check_other: "pcs s p = Claimed \<Longrightarrow> nickname s \<noteq> ids p \<Longrightarrow> lock_step ids False s (goto p Polling s)"
| check_fails: "pcs s p = Claimed \<Longrightarrow> lock_step ids True s (goto p NoLock s)"
| poll_free: "pcs s p = Polling \<Longrightarrow> nickname s = [] \<Longrightarrow> lock_step ids False s (goto p Importing s)"
| poll_taken: "pcs s p = Polling \<Longrightarrow> nickname s \<noteq> [] \<Longrightarrow> lock_step ids False s s"
| poll_fails: "pcs s p = Polling \<Longrightarrow> lock_step ids True s (goto p NoLock s)"
| import_ends: "pcs s p = Importing \<Longrightarrow> lock_step ids False s (goto p Releasing s)"
| already_released: "pcs s p = Releasing \<Longrightarrow> nickname s = [] \<Longrightarrow> lock_step ids False s (goto p Released s)"
| get_me_release: "pcs s p = Releasing \<Longrightarrow> nickname s \<noteq> [] \<Longrightarrow> lock_step ids False s (goto p Clearing s)"
| get_me_release_fails: "pcs s p = Releasing \<Longrightarrow> lock_step ids True s (goto p Released s)"
| release: "pcs s p = Clearing \<Longrightarrow> lock_step ids False s ((goto p Released s)\<lparr>nickname := []\<rparr>)"
| release_fails: "pcs s p = Clearing \<Longrightarrow> lock_step ids True s (goto p Released s)"

inductive_cases lock_stepE: "lock_step ids err s s'"

definition lock_init :: lock_state where
  "lock_init = \<lparr>nickname = [], pcs = (\<lambda>_. Idle)\<rparr>"

inductive lock_reach :: "(nat \<Rightarrow> string) \<Rightarrow> bool \<Rightarrow> lock_state \<Rightarrow> bool" where
  lock_start: "lock_reach ids errs lock_init"
| lock_next: "lock_reach ids errs s \<Longrightarrow> lock_step ids err s s' \<Longrightarrow> err \<longrightarrow> errs \<Longrightarrow> lock_reach ids errs s'"

lemma goto_simps [simp]: "pcs (goto p c s) = (pcs s)(p := c)" "nickname (goto p c s) = nickname s"
  by (simp_all add: goto_def)

text \<open>Whoever wrote the nickname last is still between writing it and releasing it.\<close>

definition holder :: "(nat \<Rightarrow> string) \<Rightarrow> lock_state \<Rightarrow> bool" where
  "holder ids s \<longleftrightarrow> nickname s = [] \<or> (\<exists>p. nickname s = ids p \<and> pcs s p \<in> {Claimed, Importing, Releasing, Clearing})"

lemma holder_step: "lock_step ids err s s' \<Longrightarrow> \<not> err \<Longrightarrow> holder ids s \<Longrightarrow> holder ids s'"
proof (cases "nickname s = []")
  case True
  assume "lock_step ids err s s'" "\<not> err"
  then show ?thesis using True by cases (auto simp: holder_def)
next
  case False
  assume step: "lock_step ids err s s'" "\<not> err" and h: "holder ids s"
  then obtain q where q: "nickname s = ids q" "pcs s q \<in> {Claimed, Importing, Releasing, Clearing}" using False by (auto simp: holder_def)
  have keep: "holder ids s'" if "nickname s' = nickname s" "pcs s' q \<in> {Claimed, Importing, Releasing, Clearing}"
    using that q(1) unfolding holder_def by metis
  from step show ?thesis
  proof cases
    case (claim p)
    then show ?thesis unfolding holder_def by (intro disjI2 exI [of _ p]) simp
  next
    case (release p)
    then show ?thesis by (simp add: holder_def)
  next
    case (check_other p)
    then have "p \<noteq> q" using q(1) by auto
    then show ?thesis using check_other q(2) by (intro keep) simp_all
  qed (rule keep; use q False in force)+
qed

lemma holder_reach: "lock_reach ids errs s \<Longrightarrow> \<not> errs \<Longrightarrow> holder ids s"
proof (induction rule: lock_reach.induct)
  case lock_start
  then show ?case by (simp add: holder_def lock_init_def)
next
  case lock_next
  then show ?case using holder_step by blast
qed

text \<open>A run given by its states.\<close>

lemma run_reach:
  assumes "lock_reach ids errs s" "\<forall>k < length ss. lock_step ids False ((s # ss) ! k) (ss ! k)"
  shows "lock_reach ids errs (last (s # ss))"
  using assms
proof (induction ss arbitrary: s)
  case (Cons t ss)
  have "lock_step ids False s t" using Cons.prems(2) by auto
  then have r: "lock_reach ids errs t" using Cons.prems(1) by (auto intro: lock_next)
  have "\<forall>k < length ss. lock_step ids False ((t # ss) ! k) (ss ! k)" using Cons.prems(2) by auto
  then show ?case using Cons.IH [OF r] by simp
qed simp

section \<open>Properties\<close>

text \<open>Without failed requests a nickname that is set always belongs to an instance that is still going
  to release it, so the other instances do not poll for a lock nobody holds.\<close>

theorem lock_has_holder:
  assumes "lock_reach ids False s" "nickname s \<noteq> []"
  shows "\<exists>p. nickname s = ids p \<and> pcs s p \<in> {Claimed, Importing, Releasing, Clearing}"
  using holder_reach [OF assms(1)] assms(2) by (auto simp: holder_def)

theorem lock_has_holder_witness:
  "\<exists>s p. lock_reach (\<lambda>p. replicate (Suc p) CHR ''a'') False s \<and> nickname s = replicate (Suc p) CHR ''a'' \<and>
     pcs s p \<in> {Claimed, Importing, Releasing, Clearing}"
proof -
  let ?ids = "\<lambda>p. replicate (Suc p) CHR ''a''"
  let ?s1 = "goto 0 SawFree lock_init"
  let ?s2 = "(goto 0 Claimed ?s1)\<lparr>nickname := ?ids 0\<rparr>"
  have "lock_step ?ids False lock_init ?s1" by (rule get_me_free) (simp_all add: lock_init_def)
  moreover have "lock_step ?ids False ?s1 ?s2" by (rule claim) simp
  ultimately have r: "lock_reach ?ids False ?s2" using lock_start lock_next by metis
  have "nickname ?s2 \<noteq> []" by simp
  from lock_has_holder [OF r this] show ?thesis using r by blast
qed

text \<open>C32. The lock does not exclude: \<open>getBulkloadLock\<close> also returns true to every instance that polled while
  another one held the lock, without taking it. So after one instance has imported, all that waited
  import, at the same time; and an instance that fails between writing its id and checking it leaves
  the lock taken.\<close>

theorem lock_does_not_exclude:
  "(\<forall>p. ids p \<noteq> []) \<longrightarrow>
   (\<exists>s. lock_reach ids False s \<and> pcs s 0 = Released \<and> pcs s 1 = Importing \<and> pcs s 2 = Importing) \<and>
   (\<exists>s. lock_reach ids True s \<and> nickname s = ids 0 \<and> pcs s 0 = NoLock \<and> (\<forall>p. p \<noteq> 0 \<longrightarrow> pcs s p = Idle))"
proof (intro impI conjI)
  assume ids: "\<forall>p. ids p \<noteq> []"
  let ?s1 = "goto 0 SawFree lock_init"
  let ?s2 = "(goto 0 Claimed ?s1)\<lparr>nickname := ids 0\<rparr>"
  let ?s3 = "goto 0 Importing ?s2" let ?s4 = "goto 1 Polling ?s3" let ?s5 = "goto 2 Polling ?s4"
  let ?s6 = "goto 0 Releasing ?s5" let ?s6' = "goto 0 Clearing ?s6"
  let ?s7 = "(goto 0 Released ?s6')\<lparr>nickname := []\<rparr>"
  let ?s8 = "goto 1 Importing ?s7" let ?s9 = "goto 2 Importing ?s8"
  have steps: "lock_step ids False lock_init ?s1" "lock_step ids False ?s1 ?s2" "lock_step ids False ?s2 ?s3"
    "lock_step ids False ?s3 ?s4" "lock_step ids False ?s4 ?s5" "lock_step ids False ?s5 ?s6" "lock_step ids False ?s6 ?s6'"
    "lock_step ids False ?s6' ?s7" "lock_step ids False ?s7 ?s8" "lock_step ids False ?s8 ?s9"
    by (rule get_me_free claim check_mine get_me_taken import_ends get_me_release release poll_free; simp add: lock_init_def ids)+
  let ?ss = "[?s1, ?s2, ?s3, ?s4, ?s5, ?s6, ?s6', ?s7, ?s8, ?s9]"
  have "lock_reach ids False (last (lock_init # ?ss))"
    by (rule run_reach [OF lock_start]) (use steps in \<open>simp add: less_Suc_eq numeral_nat all_conj_distrib nth_Cons'\<close>)
  then have "lock_reach ids False ?s9" by simp
  then show "\<exists>s. lock_reach ids False s \<and> pcs s 0 = Released \<and> pcs s 1 = Importing \<and> pcs s 2 = Importing"
    by (intro exI [of _ ?s9]) simp
  have "lock_reach ids True (last (lock_init # [?s1, ?s2]))"
    by (rule run_reach [OF lock_start]) (use steps(1,2) in \<open>simp add: less_Suc_eq numeral_nat all_conj_distrib nth_Cons'\<close>)
  then have r: "lock_reach ids True ?s2" by simp
  have "lock_step ids True ?s2 (goto 0 NoLock ?s2)" by (rule check_fails) simp
  then have "lock_reach ids True (goto 0 NoLock ?s2)" using lock_next [OF r] by blast
  then show "\<exists>s. lock_reach ids True s \<and> nickname s = ids 0 \<and> pcs s 0 = NoLock \<and> (\<forall>p. p \<noteq> 0 \<longrightarrow> pcs s p = Idle)"
    by (intro exI [of _ "goto 0 NoLock ?s2"]) (simp add: lock_init_def)
qed

theorem lock_does_not_exclude_witness:
  "\<exists>s. lock_reach (\<lambda>p. replicate (Suc p) CHR ''a'') False s \<and> pcs s 1 = Importing \<and> pcs s 2 = Importing"
  using lock_does_not_exclude [of "\<lambda>p. replicate (Suc p) CHR ''a''"] by auto

end
