(* ===== verification/Entity_Run.thy ===== *)
theory Entity_Run
  imports Bulk_Posts
begin

text \<open>
  \<^verbatim>\<open>loadtest/entity.go\<close> and the status codes of \<^verbatim>\<open>loadtest/user_entity_status.go\<close>: the goroutines of one
  simulated user. Each goroutine is a function from the signals its \<open>select\<close> receives to the list of what
  it does, so that a claim about all signal sequences is a claim about all runs.
\<close>

section \<open>Acting at a rate\<close>

text \<open>The first delay. The random source and the clock are those of the process. A rate of zero panics in
  the remainder, a negative one in \<open>Int63n\<close>.\<close>

definition start_delay :: "int \<Rightarrow> int \<Rightarrow> int \<Rightarrow> int" where
  "start_delay rate now d =
     (let intervalStart = now - now mod rate;
          start = intervalStart + d;
          start = (if start < now then start + rate else start)
      in start - now)"

definition first_delay :: "int \<Rightarrow> world \<Rightarrow> (int \<times> world) option" where
  "first_delay rate w =
     (let (now, w) = tick w in
      case w_intn rate w of None \<Rightarrow> None | Some (d, w) \<Rightarrow> Some (start_delay rate now d, w))"

text \<open>\<open>time.Duration(n)\<close> is a number of nanoseconds.\<close>

definition next_delay :: "int \<Rightarrow> int \<Rightarrow> world \<Rightarrow> (int \<times> world) option" where
  "next_delay rate actionRateMaxVarianceMilliseconds w =
     (let halfVarianceDuration = go_div actionRateMaxVarianceMilliseconds 2 in
      case w_intn actionRateMaxVarianceMilliseconds w of
        None \<Rightarrow> None
      | Some (v, w) \<Rightarrow> Some (rate + v - halfVarianceDuration, w))"

text \<open>What the \<open>select\<close> receives: the closed stop channel, or the timer; the flag tells whether the action
  then panics.\<close>

datatype signal = StopSignal | TimerSignal bool

datatype 'a entity_event = Armed int | Acted 'a | Recovered | Quit | Spinning

text \<open>\<open>runEntity\<close> from the armed timer on. A panic in the body is recovered by a new \<open>runEntity\<close>, which
  arms its timer afresh; if that panics at once, it does so forever (\<open>Spinning\<close>).\<close>

fun entity_loop :: "'a choice list \<Rightarrow> int \<Rightarrow> int \<Rightarrow> signal list \<Rightarrow> rng \<Rightarrow> world \<Rightarrow> 'a entity_event list" where
  "entity_loop actions rate variance [] r w = []"
| "entity_loop actions rate variance (StopSignal # sigs) r w = [Quit]"
| "entity_loop actions rate variance (TimerSignal panics # sigs) r w =
     (let respawn = (\<lambda>r w. Recovered #
            (case first_delay rate w of
               None \<Rightarrow> [Spinning]
             | Some (d, w) \<Rightarrow> Armed d # entity_loop actions rate variance sigs r w))
      in case WeightedChoice r actions of
           None \<Rightarrow> respawn r w
         | Some (Inl err, r) \<Rightarrow> [Quit]
         | Some (Inr action, r) \<Rightarrow>
             Acted (Item action) #
             (if panics then respawn r w
              else (case next_delay rate variance w of
                      None \<Rightarrow> respawn r w
                    | Some (d, w) \<Rightarrow> Armed d # entity_loop actions rate variance sigs r w)))"

definition runEntity :: "'a choice list \<Rightarrow> int \<Rightarrow> int \<Rightarrow> signal list \<Rightarrow> rng \<Rightarrow> world \<Rightarrow> 'a entity_event list" where
  "runEntity actions rate variance sigs r w =
     (case first_delay rate w of
        None \<Rightarrow> [Spinning]
      | Some (d, w) \<Rightarrow> Armed d # entity_loop actions rate variance sigs r w)"

text \<open>\<open>doStatusPolling\<close>: every 45 seconds; a panic starts it again.\<close>

fun doStatusPolling :: "signal list \<Rightarrow> unit entity_event list" where
  "doStatusPolling [] = []"
| "doStatusPolling (StopSignal # sigs) = [Quit]"
| "doStatusPolling (TimerSignal panics # sigs) =
     Acted () # (if panics then Recovered # doStatusPolling sigs else doStatusPolling sigs)"

section \<open>Listening\<close>

datatype ws_signal = WsStop | WsEvent | WsClosed

datatype ws_event = WsListen | WsSleep int | WsConnectFailed | WsGaveUp | WsQuit

text \<open>Reconnecting: \<open>connects k\<close> tells whether the \<open>k\<close>-th attempt succeeds. The result is the events, the
  retry count and the next attempt, and whether the connection is back.\<close>

function reconnect :: "(nat \<Rightarrow> bool) \<Rightarrow> nat \<Rightarrow> nat \<Rightarrow> ws_event list \<times> nat \<times> nat \<times> bool" where
  "reconnect connects websocketRetryCount k =
     (if websocketRetryCount > 5 then ([WsGaveUp], websocketRetryCount, k, False)
      else if \<not> connects k
      then (let (es, rest) = reconnect connects (websocketRetryCount + 1) (k + 1)
            in (WsSleep (int websocketRetryCount) # WsConnectFailed # es, rest))
      else ([WsSleep (int websocketRetryCount), WsListen], websocketRetryCount, k + 1, True))"
  by pat_completeness auto

termination reconnect
  by (relation "measure (\<lambda>(_, c, _). 6 - c)") auto

declare reconnect.simps [simp del]

fun ws_loop :: "(nat \<Rightarrow> bool) \<Rightarrow> nat \<Rightarrow> nat \<Rightarrow> ws_signal list \<Rightarrow> ws_event list" where
  "ws_loop connects websocketRetryCount k [] = []"
| "ws_loop connects websocketRetryCount k (WsStop # sigs) = [WsQuit]"
| "ws_loop connects websocketRetryCount k (WsEvent # sigs) = ws_loop connects websocketRetryCount k sigs"
| "ws_loop connects websocketRetryCount k (WsClosed # sigs) =
     (let (es, c, k, ok) = reconnect connects websocketRetryCount k
      in if ok then es @ ws_loop connects c k sigs else es)"

definition websocketListen :: "bool \<Rightarrow> (nat \<Rightarrow> bool) \<Rightarrow> ws_signal list \<Rightarrow> ws_event list" where
  "websocketListen hasClient connects sigs = (if \<not> hasClient then [] else WsListen # ws_loop connects 0 0 sigs)"

section \<open>Status reports\<close>

definition STATUS_LAUNCHING :: int where "STATUS_LAUNCHING = 0"
definition STATUS_ACTIVE :: int where "STATUS_ACTIVE = 1"
definition STATUS_STOPPED :: int where "STATUS_STOPPED = 2"
definition STATUS_ERROR :: int where "STATUS_ERROR = 3"
definition STATUS_FAILED_LAUNCH :: int where "STATUS_FAILED_LAUNCH = 4"
definition STATUS_FAILED_ACTIVE :: int where "STATUS_FAILED_ACTIVE = 5"
definition STATUS_ACTION_SEND :: int where "STATUS_ACTION_SEND = 6"
definition STATUS_ACTION_RECIEVE :: int where "STATUS_ACTION_RECIEVE = 7"

record UserEntityStatusReport =
  report_Status :: int
  report_Err :: "string option"
  report_Details :: string
  report_Entity :: int

text \<open>The channel is the list of reports in it; a send to a full channel blocks (\<open>None\<close>), and nobody
  receives from it.\<close>

definition SendStatus :: "int \<Rightarrow> int \<Rightarrow> string option \<Rightarrow> string \<Rightarrow> UserEntityStatusReport list \<Rightarrow> UserEntityStatusReport list option" where
  "SendStatus entity status err details ch =
     (if length ch < 10000
      then Some (ch @ [\<lparr>report_Status = status, report_Err = err, report_Details = details, report_Entity = entity\<rparr>])
      else None)"

definition SendStatusLaunching :: "int \<Rightarrow> UserEntityStatusReport list \<Rightarrow> UserEntityStatusReport list option" where
  "SendStatusLaunching e = SendStatus e STATUS_LAUNCHING None []"

definition SendStatusActive :: "int \<Rightarrow> string \<Rightarrow> UserEntityStatusReport list \<Rightarrow> UserEntityStatusReport list option" where
  "SendStatusActive e details = SendStatus e STATUS_ACTIVE None details"

definition SendStatusError :: "int \<Rightarrow> string option \<Rightarrow> string \<Rightarrow> UserEntityStatusReport list \<Rightarrow> UserEntityStatusReport list option" where
  "SendStatusError e err details = SendStatus e STATUS_ERROR err details"

definition SendStatusFailedLaunch :: "int \<Rightarrow> string option \<Rightarrow> string \<Rightarrow> UserEntityStatusReport list \<Rightarrow> UserEntityStatusReport list option" where
  "SendStatusFailedLaunch e err details = SendStatus e STATUS_FAILED_LAUNCH err details"

definition SendStatusFailedActive :: "int \<Rightarrow> string option \<Rightarrow> string \<Rightarrow> UserEntityStatusReport list \<Rightarrow> UserEntityStatusReport list option" where
  "SendStatusFailedActive e err details = SendStatus e STATUS_FAILED_ACTIVE err details"

definition SendStatusActionSend :: "int \<Rightarrow> string \<Rightarrow> UserEntityStatusReport list \<Rightarrow> UserEntityStatusReport list option" where
  "SendStatusActionSend e details = SendStatus e STATUS_ACTION_SEND None details"

definition SendStatusActionRecieve :: "int \<Rightarrow> string \<Rightarrow> UserEntityStatusReport list \<Rightarrow> UserEntityStatusReport list option" where
  "SendStatusActionRecieve e details = SendStatus e STATUS_ACTION_RECIEVE None details"

definition SendStatusStopped :: "int \<Rightarrow> string \<Rightarrow> UserEntityStatusReport list \<Rightarrow> UserEntityStatusReport list option" where
  "SendStatusStopped e details = SendStatus e STATUS_STOPPED None details"


section \<open>Channel identifiers\<close>

text \<open>The maps are shared by all entities. Reading a missing team reads from a nil map; writing to one
  panics. \<open>byName channel team\<close> is the server's answer.\<close>

definition map_read :: "(string \<rightharpoonup> string) \<Rightarrow> string \<Rightarrow> string" where
  "map_read m k = (case m k of None \<Rightarrow> [] | Some v \<Rightarrow> v)"

definition GetTeamChannelId :: "(string \<rightharpoonup> string) \<Rightarrow> (string \<Rightarrow> string \<Rightarrow> string + string) \<Rightarrow> string \<Rightarrow> string \<Rightarrow>
    (string \<rightharpoonup> (string \<rightharpoonup> string)) \<Rightarrow> ((string + string) \<times> (string \<rightharpoonup> (string \<rightharpoonup> string))) option" where
  "GetTeamChannelId teamMap byName teamName channelName channelMap =
     (let channelId = map_read (case channelMap teamName of None \<Rightarrow> Map.empty | Some m \<Rightarrow> m) channelName in
      if channelId \<noteq> [] then Some (Inr channelId, channelMap)
      else (let teamId = map_read teamMap teamName in
            if teamId = [] then Some (Inl (''unable to find team '' @ teamName), channelMap)
            else (case byName channelName teamId of
                    Inl e \<Rightarrow> Some (Inl (''failed to get channel '' @ channelName @ '' by name for team '' @ teamId @ '': '' @ e), channelMap)
                  | Inr cid \<Rightarrow>
                      (case channelMap teamName of
                         None \<Rightarrow> None
                       | Some m \<Rightarrow> Some (Inr cid, channelMap(teamName \<mapsto> m(channelName \<mapsto> cid)))))))"

section \<open>Delays\<close>

lemma start_delay_mod: "0 < rate \<Longrightarrow> 0 \<le> d \<Longrightarrow> d < rate \<Longrightarrow> start_delay rate now d = (d - now) mod rate"
proof -
  assume r: "0 < rate" "0 \<le> d" "d < rate"
  have m: "0 \<le> now mod rate" "now mod rate < rate" using r(1) by simp_all
  have "(d - now) mod rate = (d - now mod rate) mod rate" by (simp add: mod_diff_right_eq)
  also have "\<dots> = (if d < now mod rate then d - now mod rate + rate else d - now mod rate)"
  proof (cases "d < now mod rate")
    case True
    then have "(d - now mod rate + rate) mod rate = d - now mod rate + rate" using m r by (intro mod_pos_pos_trivial) linarith+
    then show ?thesis using True by simp
  next
    case False
    then have "(d - now mod rate) mod rate = d - now mod rate" using m r by (intro mod_pos_pos_trivial) linarith+
    then show ?thesis using False by simp
  qed
  finally show ?thesis by (auto simp: start_delay_def Let_def)
qed

lemma first_delay_total: "0 < rate \<Longrightarrow> \<exists>d w'. first_delay rate w = Some (d, w') \<and> 0 \<le> d \<and> d < rate"
proof -
  assume r: "0 < rate"
  obtain now w1 where t: "tick w = (now, w1)" by force
  obtain v w2 where v: "w_intn rate w1 = Some (v, w2)" "0 \<le> v" "v < rate" using w_intn_ok [OF r] by blast
  have "start_delay rate now v = (v - now) mod rate" using r v(2,3) by (rule start_delay_mod)
  then show ?thesis using r t v(1) by (simp add: first_delay_def)
qed

lemma next_delay_range: "next_delay rate n w = Some (d, w') \<Longrightarrow> 0 < n \<and> rate - n div 2 \<le> d \<and> d < rate + n - n div 2"
proof -
  assume a: "next_delay rate n w = Some (d, w')"
  then have n: "0 < n" by (auto simp: next_delay_def w_intn_def intn_def split: option.splits if_splits)
  obtain v where "0 \<le> v" "v < n" "d = rate + v - n div 2"
    using a w_intn_ok [OF n, of w] n by (auto simp: next_delay_def go_div_nonneg Let_def)
  then show ?thesis using n by simp
qed

section \<open>An entity survives every panic\<close>

definition acts :: "'a entity_event list \<Rightarrow> 'a list" where
  "acts es = concat (map (\<lambda>e. case e of Acted a \<Rightarrow> [a] | _ \<Rightarrow> []) es)"

lemma acts_simps [simp]: "acts [] = []" "acts (Acted a # es) = a # acts es" "acts (Armed d # es) = acts es"
  "acts (Recovered # es) = acts es" "acts (Quit # es) = acts es" "acts (Spinning # es) = acts es"
  by (simp_all add: acts_def)

text \<open>The delays the timer is armed with: those of a new start and those between actions.\<close>

definition delay_ok :: "int \<Rightarrow> int \<Rightarrow> 'a entity_event \<Rightarrow> bool" where
  "delay_ok rate variance e \<longleftrightarrow>
     (case e of Armed d \<Rightarrow> (0 \<le> d \<and> d < rate) \<or> (0 < variance \<and> rate - variance div 2 \<le> d \<and> d < rate + variance - variance div 2)
      | Spinning \<Rightarrow> False | _ \<Rightarrow> True)"

lemma entity_loop_acts:
  assumes "0 < rate" "actions \<noteq> []" "\<forall>c \<in> set actions. 0 < Weight c"
  shows "length (acts (entity_loop actions rate variance sigs r w)) = length (takeWhile (\<lambda>s. s \<noteq> StopSignal) sigs) \<and>
    set (acts (entity_loop actions rate variance sigs r w)) \<subseteq> Item ` set actions \<and>
    (\<forall>e \<in> set (entity_loop actions rate variance sigs r w). delay_ok rate variance e) \<and>
    (Quit \<in> set (entity_loop actions rate variance sigs r w) \<longleftrightarrow> StopSignal \<in> set sigs)"
proof (induction sigs arbitrary: r w)
  case Nil
  show ?case by simp
next
  case (Cons sig sigs)
  show ?case
  proof (cases sig)
    case StopSignal
    then show ?thesis by (simp add: delay_ok_def)
  next
    case (TimerSignal panics)
    obtain c r1 where c: "WeightedChoice r actions = Some (Inr c, r1)" "c \<in> set actions"
      by (rule wc.picks_pos [OF assms(2,3)])
    obtain d1 w1 where f: "first_delay rate w = Some (d1, w1)" "0 \<le> d1" "d1 < rate" using first_delay_total [OF assms(1)] by blast
    have resp: "panics \<or> next_delay rate variance w = None \<Longrightarrow>
        entity_loop actions rate variance (sig # sigs) r w = Acted (Item c) # Recovered # Armed d1 # entity_loop actions rate variance sigs r1 w1"
      using TimerSignal c(1) f(1) by auto
    show ?thesis
    proof (cases "panics \<or> next_delay rate variance w = None")
      case True
      then show ?thesis unfolding resp [OF True] using Cons.IH [of r1 w1] c(2) f(2,3) TimerSignal by (simp add: delay_ok_def)
    next
      case False
      then obtain d2 w2 where n: "next_delay rate variance w = Some (d2, w2)" by auto
      then have "entity_loop actions rate variance (sig # sigs) r w = Acted (Item c) # Armed d2 # entity_loop actions rate variance sigs r1 w2"
        using TimerSignal c(1) False by simp
      then show ?thesis using Cons.IH [of r1 w2] c(2) next_delay_range [OF n] TimerSignal by (simp add: delay_ok_def)
    qed
  qed
qed

section \<open>The retry budget\<close>

definition failures :: "ws_event list \<Rightarrow> nat" where
  "failures es = length (filter (\<lambda>e. e = WsConnectFailed) es)"

lemma failures_simps [simp]: "failures [] = 0" "failures (WsConnectFailed # es) = Suc (failures es)"
  "failures (WsSleep n # es) = failures es" "failures (WsListen # es) = failures es" "failures (WsGaveUp # es) = failures es"
  "failures (WsQuit # es) = failures es" "failures (xs @ ys) = failures xs + failures ys"
  by (simp_all add: failures_def)

lemma reconnect_spent:
  "c \<le> 6 \<Longrightarrow> reconnect connects c k = (es, c', k', ok) \<Longrightarrow> c' = c + failures es \<and> c' \<le> 6 \<and> (ok \<longleftrightarrow> c' \<le> 5 \<and> WsGaveUp \<notin> set es) \<and>
    (\<not> ok \<longleftrightarrow> WsGaveUp \<in> set es) \<and> (\<not> ok \<longrightarrow> c' = 6)"
proof (induction connects c k arbitrary: es c' k' ok rule: reconnect.induct)
  case (1 connects c k)
  consider "c > 5" | "c \<le> 5" "\<not> connects k" | "c \<le> 5" "connects k" by linarith
  then show ?case
  proof cases
    case 1
    then show ?thesis using "1.prems" by (auto simp: reconnect.simps [of connects c k])
  next
    case 2
    obtain es2 c2 k2 ok2 where r: "reconnect connects (c + 1) (k + 1) = (es2, c2, k2, ok2)" by (metis prod_cases4)
    have "es = WsSleep (int c) # WsConnectFailed # es2" "c' = c2" "ok = ok2"
      using "1.prems"(2) 2 r by (auto simp: reconnect.simps [of connects c k])
    then show ?thesis using "1.IH" [OF _ _ _ r] 2 by auto
  next
    case 3
    then show ?thesis using "1.prems" by (auto simp: reconnect.simps [of connects c k])
  qed
qed

lemma ws_loop_budget:
  "c \<le> 6 \<Longrightarrow> c + failures (ws_loop connects c k sigs) \<le> 6 \<and>
    (WsGaveUp \<in> set (ws_loop connects c k sigs) \<longrightarrow> c + failures (ws_loop connects c k sigs) = 6)"
proof (induction connects c k sigs rule: ws_loop.induct)
  case (4 connects c k sigs)
  obtain es c' k' ok where r: "reconnect connects c k = (es, c', k', ok)" by (metis prod_cases4)
  note s = reconnect_spent [OF "4.prems" r]
  show ?case
  proof (cases ok)
    case True
    then show ?thesis using "4.IH" [OF r [symmetric] refl refl refl True] s r by auto
  next
    case False
    then show ?thesis using s r by auto
  qed
qed auto

section \<open>Properties\<close>

lemma start_delay_bij: "0 < rate \<Longrightarrow> bij_betw (start_delay rate now) {0..<rate} {0..<rate}"
proof (rule bij_betw_byWitness [where f' = "\<lambda>t. (t + now) mod rate"])
  assume r: "0 < rate"
  show "start_delay rate now ` {0..<rate} \<subseteq> {0..<rate}" using r by (auto simp: start_delay_mod)
  show "(\<lambda>t. (t + now) mod rate) ` {0..<rate} \<subseteq> {0..<rate}" using r by auto
  show "\<forall>d \<in> {0..<rate}. (start_delay rate now d + now) mod rate = d"
    using r by (simp add: start_delay_mod mod_add_left_eq)
  show "\<forall>t \<in> {0..<rate}. start_delay rate now ((t + now) mod rate) = t"
    using r by (simp add: start_delay_mod mod_diff_left_eq)
qed



text \<open>The retry count of the websocket is never reset: over the whole life of an entity at most six attempts to
  connect fail, however many succeed between them, and it gives up exactly
  after the sixth.\<close>

theorem websocket_retry_budget:
  "failures (websocketListen hasClient connects sigs) \<le> 6 \<and>
    (WsGaveUp \<in> set (websocketListen hasClient connects sigs) \<longrightarrow> failures (websocketListen hasClient connects sigs) = 6)"
  using ws_loop_budget [of 0 connects 0 sigs] by (simp add: websocketListen_def)

theorem websocket_retry_budget_witness:
  "failures (websocketListen True (\<lambda>k. odd k) (replicate 9 WsClosed)) = 6"
proof -
  have "WsGaveUp \<in> set (websocketListen True (\<lambda>k. odd k) (replicate 9 WsClosed))"
    by code_simp
  then show ?thesis using websocket_retry_budget [of True "\<lambda>k. odd k" "replicate 9 WsClosed"] by blast
qed

text \<open>An identifier that was found is remembered: asking again gives the same identifier without asking
  the server and changes nothing. No remembered identifier of another channel changes. It panics only
  for a team that has an identifier but no channel map, which the maps of \<open>SetupServer\<close> exclude.\<close>

theorem GetTeamChannelId_remembers:
  assumes "GetTeamChannelId teamMap byName t c m = Some (Inr cid, m')" "cid \<noteq> []"
  shows "(\<forall>byName'. GetTeamChannelId teamMap byName' t c m' = Some (Inr cid, m')) \<and>
    (\<forall>t' c'. (t', c') \<noteq> (t, c) \<longrightarrow> Option.bind (m' t') (\<lambda>x. x c') = Option.bind (m t') (\<lambda>x. x c')) \<and> dom m' = dom m \<and>
    (dom teamMap \<subseteq> dom m \<longrightarrow> (\<forall>byName' t' c'. GetTeamChannelId teamMap byName' t' c' m' \<noteq> None))"
proof -
  let ?known = "map_read (case m t of None \<Rightarrow> Map.empty | Some x \<Rightarrow> x) c"
  have d: "dom m' = dom m" using assms(1) by (auto simp: GetTeamChannelId_def Let_def split: if_splits sum.splits option.splits)
  have total: "GetTeamChannelId teamMap byName' t' c' m' \<noteq> None" if sub: "dom teamMap \<subseteq> dom m'" for byName' t' c'
  proof (cases "m' t'")
    case None
    then have "teamMap t' = None" using sub by blast
    then show ?thesis using None by (simp add: GetTeamChannelId_def map_read_def)
  next
    case (Some x)
    then show ?thesis by (simp add: GetTeamChannelId_def Let_def split: sum.splits)
  qed
  show ?thesis
  proof (cases "?known = []")
    case False
    then have "m' = m" "?known = cid" using assms(1) by (auto simp: GetTeamChannelId_def Let_def)
    then show ?thesis using False d total by (simp add: GetTeamChannelId_def)
  next
    case True
    then obtain x where x: "m t = Some x" "m' = m(t \<mapsto> x(c \<mapsto> cid))"
      using assms(1) by (auto simp: GetTeamChannelId_def Let_def split: if_splits sum.splits option.splits)
    then have "GetTeamChannelId teamMap byName' t c m' = Some (Inr cid, m')" for byName'
      using assms(2) by (simp add: GetTeamChannelId_def map_read_def)
    moreover have "Option.bind (m' t') (\<lambda>y. y c') = Option.bind (m t') (\<lambda>y. y c')" if "(t', c') \<noteq> (t, c)" for t' c'
      using that x by auto
    ultimately show ?thesis using d total by simp
  qed
qed

theorem GetTeamChannelId_remembers_witness:
  "\<exists>m'. GetTeamChannelId [''t'' \<mapsto> ''1''] (\<lambda>c t. Inr ''c9'') ''t'' ''x'' [''t'' \<mapsto> Map.empty] = Some (Inr ''c9'', m') \<and>
     GetTeamChannelId [''t'' \<mapsto> ''1''] (\<lambda>c t. Inl ''gone'') ''t'' ''x'' m' = Some (Inr ''c9'', m')"
proof -
  have "GetTeamChannelId [''t'' \<mapsto> ''1''] (\<lambda>c t. Inr ''c9'') ''t'' ''x'' [''t'' \<mapsto> Map.empty] =
      Some (Inr ''c9'', [''t'' \<mapsto> [''x'' \<mapsto> ''c9'']])" "''c9'' \<noteq> []"
    by (simp_all add: GetTeamChannelId_def map_read_def)
  from GetTeamChannelId_remembers [OF this] this(1) show ?thesis by blast
qed

end
