(* ===== verification/Action_Monad.thy ===== *)
theory Action_Monad
  imports Entity_Run Load_Config Bulk_Objects
begin

text \<open>
  The setting of the test actions of \<^verbatim>\<open>loadtest/tests.go\<close>: the fields of \<open>EntityConfig\<close> they use, the requests
  they send, and computations with early returns and panics. The Mattermost server is a record of answers
  that may depend on the request and on all requests before it; nothing else is assumed of it.
\<close>

section \<open>Requests\<close>

record user_info =
  ui_Id :: string
  ui_Username :: string
  ui_Email :: string
  ui_Nickname :: string
  ui_FirstName :: string
  ui_LastName :: string
  ui_Position :: string
  ui_Password :: string

record user_patch =
  patch_FirstName :: "string option"
  patch_LastName :: "string option"
  patch_Username :: "string option"
  patch_Nickname :: "string option"
  patch_Position :: "string option"
  patch_Email :: "string option"
  patch_Password :: "string option"

record new_post =
  np_ChannelId :: string
  np_Message :: string
  np_FileIds :: "string list"

datatype user_request =
    GetMe | GetUsersStatusesByIds "string list" | SearchUsers string string | GetUsersByIds "string list"
  | GetUsersByUsernames "string list" | SetProfileImage string | PatchUser string user_patch | UpdateUser user_info
  | UpdateUserActive string bool | Login string

datatype channel_request =
    GetChannelMembers string | GetChannel string | RemoveUserFromChannel string string | AddChannelMember string string
  | CreateChannel string string string bool | CreateDirectChannel string string | CreateGroupChannel "string list"
  | DeleteChannel string | GetChannelsForTeamForUser string string | ViewChannel string string | GetChannelMember string
  | GetChannelStats string | AutocompleteChannelsForTeam string string | SearchChannels string string
  | GetChannelUnread string string | GetPublicChannels string int | GetChannelByName string string

datatype post_request =
    UploadFile string string | CreatePost new_post | SaveReaction string string string | GetPostsForChannel string
  | GetFileThumbnail string | GetReactions string | GetFileInfosForPost string | OpenGraph | GetEmojiByName string
  | SearchPosts string string | GetPostsBefore string string int | GetPostsAfter string string int
  | GetPostsAroundLastUnread string string int

datatype team_request =
    GetTeam string | RemoveTeamMember string string | AddTeamMemberFromInvite string | AddTeamMember string string
  | GetTeamsUnreadForUser | CreateIncomingWebhook string | PostWebhook string string | CloseWebSocket | GetWebappPlugins

datatype request = UserReq user_request | ChannelReq channel_request | PostReq post_request | TeamReq team_request

record file_info =
  fi_Id :: string
  fi_image :: bool

text \<open>A post as the server lists it; \<open>pi_files\<close> are the files of its metadata, if it has metadata.\<close>

record post_info =
  pi_Id :: string
  pi_UserId :: string
  pi_ChannelId :: string
  pi_metadata :: "file_info list option"
  pi_HasReactions :: bool
  pi_FileIds :: "string list"

text \<open>The answers, by what the client gets out of them. \<open>None\<close> and \<open>False\<close> are errors.\<close>

record mm_server =
  ans_user :: "request \<Rightarrow> request list \<Rightarrow> user_info option"
  ans_done :: "request \<Rightarrow> request list \<Rightarrow> bool"
  ans_id :: "request \<Rightarrow> request list \<Rightarrow> string option"
  ans_ids :: "request \<Rightarrow> request list \<Rightarrow> string list option"
  ans_posts :: "request \<Rightarrow> request list \<Rightarrow> post_info list option"
  ans_files :: "request \<Rightarrow> request list \<Rightarrow> file_info list option"
  ans_post :: "request \<Rightarrow> request list \<Rightarrow> post_info option"

section \<open>The entity\<close>

record entity_config =
  EntityNumber :: int
  UserData :: UserImportData
  Users :: "UserImportData list"
  TeamMap :: "string \<rightharpoonup> string"
  TownSquareMap :: "string \<rightharpoonup> string"
  has_websocket :: bool
  EntityLoadTestConfig :: LoadTestConfig
  srv :: mm_server
  testfiles :: "(string \<times> bool) list option"
  can_open :: "string \<Rightarrow> bool"

text \<open>The state: the entity's own random source, what the process draws from (the global random source,
  new identifiers, the text library), the entity's \<open>Info\<close>, the shared channel map, and the requests sent.\<close>

record act_state =
  a_rng :: rng
  a_world :: world
  a_info :: "string \<rightharpoonup> string list"
  a_channels :: "string \<rightharpoonup> (string \<rightharpoonup> string)"
  a_trace :: "request list"

section \<open>Computations\<close>

text \<open>A value, an early return of the function, a panic, or a loop that never ends.\<close>

datatype 'a outcome = Value 'a | Returned | Panicked | Diverged

type_synonym 'a act = "act_state \<Rightarrow> 'a outcome \<times> act_state"

definition give :: "'a \<Rightarrow> 'a act" where
  "give x s = (Value x, s)"

definition leave :: "'a act" where
  "leave s = (Returned, s)"

definition crash :: "'a act" where
  "crash s = (Panicked, s)"

definition seq :: "'a act \<Rightarrow> ('a \<Rightarrow> 'b act) \<Rightarrow> 'b act" where
  "seq m k s = (case m s of (Value x, s) \<Rightarrow> k x s | (Returned, s) \<Rightarrow> (Returned, s) | (Panicked, s) \<Rightarrow> (Panicked, s)
     | (Diverged, s) \<Rightarrow> (Diverged, s))"

text \<open>A call: the early return of the callee is not one of the caller.\<close>

definition call :: "unit act \<Rightarrow> unit act" where
  "call m s = (case m s of (Returned, s) \<Rightarrow> (Value (), s) | r \<Rightarrow> r)"

definition ask :: "(mm_server \<Rightarrow> request \<Rightarrow> request list \<Rightarrow> 'a) \<Rightarrow> entity_config \<Rightarrow> request \<Rightarrow> 'a act" where
  "ask answer c rq s = (Value (answer (srv c) rq (a_trace s)), s\<lparr>a_trace := a_trace s @ [rq]\<rparr>)"

text \<open>A request whose failure ends the function, one whose failure is only logged, and one whose
  failure ends the function when it gives no value.\<close>

definition must :: "entity_config \<Rightarrow> request \<Rightarrow> unit act" where
  "must c rq = seq (ask ans_done c rq) (\<lambda>fine. if fine then give () else leave)"

definition attempt :: "entity_config \<Rightarrow> request \<Rightarrow> unit act" where
  "attempt c rq = seq (ask ans_done c rq) (\<lambda>_. give ())"

definition need :: "(mm_server \<Rightarrow> request \<Rightarrow> request list \<Rightarrow> 'a option) \<Rightarrow> entity_config \<Rightarrow> request \<Rightarrow> 'a act" where
  "need answer c rq = seq (ask answer c rq) (\<lambda>r. case r of None \<Rightarrow> leave | Some x \<Rightarrow> give x)"

fun each :: "('a \<Rightarrow> unit act) \<Rightarrow> 'a list \<Rightarrow> unit act" where
  "each f [] = give ()"
| "each f (x # xs) = seq (f x) (\<lambda>_. each f xs)"

text \<open>Draws from the entity's source and from the global one; \<open>None\<close> panics.\<close>

definition own :: "(rng \<Rightarrow> ('a \<times> rng) option) \<Rightarrow> 'a act" where
  "own f s = (case f (a_rng s) of None \<Rightarrow> (Panicked, s) | Some (x, r) \<Rightarrow> (Value x, s\<lparr>a_rng := r\<rparr>))"

definition global :: "(world \<Rightarrow> ('a \<times> world) option) \<Rightarrow> 'a act" where
  "global f s = (case f (a_world s) of None \<Rightarrow> (Panicked, s) | Some (x, w) \<Rightarrow> (Value x, s\<lparr>a_world := w\<rparr>))"

definition rand_float :: "real act" where
  "rand_float = global (\<lambda>w. Some (w_float64 w))"

definition rand_intn :: "int \<Rightarrow> int act" where
  "rand_intn n = global (w_intn n)"

definition text_of :: "string \<Rightarrow> string act" where
  "text_of kind = global (\<lambda>w. let (t, f) = fake kind (w_fake w) in Some (t, w\<lparr>w_fake := f\<rparr>))"

text \<open>The map \<open>Info\<close> of the entity, and how many channels of a team are known.\<close>

definition stored :: "string \<Rightarrow> string list option act" where
  "stored key s = (Value (a_info s key), s)"

definition store :: "string \<Rightarrow> string list \<Rightarrow> unit act" where
  "store key v s = (Value (), s\<lparr>a_info := (a_info s)(key \<mapsto> v)\<rparr>)"

definition known_channels :: "string \<Rightarrow> int act" where
  "known_channels team s = (Value (case a_channels s team of None \<Rightarrow> 0 | Some m \<Rightarrow> int (card (dom m))), s)"

section \<open>Picking\<close>

definition pick_team :: "entity_config \<Rightarrow> UserTeamImportData act" where
  "pick_team c = seq (own (PickTeam (UserData c))) (\<lambda>t. case t of None \<Rightarrow> leave | Some i \<Rightarrow> give (Teams (UserData c) ! nat i))"

definition pick_channel :: "UserTeamImportData \<Rightarrow> UserChannelImportData option act" where
  "pick_channel team = seq (own (PickChannel team)) (\<lambda>ch. give (map_option (\<lambda>i. Channels team ! nat i) ch))"

definition pick_team_channel :: "entity_config \<Rightarrow> (UserTeamImportData \<times> UserChannelImportData) act" where
  "pick_team_channel c = seq (own (PickTeamChannel (UserData c))) (\<lambda>(t, ch).
     case (t, ch) of
       (Some i, Some j) \<Rightarrow> (let team = Teams (UserData c) ! nat i in give (team, Channels team ! nat j))
     | _ \<Rightarrow> leave)"

definition pick_emoji :: "entity_config \<Rightarrow> string act" where
  "pick_emoji c = own (PickEmoji (EnvConfig (EntityLoadTestConfig c)))"

text \<open>\<open>GetTeamChannelId\<close> with its request, when it makes one.\<close>

definition team_channel_id :: "entity_config \<Rightarrow> string \<Rightarrow> string \<Rightarrow> string act" where
  "team_channel_id c teamName channelName s =
     (let known = map_read (case a_channels s teamName of None \<Rightarrow> Map.empty | Some m \<Rightarrow> m) channelName;
          teamId = map_read (TeamMap c) teamName;
          rq = ChannelReq (GetChannelByName channelName teamId);
          s' = (if known = [] \<and> teamId \<noteq> [] then s\<lparr>a_trace := a_trace s @ [rq]\<rparr> else s)
      in case GetTeamChannelId (TeamMap c)
                (\<lambda>ch t. case ans_id (srv c) rq (a_trace s) of None \<Rightarrow> Inl ''not found'' | Some i \<Rightarrow> Inr i)
                teamName channelName (a_channels s) of
           None \<Rightarrow> (Panicked, s')
         | Some (Inl e, m) \<Rightarrow> (Returned, s'\<lparr>a_channels := m\<rparr>)
         | Some (Inr i, m) \<Rightarrow> (Value i, s'\<lparr>a_channels := m\<rparr>))"

text \<open>A loop that may not end: the outer \<open>None\<close>.\<close>

definition looping :: "(world \<Rightarrow> (('a \<times> world) option) option) \<Rightarrow> 'a act" where
  "looping f s =
     (case f (a_world s) of
        None \<Rightarrow> (Diverged, s)
      | Some None \<Rightarrow> (Panicked, s)
      | Some (Some (x, w)) \<Rightarrow> (Value x, s\<lparr>a_world := w\<rparr>))"

text \<open>\<open>for rand.Float64() < p\<close>, collecting what the body draws.\<close>

partial_function (option) needy :: "real \<Rightarrow> (world \<Rightarrow> (string \<times> world) option) \<Rightarrow> string list \<Rightarrow> world \<Rightarrow>
    ((string list \<times> world) option) option" where
  [code]: "needy p pick acc w =
     (if fst (w_float64 w) < p
      then (case pick (snd (w_float64 w)) of
              None \<Rightarrow> Some None
            | Some r \<Rightarrow> needy p pick (acc @ [fst r]) (snd r))
      else Some (Some (acc, snd (w_float64 w))))"

text \<open>\<open>readRandomTestFile\<close>: a directory is drawn again.\<close>

partial_function (option) pick_file :: "(string \<times> bool) list \<Rightarrow> world \<Rightarrow> ((string \<times> world) option) option" where
  [code]: "pick_file files w =
     (case w_intn (int (length files)) w of
        None \<Rightarrow> Some None
      | Some r \<Rightarrow> if snd (files ! nat (fst r)) then pick_file files (snd r) else Some (Some (fst (files ! nat (fst r)), snd r)))"

definition chance :: "(UserEntitiesConfiguration \<Rightarrow> real) \<Rightarrow> entity_config \<Rightarrow> real" where
  "chance f c = f (UserConfig (EntityLoadTestConfig c))"

end
