(* ===== verification/Test_Actions.thy ===== *)
theory Test_Actions
  imports Action_Monad
begin

text \<open>
  The test actions of \<^verbatim>\<open>loadtest/tests.go\<close>, one definition per function. Pauses are left out; a goroutine
  that an action starts is one request.
\<close>

section \<open>Files\<close>

text \<open>The content of a file is its name. The path that is opened is the bare name, the path that is
  returned the one in the directory.\<close>

definition readTestFile :: "entity_config \<Rightarrow> string \<Rightarrow> string option" where
  "readTestFile c name = (if can_open c name then Some name else None)"

definition readRandomTestFile :: "entity_config \<Rightarrow> (string option \<times> string) act" where
  "readRandomTestFile c =
     (case testfiles c of
        None \<Rightarrow> crash
      | Some files \<Rightarrow> seq (looping (pick_file files)) (\<lambda>name. give (readTestFile c name, ''testfiles/'' @ name)))"

section \<open>Statuses and memberships\<close>

definition actionGetStatuses :: "entity_config \<Rightarrow> unit act" where
  "actionGetStatuses c =
     (let key = ''statusUserIds'' @ Username (UserData c) in
      seq (stored key) (\<lambda>known.
      seq (case known of
             Some ids \<Rightarrow> give ids
           | None \<Rightarrow>
               seq (pick_team_channel c) (\<lambda>(team, channel).
               seq (team_channel_id c (uteam_Name team) (uchannel_Name channel)) (\<lambda>channelId.
               seq (need ans_ids c (ChannelReq (GetChannelMembers channelId))) (\<lambda>ids.
               seq (store key ids) (\<lambda>_. give ids)))))
        (\<lambda>ids. attempt c (UserReq (GetUsersStatusesByIds ids)))))"

definition actionLeaveJoinChannel :: "entity_config \<Rightarrow> unit act" where
  "actionLeaveJoinChannel c =
     seq (pick_team_channel c) (\<lambda>(team, channel).
     seq (team_channel_id c (uteam_Name team) (uchannel_Name channel)) (\<lambda>channelId.
     seq (need ans_user c (UserReq GetMe)) (\<lambda>user.
     seq (must c (ChannelReq (GetChannel channelId))) (\<lambda>_.
     seq (ask ans_done c (ChannelReq (RemoveUserFromChannel channelId (ui_Id user)))) (\<lambda>removed.
     seq (must c (ChannelReq (AddChannelMember channelId (ui_Id user)))) (\<lambda>_.
     if \<not> removed then must c (ChannelReq (RemoveUserFromChannel channelId (ui_Id user))) else give ()))))))"

definition actionLeaveJoinTeam :: "entity_config \<Rightarrow> unit act" where
  "actionLeaveJoinTeam c =
     seq (pick_team c) (\<lambda>importTeam.
     let teamId = map_read (TeamMap c) (uteam_Name importTeam) in
     if teamId = [] then leave
     else
       seq (need ans_user c (UserReq GetMe)) (\<lambda>user.
       seq (need ans_id c (TeamReq (GetTeam teamId))) (\<lambda>inviteId.
       seq (must c (TeamReq (RemoveTeamMember teamId (ui_Id user)))) (\<lambda>_.
       seq rand_float (\<lambda>x.
       if x > 0.5 then must c (TeamReq (AddTeamMemberFromInvite inviteId))
       else must c (TeamReq (AddTeamMember teamId (ui_Id user))))))))"

section \<open>Posting\<close>

definition addReaction :: "entity_config \<Rightarrow> string \<Rightarrow> string \<Rightarrow> string \<Rightarrow> unit act" where
  "addReaction c userId postId name = attempt c (PostReq (SaveReaction userId postId name))"

fun upload_files :: "entity_config \<Rightarrow> string \<Rightarrow> nat \<Rightarrow> string list act" where
  "upload_files c channelId 0 = give []"
| "upload_files c channelId (Suc n) =
     seq (readRandomTestFile c) (\<lambda>(data, filename).
     seq (case data of None \<Rightarrow> give [] | Some d \<Rightarrow> need ans_id c (PostReq (UploadFile filename channelId))) (\<lambda>fileId.
     seq (upload_files c channelId n) (\<lambda>fileIds. give (fileId # fileIds))))"

text \<open>After a failed \<open>CreatePost\<close> the variable \<open>post\<close> is nil.\<close>

definition react :: "entity_config \<Rightarrow> post_info option \<Rightarrow> string \<Rightarrow> unit act" where
  "react c post name =
     (case post of
        None \<Rightarrow> crash
      | Some p \<Rightarrow> addReaction c (pi_UserId p) (pi_Id p) name)"

definition createPost :: "entity_config \<Rightarrow> UserTeamImportData \<Rightarrow> string \<Rightarrow> unit act" where
  "createPost c team channelId =
     (let emoji = NumEmoji (EnvConfig (EntityLoadTestConfig c)) > 0 in
     seq (text_of ''Sentences'') (\<lambda>message.
     seq rand_float (\<lambda>x.
     seq (if x < chance ChannelLinkChance c
          then seq (pick_channel team) (\<lambda>ch. give (case ch of None \<Rightarrow> message | Some ch \<Rightarrow> message @ '' ~'' @ uchannel_Name ch))
          else give message) (\<lambda>message.
     seq rand_float (\<lambda>x.
     seq (if x < chance UploadImageChance c
          then seq (rand_intn 3) (\<lambda>n. upload_files c channelId (nat (n + 1)))
          else give []) (\<lambda>fileIds.
     seq rand_float (\<lambda>x.
     let message = (if x < chance LinkPreviewChance c
                    then message @ '' https://s3.amazonaws.com/mattermost-load-test-media/index.html'' else message) in
     seq rand_float (\<lambda>x.
     seq (if x < chance CustomEmojiChance c \<and> emoji
          then seq (pick_emoji c) (\<lambda>name. give (message @ '' :'' @ name @ '':''))
          else give message) (\<lambda>message.
     let post = \<lparr>np_ChannelId = channelId, np_Message = message, np_FileIds = fileIds\<rparr> in
     seq (ask ans_post c (PostReq (CreatePost post))) (\<lambda>post.
     seq rand_float (\<lambda>x.
     seq (if x < chance CustomEmojiReactionChance c \<and> emoji
          then seq (pick_emoji c) (\<lambda>name. react c post name)
          else give ()) (\<lambda>_.
     seq rand_float (\<lambda>x.
     if x < chance SystemEmojiReactionChance c then react c post ''smile'' else give ())))))))))))))"

definition actionPostToTownSquare :: "entity_config \<Rightarrow> unit act" where
  "actionPostToTownSquare c =
     seq (pick_team c) (\<lambda>team.
     let channelId = map_read (TownSquareMap c) (uteam_Name team) in
     if channelId = [] then leave else call (createPost c team channelId))"

definition actionPost :: "entity_config \<Rightarrow> unit act" where
  "actionPost c =
     seq (pick_team_channel c) (\<lambda>(team, channel).
     seq (team_channel_id c (uteam_Name team) (uchannel_Name channel)) (\<lambda>channelId.
     call (createPost c team channelId)))"

section \<open>Channels that are created and deleted\<close>

definition prefixes :: "string \<Rightarrow> string list" where
  "prefixes s = map (\<lambda>j. take j s) [1..<Suc (length s)]"

text \<open>The results have the error as outer \<open>None\<close>.\<close>

fun search_prefixes :: "entity_config \<Rightarrow> string \<Rightarrow> string list \<Rightarrow> string option option act" where
  "search_prefixes c teamId [] = give (Some None)"
| "search_prefixes c teamId (p # ps) =
     seq (ask ans_ids c (UserReq (SearchUsers teamId p))) (\<lambda>r.
     case r of
       None \<Rightarrow> give None
     | Some users \<Rightarrow> if length users = 1 then give (Some (Some (hd users))) else search_prefixes c teamId ps)"

fun searchRandomUsers :: "entity_config \<Rightarrow> string \<Rightarrow> nat \<Rightarrow> string list option act" where
  "searchRandomUsers c teamId 0 = give (Some [])"
| "searchRandomUsers c teamId (Suc n) =
     seq (own (PickUser (Users c))) (\<lambda>userdata.
     case userdata of
       None \<Rightarrow> give None
     | Some u \<Rightarrow>
         seq (search_prefixes c teamId (prefixes (Username u))) (\<lambda>r.
         case r of
           None \<Rightarrow> give None
         | Some found \<Rightarrow>
             seq (searchRandomUsers c teamId n) (\<lambda>rest.
             give (map_option (\<lambda>l. (case found of None \<Rightarrow> l | Some i \<Rightarrow> i # l)) rest))))"

definition go_int :: "real \<Rightarrow> int" where
  "go_int x = (if 0 \<le> x then \<lfloor>x\<rfloor> else \<lceil>x\<rceil>)"

datatype channel_kind = PUBLIC_CHANNEL | PRIVATE_CHANNEL | DIRECT_CHANNEL | GROUP_CHANNEL

definition channel_choices :: "entity_config \<Rightarrow> channel_kind choice list" where
  "channel_choices c =
     [\<lparr>Weight = go_int (f64 (chance PublicChannelCreationChance c * 1000)), Item = PUBLIC_CHANNEL\<rparr>,
      \<lparr>Weight = go_int (f64 (chance PrivateChannelCreationChance c * 1000)), Item = PRIVATE_CHANNEL\<rparr>,
      \<lparr>Weight = go_int (f64 (chance DirectChannelCreationChance c * 1000)), Item = DIRECT_CHANNEL\<rparr>,
      \<lparr>Weight = go_int (f64 (chance GroupChannelCreationChance c * 1000)), Item = GROUP_CHANNEL\<rparr>]"

definition own_int :: "int act" where
  "own_int = own (\<lambda>r. let (d, r) = draw r in Some (int d, r))"

text \<open>The created channel is its identifier and kind.\<close>

definition createChannel :: "entity_config \<Rightarrow> string \<Rightarrow> string \<Rightarrow> (string \<times> channel_kind) option act" where
  "createChannel c teamId userId =
     seq (own (\<lambda>r. WeightedChoice r (channel_choices c))) (\<lambda>choice.
     case choice of
       Inl err \<Rightarrow> give None
     | Inr choice \<Rightarrow>
         (let kind = Item choice; created = (\<lambda>r. give (map_option (\<lambda>i. (i, kind)) r)) in
          if kind = PUBLIC_CHANNEL \<or> kind = PRIVATE_CHANNEL
          then
            seq own_int (\<lambda>n.
            seq (global (\<lambda>w. let (t, f) = makeChannelName n (w_fake w) in Some (t, w\<lparr>w_fake := f\<rparr>))) (\<lambda>name.
            seq own_int (\<lambda>n.
            seq (global (\<lambda>w. let (t, f) = makeChannelDisplayName n (w_fake w) in Some (t, w\<lparr>w_fake := f\<rparr>))) (\<lambda>display.
            seq (ask ans_id c (ChannelReq (CreateChannel teamId name display (kind = PRIVATE_CHANNEL)))) created))))
          else if kind = DIRECT_CHANNEL
          then
            seq (searchRandomUsers c teamId 1) (\<lambda>users.
            case users of
              None \<Rightarrow> give None
            | Some us \<Rightarrow> if length us \<noteq> 1 then give None
                else seq (ask ans_id c (ChannelReq (CreateDirectChannel userId (us ! 0)))) created)
          else
            seq (searchRandomUsers c teamId 2) (\<lambda>users.
            case users of
              None \<Rightarrow> give None
            | Some us \<Rightarrow> if length us \<noteq> 2 then give None
                else seq (ask ans_id c (ChannelReq (CreateGroupChannel us))) created)))"

definition actionCreateDeleteChannel :: "entity_config \<Rightarrow> unit act" where
  "actionCreateDeleteChannel c =
     seq (pick_team c) (\<lambda>team.
     let teamId = map_read (TeamMap c) (uteam_Name team) in
     seq (need ans_user c (UserReq GetMe)) (\<lambda>user.
     seq (createChannel c teamId (ui_Id user)) (\<lambda>channel.
     case channel of
       None \<Rightarrow> leave
     | Some (channelId, kind) \<Rightarrow>
         if kind \<noteq> PUBLIC_CHANNEL \<and> kind \<noteq> PRIVATE_CHANNEL then leave
         else must c (ChannelReq (DeleteChannel channelId)))))"

section \<open>Reactions\<close>

text \<open>\<open>IntRange\<close>, the error ignored.\<close>

definition index_below :: "int \<Rightarrow> int act" where
  "index_below n = seq (own (\<lambda>r. IntRange r 0 n)) (\<lambda>i. give (case i of Inl e \<Rightarrow> 0 | Inr i \<Rightarrow> i))"

fun reaction_loop :: "entity_config \<Rightarrow> string \<Rightarrow> string \<Rightarrow> nat \<Rightarrow> unit act" where
  "reaction_loop c userId postId 0 = give ()"
| "reaction_loop c userId postId (Suc n) =
     seq (pick_emoji c) (\<lambda>emojiName.
     seq (addReaction c userId postId emojiName) (\<lambda>_. reaction_loop c userId postId n))"

definition actionPostReactions :: "entity_config \<Rightarrow> unit act" where
  "actionPostReactions c =
     seq (need ans_user c (UserReq GetMe)) (\<lambda>user.
     seq (pick_team_channel c) (\<lambda>(team, channel).
     let teamId = map_read (TeamMap c) (uteam_Name team) in
     if teamId = [] then leave
     else
       seq (need ans_ids c (ChannelReq (GetChannelsForTeamForUser teamId (ui_Id user)))) (\<lambda>channels.
       if length channels = 0 then leave
       else
         seq (index_below (int (length channels))) (\<lambda>idx.
         seq (need ans_posts c (PostReq (GetPostsForChannel (channels ! nat idx)))) (\<lambda>posts.
         if length posts = 0 then leave
         else
           seq (index_below (int (length posts))) (\<lambda>idx.
           reaction_loop c (ui_Id user) (pi_Id (posts ! nat idx)) (nat (NumPostReactionsPerUser (UserConfig (EntityLoadTestConfig c))))))))))"

section \<open>Viewing a channel\<close>

definition thumbnails :: "entity_config \<Rightarrow> file_info list \<Rightarrow> unit act" where
  "thumbnails c files = each (\<lambda>f. if fi_image f then attempt c (PostReq (GetFileThumbnail (fi_Id f))) else give ()) files"

definition view_post :: "entity_config \<Rightarrow> post_info \<Rightarrow> unit act" where
  "view_post c post =
     (case pi_metadata post of
        Some files \<Rightarrow> thumbnails c files
      | None \<Rightarrow>
          seq (if pi_HasReactions post then attempt c (PostReq (GetReactions (pi_Id post))) else give ()) (\<lambda>_.
          seq (if length (pi_FileIds post) > 0
               then seq (ask ans_files c (PostReq (GetFileInfosForPost (pi_Id post)))) (\<lambda>files.
                      case files of None \<Rightarrow> give () | Some fs \<Rightarrow> thumbnails c fs)
               else give ()) (\<lambda>_.
          seq rand_float (\<lambda>x.
          seq (if x < chance LinkPreviewChance c then attempt c (PostReq OpenGraph) else give ()) (\<lambda>_.
          seq rand_float (\<lambda>x.
          if x < chance CustomEmojiChance c \<and> NumEmoji (EnvConfig (EntityLoadTestConfig c)) > 0
          then seq (pick_emoji c) (\<lambda>name. attempt c (PostReq (GetEmojiByName name)))
          else give ()))))))"

definition random_user :: "entity_config \<Rightarrow> world \<Rightarrow> (string \<times> world) option" where
  "random_user c w =
     (case w_intn (NumUsers (EnvConfig (EntityLoadTestConfig c))) w of None \<Rightarrow> None | Some (n, w) \<Rightarrow> Some (''user'' @ itoa n, w))"

definition random_or_new_user :: "entity_config \<Rightarrow> world \<Rightarrow> (string \<times> world) option" where
  "random_or_new_user c w =
     (let (x, w) = w_float64 w in if x > 0.5 then random_user c w else Some (new_id w))"

definition query_users :: "entity_config \<Rightarrow> (UserEntitiesConfiguration \<Rightarrow> real) \<Rightarrow> (world \<Rightarrow> (string \<times> world) option) \<Rightarrow>
    (string list \<Rightarrow> user_request) \<Rightarrow> unit act" where
  "query_users c f pick rq =
     seq (looping (needy (chance f c) pick [])) (\<lambda>us. if length us > 0 then attempt c (UserReq (rq us)) else give ())"

definition actionGetChannel :: "entity_config \<Rightarrow> unit act" where
  "actionGetChannel c =
     seq (pick_team_channel c) (\<lambda>(team, channel).
     seq (team_channel_id c (uteam_Name team) (uchannel_Name channel)) (\<lambda>channelId.
     seq (attempt c (ChannelReq (ViewChannel channelId []))) (\<lambda>_.
     seq (attempt c (ChannelReq (GetChannelMember channelId))) (\<lambda>_.
     seq (attempt c (ChannelReq (GetChannelMembers channelId))) (\<lambda>_.
     seq (attempt c (ChannelReq (GetChannelStats channelId))) (\<lambda>_.
     seq (pick_channel team) (\<lambda>prevChannel.
     seq (case prevChannel of
            None \<Rightarrow> give ()
          | Some p \<Rightarrow> seq (team_channel_id c (uteam_Name team) (uchannel_Name p)) (\<lambda>prevChannelId.
                       attempt c (ChannelReq (ViewChannel channelId prevChannelId)))) (\<lambda>_.
     seq (ask ans_posts c (PostReq (GetPostsForChannel channelId))) (\<lambda>posts.
     seq (case posts of None \<Rightarrow> give () | Some ps \<Rightarrow> each (view_post c) ps) (\<lambda>_.
     seq (query_users c NeedsProfilesByIdChance (random_user c) GetUsersByIds) (\<lambda>_.
     seq (query_users c NeedsProfilesByUsernameChance (random_or_new_user c) GetUsersByUsernames) (\<lambda>_.
     query_users c NeedsProfileStatusChance (random_user c) GetUsersStatusesByIds))))))))))))"

section \<open>Searching\<close>

text \<open>Outer \<open>None\<close>: an error; inner \<open>None\<close>: no team.\<close>

definition searchPosts :: "entity_config \<Rightarrow> post_info list option option act" where
  "searchPosts c =
     seq (own (PickTeam (UserData c))) (\<lambda>t.
     case t of
       None \<Rightarrow> give (Some None)
     | Some i \<Rightarrow>
         seq (text_of ''Words'') (\<lambda>terms.
         seq (ask ans_posts c (PostReq (SearchPosts (map_read (TeamMap c) (uteam_Name (Teams (UserData c) ! nat i))) terms)))
           (\<lambda>r. give (map_option Some r))))"

definition actionPerformSearch :: "entity_config \<Rightarrow> unit act" where
  "actionPerformSearch c = seq (searchPosts c) (\<lambda>r. case r of None \<Rightarrow> leave | Some _ \<Rightarrow> give ())"

definition actionGetPostsBeforeAfter :: "entity_config \<Rightarrow> unit act" where
  "actionGetPostsBeforeAfter c =
     seq (searchPosts c) (\<lambda>r.
     case r of
       None \<Rightarrow> leave
     | Some None \<Rightarrow> leave
     | Some (Some posts) \<Rightarrow>
         if length posts = 0 then leave
         else
           seq (index_below (int (length posts))) (\<lambda>idx.
           let post = posts ! nat idx; n = NumPostsGetBeforeAfter (UserConfig (EntityLoadTestConfig c)) in
           seq (must c (PostReq (GetPostsBefore (pi_ChannelId post) (pi_Id post) n))) (\<lambda>_.
           must c (PostReq (GetPostsAfter (pi_ChannelId post) (pi_Id post) n)))))"

definition type_name :: "entity_config \<Rightarrow> string \<Rightarrow> (string \<Rightarrow> request) \<Rightarrow> unit act" where
  "type_name c typedName rq = each (\<lambda>p. attempt c (rq p)) (prefixes typedName)"

definition actionAutocompleteChannel :: "entity_config \<Rightarrow> unit act" where
  "actionAutocompleteChannel c =
     seq (pick_team_channel c) (\<lambda>(team, channel).
     let teamId = map_read (TeamMap c) (uteam_Name team) in
     seq (rand_intn (int (length (uchannel_Name channel)))) (\<lambda>n.
     type_name c (take (nat n) (uchannel_Name channel)) (\<lambda>s. ChannelReq (AutocompleteChannelsForTeam teamId s))))"

definition actionSearchChannel :: "entity_config \<Rightarrow> unit act" where
  "actionSearchChannel c =
     seq (pick_team_channel c) (\<lambda>(team, channel).
     let teamId = map_read (TeamMap c) (uteam_Name team) in
     seq (rand_intn (int (length (uchannel_Name channel)))) (\<lambda>n.
     type_name c (take (nat n) (uchannel_Name channel)) (\<lambda>s. ChannelReq (SearchChannels teamId s))))"

definition actionSearchUser :: "entity_config \<Rightarrow> unit act" where
  "actionSearchUser c =
     seq (pick_team c) (\<lambda>team.
     let teamId = map_read (TeamMap c) (uteam_Name team) in
     seq (rand_intn 4) (\<lambda>r.
     let searchField = (if r = 0 then Username (UserData c) else if r = 1 then FirstName (UserData c)
                        else if r = 2 then LastName (UserData c) else Nickname (UserData c));
         searchField = (if searchField = [] then Username (UserData c) else searchField) in
     if searchField = [] then leave
     else
       seq (rand_intn (int (length searchField) + 1)) (\<lambda>n.
       type_name c (take (nat n) searchField) (\<lambda>s. UserReq (SearchUsers teamId s)))))"

section \<open>Websocket, webhook, unread messages\<close>

text \<open>Closing a nil client panics.\<close>

definition actionDisconnectWebsocket :: "entity_config \<Rightarrow> unit act" where
  "actionDisconnectWebsocket c = (if has_websocket c then attempt c (TeamReq CloseWebSocket) else crash)"

definition actionPostWebhook :: "entity_config \<Rightarrow> unit act" where
  "actionPostWebhook c =
     (let infokey = ''webhookid'' @ itoa (EntityNumber c) in
      seq (stored infokey) (\<lambda>known.
      seq (case known of
             Some hook \<Rightarrow> give (hd hook)
           | None \<Rightarrow>
               seq (pick_team_channel c) (\<lambda>(team, channel).
               seq (team_channel_id c (uteam_Name team) (uchannel_Name channel)) (\<lambda>channelId.
               seq (need ans_id c (TeamReq (CreateIncomingWebhook channelId))) (\<lambda>hookId.
               seq (store infokey [hookId]) (\<lambda>_. give hookId)))))
        (\<lambda>hookId. seq (text_of ''Paragraphs'') (\<lambda>text. attempt c (TeamReq (PostWebhook hookId text))))))"

definition actionGetTeamUnreads :: "entity_config \<Rightarrow> unit act" where
  "actionGetTeamUnreads c = attempt c (TeamReq GetTeamsUnreadForUser)"

definition actionGetChannelUnreads :: "entity_config \<Rightarrow> unit act" where
  "actionGetChannelUnreads c =
     seq (need ans_user c (UserReq GetMe)) (\<lambda>user.
     seq (pick_team_channel c) (\<lambda>(team, channel).
     seq (team_channel_id c (uteam_Name team) (uchannel_Name channel)) (\<lambda>channelId.
     seq rand_float (\<lambda>x.
     seq (if x < chance GetPostsAroundLastUnreadChance c
          then must c (PostReq (GetPostsAroundLastUnread channelId (ui_Id user) (NumGetPostsAroundLastUnread (UserConfig (EntityLoadTestConfig c)))))
          else give ()) (\<lambda>_.
     must c (ChannelReq (GetChannelUnread channelId (ui_Id user))))))))"

section \<open>Profiles\<close>

definition empty_patch :: user_patch where
  "empty_patch = \<lparr>patch_FirstName = None, patch_LastName = None, patch_Username = None, patch_Nickname = None,
     patch_Position = None, patch_Email = None, patch_Password = None\<rparr>"

text \<open>The patch of a draw \<open>x\<close> for each of the chances.\<close>

definition patch_when :: "entity_config \<Rightarrow> (UserEntitiesConfiguration \<Rightarrow> real) \<Rightarrow> (user_patch \<Rightarrow> user_patch) \<Rightarrow> user_patch \<Rightarrow> user_patch act" where
  "patch_when c f update patch = seq rand_float (\<lambda>x. give (if x < chance f c then update patch else patch))"

definition actionUpdateUserProfile :: "entity_config \<Rightarrow> unit act" where
  "actionUpdateUserProfile c =
     seq (need ans_user c (UserReq GetMe)) (\<lambda>user.
     seq (patch_when c UserProfileUpdateFullnameChance
            (\<lambda>p. p\<lparr>patch_FirstName := Some (ui_FirstName user @ ''_new''), patch_LastName := Some (ui_LastName user @ ''_new'')\<rparr>) empty_patch) (\<lambda>patch.
     seq (patch_when c UserProfileUpdateUsernameChance (\<lambda>p. p\<lparr>patch_Username := Some (ui_Username user @ ''_new'')\<rparr>) patch) (\<lambda>patch.
     seq (patch_when c UserProfileUpdateNicknameChance (\<lambda>p. p\<lparr>patch_Nickname := Some (ui_Nickname user @ ''_new'')\<rparr>) patch) (\<lambda>patch.
     seq (patch_when c UserProfileUpdatePositionChance (\<lambda>p. p\<lparr>patch_Position := Some (ui_Position user @ ''_new'')\<rparr>) patch) (\<lambda>patch.
     seq (patch_when c UserProfileUpdateEmailChance
            (\<lambda>p. p\<lparr>patch_Email := Some (''new_'' @ ui_Email user), patch_Password := Some (Password (UserData c))\<rparr>) patch) (\<lambda>patch.
     seq rand_float (\<lambda>x.
     seq (if x < chance UserProfileUpdateImageChance c
          then (if readTestFile c ''./testfiles/test.png'' = None then leave else must c (UserReq (SetProfileImage (ui_Id user))))
          else give ()) (\<lambda>_.
     if patch_FirstName patch = None \<and> patch_LastName patch = None \<and> patch_Username patch = None \<and>
        patch_Nickname patch = None \<and> patch_Position patch = None \<and> patch_Email patch = None
     then leave
     else
       seq (must c (UserReq (PatchUser (ui_Id user) patch))) (\<lambda>_.
       seq (need ans_user c (UserReq GetMe)) (\<lambda>_.
       must c (UserReq (UpdateUser (user\<lparr>ui_Password := Password (UserData c)\<rparr>)))))))))))))"

definition actionDeactivateReactivate :: "entity_config \<Rightarrow> unit act" where
  "actionDeactivateReactivate c =
     seq (need ans_user c (UserReq GetMe)) (\<lambda>user.
     seq (attempt c (UserReq (UpdateUserActive (ui_Id user) False))) (\<lambda>_.
     seq (attempt c (UserReq (UpdateUserActive (ui_Id user) True))) (\<lambda>_.
     attempt c (UserReq (Login (ui_Email user))))))"

section \<open>Browsing channels\<close>

definition CHANNELS_CHUNK_SIZE :: int where "CHANNELS_CHUNK_SIZE = 50"
definition CHANNELS_FETCH_SIZE :: int where "CHANNELS_FETCH_SIZE = CHANNELS_CHUNK_SIZE * 2"

function browse :: "entity_config \<Rightarrow> string \<Rightarrow> int \<Rightarrow> int \<Rightarrow> unit act" where
  "browse c teamId numChannels i =
     (if i < numChannels
      then
        (let page = go_div (i * numChannels) CHANNELS_FETCH_SIZE in
         seq (must c (ChannelReq (GetPublicChannels teamId page))) (\<lambda>_.
         seq rand_float (\<lambda>x. if x > 0.3 then leave else browse c teamId numChannels (i + CHANNELS_FETCH_SIZE))))
      else give ())"
  by pat_completeness auto

termination browse
  by (relation "measure (\<lambda>(_, _, numChannels, i). nat (numChannels - i))") (auto simp: CHANNELS_FETCH_SIZE_def CHANNELS_CHUNK_SIZE_def)

declare browse.simps [simp del]

definition actionMoreChannels :: "entity_config \<Rightarrow> unit act" where
  "actionMoreChannels c =
     seq (pick_team c) (\<lambda>team.
     let teamId = map_read (TeamMap c) (uteam_Name team) in
     if teamId = [] then leave
     else seq (known_channels (uteam_Name team)) (\<lambda>numChannels. browse c teamId numChannels 0))"

definition actionWakeup :: "entity_config \<Rightarrow> unit act" where
  "actionWakeup c = must c (TeamReq GetWebappPlugins)"

end
