(* ===== verification/Test_Runs.thy ===== *)
theory Test_Runs
  imports Test_Actions
begin

text \<open>
  The tables of \<^verbatim>\<open>loadtest/tests.go\<close>: the kinds of users with their weighted actions, and the test runs with their
  weighted kinds of users.
\<close>

record UserEntity =
  entity_Name :: string
  Actions :: "(entity_config \<Rightarrow> unit act) choice list"

record UserEntityWithRateMultiplier =
  Entity :: UserEntity
  RateMultiplier :: real

record TestRun =
  UserEntities :: "UserEntityWithRateMultiplier choice list"

definition posterEntity :: UserEntity where
  "posterEntity = \<lparr>entity_Name = ''Poster'', Actions =
     [\<lparr>Weight = 1, Item = actionPost\<rparr>]\<rparr>"

definition TestBasicPosting :: TestRun where
  "TestBasicPosting = \<lparr>UserEntities =
     [\<lparr>Weight = 100, Item = \<lparr>Entity = posterEntity, RateMultiplier = 1\<rparr>\<rparr>]\<rparr>"

definition reactionsPoster :: UserEntity where
  "reactionsPoster = \<lparr>entity_Name = ''ReactionsPoster'', Actions =
     [\<lparr>Weight = 1, Item = actionPostReactions\<rparr>]\<rparr>"

definition TestPostReactions :: TestRun where
  "TestPostReactions = \<lparr>UserEntities =
     [\<lparr>Weight = 100, Item = \<lparr>Entity = reactionsPoster, RateMultiplier = 1\<rparr>\<rparr>]\<rparr>"

definition getChannelEntity :: UserEntity where
  "getChannelEntity = \<lparr>entity_Name = ''Get Channel'', Actions =
     [\<lparr>Weight = 1, Item = actionGetChannel\<rparr>]\<rparr>"

definition TestGetChannel :: TestRun where
  "TestGetChannel = \<lparr>UserEntities =
     [\<lparr>Weight = 100, Item = \<lparr>Entity = getChannelEntity, RateMultiplier = 1\<rparr>\<rparr>]\<rparr>"

definition searchEntity :: UserEntity where
  "searchEntity = \<lparr>entity_Name = ''Search'', Actions =
     [\<lparr>Weight = 1, Item = actionPerformSearch\<rparr>]\<rparr>"

definition TestSearch :: TestRun where
  "TestSearch = \<lparr>UserEntities =
     [\<lparr>Weight = 100, Item = \<lparr>Entity = searchEntity, RateMultiplier = 1\<rparr>\<rparr>]\<rparr>"

definition searchUsersEntity :: UserEntity where
  "searchUsersEntity = \<lparr>entity_Name = ''Search Users'', Actions =
     [\<lparr>Weight = 1, Item = actionSearchUser\<rparr>]\<rparr>"

definition TestSearchUsers :: TestRun where
  "TestSearchUsers = \<lparr>UserEntities =
     [\<lparr>Weight = 100, Item = \<lparr>Entity = searchUsersEntity, RateMultiplier = 1\<rparr>\<rparr>]\<rparr>"

definition channelCreateDeleteEntity :: UserEntity where
  "channelCreateDeleteEntity = \<lparr>entity_Name = ''Create/Delete channel'', Actions =
     [\<lparr>Weight = 1, Item = actionCreateDeleteChannel\<rparr>]\<rparr>"

definition TestChannelCreateDelete :: TestRun where
  "TestChannelCreateDelete = \<lparr>UserEntities =
     [\<lparr>Weight = 100, Item = \<lparr>Entity = channelCreateDeleteEntity, RateMultiplier = 1\<rparr>\<rparr>]\<rparr>"

definition updateUserProfileEntity :: UserEntity where
  "updateUserProfileEntity = \<lparr>entity_Name = ''Update User Profile'', Actions =
     [\<lparr>Weight = 1, Item = actionUpdateUserProfile\<rparr>]\<rparr>"

definition TestUpdateUserProfile :: TestRun where
  "TestUpdateUserProfile = \<lparr>UserEntities =
     [\<lparr>Weight = 100, Item = \<lparr>Entity = updateUserProfileEntity, RateMultiplier = 1\<rparr>\<rparr>]\<rparr>"

definition standardUserEntity :: UserEntity where
  "standardUserEntity = \<lparr>entity_Name = ''Standard'', Actions =
     [\<lparr>Weight = 8, Item = actionPost\<rparr>,
      \<lparr>Weight = 2, Item = actionPerformSearch\<rparr>,
      \<lparr>Weight = 56, Item = actionGetChannel\<rparr>,
      \<lparr>Weight = 41, Item = actionGetTeamUnreads\<rparr>,
      \<lparr>Weight = 10, Item = actionGetChannelUnreads\<rparr>,
      \<lparr>Weight = 1, Item = actionAutocompleteChannel\<rparr>,
      \<lparr>Weight = 10, Item = actionSearchChannel\<rparr>,
      \<lparr>Weight = 4, Item = actionDisconnectWebsocket\<rparr>,
      \<lparr>Weight = 4, Item = actionMoreChannels\<rparr>,
      \<lparr>Weight = 2, Item = actionSearchUser\<rparr>,
      \<lparr>Weight = 1, Item = actionUpdateUserProfile\<rparr>,
      \<lparr>Weight = 2, Item = actionGetPostsBeforeAfter\<rparr>]\<rparr>"

definition webhookUserEntity :: UserEntity where
  "webhookUserEntity = \<lparr>entity_Name = ''Webhook'', Actions =
     [\<lparr>Weight = 1, Item = actionPostWebhook\<rparr>]\<rparr>"

definition TestAll :: TestRun where
  "TestAll = \<lparr>UserEntities =
     [\<lparr>Weight = 90, Item = \<lparr>Entity = standardUserEntity, RateMultiplier = 1\<rparr>\<rparr>,
      \<lparr>Weight = 10, Item = \<lparr>Entity = webhookUserEntity, RateMultiplier = 3 / 2\<rparr>\<rparr>]\<rparr>"

definition townSquareSpammerUserEntity :: UserEntity where
  "townSquareSpammerUserEntity = \<lparr>entity_Name = ''TownSquareSpammer'', Actions =
     [\<lparr>Weight = 1, Item = actionPostToTownSquare\<rparr>]\<rparr>"

definition TestTownSquareSpam :: TestRun where
  "TestTownSquareSpam = \<lparr>UserEntities =
     [\<lparr>Weight = 90, Item = \<lparr>Entity = standardUserEntity, RateMultiplier = 1\<rparr>\<rparr>,
      \<lparr>Weight = 10, Item = \<lparr>Entity = townSquareSpammerUserEntity, RateMultiplier = 1\<rparr>\<rparr>]\<rparr>"

definition channelLeaverJoinerUserEntity :: UserEntity where
  "channelLeaverJoinerUserEntity = \<lparr>entity_Name = ''ChannelLeaverJoiner'', Actions =
     [\<lparr>Weight = 1, Item = actionLeaveJoinChannel\<rparr>]\<rparr>"

definition teamLeaverJoinerUserEntity :: UserEntity where
  "teamLeaverJoinerUserEntity = \<lparr>entity_Name = ''TeamLeaverJoiner'', Actions =
     [\<lparr>Weight = 1, Item = actionLeaveJoinTeam\<rparr>]\<rparr>"

definition TestLeaveJoinChannel :: TestRun where
  "TestLeaveJoinChannel = \<lparr>UserEntities =
     [\<lparr>Weight = 90, Item = \<lparr>Entity = standardUserEntity, RateMultiplier = 1\<rparr>\<rparr>,
      \<lparr>Weight = 10, Item = \<lparr>Entity = channelLeaverJoinerUserEntity, RateMultiplier = 1\<rparr>\<rparr>]\<rparr>"

definition TestLeaveJoinTeam :: TestRun where
  "TestLeaveJoinTeam = \<lparr>UserEntities =
     [\<lparr>Weight = 90, Item = \<lparr>Entity = standardUserEntity, RateMultiplier = 1\<rparr>\<rparr>,
      \<lparr>Weight = 10, Item = \<lparr>Entity = teamLeaverJoinerUserEntity, RateMultiplier = 1\<rparr>\<rparr>]\<rparr>"

definition deactivatingUserEntity :: UserEntity where
  "deactivatingUserEntity = \<lparr>entity_Name = ''DeactivatingUserEntity'', Actions =
     [\<lparr>Weight = 1, Item = actionDeactivateReactivate\<rparr>]\<rparr>"

definition TestDeactivation :: TestRun where
  "TestDeactivation = \<lparr>UserEntities =
     [\<lparr>Weight = 70, Item = \<lparr>Entity = standardUserEntity, RateMultiplier = 1\<rparr>\<rparr>,
      \<lparr>Weight = 30, Item = \<lparr>Entity = deactivatingUserEntity, RateMultiplier = 1\<rparr>\<rparr>]\<rparr>"

definition moreChannelsEntity :: UserEntity where
  "moreChannelsEntity = \<lparr>entity_Name = ''MoreChannelsEntity'', Actions =
     [\<lparr>Weight = 1, Item = actionMoreChannels\<rparr>]\<rparr>"

definition TestMoreChannelsBrowser :: TestRun where
  "TestMoreChannelsBrowser = \<lparr>UserEntities =
     [\<lparr>Weight = 70, Item = \<lparr>Entity = standardUserEntity, RateMultiplier = 1\<rparr>\<rparr>,
      \<lparr>Weight = 30, Item = \<lparr>Entity = moreChannelsEntity, RateMultiplier = 1\<rparr>\<rparr>]\<rparr>"

definition autocompleterUserEntity :: UserEntity where
  "autocompleterUserEntity = \<lparr>entity_Name = ''AutocompleterUserEntity'', Actions =
     [\<lparr>Weight = 5, Item = actionSearchChannel\<rparr>,
      \<lparr>Weight = 1, Item = actionAutocompleteChannel\<rparr>]\<rparr>"

definition TestAutocomplete :: TestRun where
  "TestAutocomplete = \<lparr>UserEntities =
     [\<lparr>Weight = 10, Item = \<lparr>Entity = standardUserEntity, RateMultiplier = 1\<rparr>\<rparr>,
      \<lparr>Weight = 90, Item = \<lparr>Entity = autocompleterUserEntity, RateMultiplier = 1\<rparr>\<rparr>]\<rparr>"

lemmas user_entity_defs = posterEntity_def reactionsPoster_def getChannelEntity_def searchEntity_def searchUsersEntity_def channelCreateDeleteEntity_def updateUserProfileEntity_def standardUserEntity_def webhookUserEntity_def townSquareSpammerUserEntity_def channelLeaverJoinerUserEntity_def teamLeaverJoinerUserEntity_def deactivatingUserEntity_def moreChannelsEntity_def autocompleterUserEntity_def

lemmas test_run_defs = TestBasicPosting_def TestPostReactions_def TestGetChannel_def TestSearch_def TestSearchUsers_def TestChannelCreateDelete_def TestUpdateUserProfile_def TestAll_def TestTownSquareSpam_def TestLeaveJoinChannel_def TestLeaveJoinTeam_def TestDeactivation_def TestMoreChannelsBrowser_def TestAutocomplete_def

section \<open>Well-formed tables\<close>

text \<open>A list of choices from which \<open>WeightedChoice\<close> always picks.\<close>

definition pickable :: "'a choice list \<Rightarrow> bool" where
  "pickable cs \<longleftrightarrow> cs \<noteq> [] \<and> (\<forall>c \<in> set cs. 0 < Weight c)"

definition run_ok :: "TestRun \<Rightarrow> bool" where
  "run_ok t \<longleftrightarrow> pickable (UserEntities t) \<and>
     (\<forall>u \<in> set (UserEntities t). pickable (Actions (Entity (Item u))) \<and> 0 < RateMultiplier (Item u))"

lemma pickable_simps [simp]: "pickable [c] \<longleftrightarrow> 0 < Weight c" "pickable (c # d # cs) \<longleftrightarrow> 0 < Weight c \<and> pickable (d # cs)"
  by (auto simp: pickable_def)

lemma test_runs_ok: "run_ok TestBasicPosting"
  "run_ok TestPostReactions"
  "run_ok TestGetChannel"
  "run_ok TestSearch"
  "run_ok TestSearchUsers"
  "run_ok TestChannelCreateDelete"
  "run_ok TestUpdateUserProfile"
  "run_ok TestAll"
  "run_ok TestTownSquareSpam"
  "run_ok TestLeaveJoinChannel"
  "run_ok TestLeaveJoinTeam"
  "run_ok TestDeactivation"
  "run_ok TestMoreChannelsBrowser"
  "run_ok TestAutocomplete"
  by (simp_all add: run_ok_def test_run_defs user_entity_defs)

end
