(* ===== verification/User_Login.thy ===== *)
theory User_Login
  imports Thread_Split Load_Config Command_Runner Bulk_Objects
begin

text \<open>
  \<^verbatim>\<open>loadtest/client.go\<close>: how an instance of the load test gets the clients of its users and of the
  administrator. The Mattermost server answers as the records \<open>login_server\<close> and \<open>admin_env\<close> say.
\<close>

section \<open>Clients\<close>

record client4 =
  client_Url :: string
  client_ApiUrl :: string
  client_AuthToken :: string
  client_AuthType :: string

definition newClientFromToken :: "string \<Rightarrow> string \<Rightarrow> client4" where
  "newClientFromToken token serverUrl =
     \<lparr>client_Url = serverUrl, client_ApiUrl = serverUrl @ ''/api/v4'', client_AuthToken = token, client_AuthType = ''BEARER''\<rparr>"

section \<open>Logging the users in\<close>

record login_server =
  user_by_email :: "string \<Rightarrow> string option"
  activate_user :: "string \<Rightarrow> bool"
  login_token :: "string \<Rightarrow> string \<Rightarrow> string option"

text \<open>The token a user gets; the empty string when one of the requests fails.\<close>

definition login_user :: "login_server \<Rightarrow> int \<Rightarrow> string" where
  "login_user srv userNum =
     (let email = ''success+user'' @ itoa userNum @ ''@simulator.amazonses.com''
      in case user_by_email srv email of
           None \<Rightarrow> []
         | Some uid \<Rightarrow>
             if \<not> activate_user srv uid then []
             else (case login_token srv email ''Loadtestpassword1@#%'' of None \<Rightarrow> [] | Some token \<Rightarrow> token))"

definition entity_user :: "bool \<Rightarrow> nat list \<Rightarrow> int \<Rightarrow> int option" where
  "entity_user randomize order entityNum =
     (if randomize then map_option int (go_nth order entityNum) else Some entityNum)"

text \<open>The function that \<open>ThreadSplit\<close> runs for each entity; \<open>None\<close> is the state after a panic.\<close>

definition login_action :: "login_server \<Rightarrow> bool \<Rightarrow> nat list \<Rightarrow> int \<Rightarrow> int \<Rightarrow> string list option \<Rightarrow> string list option" where
  "login_action srv randomize order entityStartNum i st = do {
     tokens \<leftarrow> st;
     userNum \<leftarrow> entity_user randomize order (i + entityStartNum);
     go_set tokens i (login_user srv userNum)
   }"

text \<open>The possible results, over all interleavings of the \<open>threads\<close> goroutines.\<close>

definition loginAsUsers :: "LoadTestConfig \<Rightarrow> login_server \<Rightarrow> int \<Rightarrow> rng \<Rightarrow> int \<Rightarrow> string list option \<Rightarrow> bool" where
  "loginAsUsers cfg srv entityStartNum r threads result \<longleftrightarrow>
     (case make_cap (NumActiveEntities (UserConfig cfg)) of
        None \<Rightarrow> result = None
      | Some _ \<Rightarrow>
          (case perm (NumUsers (EnvConfig cfg)) r of
             None \<Rightarrow> result = None
           | Some (order, _) \<Rightarrow>
               (\<exists>calls final. ThreadSplit (NumActiveEntities (UserConfig cfg)) threads
                   (login_action srv (RandomizeEntitySelection (UserConfig cfg)) order entityStartNum)
                   (Some (replicate (nat (NumActiveEntities (UserConfig cfg))) [])) calls final \<and>
                 result = map_option (filter (\<lambda>token. token \<noteq> [])) final)))"

section \<open>The administrator\<close>

record admin_user =
  admin_email :: string
  admin_roles :: string

record admin_env =
  ping :: "string \<times> bool"
  admin_login :: "nat \<Rightarrow> string \<Rightarrow> string \<Rightarrow> admin_user option"

fun split_on :: "char \<Rightarrow> string \<Rightarrow> string \<Rightarrow> string list" where
  "split_on sep cur [] = [cur]"
| "split_on sep cur (c # cs) = (if c = sep then cur # split_on sep [] cs else split_on sep (cur @ [c]) cs)"

definition IsInRole :: "string \<Rightarrow> string \<Rightarrow> bool" where
  "IsInRole userRoles inRole \<longleftrightarrow> inRole \<in> set (split_on (CHR '' '') [] userRoles)"

definition create_admin :: "string \<Rightarrow> string \<Rightarrow> string" where
  "create_admin adminEmail adminPass =
     ''user create --email '' @ adminEmail @ '' --password '' @ adminPass @ '' --system_admin --username ltadmin''"

definition verify_admin :: "string \<Rightarrow> string" where
  "verify_admin adminEmail = ''user verify '' @ adminEmail"

text \<open>The result is the logged-in administrator, if a client is returned, and the state of the host the
  commands run on. The failures of the two commands are only logged.\<close>

definition getAdminClient :: "admin_env \<Rightarrow> string \<Rightarrow> string \<Rightarrow> (string \<Rightarrow> 's \<Rightarrow> ((bool \<times> string) \<times> 's) option) option \<Rightarrow> 's \<Rightarrow>
    (admin_user option \<times> 's) option" where
  "getAdminClient env adminEmail adminPass cmdrun s =
     (if snd (ping env) \<or> fst (ping env) \<noteq> ''OK'' then Some (None, s)
      else do {
        (adminUser, s) \<leftarrow>
          (case admin_login env 0 adminEmail adminPass of
             Some user \<Rightarrow> Some (Some user, s)
           | None \<Rightarrow>
               (case cmdrun of
                  None \<Rightarrow> Some (None, s)
                | Some run \<Rightarrow> do {
                    (_, s) \<leftarrow> run (create_admin adminEmail adminPass) s;
                    (_, s) \<leftarrow> run (verify_admin adminEmail) s;
                    Some (admin_login env 1 adminEmail adminPass, s)
                  }));
        (case adminUser of
           None \<Rightarrow> Some (None, s)
         | Some user \<Rightarrow> if IsInRole (admin_roles user) ''system_admin'' then Some (Some user, s) else Some (None, s))
      })"

text \<open>On a usable host nothing panics, a client is always one of a system administrator, and commands are
  run only when the first log-in failed.\<close>

context command_runner
begin

lemma platform_history:
  assumes "good s"
  obtains r s' pre where "platform a s = Some (r, s')" "good s'" "invoke s' = invoke s" "loaded s' = loaded s"
    "history s' = history s @ pre" "fst ` set pre \<subseteq> {invoke s a}"
proof -
  obtain r s' where 1: "platform a s = Some (r, s')" using platform_total [OF assms] by blast
  have "\<exists>pre. history s' = history s @ pre \<and> fst ` set pre \<subseteq> {invoke s a}"
    using platform_at_most [OF assms 1] by (elim disjE) (auto intro: exI [of _ "[]"] exI [of _ "[(invoke s a, loaded s)]"])
  then show thesis using that 1 platform_good [OF assms 1] by blast
qed

lemma admin_client:
  assumes "good s"
  shows "\<exists>u s' pre. getAdminClient env em pw (Some platform) s = Some (u, s') \<and> good s' \<and> invoke s' = invoke s \<and>
    (\<forall>x. u = Some x \<longrightarrow> IsInRole (admin_roles x) ''system_admin'') \<and>
    history s' = history s @ pre \<and> fst ` set pre \<subseteq> invoke s ` {create_admin em pw, verify_admin em} \<and>
    (admin_login env 0 em pw \<noteq> None \<longrightarrow> s' = s)"
proof -
  obtain r1 s1 p1 where 1: "platform (create_admin em pw) s = Some (r1, s1)" "good s1" "invoke s1 = invoke s"
    "history s1 = history s @ p1" "fst ` set p1 \<subseteq> {invoke s (create_admin em pw)}"
    by (rule platform_history [OF assms])
  obtain r2 s2 p2 where 2: "platform (verify_admin em) s1 = Some (r2, s2)" "good s2" "invoke s2 = invoke s1"
    "history s2 = history s1 @ p2" "fst ` set p2 \<subseteq> {invoke s1 (verify_admin em)}"
    by (rule platform_history [OF 1(2)])
  have "fst ` set (p1 @ p2) \<subseteq> invoke s ` {create_admin em pw, verify_admin em}" using 1(3,5) 2(5) by auto
  moreover have "history s2 = history s @ p1 @ p2" using 1(4) 2(4) by simp
  ultimately have h: "\<exists>pre. history s2 = history s @ pre \<and> fst ` set pre \<subseteq> invoke s ` {create_admin em pw, verify_admin em}" by blast
  show ?thesis
  proof (cases "snd (ping env) \<or> fst (ping env) \<noteq> ''OK'' \<or> admin_login env 0 em pw \<noteq> None")
    case True
    then show ?thesis using assms by (auto simp: getAdminClient_def intro!: exI [of _ "[]"])
  next
    case False
    then have "\<exists>u. getAdminClient env em pw (Some platform) s = Some (u, s2) \<and>
        (\<forall>x. u = Some x \<longrightarrow> IsInRole (admin_roles x) ''system_admin'')"
      using 1(1) 2(1) by (auto simp: getAdminClient_def split: option.splits)
    then show ?thesis using False h 1(3) 2(2,3) by auto
  qed
qed

end

section \<open>Every interleaving gives the same tokens\<close>

lemma go_set_commute:
  "i \<noteq> j \<Longrightarrow> Option.bind (go_set ts i v) (\<lambda>t. go_set t j w) = Option.bind (go_set ts j w) (\<lambda>t. go_set t i v)"
  by (auto simp: go_set_def list_update_swap)

lemma login_action_commute:
  "login_action srv b order st i (login_action srv b order st j t) = login_action srv b order st j (login_action srv b order st i t)"
proof (cases "i = j")
  case False
  note c = go_set_commute [OF False]
  show ?thesis
  proof (cases t)
    case (Some ts)
    show ?thesis
    proof (cases "entity_user b order (i + st)"; cases "entity_user b order (j + st)")
      fix u v
      assume "entity_user b order (i + st) = Some u" "entity_user b order (j + st) = Some v"
      then show ?thesis using c [of ts "login_user srv u" "login_user srv v"] Some by (simp add: login_action_def)
    qed (simp_all add: login_action_def Some bind_eq_None_conv split: bind_splits)
  qed (simp add: login_action_def)
qed simp

lemma fold_login:
  assumes "\<forall>i < n. entity_user b order (int i + st) = Some (u i)" "k \<le> n"
  shows "fold (login_action srv b order st) (map int [0..<k]) (Some (replicate n [])) =
    Some (map (\<lambda>i. login_user srv (u i)) [0..<k] @ replicate (n - k) [])"
  using assms(2)
proof (induction k)
  case (Suc k)
  have k: "entity_user b order (int k + st) = Some (u k)" using assms(1) Suc.prems by simp
  have "replicate (n - k) ([] :: string) = [] # replicate (n - Suc k) []"
    using Suc.prems by (metis Suc_diff_Suc Suc_le_eq replicate_Suc)
  then show ?case using Suc k by (simp add: login_action_def go_set_def list_update_append)
qed simp

lemma fold_None: "fold (login_action srv b order st) is None = None"
  by (induction "is") (simp_all add: login_action_def)

lemma fold_login_panic:
  "i \<in> set is \<Longrightarrow> entity_user b order (i + st) = None \<Longrightarrow> fold (login_action srv b order st) is t = None"
proof (induction "is" arbitrary: t)
  case (Cons j js)
  show ?case
  proof (cases "i = j")
    case True
    then have "login_action srv b order st j t = None" using Cons.prems(2) by (cases t) (simp_all add: login_action_def)
    then show ?thesis by (simp add: fold_None)
  next
    case False
    then show ?thesis using Cons by simp
  qed
qed simp

section \<open>Who is logged in\<close>

definition user_at :: "LoadTestConfig \<Rightarrow> nat list \<Rightarrow> nat \<Rightarrow> int" where
  "user_at cfg order i = (if RandomizeEntitySelection (UserConfig cfg) then int (order ! i) else int i)"

definition logged_users :: "LoadTestConfig \<Rightarrow> int \<Rightarrow> nat list \<Rightarrow> int list" where
  "logged_users cfg start order = map (user_at cfg order) [nat start ..< nat start + nat (NumActiveEntities (UserConfig cfg))]"

lemma upto_map_int: "0 \<le> n \<Longrightarrow> [0 .. n - 1] = map int [0..<nat n]"
  by (rule nth_equalityI) auto

lemma login_sequential:
  assumes "0 \<le> NumActiveEntities (UserConfig cfg)" "0 < threads" "perm (NumUsers (EnvConfig cfg)) r = Some (order, r')"
  shows "loginAsUsers cfg srv start r threads res \<longleftrightarrow>
    res = map_option (filter (\<lambda>token. token \<noteq> []))
      (fold (login_action srv (RandomizeEntitySelection (UserConfig cfg)) order start)
        (map int [0..<nat (NumActiveEntities (UserConfig cfg))]) (Some (replicate (nat (NumActiveEntities (UserConfig cfg))) [])))"
proof -
  let ?n = "NumActiveEntities (UserConfig cfg)"
  let ?act = "login_action srv (RandomizeEntitySelection (UserConfig cfg)) order start"
  let ?s = "Some (replicate (nat ?n) [])"
  have seq: "t = fold ?act (map int [0..<nat ?n]) ?s" if "ThreadSplit ?n threads ?act ?s calls t" for calls t
    using ThreadSplit_sequential [OF assms(1,2) that] login_action_commute upto_map_int [OF assms(1)] by metis
  obtain calls t where "ThreadSplit ?n threads ?act ?s calls t" using ThreadSplit_exists [OF assms(2), of ?n ?act ?s] by blast
  with seq show ?thesis using assms(1,3) by (auto simp: loginAsUsers_def make_cap_def)
qed

lemma logged_users_nth:
  assumes "\<not> RandomizeEntitySelection (UserConfig cfg) \<or> start + NumActiveEntities (UserConfig cfg) \<le> int (length order)" "0 \<le> start"
  shows "\<forall>i < nat (NumActiveEntities (UserConfig cfg)).
    entity_user (RandomizeEntitySelection (UserConfig cfg)) order (int i + start) = Some (logged_users cfg start order ! i)"
  using assms by (auto simp: entity_user_def logged_users_def user_at_def go_nth_def nat_add_distrib add.commute)

lemma logged_users_map: "map (\<lambda>i. login_user srv (logged_users cfg start order ! i)) [0..<nat (NumActiveEntities (UserConfig cfg))] =
    map (login_user srv) (logged_users cfg start order)"
  by (rule nth_equalityI) (simp_all add: logged_users_def)

text \<open>The entities of different ranges are different users, all of them users that were generated.\<close>

lemma logged_users_ok:
  assumes "perm (NumUsers (EnvConfig cfg)) r = Some (order, r')" "0 \<le> start"
    "start + NumActiveEntities (UserConfig cfg) \<le> NumUsers (EnvConfig cfg)"
  shows "set (logged_users cfg start order) \<subseteq> {0 ..< NumUsers (EnvConfig cfg)}" "distinct (logged_users cfg start order)"
    "start + NumActiveEntities (UserConfig cfg) \<le> start' \<Longrightarrow> start' + NumActiveEntities (UserConfig cfg) \<le> NumUsers (EnvConfig cfg) \<Longrightarrow>
     set (logged_users cfg start order) \<inter> set (logged_users cfg start' order) = {}"
proof -
  let ?n = "NumActiveEntities (UserConfig cfg)" and ?U = "NumUsers (EnvConfig cfg)"
  note p = perm_props [OF assms(1)]
  have inj: "inj_on (user_at cfg order) {0..<nat ?U}" using p(1,2) by (auto simp: inj_on_def user_at_def nth_eq_iff_index_eq)
  have end_of: "nat st + nat ?n \<le> nat ?U" if "0 \<le> st" "st + ?n \<le> ?U" "0 \<le> ?n" for st using that by simp
  have mem: "user_at cfg order i \<in> {0..<?U}" if "i < nat ?U" for i
    using that p(1,3) nth_mem [of i order] by (auto simp: user_at_def)
  show "set (logged_users cfg start order) \<subseteq> {0 ..< ?U}"
    using mem end_of [OF assms(2,3)] by (cases "0 \<le> ?n") (fastforce simp: logged_users_def)+
  have "inj_on (user_at cfg order) {nat start ..< nat start + nat ?n}"
    using end_of [OF assms(2,3)] by (cases "0 \<le> ?n") (auto intro: inj_on_subset [OF inj])
  then show "distinct (logged_users cfg start order)" by (simp add: logged_users_def distinct_map)
  show "set (logged_users cfg start order) \<inter> set (logged_users cfg start' order) = {}"
    if "start + ?n \<le> start'" "start' + ?n \<le> ?U"
  proof (cases "0 \<le> ?n")
    case True
    then have s': "0 \<le> start'" "nat start + nat ?n \<le> nat start'" using that assms(2) by simp_all
    have "user_at cfg order ` {nat start ..< nat start + nat ?n} \<inter> user_at cfg order ` {nat start' ..< nat start' + nat ?n} =
        user_at cfg order ` ({nat start ..< nat start + nat ?n} \<inter> {nat start' ..< nat start' + nat ?n})"
      by (rule inj_on_image_Int [OF inj, symmetric]) (use end_of [OF assms(2,3) True] end_of [OF s'(1) that(2) True] in auto)
    then show ?thesis using s'(2) by (simp add: logged_users_def)
  next
    case False
    then show ?thesis by (simp add: logged_users_def)
  qed
qed

section \<open>Properties\<close>

text \<open>C33. Logging in gives the same tokens in every interleaving of the goroutines: those of the entities
  whose user could be found, activated and logged in, in order. The users are different ones among the
  generated ones, and two instances that share the seed and have disjoint ranges of entities have different
  users, also when the users are selected at random. When random selection leads past the last user, the
  process panics.\<close>

theorem loginAsUsers_result:
  assumes "0 \<le> NumActiveEntities (UserConfig cfg)" "0 < threads" "0 \<le> start"
    and "perm (NumUsers (EnvConfig cfg)) r = Some (order, r')"
  shows "(\<not> RandomizeEntitySelection (UserConfig cfg) \<or> start + NumActiveEntities (UserConfig cfg) \<le> NumUsers (EnvConfig cfg) \<longrightarrow>
      (\<forall>res. loginAsUsers cfg srv start r threads res \<longleftrightarrow>
         res = Some (filter (\<lambda>token. token \<noteq> []) (map (login_user srv) (logged_users cfg start order))))) \<and>
    (RandomizeEntitySelection (UserConfig cfg) \<and> 0 < NumActiveEntities (UserConfig cfg) \<and>
        NumUsers (EnvConfig cfg) < start + NumActiveEntities (UserConfig cfg) \<longrightarrow>
      (\<forall>res. loginAsUsers cfg srv start r threads res \<longleftrightarrow> res = None)) \<and>
    (start + NumActiveEntities (UserConfig cfg) \<le> NumUsers (EnvConfig cfg) \<longrightarrow>
      set (logged_users cfg start order) \<subseteq> {0 ..< NumUsers (EnvConfig cfg)} \<and> distinct (logged_users cfg start order) \<and>
      (\<forall>start'. start + NumActiveEntities (UserConfig cfg) \<le> start' \<and> start' + NumActiveEntities (UserConfig cfg) \<le> NumUsers (EnvConfig cfg) \<longrightarrow>
         set (logged_users cfg start order) \<inter> set (logged_users cfg start' order) = {}))"
proof (intro conjI impI allI)
  let ?n = "NumActiveEntities (UserConfig cfg)"
  note seq = login_sequential [OF assms(1,2,4), of srv start]
  have len: "int (length order) = NumUsers (EnvConfig cfg)" using perm_props [OF assms(4)] by simp
  fix res
  show "loginAsUsers cfg srv start r threads res \<longleftrightarrow>
      res = Some (filter (\<lambda>token. token \<noteq> []) (map (login_user srv) (logged_users cfg start order)))"
    if ok: "\<not> RandomizeEntitySelection (UserConfig cfg) \<or> start + ?n \<le> NumUsers (EnvConfig cfg)"
    using fold_login [OF logged_users_nth [of cfg start order] order.refl, of srv] ok assms(3) len
    by (simp add: seq logged_users_map)
  show "loginAsUsers cfg srv start r threads res \<longleftrightarrow> res = None"
    if bad: "RandomizeEntitySelection (UserConfig cfg) \<and> 0 < ?n \<and> NumUsers (EnvConfig cfg) < start + ?n"
  proof -
    have "entity_user (RandomizeEntitySelection (UserConfig cfg)) order (?n - 1 + start) = None"
      using bad len by (simp add: entity_user_def go_nth_def)
    moreover have "?n - 1 \<in> set (map int [0..<nat ?n])" using bad by (auto intro!: image_eqI [of _ _ "nat (?n - 1)"])
    ultimately show ?thesis using fold_login_panic by (simp only: seq option.map)
  qed
qed (use logged_users_ok [OF assms(4,3)] in blast)+

theorem loginAsUsers_result_witness:
  "\<exists>order r'. perm 4 \<lparr>src = (\<lambda>i. i), pos = 0\<rparr> = Some (order, r') \<and>
     loginAsUsers (zero_config\<lparr>EnvConfig := blank_config\<lparr>NumUsers := 4\<rparr>,
         UserConfig := (UserConfig zero_config)\<lparr>NumActiveEntities := 2, RandomizeEntitySelection := True\<rparr>\<rparr>)
       \<lparr>user_by_email = (\<lambda>e. Some e), activate_user = (\<lambda>_. True), login_token = (\<lambda>e p. Some ''t'')\<rparr>
       0 \<lparr>src = (\<lambda>i. i), pos = 0\<rparr> 3 (Some [''t'', ''t''])"
proof -
  let ?cfg = "zero_config\<lparr>EnvConfig := blank_config\<lparr>NumUsers := 4\<rparr>,
         UserConfig := (UserConfig zero_config)\<lparr>NumActiveEntities := 2, RandomizeEntitySelection := True\<rparr>\<rparr>"
  obtain order r' where o: "perm 4 \<lparr>src = (\<lambda>i. i), pos = 0\<rparr> = Some (order, r')"
    using perm_total [of 4 "\<lparr>src = (\<lambda>i. i), pos = 0\<rparr>"] by auto
  have p: "0 \<le> NumActiveEntities (UserConfig ?cfg)" "(0 :: int) < 3" "(0 :: int) \<le> 0"
    "perm (NumUsers (EnvConfig ?cfg)) \<lparr>src = (\<lambda>i. i), pos = 0\<rparr> = Some (order, r')"
    using o by simp_all
  let ?srv = "\<lparr>user_by_email = (\<lambda>e. Some e), activate_user = (\<lambda>_. True), login_token = (\<lambda>e p. Some ''t'')\<rparr>"
  have r: "RandomizeEntitySelection (UserConfig ?cfg)" "NumActiveEntities (UserConfig ?cfg) = 2" "NumUsers (EnvConfig ?cfg) = 4" by simp_all
  have t: "login_user ?srv u = ''t''" for u by (simp add: login_user_def)
  have l: "[nat 0 ..< nat 0 + nat 2] = [0, 1]" by (simp add: upt_rec)
  have "map (login_user ?srv) (logged_users ?cfg 0 order) = [''t'', ''t'']"
    unfolding logged_users_def r(2) l by (simp add: t)
  then have "loginAsUsers ?cfg ?srv 0 \<lparr>src = (\<lambda>i. i), pos = 0\<rparr> 3 (Some [''t'', ''t''])"
    using loginAsUsers_result [OF p, THEN conjunct1, rule_format, of ?srv] r by (simp only: list.simps filter.simps) simp
  with o show ?thesis by blast
qed

end
