(* ===== verification/Server_Setup.thy ===== *)
theory Server_Setup
  imports User_Login Server_Config Bulk_Posts Bulk_File
begin

text \<open>
  \<open>SetupServer\<close> of \<^verbatim>\<open>loadtest/setup_server.go\<close>: connecting, the plugin, generating the bulk load and
  sending it to the application server in chunks under the lock, and the maps from names to identifiers.
  The configuration check is in \<open>Server_Config\<close>, the lock protocol in \<open>Bulkload_Lock\<close>.
\<close>

section \<open>Sending the bulk load\<close>

definition import_command :: string where
  "import_command = ''import bulk --workers 64 --apply loadtestusers.json''"

text \<open>The operations of the command runner are arguments; a chunk is the list of its lines.\<close>

definition sendChunk :: "(string \<Rightarrow> 's \<Rightarrow> ((bool \<times> string) \<times> 's) option) \<Rightarrow> ('b \<Rightarrow> 's \<Rightarrow> (string + unit) \<times> 's) \<Rightarrow> 'b \<Rightarrow> 's \<Rightarrow>
    ((string + unit) \<times> 's) option" where
  "sendChunk platform send chunk s =
     (case send chunk s of
        (Inl e, s) \<Rightarrow> Some (Inl e, s)
      | (Inr _, s) \<Rightarrow>
          (case platform import_command s of
             None \<Rightarrow> None
           | Some ((success, out), s) \<Rightarrow>
               if \<not> success then Some (Inl (''Failed to bulk import users: '' @ out), s) else Some (Inr (), s)))"

text \<open>\<^verbatim>\<open>bufio.Scanner\<close> gives up on a line that does not fit its buffer of 64 KiB.\<close>

definition scannable :: "string \<Rightarrow> bool" where
  "scannable l \<longleftrightarrow> length l < 65536"

fun scan_chunks :: "(string \<Rightarrow> 's \<Rightarrow> ((bool \<times> string) \<times> 's) option) \<Rightarrow> (string list \<Rightarrow> 's \<Rightarrow> (string + unit) \<times> 's) \<Rightarrow>
    nat \<Rightarrow> string \<Rightarrow> string list \<Rightarrow> string list \<Rightarrow> 's \<Rightarrow> ((string + unit) \<times> 's) option" where
  "scan_chunks platform send line versionLine chunk [] s =
     (case sendChunk platform send chunk s of
        None \<Rightarrow> None
      | Some (Inl e, s) \<Rightarrow> Some (Inl (''failed to send bulkload result chunk: '' @ e), s)
      | Some (Inr _, s) \<Rightarrow> Some (Inr (), s))"
| "scan_chunks platform send line versionLine chunk (l # ls) s =
     (if \<not> scannable l
      then Some (Inl (''failed to scan bulkload result at line '' @ dec_nat line @ '': bufio.Scanner: token too long''), s)
      else (let versionLine = (if line = 1 then l else versionLine);
                chunk = chunk @ [l];
                line = line + 1
            in if line mod 1000 = 0
               then (case sendChunk platform send chunk s of
                       None \<Rightarrow> None
                     | Some (Inl e, s) \<Rightarrow> Some (Inl e, s)
                     | Some (Inr _, s) \<Rightarrow> scan_chunks platform send line versionLine [versionLine] ls s)
               else scan_chunks platform send line versionLine chunk ls s))"

text \<open>The chunks that a scan without errors sends.\<close>

fun chunk_list :: "nat \<Rightarrow> string \<Rightarrow> string list \<Rightarrow> string list \<Rightarrow> string list list" where
  "chunk_list line versionLine chunk [] = [chunk]"
| "chunk_list line versionLine chunk (l # ls) =
     (let versionLine = (if line = 1 then l else versionLine)
      in if (line + 1) mod 1000 = 0 then (chunk @ [l]) # chunk_list (line + 1) versionLine [versionLine] ls
         else chunk_list (line + 1) versionLine (chunk @ [l]) ls)"

definition chunks_of :: "string list \<Rightarrow> string list list" where
  "chunks_of ls = chunk_list 1 [] [] ls"

context command_runner
begin

text \<open>What was imported: each chunk with the command that imports it.\<close>

definition imports_of :: "'s \<Rightarrow> 'b list \<Rightarrow> ('c \<times> 'b option) list" where
  "imports_of s chunks = map (\<lambda>c. (invoke s import_command, Some c)) chunks"

lemma sendChunk_runs:
  assumes "good s"
  shows "\<exists>res s'. sendChunk platform send c s = Some (res, s') \<and> good s' \<and> invoke s' = invoke s \<and>
    (\<exists>n \<le> 1. history s' = history s @ imports_of s (take n [c])) \<and>
    (res = Inr () \<longrightarrow> history s' = history s @ imports_of s [c])"
proof (cases "send c s")
  case (Pair r s1)
  note g1 = send_good [OF assms Pair]
  show ?thesis
  proof (cases r)
    case (Inl e)
    then show ?thesis using Pair g1 by (auto simp: sendChunk_def imports_of_def)
  next
    case (Inr u)
    obtain ok out s2 where 2: "platform import_command s1 = Some ((ok, out), s2)" using platform_total g1 by fastforce
    have g2: "good s2" "invoke s2 = invoke s" using platform_good [OF _ 2] g1 by simp_all
    have l: "loaded s1 = Some c" using send_loads [OF assms] Pair Inr by blast
    have h: "history s2 = history s \<or> history s2 = history s @ imports_of s [c]"
      using platform_at_most [OF _ 2] g1 l by (simp add: imports_of_def)
    moreover have "ok \<Longrightarrow> history s2 = history s @ imports_of s [c]"
      using platform_runs [of s1 import_command out s2] 2 g1 l by (simp add: imports_of_def)
    moreover have "\<exists>n \<le> 1. history s2 = history s @ imports_of s (take n [c])"
      using h by (auto simp: imports_of_def intro: exI [of _ 0] exI [of _ 1])
    ultimately show ?thesis using Pair Inr 2 g2 by (auto simp: sendChunk_def)
  qed
qed

end

section \<open>The chunks hold the file\<close>

lemma chunk_list_sent: "(line + 1) mod 1000 = 0 \<Longrightarrow> 1 < line \<Longrightarrow>
    chunk_list line v chunk (l # ls) = (chunk @ [l]) # chunk_list (line + 1) v [v] ls"
  and chunk_list_kept: "(line + 1) mod 1000 \<noteq> 0 \<Longrightarrow> 1 < line \<Longrightarrow>
    chunk_list line v chunk (l # ls) = chunk_list (line + 1) v (chunk @ [l]) ls"
  by simp_all

lemma chunk_list_nonempty [simp]: "chunk_list line v chunk ls \<noteq> []"
  by (induction line v chunk ls rule: chunk_list.induct) (simp_all add: Let_def)

lemma hd_tl_concat: "xs \<noteq> [] \<Longrightarrow> concat xs = hd xs @ concat (tl xs)"
  by (cases xs) auto

lemma chunk_list_content:
  "1 < line \<Longrightarrow> chunk \<noteq> [] \<Longrightarrow>
   hd (chunk_list line v chunk ls) \<noteq> [] \<and> hd (hd (chunk_list line v chunk ls)) = hd chunk \<and>
   hd (chunk_list line v chunk ls) @ concat (map tl (tl (chunk_list line v chunk ls))) = chunk @ ls \<and>
   (\<forall>c \<in> set (tl (chunk_list line v chunk ls)). c \<noteq> [] \<and> hd c = v)"
proof (induction ls arbitrary: line chunk)
  case (Cons l ls)
  have l: "1 < line + 1" using Cons.prems by simp
  show ?case
  proof (cases "(line + 1) mod 1000 = 0")
    case True
    let ?r = "chunk_list (line + 1) v [v] ls"
    have IH: "hd ?r \<noteq> []" "hd (hd ?r) = v" "hd ?r @ concat (map tl (tl ?r)) = v # ls" "\<forall>c \<in> set (tl ?r). c \<noteq> [] \<and> hd c = v"
      using Cons.IH [OF l, of "[v]"] by simp_all
    obtain c cs where r: "?r = c # cs" using chunk_list_nonempty by (meson neq_Nil_conv)
    have "concat (map tl ?r) = ls" using IH(1,3) unfolding r by (cases c) auto
    moreover have "\<forall>c \<in> set ?r. c \<noteq> [] \<and> hd c = v" using IH unfolding r by auto
    ultimately show ?thesis unfolding chunk_list_sent [OF True Cons.prems(1)] using Cons.prems(2) by simp
  next
    case False
    show ?thesis unfolding chunk_list_kept [OF False Cons.prems(1)] using Cons.IH [OF l, of "chunk @ [l]"] Cons.prems(2) by simp
  qed
qed simp

lemma chunk_list_sizes:
  "1 < line \<Longrightarrow>
   length (hd (chunk_list line v chunk ls)) \<le> length chunk + (1000 - line mod 1000) \<and>
   (\<forall>c \<in> set (tl (chunk_list line v chunk ls)). length c \<le> 1001) \<and>
   length (chunk_list line v chunk ls) + line div 1000 = 1 + (line + length ls) div 1000"
proof (induction ls arbitrary: line chunk)
  case (Cons l ls)
  have l: "1 < line + 1" "line + 1 + length ls = line + length (l # ls)" using Cons.prems by simp_all
  show ?case
  proof (cases "(line + 1) mod 1000 = 0")
    case True
    then have d: "line mod 1000 = 999" "(line + 1) div 1000 = line div 1000 + 1" by (simp_all add: mod_Suc div_Suc split: if_splits)
    let ?r = "chunk_list (line + 1) v [v] ls"
    have IH: "length (hd ?r) \<le> 1001" "\<forall>c \<in> set (tl ?r). length c \<le> 1001"
      "length ?r + (line div 1000 + 1) = 1 + (line + length (l # ls)) div 1000"
      using Cons.IH [OF l(1), of "[v]"] True d(2) l(2) by simp_all
    obtain c cs where r: "?r = c # cs" using chunk_list_nonempty by (meson neq_Nil_conv)
    have "\<forall>c \<in> set ?r. length c \<le> 1001" using IH(1,2) unfolding r by auto
    then show ?thesis unfolding chunk_list_sent [OF True Cons.prems] using IH(3) d(1) by simp
  next
    case False
    then have d: "(line + 1) mod 1000 = line mod 1000 + 1" "(line + 1) div 1000 = line div 1000"
      by (simp_all add: mod_Suc div_Suc split: if_splits)
    have m: "line mod 1000 < 1000" by simp
    then have "line mod 1000 + 1 \<le> 1000" by simp
    then have "length (chunk @ [l]) + (1000 - (line + 1) mod 1000) = length chunk + (1000 - line mod 1000)" using d(1) by simp
    then show ?thesis unfolding chunk_list_kept [OF False Cons.prems]
      using Cons.IH [OF l(1), of "chunk @ [l]"] d(2) l(2) by simp
  qed
qed simp

lemma chunks_of_content:
  "chunks_of ls \<noteq> []" "hd (chunks_of ls) @ concat (map tl (tl (chunks_of ls))) = ls"
  "\<forall>c \<in> set (tl (chunks_of ls)). c \<noteq> [] \<and> hd c = hd ls \<and> length c \<le> 1001"
  "length (hd (chunks_of ls)) \<le> 999" "length (chunks_of ls) = 1 + (length ls + 1) div 1000"
proof -
  have "chunks_of ls \<noteq> [] \<and> hd (chunks_of ls) @ concat (map tl (tl (chunks_of ls))) = ls \<and>
    (\<forall>c \<in> set (tl (chunks_of ls)). c \<noteq> [] \<and> hd c = hd ls \<and> length c \<le> 1001) \<and>
    length (hd (chunks_of ls)) \<le> 999 \<and> length (chunks_of ls) = 1 + (length ls + 1) div 1000"
  proof (cases ls)
    case (Cons l rest)
    have "chunks_of ls = chunk_list 2 l [l] rest" by (simp add: chunks_of_def Cons numeral_2_eq_2)
    then show ?thesis using chunk_list_content [of 2 "[l]" l rest] chunk_list_sizes [of 2 l "[l]" rest] Cons by simp
  qed (simp add: chunks_of_def)
  then show "chunks_of ls \<noteq> []" "hd (chunks_of ls) @ concat (map tl (tl (chunks_of ls))) = ls"
    "\<forall>c \<in> set (tl (chunks_of ls)). c \<noteq> [] \<and> hd c = hd ls \<and> length c \<le> 1001"
    "length (hd (chunks_of ls)) \<le> 999" "length (chunks_of ls) = 1 + (length ls + 1) div 1000" by blast+
qed

text \<open>The interface with files of lines, and what the loop over the lines runs through it.\<close>

locale line_importer = command_runner platform send good loaded invoke history
  for platform :: "string \<Rightarrow> 's \<Rightarrow> ((bool \<times> string) \<times> 's) option"
    and send :: "string list \<Rightarrow> 's \<Rightarrow> (string + unit) \<times> 's"
    and good :: "'s \<Rightarrow> bool"
    and loaded :: "'s \<Rightarrow> string list option"
    and invoke :: "'s \<Rightarrow> string \<Rightarrow> 'c"
    and history :: "'s \<Rightarrow> ('c \<times> string list option) list"
begin

lemma scan_runs:
  assumes "good s"
  shows "\<exists>res s'. scan_chunks platform send line v chunk ls s = Some (res, s') \<and> good s' \<and> invoke s' = invoke s \<and>
    (\<exists>n. history s' = history s @ imports_of s (take n (chunk_list line v chunk ls))) \<and>
    (res = Inr () \<longrightarrow> (\<forall>l \<in> set ls. scannable l) \<and> history s' = history s @ imports_of s (chunk_list line v chunk ls))"
  using assms
proof (induction ls arbitrary: line v chunk s)
  case Nil
  from sendChunk_runs [OF this, of chunk] obtain res s' where
    "sendChunk platform send chunk s = Some (res, s')" "good s'" "invoke s' = invoke s"
    "\<exists>n \<le> 1. history s' = history s @ imports_of s (take n [chunk])"
    "res = Inr () \<longrightarrow> history s' = history s @ imports_of s [chunk]" by blast
  then show ?case by (cases res) auto
next
  case (Cons l ls)
  let ?v = "if line = 1 then l else v"
  show ?case
  proof (cases "scannable l")
    case False
    then show ?thesis using Cons.prems by (auto simp: imports_of_def intro: exI [of _ 0])
  next
    case ok: True
    show ?thesis
    proof (cases "(line + 1) mod 1000 = 0")
      case False
      then show ?thesis using Cons.IH [OF Cons.prems, of "line + 1" ?v "chunk @ [l]"] ok by simp
    next
      case True
      from sendChunk_runs [OF Cons.prems, of "chunk @ [l]"] obtain res s1 where
        1: "sendChunk platform send (chunk @ [l]) s = Some (res, s1)" "good s1" "invoke s1 = invoke s"
        "\<exists>n \<le> 1. history s1 = history s @ imports_of s (take n [chunk @ [l]])"
        "res = Inr () \<longrightarrow> history s1 = history s @ imports_of s [chunk @ [l]]" by blast
      let ?rest = "chunk_list (line + 1) ?v [?v] ls"
      have cl: "chunk_list line v chunk (l # ls) = (chunk @ [l]) # ?rest" using True by simp
      show ?thesis
      proof (cases res)
        case (Inl e)
        obtain n where n: "n \<le> 1" "history s1 = history s @ imports_of s (take n [chunk @ [l]])" using 1(4) by blast
        then have "take n [chunk @ [l]] = take n (chunk_list line v chunk (l # ls))"
          unfolding cl by (cases n) auto
        then show ?thesis using 1(1-3) n(2) Inl ok True by (auto intro!: exI [of _ n])
      next
        case (Inr u)
        obtain res' s' where 2: "scan_chunks platform send (line + 1) ?v [?v] ls s1 = Some (res', s')" "good s'" "invoke s' = invoke s1"
          "\<exists>n. history s' = history s1 @ imports_of s1 (take n ?rest)"
          "res' = Inr () \<longrightarrow> (\<forall>l \<in> set ls. scannable l) \<and> history s' = history s1 @ imports_of s1 ?rest"
          using Cons.IH [OF 1(2), of "line + 1" ?v "[?v]"] by blast
        have h: "history s1 = history s @ imports_of s [chunk @ [l]]" using 1(5) Inr by simp
        have im: "imports_of s1 = imports_of s" by (simp add: imports_of_def [abs_def] 1(3))
        obtain n where n: "history s' = history s1 @ imports_of s1 (take n ?rest)" using 2(4) by blast
        have "scan_chunks platform send line v chunk (l # ls) s = Some (res', s')" using 1(1) 2(1) Inr ok True by simp
        moreover have "history s' = history s @ imports_of s (take (Suc n) (chunk_list line v chunk (l # ls)))"
          unfolding cl n h im by (simp add: imports_of_def)
        moreover have "res' = Inr () \<longrightarrow> (\<forall>l \<in> set (l # ls). scannable l) \<and>
            history s' = history s @ imports_of s (chunk_list line v chunk (l # ls))"
          unfolding cl using 2(5) ok h im by (auto simp: imports_of_def)
        moreover have "invoke s' = invoke s" using 2(3) 1(3) by simp
        ultimately show ?thesis using 2(2) by (intro exI [of _ res'] exI [of _ s'] conjI) (assumption | rule exI)+
      qed
    qed
  qed
qed

end

interpretation local_importer: line_importer Local_RunPlatformCommand Local_SendLoadtestFile local_good lh_file local_invoke lh_history
  by unfold_locales

interpretation ssh_importer: line_importer SSH_platform SSH_SendLoadtestFile "\<lambda>_. True" sh_file ssh_platform_command sh_history
  by unfold_locales

section \<open>Setting up\<close>

text \<open>What the set-up meets outside: the connection for commands, the answers to the log-in of the
  administrator, the plugin requests (\<open>Some\<close> is an error), whether \<open>getBulkloadLock\<close> returned true, and
  the teams and channels as pairs of name and identifier.\<close>

record 's setup_env =
  connection :: "string + 's"
  admin_answers :: admin_env
  open_plugin :: "string option"
  GetPlugins :: "string + string list \<times> string list"
  UploadPlugin :: "string option"
  EnablePlugin :: "string option"
  bulkload_lock :: bool
  list_teams :: "int \<Rightarrow> string + (string \<times> string) list"
  list_channels :: "string \<Rightarrow> nat \<Rightarrow> (string \<times> string) list option"

datatype setup_event = PluginRemoved | PluginUploaded | PluginEnabled | Locked | Unlocked | CachesInvalidated | Closed

text \<open>\<open>deferred\<close> are the calls that run when the function returns, the latest first.\<close>

record 's setup_run =
  run_host :: "'s option"
  run_server :: admin_server
  run_events :: "setup_event list"
  deferred :: "setup_event list"

record ServerSetupData =
  TeamIdMap :: "string \<rightharpoonup> string"
  ChannelIdMap :: "string \<rightharpoonup> (string \<rightharpoonup> string)"
  TownSquareIdMap :: "string \<rightharpoonup> string"
  BulkloadResult :: GenerateBulkloadFileResult

definition emit :: "setup_event list \<Rightarrow> 's setup_run \<Rightarrow> 's setup_run" where
  "emit es st = st\<lparr>run_events := run_events st @ es\<rparr>"

definition defer_call :: "setup_event \<Rightarrow> 's setup_run \<Rightarrow> 's setup_run" where
  "defer_call e st = st\<lparr>deferred := e # deferred st\<rparr>"

definition then_do :: "((string + 'a) \<times> 's) option \<Rightarrow> ('a \<Rightarrow> 's \<Rightarrow> ((string + 'b) \<times> 's) option) \<Rightarrow> ((string + 'b) \<times> 's) option" where
  "then_do m k = (case m of None \<Rightarrow> None | Some (Inl e, s) \<Rightarrow> Some (Inl e, s) | Some (Inr x, s) \<Rightarrow> k x s)"

definition open_runner :: "(string \<Rightarrow> 's \<Rightarrow> ((bool \<times> string) \<times> 's) option) \<Rightarrow> 's setup_env \<Rightarrow> 's setup_run \<Rightarrow>
    ((string + unit) \<times> 's setup_run) option" where
  "open_runner platform env st =
     (case connection env of
        Inl e \<Rightarrow> Some (Inr (), st)
      | Inr s \<Rightarrow>
          (case platform ''version'' s of
             None \<Rightarrow> None
           | Some ((success, out), s) \<Rightarrow>
               if success then Some (Inr (), defer_call Closed (st\<lparr>run_host := Some s\<rparr>))
               else Some (Inr (), emit [Closed] st)))"

definition admin_step :: "(string \<Rightarrow> 's \<Rightarrow> ((bool \<times> string) \<times> 's) option) \<Rightarrow> 's setup_env \<Rightarrow> ConnectionConfiguration \<Rightarrow> 's setup_run \<Rightarrow>
    ((string + unit) \<times> 's setup_run) option" where
  "admin_step platform env conn st = do {
     (client, st) \<leftarrow>
       (case run_host st of
          None \<Rightarrow> (case getAdminClient (admin_answers env) (AdminEmail conn) (AdminPassword conn) None () of
                     None \<Rightarrow> None
                   | Some (u, _) \<Rightarrow> Some (u, st))
        | Some s \<Rightarrow> (case getAdminClient (admin_answers env) (AdminEmail conn) (AdminPassword conn) (Some platform) s of
                     None \<Rightarrow> None
                   | Some (u, s) \<Rightarrow> Some (u, st\<lparr>run_host := Some s\<rparr>)));
     (case client of None \<Rightarrow> Some (Inl ''Unable create admin client.'', st) | Some _ \<Rightarrow> Some (Inr (), st))
   }"

definition config_step :: "'s setup_run \<Rightarrow> ((string + unit) \<times> 's setup_run) option" where
  "config_step st =
     (let (res, srv) = checkConfigForLoadtests (run_server st) in Some (res, st\<lparr>run_server := srv\<rparr>))"

definition plugin_id :: string where
  "plugin_id = ''com.mattermost.sample-plugin''"

text \<open>An installed plugin is removed only when some plugin is active.\<close>

definition plugin_step :: "'s setup_env \<Rightarrow> int \<Rightarrow> 's setup_run \<Rightarrow> ((string + unit) \<times> 's setup_run) option" where
  "plugin_step env numPlugins st =
     (if numPlugins \<le> 0 then Some (Inr (), st)
      else (case open_plugin env of
              Some e \<Rightarrow> Some (Inl e, st)
            | None \<Rightarrow>
                (case GetPlugins env of
                   Inl e \<Rightarrow> Some (Inl e, st)
                 | Inr (active, inactive) \<Rightarrow>
                     (let st = (if length active > 0
                                then emit (map (\<lambda>_. PluginRemoved) (filter (\<lambda>p. p = plugin_id) (active @ inactive))) st else st)
                      in case UploadPlugin env of
                           Some e \<Rightarrow> Some (Inl e, st)
                         | None \<Rightarrow>
                             (let st = emit [PluginUploaded] st
                              in case EnablePlugin env of
                                   Some e \<Rightarrow> Some (Inl e, st)
                                 | None \<Rightarrow> Some (Inr (), emit [PluginEnabled] st))))))"

definition generate_step :: "GenerateBulkloadFileResult option \<Rightarrow> 's setup_run \<Rightarrow> ((string + GenerateBulkloadFileResult) \<times> 's setup_run) option" where
  "generate_step bulk st = (case bulk of None \<Rightarrow> None | Some b \<Rightarrow> Some (Inr b, st))"

definition bulk_step :: "(string \<Rightarrow> 's \<Rightarrow> ((bool \<times> string) \<times> 's) option) \<Rightarrow> (string list \<Rightarrow> 's \<Rightarrow> (string + unit) \<times> 's) \<Rightarrow>
    's setup_env \<Rightarrow> bool \<Rightarrow> string list \<Rightarrow> 's setup_run \<Rightarrow> ((string + unit) \<times> 's setup_run) option" where
  "bulk_step platform send env skip file_lines st =
     (if skip then Some (Inr (), st)
      else (case run_host st of
              None \<Rightarrow> Some (Inl ''Failed to bulk import users because was unable to connect to app server'', st)
            | Some s \<Rightarrow>
                (if \<not> bulkload_lock env then Some (Inr (), st)
                 else (let st = defer_call Unlocked (emit [Locked] st)
                       in case scan_chunks platform send 1 [] [] file_lines s of
                            None \<Rightarrow> None
                          | Some (res, s) \<Rightarrow> Some (res, st\<lparr>run_host := Some s\<rparr>)))))"

definition index_team :: "string \<Rightarrow> string \<Rightarrow> (string \<times> string) list \<Rightarrow> ServerSetupData \<Rightarrow> ServerSetupData" where
  "index_team name teamId channels d =
     d\<lparr>TeamIdMap := (TeamIdMap d)(name \<mapsto> teamId),
       ChannelIdMap := (ChannelIdMap d)(name \<mapsto> fold (\<lambda>(n, i) m. m(n \<mapsto> i)) channels Map.empty),
       TownSquareIdMap := fold (\<lambda>(n, i) m. if n = ''town-square'' then m(name \<mapsto> i) else m) channels (TownSquareIdMap d)\<rparr>"

fun index_teams :: "'s setup_env \<Rightarrow> (string \<times> string) list \<Rightarrow> ServerSetupData \<Rightarrow> (string + ServerSetupData) option" where
  "index_teams env [] d = Some (Inr d)"
| "index_teams env ((name, teamId) # teams) d =
     (case page_loop (list_channels env teamId) 0 [] of
        None \<Rightarrow> None
      | Some (Inl _) \<Rightarrow> Some (Inl ''Could not get public channels for team'')
      | Some (Inr channels) \<Rightarrow> index_teams env teams (index_team name teamId channels d))"

definition index_step :: "'s setup_env \<Rightarrow> int \<Rightarrow> GenerateBulkloadFileResult \<Rightarrow> 's setup_run \<Rightarrow> ((string + ServerSetupData) \<times> 's setup_run) option" where
  "index_step env numTeams bulk st =
     (let st = emit [CachesInvalidated] st
      in case list_teams env (numTeams + 200) of
           Inl e \<Rightarrow> Some (Inl e, st)
         | Inr teams \<Rightarrow>
             (case index_teams env teams \<lparr>TeamIdMap = Map.empty, ChannelIdMap = Map.empty, TownSquareIdMap = Map.empty, BulkloadResult = bulk\<rparr> of
                None \<Rightarrow> None
              | Some res \<Rightarrow> Some (res, st)))"

text \<open>\<open>encode\<close> is the JSON encoding of a line. The result also shows the host, the server and the events
  once the deferred calls have run; \<open>None\<close> is a panic or a listing that never ends.\<close>

definition SetupServer :: "(string \<Rightarrow> 's \<Rightarrow> ((bool \<times> string) \<times> 's) option) \<Rightarrow> (string list \<Rightarrow> 's \<Rightarrow> (string + unit) \<times> 's) \<Rightarrow>
    's setup_env \<Rightarrow> admin_server \<Rightarrow> (LineImportData \<Rightarrow> string) \<Rightarrow> (nat \<Rightarrow> faker) \<Rightarrow> rng \<Rightarrow> event list \<Rightarrow> LoadTestConfig \<Rightarrow>
    ((string + ServerSetupData) \<times> 's setup_run) option" where
  "SetupServer platform send env server encode seed_faker r schedule cfg =
     (case then_do (open_runner platform env \<lparr>run_host = None, run_server = server, run_events = [], deferred = []\<rparr>) (\<lambda>_ st.
           then_do (admin_step platform env (ConnConfig cfg) st) (\<lambda>_ st.
           then_do (config_step st) (\<lambda>_ st.
           then_do (plugin_step env (NumPlugins (EnvConfig cfg)) st) (\<lambda>_ st.
           then_do (generate_step (GenerateBulkloadFile seed_faker r schedule (EnvConfig cfg)) st) (\<lambda>bulk st.
           then_do (bulk_step platform send env (SkipBulkload (ConnConfig cfg)) (map encode (File bulk)) st) (\<lambda>_ st.
           index_step env (NumTeams (EnvConfig cfg)) bulk st)))))) of
        None \<Rightarrow> None
      | Some (res, st) \<Rightarrow> Some (res, st\<lparr>run_events := run_events st @ deferred st, deferred := []\<rparr>))"

section \<open>What the set-up leaves behind\<close>

text \<open>All results of a computation satisfy a predicate; the rule for sequences.\<close>

definition always :: "((string + 'a) \<times> 's) option \<Rightarrow> (string + 'a \<Rightarrow> 's \<Rightarrow> bool) \<Rightarrow> bool" where
  "always m Q \<longleftrightarrow> (\<forall>r s. m = Some (r, s) \<longrightarrow> Q r s)"

lemma always_then:
  assumes "always m P" "\<And>e s. P (Inl e) s \<Longrightarrow> Q (Inl e) s" "\<And>x s. P (Inr x) s \<Longrightarrow> always (k x s) Q"
  shows "always (then_do m k) Q"
  using assms unfolding always_def then_do_def by (auto split: option.splits sum.splits)

lemma emit_simps [simp]:
  "run_host (emit es st) = run_host st" "run_server (emit es st) = run_server st" "deferred (emit es st) = deferred st"
  "run_events (emit es st) = run_events st @ es"
  "run_host (defer_call e st) = run_host st" "run_server (defer_call e st) = run_server st"
  "deferred (defer_call e st) = e # deferred st" "run_events (defer_call e st) = run_events st"
  by (simp_all add: emit_def defer_call_def)

text \<open>The events the lock and the connection see.\<close>

definition lock_events :: "setup_event list \<Rightarrow> setup_event list" where
  "lock_events es = filter (\<lambda>e. e \<in> {Locked, Unlocked, Closed}) es"

lemma lock_events_simps [simp]:
  "lock_events (xs @ ys) = lock_events xs @ lock_events ys" "lock_events [] = []"
  "lock_events (Locked # xs) = Locked # lock_events xs" "lock_events (Unlocked # xs) = Unlocked # lock_events xs"
  "lock_events (Closed # xs) = Closed # lock_events xs" "lock_events (PluginRemoved # xs) = lock_events xs"
  "lock_events (PluginUploaded # xs) = lock_events xs" "lock_events (PluginEnabled # xs) = lock_events xs"
  "lock_events (CachesInvalidated # xs) = lock_events xs" "lock_events (map (\<lambda>_. PluginRemoved) qs) = []"
  by (simp_all add: lock_events_def)

text \<open>What a successful set-up has run on the host after the commands of the earlier steps: with the lock the
  imports of all chunks, without it nothing.\<close>

definition imported_by :: "('s \<Rightarrow> ('c \<times> string list option) list) \<Rightarrow> ('s \<Rightarrow> string \<Rightarrow> 'c) \<Rightarrow> 's setup_env \<Rightarrow>
    ConnectionConfiguration \<Rightarrow> string list \<Rightarrow> 's setup_run \<Rightarrow> bool" where
  "imported_by history invoke env conn ls st \<longleftrightarrow>
     (\<exists>s s' pre. connection env = Inr s \<and> run_host st = Some s' \<and>
        fst ` set pre \<subseteq> invoke s ` {''version'', create_admin (AdminEmail conn) (AdminPassword conn), verify_admin (AdminEmail conn)} \<and>
        (if bulkload_lock env
         then (\<forall>l \<in> set ls. scannable l) \<and>
           history s' = history s @ pre @ map (\<lambda>c. (invoke s import_command, Some c)) (chunks_of ls)
         else history s' = history s @ pre))"

lemma index_teams_bulk: "index_teams env teams d = Some (Inr d') \<Longrightarrow> BulkloadResult d' = BulkloadResult d"
  by (induction teams arbitrary: d) (auto simp: index_team_def split: option.splits sum.splits)

context line_importer
begin

text \<open>Before the import: the host has only seen the commands of the earlier steps, and its closing is
  deferred exactly when it is in use.\<close>

definition ready :: "'s setup_env \<Rightarrow> ConnectionConfiguration \<Rightarrow> 's setup_run \<Rightarrow> bool" where
  "ready env conn st \<longleftrightarrow>
     (case run_host st of
        None \<Rightarrow> deferred st = [] \<and> lock_events (run_events st) = (case connection env of Inl _ \<Rightarrow> [] | Inr _ \<Rightarrow> [Closed])
      | Some s' \<Rightarrow> deferred st = [Closed] \<and> lock_events (run_events st) = [] \<and>
          (\<exists>s pre. connection env = Inr s \<and> good s' \<and> invoke s' = invoke s \<and> history s' = history s @ pre \<and>
             fst ` set pre \<subseteq> invoke s ` {''version'', create_admin (AdminEmail conn) (AdminPassword conn), verify_admin (AdminEmail conn)}))"

lemma open_ready:
  assumes "\<forall>s. connection env = Inr s \<longrightarrow> good s"
    and "open_runner platform env \<lparr>run_host = None, run_server = server, run_events = [], deferred = []\<rparr> = Some (r, st)"
  shows "ready env conn st \<and> r = Inr () \<and> run_server st = server"
proof (cases "connection env")
  case (Inl e)
  then show ?thesis using assms(2) by (auto simp: open_runner_def ready_def)
next
  case (Inr s)
  obtain q s' pre where p: "platform ''version'' s = Some (q, s')" "good s'" "invoke s' = invoke s"
    "history s' = history s @ pre" "fst ` set pre \<subseteq> {invoke s ''version''}"
    using assms(1) Inr by (metis platform_history)
  have "\<exists>pre. history s' = history s @ pre \<and>
      fst ` set pre \<subseteq> invoke s ` {''version'', create_admin (AdminEmail conn) (AdminPassword conn), verify_admin (AdminEmail conn)}"
    using p(4,5) by blast
  then show ?thesis using assms(2) Inr p(1-3) by (cases q) (auto simp: open_runner_def ready_def split: if_splits)
qed

lemma admin_ready:
  assumes "ready env conn st" "admin_step platform env conn st = Some (r, st')"
  shows "ready env conn st' \<and> run_server st' = run_server st"
proof (cases "run_host st")
  case None
  then show ?thesis using assms by (auto simp: admin_step_def split: option.splits)
next
  case (Some s1)
  then obtain s pre where s: "connection env = Inr s" "good s1" "invoke s1 = invoke s" "history s1 = history s @ pre"
    "fst ` set pre \<subseteq> invoke s ` {''version'', create_admin (AdminEmail conn) (AdminPassword conn), verify_admin (AdminEmail conn)}"
    "deferred st = [Closed]" "lock_events (run_events st) = []"
    using assms(1) by (auto simp: ready_def)
  obtain u s2 more where a: "getAdminClient (admin_answers env) (AdminEmail conn) (AdminPassword conn) (Some platform) s1 = Some (u, s2)"
    "good s2" "invoke s2 = invoke s1" "history s2 = history s1 @ more"
    "fst ` set more \<subseteq> invoke s1 ` {create_admin (AdminEmail conn) (AdminPassword conn), verify_admin (AdminEmail conn)}"
    using admin_client [OF s(2)] by blast
  have "fst ` set (pre @ more) \<subseteq> invoke s ` {''version'', create_admin (AdminEmail conn) (AdminPassword conn), verify_admin (AdminEmail conn)}"
    using s(3,5) a(5) by auto
  then have "ready env conn (st\<lparr>run_host := Some s2\<rparr>)"
    using s a(2-4) by (auto simp: ready_def intro!: exI [of _ "pre @ more"])
  then show ?thesis using assms(2) Some a(1) by (auto simp: admin_step_def split: option.splits)
qed

lemma config_ready: "ready env conn st \<Longrightarrow> config_step st = Some (r, st') \<Longrightarrow> ready env conn st'"
  by (cases "run_host st") (auto simp: config_step_def ready_def case_prod_beta)

lemma plugin_ready: "ready env conn st \<Longrightarrow> plugin_step env n st = Some (r, st') \<Longrightarrow> ready env conn st' \<and> run_server st' = run_server st"
  by (auto simp: plugin_step_def ready_def Let_def split: if_splits option.splits sum.splits)

text \<open>After the import step: the lock events with the deferred calls, and what was imported.\<close>

definition settled :: "'s setup_env \<Rightarrow> ConnectionConfiguration \<Rightarrow> 's setup_run \<Rightarrow> bool" where
  "settled env conn st \<longleftrightarrow>
     lock_events (run_events st @ deferred st) \<in> {[], [Closed], [Locked, Unlocked, Closed]} \<and>
     (lock_events (run_events st @ deferred st) = [] \<longleftrightarrow> (\<forall>s. connection env \<noteq> Inr s))"

lemma ready_settled: "ready env conn st \<Longrightarrow> settled env conn st"
  by (auto simp: ready_def settled_def split: option.splits sum.splits)

abbreviation imported_all :: "'s setup_env \<Rightarrow> ConnectionConfiguration \<Rightarrow> string list \<Rightarrow> 's setup_run \<Rightarrow> bool" where
  "imported_all \<equiv> imported_by history invoke"

lemma imported_all_host: "run_host t = run_host s \<Longrightarrow> imported_all env conn ls t = imported_all env conn ls s"
  unfolding imported_by_def by simp

lemma bulk_settled:
  assumes "ready env conn st" "bulk_step platform send env skip ls st = Some (r, st')"
  shows "settled env conn st' \<and> run_server st' = run_server st \<and> (r = Inr () \<and> \<not> skip \<longrightarrow> imported_all env conn ls st')"
proof (cases "skip \<or> run_host st = None \<or> \<not> bulkload_lock env")
  case True
  then have "st' = st" using assms(2) by (auto simp: bulk_step_def split: option.splits if_splits)
  moreover have "imported_all env conn ls st" if "r = Inr ()" "\<not> skip"
    using True assms that by (cases "run_host st") (auto simp: bulk_step_def ready_def imported_by_def)
  ultimately show ?thesis using ready_settled [OF assms(1)] by blast
next
  case False
  then obtain s1 where h: "run_host st = Some s1" by auto
  then obtain s pre where s: "connection env = Inr s" "good s1" "invoke s1 = invoke s" "history s1 = history s @ pre"
    "fst ` set pre \<subseteq> invoke s ` {''version'', create_admin (AdminEmail conn) (AdminPassword conn), verify_admin (AdminEmail conn)}"
    "deferred st = [Closed]" "lock_events (run_events st) = []"
    using assms(1) by (auto simp: ready_def)
  obtain res s2 where sc: "scan_chunks platform send 1 [] [] ls s1 = Some (res, s2)"
    "res = Inr () \<longrightarrow> (\<forall>l \<in> set ls. scannable l) \<and> history s2 = history s1 @ imports_of s1 (chunks_of ls)"
    using scan_runs [OF s(2), of 1 "[]" "[]" ls] unfolding chunks_of_def by blast
  have st': "st' = (defer_call Unlocked (emit [Locked] st))\<lparr>run_host := Some s2\<rparr>" "r = res"
    using assms(2) False h sc(1) by (simp_all add: bulk_step_def Let_def)
  have "imports_of s1 = imports_of s" by (simp add: imports_of_def [abs_def] s(3))
  then have "res = Inr () \<longrightarrow> imported_all env conn ls st'"
    using s(1,4,5) sc(2) False unfolding st' imported_by_def imports_of_def by auto
  then show ?thesis using s(1,6,7) by (simp add: st' settled_def)
qed

lemma index_settled:
  "settled env conn st \<Longrightarrow> index_step env n bulk st = Some (r, st') \<Longrightarrow>
    settled env conn st' \<and> run_host st' = run_host st \<and> run_server st' = run_server st \<and> (\<forall>d. r = Inr d \<longrightarrow> BulkloadResult d = bulk)"
proof -
  note index_teams_bulk
  then show "settled env conn st \<Longrightarrow> index_step env n bulk st = Some (r, st') \<Longrightarrow>
    settled env conn st' \<and> run_host st' = run_host st \<and> run_server st' = run_server st \<and> (\<forall>d. r = Inr d \<longrightarrow> BulkloadResult d = bulk)"
    by (fastforce simp: index_step_def settled_def Let_def dest: index_teams_bulk split: option.splits sum.splits)
qed

text \<open>Every run: the lock and the connection are given back on every path, and a run that succeeds has
  checked the configuration and, unless the bulk load is skipped, imported it.\<close>

lemma SetupServer_run:
  assumes "\<forall>s. connection env = Inr s \<longrightarrow> good s"
    and "SetupServer platform send env server encode seed_faker r schedule cfg = Some (res, st)"
  shows "deferred st = [] \<and> lock_events (run_events st) \<in> {[], [Closed], [Locked, Unlocked, Closed]} \<and>
    (lock_events (run_events st) = [] \<longleftrightarrow> (\<forall>s. connection env \<noteq> Inr s)) \<and>
    (\<forall>d. res = Inr d \<longrightarrow> checkConfigForLoadtests server = (Inr (), run_server st) \<and>
       GenerateBulkloadFile seed_faker r schedule (EnvConfig cfg) = Some (BulkloadResult d) \<and>
       (\<not> SkipBulkload (ConnConfig cfg) \<longrightarrow> imported_all env (ConnConfig cfg) (map encode (File (BulkloadResult d))) st))"
proof -
  let ?conn = "ConnConfig cfg" and ?gen = "GenerateBulkloadFile seed_faker r schedule (EnvConfig cfg)"
  let ?k5 = "\<lambda>bulk _ st. index_step env (NumTeams (EnvConfig cfg)) bulk st"
  let ?k4 = "\<lambda>_ st. then_do (generate_step ?gen st) (\<lambda>bulk st.
     then_do (bulk_step platform send env (SkipBulkload ?conn) (map encode (File bulk)) st) (?k5 bulk))"
  let ?k3 = "\<lambda>_ st. then_do (plugin_step env (NumPlugins (EnvConfig cfg)) st) ?k4"
  let ?k2 = "\<lambda>_ st. then_do (config_step st) ?k3"
  let ?k1 = "\<lambda>_ st. then_do (admin_step platform env ?conn st) ?k2"
  let ?Q = "\<lambda>r st. settled env ?conn st \<and>
    (\<forall>d. r = Inr d \<longrightarrow> checkConfigForLoadtests server = (Inr (), run_server st) \<and> ?gen = Some (BulkloadResult d) \<and>
       (\<not> SkipBulkload ?conn \<longrightarrow> imported_all env ?conn (map encode (File (BulkloadResult d))) st))"
  have 4: "always (?k4 x st) ?Q" if "ready env ?conn st" "checkConfigForLoadtests server = (Inr (), run_server st)" for x st
  proof (rule always_then [of _ "\<lambda>r st'. st' = st \<and> (\<exists>bulk. r = Inr bulk \<and> ?gen = Some bulk)"])
    fix bulk st' assume b: "st' = st \<and> (\<exists>bulk'. Inr bulk = Inr bulk' \<and> ?gen = Some bulk')"
    show "always (then_do (bulk_step platform send env (SkipBulkload ?conn) (map encode (File bulk)) st') (?k5 bulk)) ?Q"
    proof (rule always_then [of _ "\<lambda>r st'. settled env ?conn st' \<and> run_server st' = run_server st \<and>
            (r = Inr () \<and> \<not> SkipBulkload ?conn \<longrightarrow> imported_all env ?conn (map encode (File bulk)) st')"])
      fix x s
      assume s: "settled env ?conn s \<and> run_server s = run_server st \<and>
        (Inr x = Inr () \<and> \<not> SkipBulkload ?conn \<longrightarrow> imported_all env ?conn (map encode (File bulk)) s)"
      show "always (?k5 bulk x s) ?Q" unfolding always_def
      proof (intro allI impI)
        fix q t assume "?k5 bulk x s = Some (q, t)"
        from index_settled [OF conjunct1 [OF s] this] show "?Q q t"
          using s b that(2) imported_all_host [of t s] by simp
      qed
    qed (use bulk_settled [OF that(1)] b in \<open>auto simp: always_def\<close>)
  qed (auto simp: always_def generate_step_def split: option.splits)
  have 3: "always (?k3 x st) ?Q" if rdy: "ready env ?conn st" and chk: "checkConfigForLoadtests server = (Inr (), run_server st)" for x st
  proof (rule always_then [of _ "\<lambda>_ st'. ready env ?conn st' \<and> run_server st' = run_server st"])
    show "always (plugin_step env (NumPlugins (EnvConfig cfg)) st) (\<lambda>_ st'. ready env ?conn st' \<and> run_server st' = run_server st)"
      unfolding always_def using plugin_ready [OF rdy] by blast
  qed (use ready_settled in simp, intro 4, use chk in simp_all)
  have 2: "always (?k2 x st) ?Q" if rdy: "ready env ?conn st" and srv: "run_server st = server" for x st
  proof (rule always_then [of _ "\<lambda>r st'. ready env ?conn st' \<and> checkConfigForLoadtests server = (r, run_server st')"])
    show "always (config_step st) (\<lambda>r st'. ready env ?conn st' \<and> checkConfigForLoadtests server = (r, run_server st'))"
      unfolding always_def using config_ready [OF rdy] srv by (auto simp: config_step_def case_prod_beta)
  qed (use ready_settled in simp, intro 3, simp_all)
  have 1: "always (?k1 x st) ?Q" if rdy: "ready env ?conn st" and srv: "run_server st = server" for x st
  proof (rule always_then [of _ "\<lambda>_ st'. ready env ?conn st' \<and> run_server st' = server"])
    show "always (admin_step platform env ?conn st) (\<lambda>_ st'. ready env ?conn st' \<and> run_server st' = server)"
      unfolding always_def using admin_ready [OF rdy] srv by blast
  qed (use ready_settled in simp, intro 2, simp_all)
  let ?st0 = "\<lparr>run_host = None, run_server = server, run_events = [], deferred = []\<rparr>"
  have "always (then_do (open_runner platform env ?st0) ?k1) ?Q"
  proof (rule always_then [of _ "\<lambda>_ st'. ready env ?conn st' \<and> run_server st' = server"])
    show "always (open_runner platform env ?st0) (\<lambda>_ st'. ready env ?conn st' \<and> run_server st' = server)"
      unfolding always_def using open_ready [OF assms(1)] by blast
  qed (use ready_settled in simp, intro 1, simp_all)
  then show ?thesis using assms(2)
    by (auto simp: SetupServer_def always_def settled_def imported_by_def split: option.splits)
qed

end

section \<open>Properties\<close>

definition chunks_ok :: "string list \<Rightarrow> string list list \<Rightarrow> bool" where
  "chunks_ok ls chunks \<longleftrightarrow> chunks \<noteq> [] \<and> hd chunks @ concat (map tl (tl chunks)) = ls \<and>
     (\<forall>c \<in> set (tl chunks). c \<noteq> [] \<and> hd c = hd ls \<and> length c \<le> 1001) \<and> length (hd chunks) \<le> 999 \<and>
     length chunks = 1 + (length ls + 1) div 1000"


definition easy_env :: "string + 's \<Rightarrow> 's setup_env" where
  "easy_env c = \<lparr>connection = c, admin_answers = \<lparr>ping = (''OK'', False), admin_login = (\<lambda>_ em pw. Some \<lparr>admin_email = em, admin_roles = ''system_user system_admin''\<rparr>)\<rparr>,
     open_plugin = None, GetPlugins = Inr ([], []), UploadPlugin = None, EnablePlugin = None, bulkload_lock = True,
     list_teams = (\<lambda>_. Inr []), list_channels = (\<lambda>_ _. Some [])\<rparr>"

definition easy_host :: "string list ssh_host" where
  "easy_host = \<lparr>ssh_dir = ''/opt'', ssh_config = [], sh_session = (\<lambda>_. None), sh_sessions = 0, sh_run = (\<lambda>_. (None, [])),
     sh_scp = (\<lambda>_ _. None), sh_file = None, sh_history = [], sh_closed = False\<rparr>"

lemma easy_admin: "getAdminClient (admin_answers (easy_env c)) em pw run s = Some (Some \<lparr>admin_email = em, admin_roles = ''system_user system_admin''\<rparr>, s)"
  by (simp add: getAdminClient_def easy_env_def IsInRole_def)

lemma easy_steps:
  "open_runner platform (easy_env (Inl e)) st = Some (Inr (), st)" "admin_step platform (easy_env c) conn st = Some (Inr (), st)"
proof -
  show "open_runner platform (easy_env (Inl e)) st = Some (Inr (), st)" by (simp add: open_runner_def easy_env_def)
  show "admin_step platform (easy_env c) conn st = Some (Inr (), st)"
    by (cases st; cases "run_host st") (simp_all add: admin_step_def easy_admin)
qed

lemma easy_runs:
  fixes faker0 :: "nat \<Rightarrow> faker"
  defines "cfg \<equiv> zero_config\<lparr>EnvConfig := small_config\<rparr>"
  assumes check: "checkConfigForLoadtests plain_server = (Inr (), srv)"
    and gen: "GenerateBulkloadFile faker0 r es small_config = Some bulk"
  shows "\<exists>res st. SetupServer SSH_platform SSH_SendLoadtestFile (easy_env (Inr easy_host)) plain_server encode faker0 r es cfg = Some (res, st)"
    "SetupServer Local_RunPlatformCommand Local_SendLoadtestFile (easy_env (Inl ''no host'')) plain_server encode faker0 r es cfg =
       Some (Inl ''Failed to bulk import users because was unable to connect to app server'',
             \<lparr>run_host = None, run_server = srv, run_events = [], deferred = []\<rparr>)"
proof -
  have n: "NumPlugins small_config = 0" "\<not> SkipBulkload (ConnConfig cfg)" "EnvConfig cfg = small_config"
    by (simp_all add: cfg_def small_config_def blank_config_def zero_config_def)
  have e: "connection (easy_env c) = c" "bulkload_lock (easy_env c)" "list_teams (easy_env c) k = Inr []" for c :: "string + 'b" and k
    by (simp_all add: easy_env_def)
  note steps = then_do_def easy_steps config_step_def check plugin_step_def generate_step_def gen n bulk_step_def e
  show "SetupServer Local_RunPlatformCommand Local_SendLoadtestFile (easy_env (Inl ''no host'')) plain_server encode faker0 r es cfg =
       Some (Inl ''Failed to bulk import users because was unable to connect to app server'',
             \<lparr>run_host = None, run_server = srv, run_events = [], deferred = []\<rparr>)"
    by (simp add: SetupServer_def steps)
  obtain out s1 where v: "SSH_platform ''version'' easy_host = Some ((True, out), s1)"
    by (simp add: SSH_platform_def SSH_RunPlatformCommand_def SSH_RunCommand_def new_session_def easy_host_def)
  obtain q s2 where sc: "scan_chunks SSH_platform SSH_SendLoadtestFile 1 [] [] (map encode (File bulk)) s1 = Some (q, s2)"
    using ssh_importer.scan_runs [OF TrueI] by blast
  note sc = sc [unfolded One_nat_def]
  have o: "open_runner SSH_platform (easy_env (Inr easy_host)) st = Some (Inr (), defer_call Closed (st\<lparr>run_host := Some s1\<rparr>))" for st
    by (simp add: open_runner_def e v)
  show "\<exists>res st. SetupServer SSH_platform SSH_SendLoadtestFile (easy_env (Inr easy_host)) plain_server encode faker0 r es cfg = Some (res, st)"
    by (cases q) (simp_all add: SetupServer_def o steps index_step_def sc)
qed


lemma fold_channels: "fold (\<lambda>(n, i) m. m(n \<mapsto> i)) cs m = m ++ map_of (rev cs)"
proof (induction cs arbitrary: m)
  case (Cons c cs)
  obtain n i where c: "c = (n, i)" by force
  have "fold (\<lambda>(n, i) m. m(n \<mapsto> i)) (c # cs) m = m(n \<mapsto> i) ++ map_of (rev cs)" by (simp only: fold_simps comp_apply c prod.case Cons.IH)
  also have "\<dots> = m ++ map_of (rev (c # cs))" by (rule ext) (simp add: c map_add_def split: option.split)
  finally show ?case .
qed simp

lemma fold_town: "fold (\<lambda>(n, i) m. if n = t then m(name \<mapsto> i) else m) cs m =
    (case map_of (rev cs) t of None \<Rightarrow> m | Some i \<Rightarrow> m(name \<mapsto> i))"
proof (induction cs arbitrary: m)
  case (Cons c cs)
  obtain n i where c: "c = (n, i)" by force
  show ?case unfolding c by (auto simp: Cons.IH map_add_def split: option.split)
qed simp

definition indexed :: "(string \<Rightarrow> (string \<times> string) list) \<Rightarrow> (string \<times> string) list \<Rightarrow> ServerSetupData \<Rightarrow> bool" where
  "indexed chs teams d \<longleftrightarrow>
     (\<forall>name. TeamIdMap d name = map_of teams name \<and>
        ChannelIdMap d name = map_option (\<lambda>tid. map_of (rev (chs tid))) (map_of teams name) \<and>
        TownSquareIdMap d name = Option.bind (map_of teams name) (\<lambda>tid. map_of (rev (chs tid)) ''town-square''))"

lemma index_team_indexed:
  assumes "indexed chs teams d" "name \<notin> fst ` set teams"
  shows "indexed chs (teams @ [(name, tid)]) (index_team name tid (chs tid) d)"
proof -
  have n: "map_of teams name = None" using assms(2) by (simp add: map_of_eq_None_iff)
  show ?thesis using assms(1) n unfolding indexed_def index_team_def
    by (auto simp: fold_channels fold_town map_add_def split: option.split)
qed

lemma index_teams_indexed:
  assumes "\<And>tid. list_channels env tid = page_of (chs tid)"
  shows "indexed chs seen d \<Longrightarrow> distinct (map fst (seen @ teams)) \<Longrightarrow> \<exists>d'. index_teams env teams d = Some (Inr d') \<and> indexed chs (seen @ teams) d'"
proof (induction teams arbitrary: seen d)
  case (Cons t teams)
  obtain name tid where t: "t = (name, tid)" by force
  have "page_loop (list_channels env tid) 0 [] = Some (Inr (chs tid))" using page_loop_all [of "chs tid" 0] assms by simp
  moreover have "indexed chs (seen @ [t]) (index_team name tid (chs tid) d)"
    unfolding t using Cons.prems by (intro index_team_indexed) (auto simp: t)
  moreover have "distinct (map fst ((seen @ [t]) @ teams))" using Cons.prems(2) by simp
  ultimately show ?case using Cons.IH [of "seen @ [t]" "index_team name tid (chs tid) d"] by (simp add: t)
qed auto

text \<open>Against a server that serves the lists of teams and channels in pages, the maps are complete: every
  team is mapped to its identifier, the channels of the team are mapped by name, the last of the same name
  winning, and the channel named town-square is the team's default channel. No page is asked for in vain
  and the listing ends.\<close>

theorem id_maps_complete:
  assumes "\<And>tid. list_channels env tid = page_of (chs tid)" "distinct (map fst teams)" "list_teams env (n + 200) = Inr teams"
  shows "\<exists>d st'. index_step env n bulk st = Some (Inr d, st') \<and> BulkloadResult d = bulk \<and> run_host st' = run_host st \<and>
    (\<forall>name tid. (name, tid) \<in> set teams \<longrightarrow> TeamIdMap d name = Some tid \<and>
       ChannelIdMap d name = Some (map_of (rev (chs tid))) \<and> TownSquareIdMap d name = map_of (rev (chs tid)) ''town-square'') \<and>
    (\<forall>name. name \<notin> fst ` set teams \<longrightarrow> TeamIdMap d name = None \<and> ChannelIdMap d name = None)"
proof -
  let ?d0 = "\<lparr>TeamIdMap = Map.empty, ChannelIdMap = Map.empty, TownSquareIdMap = Map.empty, BulkloadResult = bulk\<rparr>"
  have "indexed chs [] ?d0" by (simp add: indexed_def)
  then obtain d where d: "index_teams env teams ?d0 = Some (Inr d)" "indexed chs teams d"
    using index_teams_indexed [OF assms(1), of "[]" ?d0 teams] assms(2) by auto
  have b: "BulkloadResult d = bulk" using index_teams_bulk [OF d(1)] by simp
  have m: "map_of teams name = Some tid" if "(name, tid) \<in> set teams" for name tid
    using that assms(2) by simp
  have z: "map_of teams name = None" if "name \<notin> fst ` set teams" for name using that by (simp add: map_of_eq_None_iff)
  have "index_step env n bulk st = Some (Inr d, emit [CachesInvalidated] st)" using d(1) assms(3) by (simp add: index_step_def)
  moreover have "run_host (emit [CachesInvalidated] st) = run_host st" by simp
  ultimately show ?thesis using b m z d(2) unfolding indexed_def
    by (intro exI [of _ d] exI [of _ "emit [CachesInvalidated] st"]) simp
qed

theorem id_maps_complete_witness:
  "\<exists>d st'. index_step ((easy_env (Inr easy_host))\<lparr>list_teams := (\<lambda>_. Inr [(''a'', ''1'')]),
        list_channels := (\<lambda>tid. page_of [(''town-square'', ''c1''), (''x'', ''c2'')])\<rparr>) 1
      \<lparr>File = [], res_Users = [], res_Teams = [], res_Channels = [], res_Schemes = [], res_Emojis = []\<rparr>
      \<lparr>run_host = None, run_server = plain_server, run_events = [], deferred = []\<rparr> = Some (Inr d, st') \<and>
    TownSquareIdMap d ''a'' = Some ''c1'' \<and> TeamIdMap d ''b'' = None"
proof -
  let ?env = "(easy_env (Inr easy_host))\<lparr>list_teams := (\<lambda>_. Inr [(''a'', ''1'')]),
        list_channels := (\<lambda>tid. page_of [(''town-square'', ''c1''), (''x'', ''c2'')])\<rparr>"
  have "\<And>tid. list_channels ?env tid = page_of ((\<lambda>_. [(''town-square'', ''c1''), (''x'', ''c2'')]) tid)"
    "distinct (map fst [(''a'', ''1'')])" "list_teams ?env (1 + 200) = Inr [(''a'', ''1'')]" by simp_all
  from id_maps_complete [OF this, of "\<lparr>File = [], res_Users = [], res_Teams = [], res_Channels = [], res_Schemes = [], res_Emojis = []\<rparr>"
      "\<lparr>run_host = None, run_server = plain_server, run_events = [], deferred = []\<rparr>"]
  obtain d st' where d: "index_step ?env 1 \<lparr>File = [], res_Users = [], res_Teams = [], res_Channels = [], res_Schemes = [], res_Emojis = []\<rparr>
      \<lparr>run_host = None, run_server = plain_server, run_events = [], deferred = []\<rparr> = Some (Inr d, st')"
    and m: "\<forall>name tid. (name, tid) \<in> set [(''a'', ''1'')] \<longrightarrow> TeamIdMap d name = Some tid \<and>
       ChannelIdMap d name = Some (map_of (rev [(''town-square'', ''c1''), (''x'', ''c2'')])) \<and>
       TownSquareIdMap d name = map_of (rev [(''town-square'', ''c1''), (''x'', ''c2'')]) ''town-square''"
    and z: "\<forall>name. name \<notin> fst ` set [(''a'', ''1'')] \<longrightarrow> TeamIdMap d name = None \<and> ChannelIdMap d name = None" by blast
  have "TownSquareIdMap d ''a'' = Some ''c1''" using m [rule_format, of "''a''" "''1''"] by simp
  moreover have "TeamIdMap d ''b'' = None" using z [rule_format, of "''b''"] by simp
  ultimately show ?thesis using d by blast
qed

end
