(* ===== verification/Run_Test.thy ===== *)
theory Run_Test
  imports Test_Runs User_Login Server_Setup Instance_Registry Timing_Stats
begin

text \<open>
  \<^verbatim>\<open>loadtest/run.go\<close>: a test run from the registration of the instance to the last timings. The steps that are
  modelled elsewhere (the instance, the set-up, the log-in) appear with their results.
\<close>

section \<open>Collecting the timings\<close>

text \<open>The monitoring goroutine on the reports it receives until the channel is closed: the statistics it
  logs, and what is left. \<open>keys\<close> is the order in which the map is enumerated.\<close>

fun monitor :: "((string \<rightharpoonup> RouteStats) \<Rightarrow> string list) \<Rightarrow> TimedRoundTripperReport list \<Rightarrow> ClientTimingStats \<Rightarrow>
    ClientTimingStats list \<times> ClientTimingStats" where
  "monitor keys [] ts = (if CountResults (keys (Routes ts)) ts > 0 then ([ts], Reset ts) else ([], ts))"
| "monitor keys (r # rs) ts =
     (let ts = AddTimingReport ts r in
      if CountResults (keys (Routes ts)) ts > 100
      then (let (logged, rest) = monitor keys rs (Reset ts) in (ts # logged, rest))
      else monitor keys rs ts)"

section \<open>Starting the entities\<close>

record started_entity =
  started_Number :: int
  started_Name :: string
  started_Actions :: "(entity_config \<Rightarrow> unit act) choice list"
  started_User :: UserImportData
  started_Client :: client4
  started_WebSocket :: bool
  started_ActionRate :: int
  started_Polling :: bool

text \<open>Nanoseconds.\<close>

definition action_rate :: "LoadTestConfig \<Rightarrow> real \<Rightarrow> int" where
  "action_rate cfg rateMultiplier = go_int (f64 (f64 (of_int (ActionRateMilliseconds (UserConfig cfg))) * rateMultiplier)) * 10 ^ 6"

text \<open>The loop over the tokens; \<open>i\<close> is the position. An error of \<open>WeightedChoice\<close> skips the entity, an
  interrupt ends the loop (and the run), an index out of range panics.\<close>

fun start_entities :: "LoadTestConfig \<Rightarrow> TestRun \<Rightarrow> int \<Rightarrow> UserImportData list \<Rightarrow> (nat \<Rightarrow> bool) \<Rightarrow> (nat \<Rightarrow> bool) \<Rightarrow>
    nat \<Rightarrow> string list \<Rightarrow> rng \<Rightarrow> (started_entity list \<times> bool) option" where
  "start_entities cfg test startNum users websocket interrupt i [] r = Some ([], False)"
| "start_entities cfg test startNum users websocket interrupt i (entityToken # tokens) r =
     (let entityNum = startNum + int i in
      case WeightedChoice r (UserEntities test) of
        None \<Rightarrow> None
      | Some (Inl err, r) \<Rightarrow> start_entities cfg test startNum users websocket interrupt (i + 1) tokens r
      | Some (Inr userTypeChoice, r) \<Rightarrow>
          (let usertype = Item userTypeChoice in
           case go_nth users entityNum of
             None \<Rightarrow> None
           | Some user \<Rightarrow>
               (let e = \<lparr>started_Number = entityNum, started_Name = entity_Name (Entity usertype),
                         started_Actions = Actions (Entity usertype), started_User = user,
                         started_Client = newClientFromToken entityToken (ServerURL (ConnConfig cfg)),
                         started_WebSocket = websocket i, started_ActionRate = action_rate cfg (RateMultiplier usertype),
                         started_Polling = DoStatusPolling (UserConfig cfg)\<rparr>
                in if interrupt i then Some ([e], True)
                   else (case start_entities cfg test startNum users websocket interrupt (i + 1) tokens r of
                           None \<Rightarrow> None
                         | Some (es, stopped) \<Rightarrow> Some (e # es, stopped)))))"

section \<open>The run\<close>

record run_env =
  settings :: "string + LoadTestConfig"
  database :: bool
  new_instance :: "string + instance_handle"
  server_setup :: "string + ServerSetupData"
  admin_client :: bool
  user_tokens :: "string list option"
  websockets :: "nat \<Rightarrow> bool"
  interrupts :: "nat \<Rightarrow> bool"
  run_rng :: rng

datatype run_event = Registered | Started "started_entity list" | ProfileScheduled | StopEntities | TimingsClosed | InstanceClosed

definition run_registered :: "run_env \<Rightarrow> LoadTestConfig \<Rightarrow> instance_handle \<Rightarrow> TestRun \<Rightarrow> ((string + unit) \<times> run_event list) option" where
  "run_registered env cfg inst test =
     (let n = NumActiveEntities (UserConfig cfg); start = EntityStartNum inst; users = NumUsers (EnvConfig cfg) in
      if start + n > users
      then Some (Inl (''Cannot start '' @ itoa n @ '' entities starting at '' @ itoa start @ '' with only '' @ itoa users @ '' users''), [])
      else (case server_setup env of
              Inl e \<Rightarrow> Some (Inl e, [])
            | Inr serverData \<Rightarrow>
                if \<not> admin_client env then Some (Inl ''Unable create admin client.'', [])
                else (case user_tokens env of
                        None \<Rightarrow> None
                      | Some tokens \<Rightarrow>
                          if tokens = [] then Some (Inl ''Failed to login as any users'', [])
                          else (case start_entities cfg test start (res_Users (BulkloadResult serverData)) (websockets env)
                                       (interrupts env) 0 tokens (run_rng env) of
                                  None \<Rightarrow> None
                                | Some (es, stopped) \<Rightarrow>
                                    if stopped then Some (Inr (), [Started es, StopEntities])
                                    else Some (Inr (), [Started es] @
                                           (if PProfDelayMinutes (ResultsConfig_of cfg) \<noteq> 0 then [ProfileScheduled] else []) @
                                           [StopEntities, TimingsClosed])))))"

text \<open>The instance is closed by a deferred call.\<close>

definition RunTest :: "run_env \<Rightarrow> TestRun \<Rightarrow> ((string + unit) \<times> run_event list) option" where
  "RunTest env test =
     (case settings env of
        Inl e \<Rightarrow> Some (Inl (''failed to read loadtest configuration: '' @ e), [])
      | Inr cfg \<Rightarrow>
          if \<not> database env then Some (Inl ''failed to connect to database'', [])
          else (case new_instance env of
                  Inl e \<Rightarrow> Some (Inl e, [])
                | Inr inst \<Rightarrow>
                    (case run_registered env cfg inst test of
                       None \<Rightarrow> None
                     | Some (res, es) \<Rightarrow> Some (res, Registered # es @ [InstanceClosed]))))"

section \<open>Profiles and results\<close>

text \<open>\<open>run args\<close> is the outcome of \<^verbatim>\<open>go args\<close>: the error output and the error, or the output. The state is
  the files written; \<open>write\<close> gives the error of a write.\<close>

definition goCmd :: "(string list \<Rightarrow> (string \<times> string) + string) \<Rightarrow> string list \<Rightarrow> string + string" where
  "goCmd run args =
     (case run args of
        Inl (stderr, err) \<Rightarrow> Inl (''cmd.Run(go ['' @ join args '' '' @ '']) failed: '' @ stderr @ '': '' @ err)
      | Inr stdout \<Rightarrow> Inr stdout)"

definition pprofSvg :: "(string list \<Rightarrow> (string \<times> string) + string) \<Rightarrow> (string \<Rightarrow> string option) \<Rightarrow> string \<Rightarrow> string \<Rightarrow>
    string list \<Rightarrow> (string \<rightharpoonup> string) \<Rightarrow> (string + unit) \<times> (string \<rightharpoonup> string)" where
  "pprofSvg run write pprofUrl svgFilename otherArgs fs =
     (let args = [''tool'', ''pprof'']; args = args @ otherArgs; args = args @ [''-svg'', pprofUrl]
      in case goCmd run args of
           Inl err \<Rightarrow> (Inl (''pprof svg failed: '' @ err), fs)
         | Inr svgBytes \<Rightarrow>
             (case write svgFilename of
                Some err \<Rightarrow> (Inl err, fs)
              | None \<Rightarrow> (Inr (), fs(svgFilename \<mapsto> svgBytes))))"

text \<open>Each of the three profiles is tried whatever became of the ones before.\<close>

definition RunProfile :: "(string list \<Rightarrow> (string \<times> string) + string) \<Rightarrow> (string \<Rightarrow> string option) \<Rightarrow> string \<Rightarrow> int \<Rightarrow>
    (string \<rightharpoonup> string) \<Rightarrow> (string \<rightharpoonup> string)" where
  "RunProfile run write pprofUrl profileLength fs =
     (let fs = snd (pprofSvg run write (pprofUrl @ ''/goroutine'') ''goroutine.svg'' [] fs);
          fs = snd (pprofSvg run write (pprofUrl @ ''/block'') ''block.svg'' [] fs)
      in snd (pprofSvg run write (pprofUrl @ ''/profile'') ''profile.svg'' [''-seconds='' @ itoa profileLength] fs))"

text \<open>\<open>sendResultsToMMServer\<close>: \<open>upload\<close> gives the identifiers of the uploaded files, or an error; a file that
  cannot be sent is left out, and a failed post is only logged.\<close>

record results_server =
  results_login :: "string option"
  readable_file :: "string \<Rightarrow> bool"
  upload :: "string \<Rightarrow> string list option"

definition attach :: "results_server \<Rightarrow> string list \<Rightarrow> string list" where
  "attach rs attachments =
     concat (map (\<lambda>f. if \<not> readable_file rs f then []
                      else (case upload rs f of None \<Rightarrow> [] | Some ids \<Rightarrow> if length ids \<noteq> 1 then [] else [ids ! 0])) attachments)"

definition sendResultsToMMServer :: "results_server \<Rightarrow> string \<Rightarrow> string \<Rightarrow> string list \<Rightarrow> (string + unit) \<times> new_post list" where
  "sendResultsToMMServer rs channelId message attachments =
     (case results_login rs of
        Some e \<Rightarrow> (Inl e, [])
      | None \<Rightarrow> (Inr (), [\<lparr>np_ChannelId = channelId, np_Message = message, np_FileIds = attach rs attachments\<rparr>]))"

section \<open>What the monitor logs\<close>

text \<open>A measure of a set of statistics to which each report adds an amount of its own. The contract says
  what the operations of \<^verbatim>\<open>client_timing_stats.go\<close> do to it; the monitor then conserves it.\<close>

locale timing_measure =
  fixes f :: "ClientTimingStats \<Rightarrow> 'm :: comm_monoid_add" and g :: "TimedRoundTripperReport \<Rightarrow> 'm"
  assumes f_New: "f NewClientTimingStats = 0"
    and f_Reset: "f (Reset ts) = 0"
    and f_Add: "0 \<le> RequestDuration r \<Longrightarrow> f (AddTimingReport ts r) = f ts + g r"
begin

lemma monitor_conserves:
  "\<forall>r \<in> set rs. 0 \<le> RequestDuration r \<Longrightarrow> monitor keys rs ts = (logged, rest) \<Longrightarrow>
   sum_list (map f logged) + f rest = f ts + sum_list (map g rs)"
proof (induction rs arbitrary: ts logged)
  case Nil
  then show ?case by (auto simp: f_Reset split: if_splits)
next
  case (Cons r rs)
  let ?t = "AddTimingReport ts r"
  show ?case
  proof (cases "CountResults (keys (Routes ?t)) ?t > 100")
    case True
    obtain l where l: "monitor keys rs (Reset ?t) = (l, rest)" "logged = ?t # l"
      using Cons.prems(2) True by (auto simp: Let_def split: prod.splits)
    have r: "0 \<le> RequestDuration r" "\<forall>r \<in> set rs. 0 \<le> RequestDuration r" using Cons.prems(1) by simp_all
    have "sum_list (map f logged) + f rest = f ?t + (sum_list (map f l) + f rest)" by (simp add: l(2) add.assoc)
    also have "\<dots> = f ts + g r + sum_list (map g rs)" by (simp add: Cons.IH [OF r(2) l(1)] f_Reset f_Add [OF r(1)])
    finally show ?thesis by (simp add: add.assoc)
  next
    case False
    then show ?thesis using Cons.IH [of ?t logged] Cons.prems by (simp add: f_Add add_ac)
  qed
qed

end

interpretation run_hits: timing_measure "hits k" "\<lambda>r. if route_key r = k then 1 else 0" for k
  by unfold_locales (auto simp: AddTimingReport_alt AddRouteSample_measures Reset_def hits_def [of k "_\<lparr>Routes := _\<rparr>"])

interpretation run_errors: timing_measure "errors k" "\<lambda>r. if route_key r = k \<and> \<not> report_ok r then 1 else 0" for k
  by unfold_locales
    (auto simp: AddTimingReport_alt AddRouteSample_measures Reset_def report_ok_def errors_def [of k "_\<lparr>Routes := _\<rparr>"])

interpretation run_durations: timing_measure "durations k"
    "\<lambda>r. if route_key r = k \<and> report_ok r then {#f64 (of_int (report_ms r))#} else {#}" for k
  by unfold_locales
    (auto simp: AddTimingReport_alt AddRouteSample_measures Reset_def report_ok_def durations_def [of k "_\<lparr>Routes := _\<rparr>"])

definition orders :: "((string \<rightharpoonup> RouteStats) \<Rightarrow> string list) \<Rightarrow> bool" where
  "orders keys \<longleftrightarrow> (\<forall>m. finite (dom m) \<longrightarrow> enumerates (keys m) m)"

text \<open>The number of results, whatever the order.\<close>

definition results :: "ClientTimingStats \<Rightarrow> nat" where
  "results ts = (\<Sum>k \<in> dom (Routes ts). size (durations k ts))"

lemma CountResults_results:
  assumes "orders keys" "finite (dom (Routes ts))"
  shows "CountResults (keys (Routes ts)) ts = int (results ts)"
proof -
  have e: "distinct (keys (Routes ts))" "set (keys (Routes ts)) = dom (Routes ts)"
    using assms by (auto simp: orders_def enumerates_def)
  have len: "(case Routes ts k of None \<Rightarrow> 0 | Some r \<Rightarrow> int (length (Duration r))) = int (size (durations k ts))" for k
    by (auto simp: durations_def split: option.splits)
  have "CountResults ks ts = (\<Sum>k \<leftarrow> ks. int (size (durations k ts)))" for ks
    unfolding CountResults_def len by (induction ks rule: rev_induct) simp_all
  then show ?thesis unfolding results_def e(2) [symmetric] by (simp add: sum_list_distinct_conv_sum_set [OF e(1)])
qed

lemma AddTimingReport_dom: "0 \<le> RequestDuration r \<Longrightarrow> dom (Routes (AddTimingReport ts r)) = insert (route_key r) (dom (Routes ts))"
  by (auto simp: AddTimingReport_alt AddRouteSample_def split: option.splits)

lemma results_Add:
  assumes "0 \<le> RequestDuration r" "finite (dom (Routes ts))"
  shows "results (AddTimingReport ts r) \<le> results ts + 1"
proof -
  let ?k = "route_key r" and ?D = "dom (Routes ts)"
  have d: "durations k (AddTimingReport ts r) = durations k ts + (if k = ?k \<and> report_ok r then {#f64 (of_int (report_ms r))#} else {#})" for k
    using run_durations.f_Add [OF assms(1), of k ts] by auto
  have out: "?k \<notin> ?D \<Longrightarrow> durations ?k ts = {#}" by (auto simp: durations_def split: option.splits)
  have "results (AddTimingReport ts r) = size (durations ?k (AddTimingReport ts r)) + (\<Sum>k \<in> ?D - {?k}. size (durations k ts))"
    unfolding results_def AddTimingReport_dom [OF assms(1)] using assms(2)
    by (subst sum.insert_remove) (auto simp: d intro!: sum.cong)
  moreover have "results ts = size (durations ?k ts) + (\<Sum>k \<in> ?D - {?k}. size (durations k ts))"
    unfolding results_def using assms(2) out by (cases "?k \<in> ?D") (simp_all add: sum.remove)
  ultimately show ?thesis by (simp add: d)
qed

lemma results_Reset [simp]: "results (Reset ts) = 0" "dom (Routes (Reset ts)) = {}"
  by (simp_all add: results_def Reset_def)

lemma results_0: "results ts = 0 \<Longrightarrow> finite (dom (Routes ts)) \<Longrightarrow> durations k ts = {#}"
  by (cases "k \<in> dom (Routes ts)") (auto simp: results_def, auto simp: durations_def split: option.splits)

lemma monitor_batches:
  "orders keys \<Longrightarrow> \<forall>r \<in> set rs. 0 \<le> RequestDuration r \<Longrightarrow> finite (dom (Routes ts)) \<Longrightarrow> results ts \<le> 100 \<Longrightarrow>
   monitor keys rs ts = (logged, rest) \<Longrightarrow>
   (\<forall>t \<in> set logged. 1 \<le> results t \<and> results t \<le> 101) \<and> results rest = 0 \<and> finite (dom (Routes rest))"
proof (induction rs arbitrary: ts logged)
  case Nil
  then show ?case by (auto simp: CountResults_results split: if_splits)
next
  case (Cons r rs)
  let ?t = "AddTimingReport ts r"
  have r: "0 \<le> RequestDuration r" using Cons.prems(2) by simp
  have fin: "finite (dom (Routes ?t))" using Cons.prems(3) AddTimingReport_dom [OF r] by simp
  have le: "results ?t \<le> 101" using results_Add [OF r Cons.prems(3)] Cons.prems(4) by simp
  have c: "CountResults (keys (Routes ?t)) ?t = int (results ?t)" by (rule CountResults_results [OF Cons.prems(1) fin])
  show ?case
  proof (cases "results ?t > 100")
    case True
    obtain l where l: "monitor keys rs (Reset ?t) = (l, rest)" "logged = ?t # l"
      using Cons.prems(5) True by (auto simp: Let_def c split: prod.splits)
    show ?thesis using Cons.IH [OF Cons.prems(1) _ _ _ l(1)] Cons.prems(2) le True l(2) by simp
  next
    case False
    then show ?thesis using Cons.IH [of ?t logged] Cons.prems fin by (simp add: c)
  qed
qed

text \<open>Every hit of a route is an error or a result.\<close>

definition balanced :: "ClientTimingStats \<Rightarrow> bool" where
  "balanced ts \<longleftrightarrow> (\<forall>k. hits k ts = errors k ts + int (size (durations k ts)))"

lemma balanced_intros:
  "balanced NewClientTimingStats"
  "balanced (Reset ts)"
  "0 \<le> RequestDuration r \<Longrightarrow> balanced ts \<Longrightarrow> balanced (AddTimingReport ts r)"
  by (auto simp: balanced_def run_hits.f_Reset run_errors.f_Reset run_durations.f_Reset
      run_hits.f_Add run_errors.f_Add run_durations.f_Add)

lemma monitor_balanced:
  "\<forall>r \<in> set rs. 0 \<le> RequestDuration r \<Longrightarrow> balanced ts \<Longrightarrow> monitor keys rs ts = (logged, rest) \<Longrightarrow> balanced rest"
  by (induction rs arbitrary: ts logged) (auto simp: Let_def intro: balanced_intros split: if_splits prod.splits dest!: meta_spec)

text \<open>C9. From the first report to the last, for reports whose durations are not negative and whatever the
  order of the map: every result, hit and error of a route is logged once, or is in what is left when the
  channel is closed; each logged set has one to 101 results; what is left has no result, so every successful
  request is logged. What can be lost are the failed requests after the last log line: their hits are errors.\<close>

theorem monitor_logs_results:
  assumes "orders keys" "\<forall>r \<in> set rs. 0 \<le> RequestDuration r" "monitor keys rs NewClientTimingStats = (logged, rest)"
  shows "sum_list (map (durations k) logged) =
      mset (map (\<lambda>r. f64 (of_int (report_ms r))) (filter (\<lambda>r. route_key r = k \<and> report_ok r) rs)) \<and>
    sum_list (map (hits k) logged) + hits k rest = int (length (filter (\<lambda>r. route_key r = k) rs)) \<and>
    sum_list (map (errors k) logged) + errors k rest = int (length (filter (\<lambda>r. route_key r = k \<and> \<not> report_ok r) rs)) \<and>
    (\<forall>t \<in> set logged. 1 \<le> results t \<and> results t \<le> 101) \<and>
    hits k rest = errors k rest"
proof -
  have fin: "finite (dom (Routes NewClientTimingStats))" and new: "results NewClientTimingStats \<le> 100"
    by (simp_all add: NewClientTimingStats_def results_def)
  note batches = monitor_batches [OF assms(1,2) fin new assms(3)]
  have d: "durations k rest = {#}" using batches results_0 by blast
  have b: "hits k rest = errors k rest"
    using monitor_balanced [OF assms(2) balanced_intros(1) assms(3)] d by (simp add: balanced_def)
  have count: "sum_list (map (\<lambda>r. if P r then 1 else (0::int)) rs) = int (length (filter P rs))" for P
    by (induction rs) auto
  have multi: "sum_list (map (\<lambda>r. if P r then {#h r#} else {#}) rs) = mset (map h (filter P rs))" for P and h :: "_ \<Rightarrow> real"
    by (induction rs) auto
  show ?thesis
    using run_hits.monitor_conserves [OF assms(2,3), of k] run_errors.monitor_conserves [OF assms(2,3), of k]
      run_durations.monitor_conserves [OF assms(2,3), of k] batches b d
    by (simp add: count multi)
qed

theorem monitor_logs_results_witness:
  "fst (monitor (\<lambda>m. sorted_list_of_set (dom m)) [\<lparr>Method = ''GET'', Path = ''/x'', RequestDuration = 5, StatusCode = 544\<rparr>]
     NewClientTimingStats) = [] \<and> 
   (\<Sum>k \<leftarrow> [route_key \<lparr>Method = ''GET'', Path = ''/x'', RequestDuration = 5, StatusCode = 544\<rparr>].
     errors k (snd (monitor (\<lambda>m. sorted_list_of_set (dom m)) [\<lparr>Method = ''GET'', Path = ''/x'', RequestDuration = 5, StatusCode = 544\<rparr>]
     NewClientTimingStats))) = 1"
proof -
  let ?r = "\<lparr>Method = ''GET'', Path = ''/x'', RequestDuration = 5, StatusCode = 544\<rparr>" and ?keys = "\<lambda>m. sorted_list_of_set (dom m)"
  have keys: "orders ?keys" by (simp add: orders_def enumerates_def)
  obtain l rest where m: "monitor ?keys [?r] NewClientTimingStats = (l, rest)" by fastforce
  note logs = monitor_logs_results [OF keys _ m]
  have "l = []" if l: "\<not> l = []"
  proof -
    obtain t where t: "t \<in> set l" "1 \<le> results t" using logs [of "[]"] l by (cases l) auto
    have "durations k t = {#}" for k
    proof -
      have "sum_list (map (durations k) l) = {#}" using logs [of k] by (simp add: report_ok_def)
      then show ?thesis using t(1) by (auto simp: in_set_conv_decomp)
    qed
    then show ?thesis using t(2) by (simp add: results_def)
  qed
  then have "l = []" by blast
  then show ?thesis using logs [of "route_key ?r"] m by (simp add: report_ok_def)
qed

section \<open>What the entities are started with\<close>

lemma start_entities_started:
  "pickable (UserEntities test) \<Longrightarrow> \<forall>j. \<not> interrupt j \<Longrightarrow> 0 \<le> start \<Longrightarrow> start + int i + int (length tokens) \<le> int (length users) \<Longrightarrow>
   \<exists>es. start_entities cfg test start users websocket interrupt i tokens r = Some (es, False) \<and> length es = length tokens \<and>
     (\<forall>j < length tokens. started_Number (es ! j) = start + int (i + j) \<and> started_User (es ! j) = users ! nat (start + int (i + j)) \<and>
        client_AuthToken (started_Client (es ! j)) = tokens ! j \<and>
        (\<exists>u \<in> set (UserEntities test). started_Actions (es ! j) = Actions (Entity (Item u)) \<and>
           started_ActionRate (es ! j) = action_rate cfg (RateMultiplier (Item u))))"
proof (induction tokens arbitrary: i r)
  case (Cons t tokens)
  obtain u r' where u: "WeightedChoice r (UserEntities test) = Some (Inr u, r')" "u \<in> set (UserEntities test)"
    using wc.picks_pos [of "UserEntities test" r] Cons.prems(1) by (auto simp: pickable_def)
  have nth: "go_nth users (start + int i) = Some (users ! nat (start + int i))" using Cons.prems(3,4) by (simp add: go_nth_def)
  obtain es where es: "start_entities cfg test start users websocket interrupt (Suc i) tokens r' = Some (es, False)"
    "length es = length tokens"
    "\<forall>j < length tokens. started_Number (es ! j) = start + int (Suc i + j) \<and> started_User (es ! j) = users ! nat (start + int (Suc i + j)) \<and>
        client_AuthToken (started_Client (es ! j)) = tokens ! j \<and>
        (\<exists>u \<in> set (UserEntities test). started_Actions (es ! j) = Actions (Entity (Item u)) \<and>
           started_ActionRate (es ! j) = action_rate cfg (RateMultiplier (Item u)))"
    using Cons.IH [of "Suc i" r'] Cons.prems by fastforce
  show ?case
    using u(2) es(2,3) Cons.prems(2) [rule_format, of i]
    by (auto simp: u(1) nth es(1) Let_def newClientFromToken_def All_less_Suc2 add_ac)
qed simp

lemma logged_tokens:
  assumes "0 \<le> NumActiveEntities (UserConfig cfg)" "0 < threads" "0 \<le> start"
    and "perm (NumUsers (EnvConfig cfg)) r = Some (order, r')"
    and "start + NumActiveEntities (UserConfig cfg) \<le> NumUsers (EnvConfig cfg)"
    and "\<forall>u \<in> set (logged_users cfg start order). login_user server u \<noteq> []"
  shows "loginAsUsers cfg server start r threads res \<longleftrightarrow> res = Some (map (login_user server) (logged_users cfg start order))"
proof -
  have len: "int (length order) = NumUsers (EnvConfig cfg)" using perm_props [OF assms(4)] assms(1,3,5) by simp
  have "filter (\<lambda>token. token \<noteq> []) (map (login_user server) (logged_users cfg start order)) = map (login_user server) (logged_users cfg start order)"
    using assms(6) by (simp add: filter_map comp_def)
  then show ?thesis
    using fold_login [OF logged_users_nth [of cfg start order] order.refl, of server] assms(3,5) len
    by (simp add: login_sequential [OF assms(1,2,4)] logged_users_map)
qed

text \<open>C6. A test run on a registered instance whose range of entities fits, with the generated users on the server, all of
  which log in: no index is out of range, and one entity is started for each number of the range, with the client
  of the user that was logged in for that position, the actions of one of the test's user entities and its rate. Each entity
  plays the user data of its own number; its client belongs to that user exactly when the permutation fixes it. So with
  \<open>RandomizeEntitySelection\<close> an entity acts on the teams and channels of one user with the session of another.
  The instance is closed at the end.\<close>

theorem RunTest_starts_entities:
  assumes "settings env = Inr cfg" "database env" "new_instance env = Inr inst" "server_setup env = Inr data" "admin_client env"
    and "0 \<le> EntityStartNum inst" "0 < NumActiveEntities (UserConfig cfg)"
      "EntityStartNum inst + NumActiveEntities (UserConfig cfg) \<le> NumUsers (EnvConfig cfg)"
    and "map Email (res_Users (BulkloadResult data)) = map email_of [0 .. NumUsers (EnvConfig cfg) - 1]"
    and "0 < threads" "perm (NumUsers (EnvConfig cfg)) r = Some (order, r')"
      "loginAsUsers cfg server (EntityStartNum inst) r threads (user_tokens env)"
      "\<forall>u \<in> set (logged_users cfg (EntityStartNum inst) order). login_user server u \<noteq> []"
    and "pickable (UserEntities test)" "\<forall>i. \<not> interrupts env i"
  shows "\<exists>es mid. RunTest env test = Some (Inr (), Registered # Started es # mid @ [InstanceClosed]) \<and>
    int (length es) = NumActiveEntities (UserConfig cfg) \<and>
    (\<forall>i < length es. let n = EntityStartNum inst + int i in
       started_Number (es ! i) = n \<and> Email (started_User (es ! i)) = email_of n \<and>
       client_AuthToken (started_Client (es ! i)) = login_user server (user_at cfg order (nat n)) \<and>
       (\<exists>u \<in> set (UserEntities test). started_Actions (es ! i) = Actions (Entity (Item u)) \<and>
          started_ActionRate (es ! i) = action_rate cfg (RateMultiplier (Item u)))) \<and>
    (\<not> RandomizeEntitySelection (UserConfig cfg) \<longrightarrow>
       (\<forall>i < length es. client_AuthToken (started_Client (es ! i)) = login_user server (started_Number (es ! i))))"
proof -
  let ?s = "EntityStartNum inst" and ?n = "NumActiveEntities (UserConfig cfg)" and ?users = "res_Users (BulkloadResult data)"
  define tokens where "tokens = map (login_user server) (logged_users cfg ?s order)"
  have tokens: "user_tokens env = Some tokens"
    unfolding tokens_def using logged_tokens [OF _ assms(10,6,11,8,13)] assms(7,12) by simp
  have len: "length tokens = nat ?n" "tokens \<noteq> []" using assms(7) by (auto simp: tokens_def logged_users_def)
  have users: "int (length ?users) = NumUsers (EnvConfig cfg)"
    using arg_cong [OF assms(9), of length] assms(6,7,8) by simp
  have email: "Email (?users ! nat k) = email_of k" if "0 \<le> k" "k < NumUsers (EnvConfig cfg)" for k
  proof -
    have "map Email ?users ! nat k = email_of k" unfolding assms(9) using that by simp
    then show ?thesis using that users by simp
  qed
  have "?s + int 0 + int (length tokens) \<le> int (length ?users)" using len(1) users assms(7,8) by simp
  from start_entities_started [OF assms(14,15,6) this, of cfg "websockets env" "run_rng env"]
  obtain es where es: "start_entities cfg test ?s ?users (websockets env) (interrupts env) 0 tokens (run_rng env) = Some (es, False)"
    "length es = length tokens"
    "\<forall>j < length tokens. started_Number (es ! j) = ?s + int j \<and> started_User (es ! j) = ?users ! nat (?s + int j) \<and>
        client_AuthToken (started_Client (es ! j)) = tokens ! j \<and>
        (\<exists>u \<in> set (UserEntities test). started_Actions (es ! j) = Actions (Entity (Item u)) \<and>
           started_ActionRate (es ! j) = action_rate cfg (RateMultiplier (Item u)))"
    by auto
  have token: "tokens ! i = login_user server (user_at cfg order (nat (?s + int i)))" if "i < length tokens" for i
    using that len assms(6) by (simp add: tokens_def logged_users_def nat_add_distrib)
  have run: "RunTest env test = Some (Inr (), Registered # Started es #
      ((if PProfDelayMinutes (ResultsConfig_of cfg) \<noteq> 0 then [ProfileScheduled] else []) @ [StopEntities, TimingsClosed]) @ [InstanceClosed])"
    using assms(1-5,8) tokens len(2) es(1) by (simp add: RunTest_def run_registered_def)
  have "\<forall>i < length es. let n = ?s + int i in started_Number (es ! i) = n \<and> Email (started_User (es ! i)) = email_of n \<and>
       client_AuthToken (started_Client (es ! i)) = login_user server (user_at cfg order (nat n)) \<and>
       (\<exists>u \<in> set (UserEntities test). started_Actions (es ! i) = Actions (Entity (Item u)) \<and>
          started_ActionRate (es ! i) = action_rate cfg (RateMultiplier (Item u)))"
    using es(2,3) len(1) token email assms(6,7,8) by (auto simp: Let_def)
  moreover have "client_AuthToken (started_Client (es ! i)) = login_user server (started_Number (es ! i))"
    if "\<not> RandomizeEntitySelection (UserConfig cfg)" "i < length es" for i
    using es(2,3) token that assms(6) by (simp add: user_at_def)
  ultimately show ?thesis using run es(2) len(1) assms(7) by (intro exI [of _ es] exI) auto
qed

definition sample_env :: run_env where
  "sample_env = \<lparr>settings = Inr (zero_config\<lparr>EnvConfig := blank_config\<lparr>NumUsers := 4\<rparr>,
       UserConfig := (UserConfig zero_config)\<lparr>NumActiveEntities := 2, RandomizeEntitySelection := True\<rparr>\<rparr>),
     database = True, new_instance = Inr \<lparr>InstanceId = ''i'', Index = 0, EntityStartNum = 0, Seed = 0\<rparr>,
     server_setup = Inr \<lparr>TeamIdMap = Map.empty, ChannelIdMap = Map.empty, TownSquareIdMap = Map.empty,
       BulkloadResult = \<lparr>File = [], res_Users = map (\<lambda>n. (blank_user ''u'')\<lparr>Email := email_of n\<rparr>) [0, 1, 2, 3],
         res_Teams = [], res_Channels = [], res_Schemes = [], res_Emojis = []\<rparr>\<rparr>,
     admin_client = True, user_tokens = Some [''t'', ''t''], websockets = (\<lambda>_. True), interrupts = (\<lambda>_. False),
     run_rng = \<lparr>src = (\<lambda>i. i), pos = 0\<rparr>\<rparr>"

theorem RunTest_starts_entities_witness:
  "\<exists>es mid. RunTest sample_env TestAll = Some (Inr (), Registered # Started es # mid @ [InstanceClosed]) \<and> length es = 2 \<and>
     Email (started_User (es ! 1)) = email_of 1"
proof -
  obtain cfg where cfg: "settings sample_env = Inr cfg" by (simp add: sample_env_def)
  note c = cfg [symmetric, unfolded sample_env_def, simplified]
  let ?srv = "\<lparr>user_by_email = (\<lambda>e. Some e), activate_user = (\<lambda>_. True), login_token = (\<lambda>e p. Some ''t'')\<rparr>"
  let ?r = "\<lparr>src = (\<lambda>i. i), pos = 0\<rparr>"
  obtain order r' where p: "perm (NumUsers (EnvConfig cfg)) ?r = Some (order, r')"
    using perm_total [of "NumUsers (EnvConfig cfg)" ?r] c by auto
  have login: "login_user ?srv u = ''t''" for u by (simp add: login_user_def)
  have n: "NumActiveEntities (UserConfig cfg) = 2" "NumUsers (EnvConfig cfg) = 4" by (simp_all add: c)
  have two: "map (login_user ?srv) (logged_users cfg 0 order) = [''t'', ''t'']" by (simp add: logged_users_def n login upt_rec)
  have l: "loginAsUsers cfg ?srv 0 ?r 3 (user_tokens sample_env)"
    using logged_tokens [OF _ _ _ p, of 3 0 ?srv] by (simp add: n login two sample_env_def)
  obtain inst data where i: "new_instance sample_env = Inr inst" "server_setup sample_env = Inr data" by (simp add: sample_env_def)
  note d = i [symmetric, unfolded sample_env_def, simplified]
  have s: "EntityStartNum inst = 0" by (simp add: d)
  have "[0 .. NumUsers (EnvConfig cfg) - 1] = [0, 1, 2, 3]" by (simp add: n upto.simps)
  then have users: "map Email (res_Users (BulkloadResult data)) = map email_of [0 .. NumUsers (EnvConfig cfg) - 1]" by (simp add: d)
  have rest: "database sample_env" "admin_client sample_env" "\<forall>i. \<not> interrupts sample_env i" by (simp_all add: sample_env_def)
  have pick: "pickable (UserEntities TestAll)" using test_runs_ok(8) by (simp add: run_ok_def)
  from RunTest_starts_entities [OF cfg rest(1) i rest(2) _ _ _ users _ p, of 3 ?srv TestAll] l rest pick
  obtain es mid where r: "RunTest sample_env TestAll = Some (Inr (), Registered # Started es # mid @ [InstanceClosed])"
      "int (length es) = 2" "\<forall>i < length es. let n = int i in Email (started_User (es ! i)) = email_of n"
    unfolding s n login by (auto simp: Let_def)
  have "length es = 2" "Email (started_User (es ! 1)) = email_of 1" using r(2) r(3) [rule_format, of 1] by simp_all
  with r(1) show ?thesis by blast
qed

end
