(* ===== verification/Load_Command.thy ===== *)
theory Load_Command
  imports Run_Test Bulk_Posts Bulk_File
begin

text \<open>
  \<^verbatim>\<open>cmd/loadtest/loadtest.go\<close>: the table of the tests, the commands of the program, and what each runs.
  Which command a name selects is the library's rule: the first of that name.
\<close>

section \<open>The tests\<close>

record TestItem =
  item_Name :: string
  ShortDesc :: string
  Test :: TestRun

definition tests :: "TestItem list" where
  "tests =
     [\<lparr>item_Name = ''basic'', ShortDesc = ''Basic test of posting'', Test = TestBasicPosting\<rparr>,
      \<lparr>item_Name = ''search'', ShortDesc = ''Test search'', Test = TestSearch\<rparr>,
      \<lparr>item_Name = ''search-users'', ShortDesc = ''Test search users'', Test = TestSearchUsers\<rparr>,
      \<lparr>item_Name = ''getchannel'', ShortDesc = ''Test get channel'', Test = TestGetChannel\<rparr>,
      \<lparr>item_Name = ''all'', ShortDesc = ''Test Everything'', Test = TestAll\<rparr>,
      \<lparr>item_Name = ''townsquare-spam'', ShortDesc = ''Test town-square getting spammed'', Test = TestTownSquareSpam\<rparr>,
      \<lparr>item_Name = ''channel-leave-join'', ShortDesc = ''Test leaving and joining a channel while under load'', Test = TestLeaveJoinChannel\<rparr>,
      \<lparr>item_Name = ''team-leave-join'', ShortDesc = ''Test leaving and joining a team while under load'', Test = TestLeaveJoinTeam\<rparr>,
      \<lparr>item_Name = ''user-deactivation'', ShortDesc = ''Test deactivating and reactivating users while under load'', Test = TestDeactivation\<rparr>,
      \<lparr>item_Name = ''more-channels-browser'', ShortDesc = ''Test browsing more channels while under load'', Test = TestMoreChannelsBrowser\<rparr>,
      \<lparr>item_Name = ''autocomplete'', ShortDesc = ''Test autocomplete'', Test = TestAutocomplete\<rparr>,
      \<lparr>item_Name = ''user-update-profile'', ShortDesc = ''Test users updating their profiles'', Test = TestUpdateUserProfile\<rparr>,
      \<lparr>item_Name = ''channel-create-delete'', ShortDesc = ''Test channel creation/deletion'', Test = TestChannelCreateDelete\<rparr>,
      \<lparr>item_Name = ''post-reactions'', ShortDesc = ''Test users posting reactions'', Test = TestPostReactions\<rparr>]"

section \<open>The commands\<close>

datatype command = RunTestCommand TestRun | PprofCommand | LoadCommand | GenerateCommand

definition test_command :: "TestItem \<Rightarrow> string \<times> command" where
  "test_command test = (item_Name test, RunTestCommand (Test test))"

definition commands :: "(string \<times> command) list" where
  "commands = map test_command tests @ [(''pprof'', PprofCommand), (''loadposts'', LoadCommand), (''genbulkload'', GenerateCommand)]"

definition select_command :: "string \<Rightarrow> command option" where
  "select_command name = map_of commands name"

section \<open>Initialisation\<close>

text \<open>\<open>Inl\<close> is the exit code. The logger's settings are those of the configuration, the levels in lower case.\<close>

definition initConfig :: "(string \<Rightarrow> string \<Rightarrow> (string + (string \<rightharpoonup> setting)) option) \<Rightarrow> (viper \<Rightarrow> string + LoadTestConfig) \<Rightarrow>
    viper \<Rightarrow> (int + LoggerSettings) \<times> viper" where
  "initConfig locate unmarshal vp =
     (case ReadConfig locate vp of
        (Inl err, vp) \<Rightarrow> (Inl 1, vp)
      | (Inr _, vp) \<Rightarrow>
          (case GetConfig unmarshal vp of
             Inl err \<Rightarrow> (Inl 1, vp)
           | Inr cfg \<Rightarrow>
               (let ls = LogSettings cfg in
                (Inr (ls\<lparr>ConsoleLevel := to_lower (ConsoleLevel ls), FileLevel := to_lower (FileLevel ls)\<rparr>), vp))))"

section \<open>The handlers\<close>

definition config_error :: "string \<Rightarrow> string" where
  "config_error e = ''failed to read loadtest configuration: '' @ e"

definition pprofCmd :: "(viper \<Rightarrow> string + LoadTestConfig) \<Rightarrow> (string list \<Rightarrow> (string \<times> string) + string) \<Rightarrow> (string \<Rightarrow> string option) \<Rightarrow>
    viper \<Rightarrow> (string \<rightharpoonup> string) \<Rightarrow> (string + unit) \<times> (string \<rightharpoonup> string)" where
  "pprofCmd unmarshal run write vp fs =
     (case unmarshal vp of
        Inl e \<Rightarrow> (Inl (config_error e), fs)
      | Inr cfg \<Rightarrow> (Inr (), RunProfile run write (PProfURL (ConnConfig cfg)) (PProfLength (ResultsConfig_of cfg)) fs))"

text \<open>The driver and the source the posts are loaded with.\<close>

definition load_source :: "LoadTestConfig \<Rightarrow> string \<times> string" where
  "load_source cfg =
     (let driverName = DriverName (ConnConfig cfg);
          dataSource = DataSource (ConnConfig cfg);
          driverName = (if driverName = [] then (if has_prefix dataSource ''postgres://'' then ''postgres'' else ''mysql'') else driverName);
          dataSource = (if dataSource = [] then DBEndpoint (ConnConfig cfg) else dataSource)
      in (driverName, dataSource))"

text \<open>\<open>None\<close> is a panic of \<open>LoadPosts\<close>, or that it never returns.\<close>

definition loadCmd :: "(viper \<Rightarrow> string + LoadTestConfig) \<Rightarrow> db_env \<Rightarrow> post_run \<Rightarrow> viper \<Rightarrow> (string + db_op list) option" where
  "loadCmd unmarshal env run vp =
     (case unmarshal vp of
        Inl e \<Rightarrow> Some (Inl (config_error e))
      | Inr cfg \<Rightarrow> (case load_source cfg of (driverName, dataSource) \<Rightarrow>
          map_option Inr (LoadPosts env run (EnvConfig cfg) driverName dataSource)))"

text \<open>The file \<^verbatim>\<open>loadtestbulkload.json\<close>; a failed write is ignored.\<close>

definition genBulkLoadCmd :: "(viper \<Rightarrow> string + LoadTestConfig) \<Rightarrow> (nat \<Rightarrow> faker) \<Rightarrow> rng \<Rightarrow> event list \<Rightarrow> bool \<Rightarrow> viper \<Rightarrow>
    ((string + unit) \<times> LineImportData list option) option" where
  "genBulkLoadCmd unmarshal seed_faker r schedule write_ok vp =
     (case unmarshal vp of
        Inl e \<Rightarrow> Some (Inl (config_error e), None)
      | Inr cfg \<Rightarrow>
          (case GenerateBulkloadFile seed_faker r schedule (EnvConfig cfg) of
             None \<Rightarrow> None
           | Some res \<Rightarrow> Some (Inr (), if write_ok then Some (File res) else None)))"

definition run_test_command :: "run_env \<Rightarrow> TestRun \<Rightarrow> ((string + unit) \<times> run_event list) option" where
  "run_test_command env test =
     map_option (\<lambda>(res, es). (case res of Inl e \<Rightarrow> Inl (''run test failed: '' @ e) | Inr u \<Rightarrow> Inr u, es)) (RunTest env test)"

section \<open>Lemmas\<close>

lemma commands_distinct: "distinct (map fst commands)"
  by (simp add: commands_def tests_def test_command_def)

lemma tests_ok: "t \<in> set tests \<Longrightarrow> run_ok (Test t)"
  by (auto simp: tests_def test_runs_ok)

lemma select_test: "t \<in> set tests \<Longrightarrow> select_command (item_Name t) = Some (RunTestCommand (Test t))"
  unfolding select_command_def by (rule map_of_is_SomeI [OF commands_distinct]) (auto simp: commands_def test_command_def)

lemma pickable_picks:
  assumes "pickable cs"
  shows "\<exists>c r'. WeightedChoice r cs = Some (Inr c, r') \<and> c \<in> set cs"
proof -
  have "cs \<noteq> []" "\<forall>c \<in> set cs. 0 < Weight c" using assms by (simp_all add: pickable_def)
  then obtain c r' where "WeightedChoice r cs = Some (Inr c, r')" "c \<in> set cs" by (rule wc.picks_pos [of cs r])
  then show ?thesis by blast
qed

lemma select_only:
  assumes "select_command n = Some (RunTestCommand x)"
  shows "\<exists>t \<in> set tests. item_Name t = n \<and> Test t = x"
proof -
  have "(n, RunTestCommand x) \<in> set commands" using assms unfolding select_command_def by (rule map_of_SomeD)
  then show ?thesis by (auto simp: commands_def test_command_def)
qed

text \<open>Old configuration files have only \<open>DBEndpoint\<close>: the driver is chosen before that is looked at, so it is mysql whatever
  the endpoint says.\<close>

lemma load_source_old:
  assumes "DriverName (ConnConfig cfg) = []" "DataSource (ConnConfig cfg) = []"
  shows "load_source cfg = (''mysql'', DBEndpoint (ConnConfig cfg))"
  using assms by (simp add: load_source_def has_prefix_def)

section \<open>Properties\<close>

text \<open>C34. Every test of the table is selected by its own name and by no other, and is well formed: for every state of the random
  source \<open>WeightedChoice\<close> picks one of its user entities, and for every user entity one of its actions, without an error.
  So no entity is skipped at the start and no turn of an entity is lost; the rates of all entities are positive.\<close>

theorem every_test_runs:
  assumes "t \<in> set tests"
  shows "(\<forall>n. select_command n = Some (RunTestCommand (Test t)) \<longleftrightarrow> (\<exists>t' \<in> set tests. item_Name t' = n \<and> Test t' = Test t)) \<and>
    select_command (item_Name t) = Some (RunTestCommand (Test t)) \<and>
    (\<forall>r. \<exists>u r'. WeightedChoice r (UserEntities (Test t)) = Some (Inr u, r') \<and> u \<in> set (UserEntities (Test t))) \<and>
    (\<forall>u \<in> set (UserEntities (Test t)). 0 < RateMultiplier (Item u) \<and>
       (\<forall>r. \<exists>a r'. WeightedChoice r (Actions (Entity (Item u))) = Some (Inr a, r') \<and> a \<in> set (Actions (Entity (Item u)))))"
proof (intro conjI allI ballI)
  have ok: "pickable (UserEntities (Test t))"
    "\<And>u. u \<in> set (UserEntities (Test t)) \<Longrightarrow> pickable (Actions (Entity (Item u))) \<and> 0 < RateMultiplier (Item u)"
    using tests_ok [OF assms] by (simp_all add: run_ok_def)
  show "select_command n = Some (RunTestCommand (Test t)) \<longleftrightarrow> (\<exists>t' \<in> set tests. item_Name t' = n \<and> Test t' = Test t)" for n
  proof
    assume "\<exists>t' \<in> set tests. item_Name t' = n \<and> Test t' = Test t"
    then obtain t' where t': "t' \<in> set tests" "item_Name t' = n" "Test t' = Test t" by blast
    show "select_command n = Some (RunTestCommand (Test t))" using select_test [OF t'(1)] unfolding t'(2,3) .
  qed (rule select_only)
  show "select_command (item_Name t) = Some (RunTestCommand (Test t))" by (rule select_test [OF assms])
  show "\<exists>u r'. WeightedChoice r (UserEntities (Test t)) = Some (Inr u, r') \<and> u \<in> set (UserEntities (Test t))" for r
    by (rule pickable_picks [OF ok(1)])
  fix u assume u: "u \<in> set (UserEntities (Test t))"
  show "0 < RateMultiplier (Item u)" using ok(2) [OF u] by blast
  show "\<exists>a r'. WeightedChoice r (Actions (Entity (Item u))) = Some (Inr a, r') \<and> a \<in> set (Actions (Entity (Item u)))" for r
    by (rule pickable_picks) (use ok(2) [OF u] in blast)
qed

theorem every_test_runs_witness: "select_command ''basic'' = Some (RunTestCommand TestBasicPosting)"
proof -
  have "\<lparr>item_Name = ''basic'', ShortDesc = ''Basic test of posting'', Test = TestBasicPosting\<rparr> \<in> set tests" by (simp add: tests_def)
  from every_test_runs [OF this] show ?thesis by simp
qed

end
