(* ===== verification/Entity_Statistics.thy ===== *)
theory Entity_Statistics
  imports Bulk_Types
begin

text \<open>
  The live code of \<^verbatim>\<open>loadtest/user_entity_statistics.go\<close> and \<^verbatim>\<open>loadtest/layout.go\<close>: types that nothing uses any more, since the code that
  updated and printed the statistics is commented out. A rate counter of the vendored package is a parameter \<open>'c\<close>, made by
  \<open>new_counter\<close> for an interval in nanoseconds and printed by \<open>show_counter\<close>.
\<close>

section \<open>Statistics\<close>

type_synonym UserEntityStat = "string \<rightharpoonup> int"

record 'c UserEntityRates =
  RateDescription :: string
  ErrorRate :: 'c
  ActionSendRate :: 'c
  ActionRecieveRate :: 'c

definition NewUserEntityRates :: "(int \<Rightarrow> 'c) \<Rightarrow> int \<Rightarrow> string \<Rightarrow> 'c UserEntityRates" where
  "NewUserEntityRates new_counter interval intervalDescription =
     \<lparr>RateDescription = intervalDescription, ErrorRate = new_counter interval, ActionSendRate = new_counter interval,
      ActionRecieveRate = new_counter interval\<rparr>"

definition rates_String :: "('c \<Rightarrow> string) \<Rightarrow> 'c UserEntityRates \<Rightarrow> string" where
  "rates_String show_counter rates =
     (let nl = [CHR 0x0A] in
      ''Send actions '' @ RateDescription rates @ '' '' @ show_counter (ActionSendRate rates) @ nl @ nl @
      ''Recieve actions '' @ RateDescription rates @ '' '' @ show_counter (ActionRecieveRate rates) @ nl @ nl @
      ''Errors '' @ RateDescription rates @ '' '' @ show_counter (ErrorRate rates) @ nl)"

record ('c, 'a) UserEntityStatistics =
  stats_StartTime :: int
  TotalErrors :: UserEntityStat
  TotalEntitiesActive :: UserEntityStat
  TotalEntitiesLaunching :: UserEntityStat
  TotalEntitiesFailedLaunch :: UserEntityStat
  TotalEntitiesFailedActive :: UserEntityStat
  TotalEntitiesStopped :: UserEntityStat
  UserEntityRatesPerSecond :: "'c UserEntityRates"
  UserEntityRatesPerMinute :: "'c UserEntityRates"
  UserEntityRatesPerHour :: "'c UserEntityRates"
  RouteTimings :: "string \<rightharpoonup> 'a"
  stats_Routes :: "string list"

definition one_second :: int where "one_second = 1000000000"

definition NewUserEntityStatistics :: "(int \<Rightarrow> 'c) \<Rightarrow> int \<Rightarrow> ('c, 'a) UserEntityStatistics" where
  "NewUserEntityStatistics new_counter now =
     \<lparr>stats_StartTime = now, TotalErrors = Map.empty, TotalEntitiesActive = Map.empty, TotalEntitiesLaunching = Map.empty,
      TotalEntitiesFailedLaunch = Map.empty, TotalEntitiesFailedActive = Map.empty, TotalEntitiesStopped = Map.empty,
      UserEntityRatesPerSecond = NewUserEntityRates new_counter one_second ''per second'',
      UserEntityRatesPerMinute = NewUserEntityRates new_counter (60 * one_second) ''per minute'',
      UserEntityRatesPerHour = NewUserEntityRates new_counter (60 * 60 * one_second) ''per hour'',
      RouteTimings = Map.empty, stats_Routes = []\<rparr>"

section \<open>Layouts\<close>

definition HIGH_VOLUME :: int where "HIGH_VOLUME = 1"
definition MID_VOLUME :: int where "MID_VOLUME = 2"
definition LOW_VOLUME :: int where "LOW_VOLUME = 3"

record LayoutChannel =
  channel_Num :: int

record LayoutTeam =
  team_Num :: int
  team_Volume :: int
  team_Channels :: "LayoutChannel list"

record OrganizationLayout =
  layout_Config :: "LoadtestEnviromentConfig option"
  layout_TeamNameToIdMap :: "string \<rightharpoonup> string"
  layout_ChannelNameToIdMap :: "string \<rightharpoonup> string"

text \<open>A report of rates is three lines with an empty line between them, whatever the counters show, as long as they show one line.\<close>

lemma rates_String_lines:
  assumes "\<And>c. CHR 0x0A \<notin> set (show_counter c)" "CHR 0x0A \<notin> set (RateDescription rates)"
  shows "length (filter (\<lambda>c. c = CHR 0x0A) (rates_String show_counter rates)) = 5"
proof -
  have none: "CHR 0x0A \<notin> set s \<Longrightarrow> filter (\<lambda>c. c = CHR 0x0A) s = []" for s :: string by (auto simp: filter_empty_conv)
  show ?thesis using assms by (simp add: rates_String_def none)
qed

end
