(* ===== verification/Action_Safety.thy ===== *)
theory Action_Safety
  imports Load_Command Test_Actions
begin

text \<open>
  When no action of a test panics: a calculus with one rule for each way the actions are put together, and the
  conditions on the entity under which every action of every test is safe.
\<close>

section \<open>The calculus\<close>

text \<open>What stays true of the state: every team of the map of teams has a map of channels.\<close>

definition channels_known :: "entity_config \<Rightarrow> act_state \<Rightarrow> bool" where
  "channels_known c s \<longleftrightarrow> dom (TeamMap c) \<subseteq> dom (a_channels s)"

text \<open>The computation does not panic, keeps the maps, and its value, if it has one, satisfies \<open>Q\<close>.\<close>

definition safe :: "entity_config \<Rightarrow> 'a act \<Rightarrow> ('a \<Rightarrow> bool) \<Rightarrow> bool" where
  "safe c m Q \<longleftrightarrow> (\<forall>s. channels_known c s \<longrightarrow>
     channels_known c (snd (m s)) \<and> fst (m s) \<noteq> Panicked \<and> (\<forall>x. fst (m s) = Value x \<longrightarrow> Q x))"

abbreviation harmless :: "entity_config \<Rightarrow> 'a act \<Rightarrow> bool" where
  "harmless c m \<equiv> safe c m (\<lambda>_. True)"

named_theorems safe_rule

lemma safe_give [safe_rule]: "Q x \<Longrightarrow> safe c (give x) Q"
  by (simp add: safe_def give_def)

lemma safe_leave [safe_rule]: "safe c leave Q"
  by (simp add: safe_def leave_def)

lemma safe_seq:
  assumes "safe c m R" "\<And>x. R x \<Longrightarrow> safe c (k x) Q"
  shows "safe c (seq m k) Q"
  unfolding safe_def
proof (intro allI impI)
  fix s assume s: "channels_known c s"
  obtain v s' where m: "m s = (v, s')" by force
  have "channels_known c s'" "v \<noteq> Panicked" "\<And>x. v = Value x \<Longrightarrow> R x" using assms(1) s m by (auto simp: safe_def)
  then show "channels_known c (snd (seq m k s)) \<and> fst (seq m k s) \<noteq> Panicked \<and> (\<forall>x. fst (seq m k s) = Value x \<longrightarrow> Q x)"
    using assms(2) m by (cases v) (auto simp: seq_def safe_def)
qed

lemma safe_weaken: "safe c m R \<Longrightarrow> (\<And>x. R x \<Longrightarrow> Q x) \<Longrightarrow> safe c m Q"
  by (auto simp: safe_def)

lemma safe_seq_any: "harmless c m \<Longrightarrow> (\<And>x. safe c (k x) Q) \<Longrightarrow> safe c (seq m k) Q"
  by (rule safe_seq)

lemma safe_call [safe_rule]: "harmless c m \<Longrightarrow> harmless c (call m)"
  by (auto simp: safe_def call_def split: outcome.splits prod.splits)

lemma safe_ask [safe_rule]: "harmless c (ask answer d rq)"
  by (simp add: safe_def ask_def channels_known_def)

lemma safe_branches [safe_rule]:
  "(b \<Longrightarrow> safe c m Q) \<Longrightarrow> (\<not> b \<Longrightarrow> safe c n Q) \<Longrightarrow> safe c (if b then m else n) Q"
  "safe c (f t) Q \<Longrightarrow> safe c (Let t f) Q"
  "(x = None \<Longrightarrow> safe c m Q) \<Longrightarrow> (\<And>y. x = Some y \<Longrightarrow> safe c (k y) Q) \<Longrightarrow> safe c (case x of None \<Rightarrow> m | Some y \<Rightarrow> k y) Q"
  "(\<And>e. z = Inl e \<Longrightarrow> safe c (g e) Q) \<Longrightarrow> (\<And>y. z = Inr y \<Longrightarrow> safe c (h y) Q) \<Longrightarrow>
   safe c (case z of Inl e \<Rightarrow> g e | Inr y \<Rightarrow> h y) Q"
  "(\<And>u v. p = (u, v) \<Longrightarrow> safe c (pr u v) Q) \<Longrightarrow> safe c (case p of (u, v) \<Rightarrow> pr u v) Q"
  by (auto split: option.splits sum.splits prod.splits)

lemma safe_requests [safe_rule]: "harmless c (must d rq)" "harmless c (attempt d rq)" "harmless c (need answer d rq)"
  unfolding must_def attempt_def need_def by (rule safe_seq_any safe_rule TrueI)+

lemma safe_each [safe_rule]: "(\<And>x. x \<in> set xs \<Longrightarrow> harmless c (f x)) \<Longrightarrow> harmless c (each f xs)"
  by (induction xs) (auto intro!: safe_seq_any safe_give)

lemma safe_own:
  assumes "\<And>r. \<exists>x r'. f r = Some (x, r') \<and> Q x"
  shows "safe c (own f) Q"
  unfolding safe_def
proof (intro allI impI)
  fix s assume s: "channels_known c s"
  obtain x r where "f (a_rng s) = Some (x, r)" "Q x" using assms by blast
  with s show "channels_known c (snd (own f s)) \<and> fst (own f s) \<noteq> Panicked \<and> (\<forall>x. fst (own f s) = Value x \<longrightarrow> Q x)"
    by (simp add: own_def channels_known_def)
qed

lemma safe_global:
  assumes "\<And>w. \<exists>x w'. f w = Some (x, w') \<and> Q x"
  shows "safe c (global f) Q"
  unfolding safe_def
proof (intro allI impI)
  fix s assume s: "channels_known c s"
  obtain x r where "f (a_world s) = Some (x, r)" "Q x" using assms by blast
  with s show "channels_known c (snd (global f s)) \<and> fst (global f s) \<noteq> Panicked \<and> (\<forall>x. fst (global f s) = Value x \<longrightarrow> Q x)"
    by (simp add: global_def channels_known_def)
qed

lemma safe_draws [safe_rule]: "harmless c rand_float" "harmless c (text_of kind)" "harmless c own_int"
  unfolding rand_float_def text_of_def own_int_def
  by (intro safe_global safe_own; simp add: split_beta)+

lemma safe_rand_intn [safe_rule]: "0 < n \<Longrightarrow> harmless c (rand_intn n)"
  unfolding rand_intn_def by (rule safe_global) (use w_intn_ok in blast)

lemma safe_looping: "(\<And>w. f w \<noteq> Some None) \<Longrightarrow> harmless c (looping f)"
  by (auto simp: safe_def looping_def channels_known_def split: option.splits prod.splits)

section \<open>Entities whose actions are safe\<close>

definition entity_ok :: "entity_config \<Rightarrow> bool" where
  "entity_ok c \<longleftrightarrow>
     (\<exists>channels. member_ok channels (UserData c)) \<and> (\<forall>ch \<in> set (TeamChoice (UserData c)). 0 < Weight ch) \<and>
     (\<forall>t \<in> set (Teams (UserData c)). (\<forall>ch \<in> set (ChannelChoice t). 0 < Weight ch) \<and> (\<forall>ch \<in> set (Channels t). uchannel_Name ch \<noteq> [])) \<and>
     2 \<le> NumEmoji (EnvConfig (EntityLoadTestConfig c)) \<and> 0 < NumUsers (EnvConfig (EntityLoadTestConfig c)) \<and>
     (\<exists>fs. testfiles c = Some fs \<and> fs \<noteq> []) \<and> has_websocket c \<and> (\<forall>rq tr. ans_post (srv c) rq tr \<noteq> None)"

lemma pick_team_safe:
  assumes "entity_ok c"
  shows "safe c (pick_team c) (\<lambda>t. t \<in> set (Teams (UserData c)))"
proof -
  have ok: "map Item (TeamChoice (UserData c)) = map int [0..<length (Teams (UserData c))]" "\<forall>ch \<in> set (TeamChoice (UserData c)). 0 < Weight ch"
    using assms by (auto simp: entity_ok_def member_ok_def choices_ok_def)
  show ?thesis
    unfolding pick_team_def
    by (rule safe_seq [where R = "\<lambda>t. \<forall>i. t = Some i \<longrightarrow> 0 \<le> i \<and> nat i < length (Teams (UserData c))"], rule safe_own)
      (use PickTeam_ok [OF ok] in blast, auto intro!: safe_rule)
qed

lemma pick_channel_safe:
  assumes "entity_ok c" "t \<in> set (Teams (UserData c))"
  shows "safe c (pick_channel t) (\<lambda>ch. \<forall>x. ch = Some x \<longrightarrow> x \<in> set (Channels t))"
proof -
  have ok: "map Item (ChannelChoice t) = map int [0..<length (Channels t)]" "\<forall>ch \<in> set (ChannelChoice t). 0 < Weight ch"
    using assms by (auto simp: entity_ok_def member_ok_def choices_ok_def)
  show ?thesis
    unfolding pick_channel_def
    by (rule safe_seq [where R = "\<lambda>ch. \<forall>i. ch = Some i \<longrightarrow> 0 \<le> i \<and> nat i < length (Channels t)"], rule safe_own)
      (use PickChannel_ok [OF ok] in blast, auto intro!: safe_rule)
qed

lemma pick_team_channel_safe:
  assumes "entity_ok c"
  shows "safe c (pick_team_channel c) (\<lambda>(t, ch). t \<in> set (Teams (UserData c)) \<and> ch \<in> set (Channels t))"
proof -
  let ?u = "UserData c"
  have ok: "map Item (TeamChoice ?u) = map int [0..<length (Teams ?u)]" "\<forall>ch \<in> set (TeamChoice ?u). 0 < Weight ch"
    "\<And>t. t \<in> set (Teams ?u) \<Longrightarrow> map Item (ChannelChoice t) = map int [0..<length (Channels t)]"
    "\<And>t. t \<in> set (Teams ?u) \<Longrightarrow> \<forall>ch \<in> set (ChannelChoice t). 0 < Weight ch"
    using assms by (auto simp: entity_ok_def member_ok_def choices_ok_def)
  let ?R = "\<lambda>(t, ch). \<forall>i. t = Some i \<longrightarrow> 0 \<le> i \<and> nat i < length (Teams ?u) \<and>
    (\<forall>j. ch = Some j \<longrightarrow> 0 \<le> j \<and> nat j < length (Channels (Teams ?u ! nat i)))"
  have "\<exists>x r'. PickTeamChannel ?u r = Some (x, r') \<and> ?R x" for r
  proof -
    obtain t r1 where t: "PickTeam ?u r = Some (t, r1)" "\<forall>i. t = Some i \<longrightarrow> 0 \<le> i \<and> nat i < length (Teams ?u)"
      using PickTeam_ok [OF ok(1,2)] by blast
    show ?thesis
    proof (cases t)
      case None
      then show ?thesis using t by (simp add: PickTeamChannel_def)
    next
      case (Some i)
      then have "Teams ?u ! nat i \<in> set (Teams ?u)" using t(2) by simp
      from PickChannel_ok [OF ok(3,4) [OF this], of r1] show ?thesis using t Some by (auto simp: PickTeamChannel_def)
    qed
  qed
  then show ?thesis
    unfolding pick_team_channel_def
    by (intro safe_seq [where R = ?R] safe_own) (auto intro!: safe_rule split: option.splits)
qed

lemma index_below_safe: "0 < n \<Longrightarrow> safe c (index_below n) (\<lambda>i. 0 \<le> i \<and> i < n)"
  unfolding index_below_def
  by (rule safe_seq [where R = "\<lambda>i. \<exists>k. i = Inr k \<and> 0 \<le> k \<and> k < n"], rule safe_own) (auto simp: IntRange_ok intro!: safe_rule)

lemma pick_emoji_safe [safe_rule]: "entity_ok c \<Longrightarrow> harmless c (pick_emoji c)"
  unfolding pick_emoji_def entity_ok_def
  by (rule safe_own) (use intn_total [of "NumEmoji (EnvConfig (EntityLoadTestConfig c)) - 1"] in \<open>auto simp: PickEmoji_def split: option.splits\<close>)

lemma safe_memory [safe_rule]: "harmless c (stored k)" "harmless c (store k v)" "harmless c (known_channels t)"
  by (simp_all add: safe_def stored_def store_def known_channels_def channels_known_def)

text \<open>The channel map has a map for the team when the team is in the map of teams.\<close>

lemma team_channel_id_safe [safe_rule]: "harmless c (team_channel_id c t ch)"
  unfolding safe_def
proof (intro allI impI)
  fix s assume s: "channels_known c s"
  have "map_read (TeamMap c) t = [] \<or> (\<exists>m. a_channels s t = Some m)"
    using s by (auto simp: channels_known_def map_read_def split: option.splits)
  with s show "channels_known c (snd (team_channel_id c t ch s)) \<and> fst (team_channel_id c t ch s) \<noteq> Panicked \<and>
      (\<forall>x. fst (team_channel_id c t ch s) = Value x \<longrightarrow> True)"
    by (auto simp: team_channel_id_def GetTeamChannelId_def Let_def channels_known_def split: option.splits sum.splits)
qed

text \<open>A pick followed by what uses it.\<close>

lemma seq_team:
  assumes "entity_ok c" "\<And>t. t \<in> set (Teams (UserData c)) \<Longrightarrow> safe c (k t) Q"
  shows "safe c (seq (pick_team c) k) Q"
  using assms by (intro safe_seq [OF pick_team_safe])

lemma seq_team_channel:
  assumes "entity_ok c" "\<And>t ch. t \<in> set (Teams (UserData c)) \<Longrightarrow> ch \<in> set (Channels t) \<Longrightarrow> safe c (k t ch) Q"
  shows "safe c (seq (pick_team_channel c) (\<lambda>(t, ch). k t ch)) Q"
  using assms by (intro safe_seq [OF pick_team_channel_safe]) auto

lemma seq_channel:
  assumes "entity_ok c" "t \<in> set (Teams (UserData c))" "\<And>ch. safe c (k ch) Q"
  shows "safe c (seq (pick_channel t) k) Q"
  using assms by (intro safe_seq [OF pick_channel_safe])

lemma seq_index:
  assumes "0 < n" "\<And>i. 0 \<le> i \<Longrightarrow> i < n \<Longrightarrow> safe c (k i) Q"
  shows "safe c (seq (index_below n) k) Q"
  using assms by (intro safe_seq [OF index_below_safe]) auto

lemmas safe_pick = seq_team seq_team_channel seq_channel seq_index

section \<open>The actions\<close>

lemma reaction_harmless [safe_rule]: "harmless c (addReaction c u p e)"
  unfolding addReaction_def by (rule safe_rule)

lemma statuses_harmless: "entity_ok c \<Longrightarrow> harmless c (actionGetStatuses c)"
  unfolding actionGetStatuses_def by (rule safe_pick safe_rule safe_seq_any TrueI | assumption)+

lemma memberships_harmless:
  "entity_ok c \<Longrightarrow> harmless c (actionLeaveJoinChannel c)"
  "entity_ok c \<Longrightarrow> harmless c (actionLeaveJoinTeam c)"
  unfolding actionLeaveJoinChannel_def actionLeaveJoinTeam_def by (rule safe_pick safe_rule safe_seq_any TrueI | assumption)+

lemma pick_file_some:
  assumes "pick_file files w = Some r" "files \<noteq> []"
  shows "r \<noteq> None"
proof -
  have "files \<noteq> [] \<longrightarrow> r \<noteq> None"
  proof (rule pick_file.raw_induct [OF _ assms(1)], intro impI)
    fix rec :: "(string \<times> bool) list \<Rightarrow> world \<Rightarrow> (string \<times> world) option option" and files :: "(string \<times> bool) list" and w r
    assume IH: "\<And>files w r. rec files w = Some r \<Longrightarrow> files \<noteq> [] \<longrightarrow> r \<noteq> None" and ne: "files \<noteq> []"
      and body: "(case w_intn (int (length files)) w of
          None \<Rightarrow> Some None
        | Some r \<Rightarrow> if snd (files ! nat (fst r)) then rec files (snd r) else Some (Some (fst (files ! nat (fst r)), snd r))) = Some r"
    obtain v w' where "w_intn (int (length files)) w = Some (v, w')" using w_intn_ok [of "int (length files)" w] ne by auto
    then show "r \<noteq> None" using body IH [of files w' r] ne by (auto split: if_splits)
  qed
  with assms(2) show ?thesis by blast
qed

lemma pick_file_fine: "files \<noteq> [] \<Longrightarrow> pick_file files w \<noteq> Some None"
  using pick_file_some by blast

lemma needy_some:
  assumes "needy p pick acc w = Some r" "\<And>w. pick w \<noteq> None"
  shows "r \<noteq> None"
proof -
  have "(\<forall>w. pick w \<noteq> None) \<longrightarrow> r \<noteq> None"
  proof (rule needy.raw_induct [OF _ assms(1)], intro impI)
    fix rec :: "real \<Rightarrow> (world \<Rightarrow> (string \<times> world) option) \<Rightarrow> string list \<Rightarrow> world \<Rightarrow> (string list \<times> world) option option"
      and p and pick :: "world \<Rightarrow> (string \<times> world) option" and acc w r
    assume IH: "\<And>p pick acc w r. rec p pick acc w = Some r \<Longrightarrow> (\<forall>w. pick w \<noteq> None) \<longrightarrow> r \<noteq> None"
      and total: "\<forall>w. pick w \<noteq> None"
      and body: "(if fst (w_float64 w) < p
        then (case pick (snd (w_float64 w)) of None \<Rightarrow> Some None | Some r \<Rightarrow> rec p pick (acc @ [fst r]) (snd r))
        else Some (Some (acc, snd (w_float64 w)))) = Some r"
    obtain x where "pick (snd (w_float64 w)) = Some x" using total by (metis not_None_eq)
    then show "r \<noteq> None" using body IH [of p pick "acc @ [fst x]" "snd x" r] total by (auto split: if_splits)
  qed
  with assms(2) show ?thesis by blast
qed

lemma needy_fine: "(\<And>w. pick w \<noteq> None) \<Longrightarrow> needy p pick acc w \<noteq> Some None"
  using needy_some by blast

lemma file_harmless: "entity_ok c \<Longrightarrow> harmless c (readRandomTestFile c)"
  unfolding readRandomTestFile_def
  by (auto simp: entity_ok_def intro!: safe_seq_any safe_looping pick_file_fine safe_rule split: option.split)

lemma upload_harmless: "entity_ok c \<Longrightarrow> harmless c (upload_files c ch n)"
  by (induction n) (auto intro!: safe_seq_any file_harmless safe_rule split: option.split)

lemma posts_harmless:
  assumes "entity_ok c"
  shows "t \<in> set (Teams (UserData c)) \<Longrightarrow> harmless c (createPost c t ch)"
    and "harmless c (actionPostToTownSquare c)" and "harmless c (actionPost c)"
proof -
  have react: "harmless c (react c (Some p) e)" for p e unfolding react_def by (simp add: safe_rule)
  have post: "\<exists>p. ans_post (srv c) rq tr = Some p" for rq tr using assms by (auto simp: entity_ok_def)
  have ask: "safe c (ask ans_post c rq) (\<lambda>p. \<exists>q. p = Some q)" for rq
    using post by (simp add: safe_def ask_def channels_known_def)
  have create: "harmless c (createPost c t ch)" if "t \<in> set (Teams (UserData c))" for t ch
    unfolding createPost_def
    by (rule safe_seq [OF ask] safe_pick safe_rule safe_seq_any upload_harmless assms that TrueI | assumption | (elim exE, simp add: react) | simp)+
  show "t \<in> set (Teams (UserData c)) \<Longrightarrow> harmless c (createPost c t ch)" by (rule create)
  show "harmless c (actionPostToTownSquare c)" "harmless c (actionPost c)"
    unfolding actionPostToTownSquare_def actionPost_def
    by (rule safe_pick safe_rule safe_seq_any create assms TrueI | assumption)+
qed

lemma search_harmless [safe_rule]: "harmless c (search_prefixes c teamId ps)"
  by (induction ps) (auto intro!: safe_seq_any safe_rule split: option.split)

lemma PickUser_total: "\<exists>x r'. PickUser us r = Some (x, r')"
  using IntRange_ok [of 0 "int (length us)" r] by (cases "us = []") (auto simp: PickUser_def go_nth_def)

lemma users_harmless [safe_rule]: "harmless c (searchRandomUsers c teamId n)"
  by (induction n) (auto intro!: safe_seq_any safe_own safe_rule simp: PickUser_total split: option.split)

lemma WeightedChoice_harmless [safe_rule]: "harmless c (own (\<lambda>r. WeightedChoice r cs))"
  by (rule safe_own) (use WeightedChoice_total in force)

lemma text_harmless [safe_rule]: "harmless c (global (\<lambda>w. let (t, f) = g w in Some (t, h f w)))"
  by (rule safe_global) (auto split: prod.splits)

lemma created_harmless: "entity_ok c \<Longrightarrow> harmless c (actionCreateDeleteChannel c)"
  unfolding actionCreateDeleteChannel_def createChannel_def Let_def [of "Item _"] Let_def [of "\<lambda>r. give _"]
  by (rule safe_pick safe_rule safe_seq_any TrueI | assumption)+

lemma reaction_loop_harmless [safe_rule]: "entity_ok c \<Longrightarrow> harmless c (reaction_loop c u p n)"
  by (induction n) (auto intro!: safe_seq_any safe_rule)

lemma reactions_harmless: "entity_ok c \<Longrightarrow> harmless c (actionPostReactions c)"
  unfolding actionPostReactions_def by (rule safe_pick safe_rule safe_seq_any TrueI | assumption | simp)+

lemma thumbnails_harmless [safe_rule]: "harmless c (thumbnails c fs)"
  unfolding thumbnails_def by (rule safe_rule TrueI)+

lemma view_harmless: "entity_ok c \<Longrightarrow> harmless c (view_post c p)"
  unfolding view_post_def by (rule safe_pick safe_rule safe_seq_any TrueI | assumption)+

lemma random_user_total: "entity_ok c \<Longrightarrow> random_user c w \<noteq> None"
  using w_intn_ok [of "NumUsers (EnvConfig (EntityLoadTestConfig c))" w] by (auto simp: random_user_def entity_ok_def)

lemma random_or_new_user_total: "entity_ok c \<Longrightarrow> random_or_new_user c w \<noteq> None"
  using random_user_total by (simp add: random_or_new_user_def split_beta Let_def)

lemma query_harmless: "(\<And>w. pick w \<noteq> None) \<Longrightarrow> harmless c (query_users c f pick rq)"
  unfolding query_users_def by (rule safe_pick safe_rule safe_seq_any safe_looping needy_fine TrueI | assumption)+

lemma channel_harmless: "entity_ok c \<Longrightarrow> harmless c (actionGetChannel c)"
  unfolding actionGetChannel_def
  by (rule safe_pick safe_rule view_harmless query_harmless random_user_total random_or_new_user_total safe_seq_any TrueI | assumption)+

lemma pick_own_harmless: "entity_ok c \<Longrightarrow> harmless c (own (PickTeam (UserData c)))"
proof -
  assume c: "entity_ok c"
  then have "map Item (TeamChoice (UserData c)) = map int [0..<length (Teams (UserData c))]" "\<forall>ch \<in> set (TeamChoice (UserData c)). 0 < Weight ch"
    by (auto simp: entity_ok_def member_ok_def choices_ok_def)
  from PickTeam_ok [OF this] show ?thesis by (intro safe_own) fastforce
qed

lemma searchPosts_harmless: "entity_ok c \<Longrightarrow> harmless c (searchPosts c)"
  unfolding searchPosts_def by (rule pick_own_harmless safe_pick safe_rule safe_seq_any TrueI | assumption)+

lemma searches_harmless:
  "entity_ok c \<Longrightarrow> harmless c (actionPerformSearch c)"
  "entity_ok c \<Longrightarrow> harmless c (actionGetPostsBeforeAfter c)"
  unfolding actionPerformSearch_def actionGetPostsBeforeAfter_def
  by (rule searchPosts_harmless safe_pick safe_rule safe_seq_any TrueI | assumption | simp)+

lemma typed_harmless [safe_rule]: "harmless c (type_name c n rq)"
  unfolding type_name_def by (rule safe_rule TrueI)+

lemma name_pos: "entity_ok c \<Longrightarrow> t \<in> set (Teams (UserData c)) \<Longrightarrow> ch \<in> set (Channels t) \<Longrightarrow> 0 < int (length (uchannel_Name ch))"
  by (simp add: entity_ok_def)

lemma typing_harmless:
  "entity_ok c \<Longrightarrow> harmless c (actionAutocompleteChannel c)"
  "entity_ok c \<Longrightarrow> harmless c (actionSearchChannel c)"
  unfolding actionAutocompleteChannel_def actionSearchChannel_def
  by (rule safe_pick safe_rule safe_seq_any name_pos TrueI | assumption)+

lemma search_user_harmless: "entity_ok c \<Longrightarrow> harmless c (actionSearchUser c)"
  unfolding actionSearchUser_def
  apply (rule safe_pick, assumption)
  apply (rule safe_rule)
  apply (rule safe_seq_any)
   apply (rule safe_rule, simp)
  apply (rule safe_branches(2))
  apply (rule safe_branches(2))
  apply (rule safe_branches(1), rule safe_rule)
  apply (rule safe_seq_any)
   apply (rule safe_rule)
   apply simp
  apply (rule safe_rule)
  done

lemma patch_harmless [safe_rule]: "harmless c (patch_when d f u p)"
  unfolding patch_when_def by (rule safe_seq_any safe_rule TrueI)+

lemma others_harmless:
  "entity_ok c \<Longrightarrow> harmless c (actionPostWebhook c)"
  "harmless c (actionGetTeamUnreads c)"
  "entity_ok c \<Longrightarrow> harmless c (actionGetChannelUnreads c)"
  "harmless c (actionUpdateUserProfile c)"
  "harmless c (actionDeactivateReactivate c)"
  "harmless c (actionWakeup c)"
  unfolding actionPostWebhook_def actionGetTeamUnreads_def actionGetChannelUnreads_def
    actionUpdateUserProfile_def actionDeactivateReactivate_def actionWakeup_def
  by (rule safe_pick safe_rule safe_seq_any TrueI | assumption)+

lemma disconnect_harmless: "entity_ok c \<Longrightarrow> harmless c (actionDisconnectWebsocket c)"
  unfolding actionDisconnectWebsocket_def entity_ok_def by (simp add: safe_rule)

lemma browse_harmless [safe_rule]: "harmless c (browse d t n i)"
proof (induction "nat (n - i)" arbitrary: i rule: less_induct)
  case less
  have IH: "harmless c (browse d t n (i + CHANNELS_FETCH_SIZE))" if "i < n"
    using that by (intro less) (simp add: CHANNELS_FETCH_SIZE_def CHANNELS_CHUNK_SIZE_def)
  show ?case by (subst browse.simps) (rule IH safe_rule safe_seq_any TrueI | assumption)+
qed

lemma more_harmless: "entity_ok c \<Longrightarrow> harmless c (actionMoreChannels c)"
  unfolding actionMoreChannels_def by (rule safe_pick safe_rule safe_seq_any TrueI | assumption)+

lemmas actions_harmless = statuses_harmless memberships_harmless posts_harmless(2,3) created_harmless reactions_harmless
  channel_harmless searches_harmless typing_harmless search_user_harmless others_harmless disconnect_harmless more_harmless

text \<open>Every action of every test.\<close>

definition test_actions :: "TestItem \<Rightarrow> (entity_config \<Rightarrow> unit act) set" where
  "test_actions t = (\<Union>u \<in> set (UserEntities (Test t)). Item ` set (Actions (Entity (Item u))))"

definition user_harmless :: "entity_config \<Rightarrow> UserEntity \<Rightarrow> bool" where
  "user_harmless c e \<longleftrightarrow> (\<forall>a \<in> set (Actions e). harmless c (Item a c))"

lemma users_of_tests_harmless:
  "entity_ok c \<Longrightarrow> user_harmless c posterEntity"
  "entity_ok c \<Longrightarrow> user_harmless c reactionsPoster"
  "entity_ok c \<Longrightarrow> user_harmless c getChannelEntity"
  "entity_ok c \<Longrightarrow> user_harmless c searchEntity"
  "entity_ok c \<Longrightarrow> user_harmless c searchUsersEntity"
  "entity_ok c \<Longrightarrow> user_harmless c channelCreateDeleteEntity"
  "entity_ok c \<Longrightarrow> user_harmless c updateUserProfileEntity"
  "entity_ok c \<Longrightarrow> user_harmless c standardUserEntity"
  "entity_ok c \<Longrightarrow> user_harmless c webhookUserEntity"
  "entity_ok c \<Longrightarrow> user_harmless c townSquareSpammerUserEntity"
  "entity_ok c \<Longrightarrow> user_harmless c channelLeaverJoinerUserEntity"
  "entity_ok c \<Longrightarrow> user_harmless c teamLeaverJoinerUserEntity"
  "entity_ok c \<Longrightarrow> user_harmless c deactivatingUserEntity"
  "entity_ok c \<Longrightarrow> user_harmless c moreChannelsEntity"
  "entity_ok c \<Longrightarrow> user_harmless c autocompleterUserEntity"
  by (simp_all add: user_harmless_def user_entity_defs actions_harmless)

lemma test_actions_harmless:
  assumes "entity_ok c" "t \<in> set tests" "a \<in> test_actions t"
  shows "harmless c (a c)"
proof -
  have "\<forall>t \<in> set tests. \<forall>u \<in> set (UserEntities (Test t)). user_harmless c (Entity (Item u))"
    by (simp add: tests_def test_run_defs users_of_tests_harmless [OF assms(1)])
  then show ?thesis using assms(2,3) by (auto simp: test_actions_def user_harmless_def)
qed

section \<open>Properties\<close>

text \<open>A list of actions one after the other; \<open>None\<close> when one of them panics. One that never ends is the last.\<close>

fun play :: "entity_config \<Rightarrow> (entity_config \<Rightarrow> unit act) list \<Rightarrow> act_state \<Rightarrow> act_state option" where
  "play c [] s = Some s"
| "play c (a # rest) s =
     (case a c s of
        (Panicked, s') \<Rightarrow> None
      | (Diverged, s') \<Rightarrow> Some s'
      | (_, s') \<Rightarrow> play c rest s')"

lemma play_safe:
  "\<forall>a \<in> set as. harmless c (a c) \<Longrightarrow> channels_known c s \<Longrightarrow> \<exists>s'. play c as s = Some s' \<and> channels_known c s'"
proof (induction as arbitrary: s)
  case (Cons a as)
  have "channels_known c (snd (a c s))" "fst (a c s) \<noteq> Panicked" using Cons.prems by (auto simp: safe_def)
  then show ?case using Cons.IH [of "snd (a c s)"] Cons.prems(1) by (auto split: outcome.splits prod.splits)
qed simp


text \<open>An entity with one team and one channel.\<close>

definition sample_entity :: entity_config where
  "sample_entity = \<lparr>EntityNumber = 0, UserData = member_user, Users = [member_user], TeamMap = [''t'' \<mapsto> ''i''], TownSquareMap = Map.empty,
     has_websocket = True, EntityLoadTestConfig = zero_config\<lparr>EnvConfig := blank_config\<lparr>NumUsers := 1, NumEmoji := 2\<rparr>\<rparr>,
     srv = \<lparr>ans_user = (\<lambda>_ _. None), ans_done = (\<lambda>_ _. True), ans_id = (\<lambda>_ _. Some ''id''), ans_ids = (\<lambda>_ _. Some []),
       ans_posts = (\<lambda>_ _. Some []), ans_files = (\<lambda>_ _. None),
       ans_post = (\<lambda>_ _. Some \<lparr>pi_Id = ''p'', pi_UserId = ''u'', pi_ChannelId = ''c'', pi_metadata = None, pi_HasReactions = False, pi_FileIds = []\<rparr>)\<rparr>,
     testfiles = Some [(''test.png'', False)], can_open = (\<lambda>_. False)\<rparr>"

lemma sample_entity_ok: "entity_ok sample_entity"
proof -
  have "member_ok [one_channel] member_user" "\<forall>c \<in> set (TeamChoice member_user). 0 < Weight c"
    by (simp_all add: member_ok_def choices_ok_def team_member_ok_def member_user_def one_channel_of)
  then show ?thesis by (auto simp: entity_ok_def sample_entity_def member_user_def)
qed


end
