(* ===== verification/Action_Effects.thy ===== *)
theory Action_Effects
  imports Action_Safety
begin

text \<open>
  What some actions do to the server: a Hoare calculus for actions whose assertions speak of the requests sent so far,
  and servers that answer by what those requests amount to.
\<close>

section \<open>The calculus\<close>

text \<open>From a state with \<open>P\<close> the computation gives a value and a state with \<open>Q\<close>, or ends early (or not at all) in one with \<open>E\<close>.\<close>

definition triple :: "(act_state \<Rightarrow> bool) \<Rightarrow> 'a act \<Rightarrow> ('a \<Rightarrow> act_state \<Rightarrow> bool) \<Rightarrow> (act_state \<Rightarrow> bool) \<Rightarrow> bool" where
  "triple P m Q E \<longleftrightarrow> (\<forall>s. P s \<longrightarrow> (case m s of (Value x, s') \<Rightarrow> Q x s' | (_, s') \<Rightarrow> E s'))"

named_theorems triple_rule

lemma triple_give: "triple (Q x) (give x) Q E"
  by (simp add: triple_def give_def)

lemma triple_give_keep: "triple P (give x) (\<lambda>_. P) E"
  by (rule triple_give)

lemma triple_leave: "triple E leave Q E"
  by (simp add: triple_def leave_def)

lemma triple_seq: "triple P m R E \<Longrightarrow> (\<And>x. triple (R x) (k x) Q E) \<Longrightarrow> triple P (seq m k) Q E"
  by (fastforce simp: triple_def seq_def split: outcome.splits prod.splits)

lemma triple_pre: "triple P m Q E \<Longrightarrow> (\<And>s. P' s \<Longrightarrow> P s) \<Longrightarrow> triple P' m Q E"
  by (auto simp: triple_def)

lemma triple_post: "triple P m R D \<Longrightarrow> (\<And>x s. R x s \<Longrightarrow> Q x s) \<Longrightarrow> (\<And>s. D s \<Longrightarrow> E s) \<Longrightarrow> triple P m Q E"
  by (fastforce simp: triple_def split: outcome.splits prod.splits)

lemma triple_if: "(b \<Longrightarrow> triple P m Q E) \<Longrightarrow> (\<not> b \<Longrightarrow> triple P n Q E) \<Longrightarrow> triple P (if b then m else n) Q E"
  by simp

lemma triple_pure: "(b \<Longrightarrow> triple P m Q E) \<Longrightarrow> triple (\<lambda>s. b \<and> P s) m Q E"
  by (auto simp: triple_def)

lemma triple_ask: "triple (\<lambda>s. Q (answer (srv c) rq (a_trace s)) (s\<lparr>a_trace := a_trace s @ [rq]\<rparr>)) (ask answer c rq) Q E"
  by (simp add: triple_def ask_def)

lemma triple_must:
  "triple (\<lambda>s. (if ans_done (srv c) rq (a_trace s) then Q () else E) (s\<lparr>a_trace := a_trace s @ [rq]\<rparr>)) (must c rq) Q E"
  by (simp add: triple_def must_def seq_def ask_def give_def leave_def)

lemma triple_need:
  "triple (\<lambda>s. (case answer (srv c) rq (a_trace s) of None \<Rightarrow> E | Some x \<Rightarrow> Q x) (s\<lparr>a_trace := a_trace s @ [rq]\<rparr>)) (need answer c rq) Q E"
  by (simp add: triple_def need_def seq_def ask_def give_def leave_def split: option.split)

text \<open>Assertions about the requests sent are not touched by draws.\<close>

definition about_trace :: "(request list \<Rightarrow> bool) \<Rightarrow> act_state \<Rightarrow> bool" where
  "about_trace F s \<longleftrightarrow> F (a_trace s)"

definition quiet :: "'a act \<Rightarrow> bool" where
  "quiet m \<longleftrightarrow> (\<forall>s. a_trace (snd (m s)) = a_trace s)"

lemma triple_quiet: "quiet m \<Longrightarrow> triple (about_trace F) m (\<lambda>_. about_trace F) (about_trace F)"
  unfolding triple_def quiet_def about_trace_def by (auto split: outcome.splits prod.splits) (metis snd_conv)+

lemma triple_final:
  assumes "triple (about_trace F) m (\<lambda>_. about_trace F) (about_trace F)" "F (a_trace s)"
  shows "F (a_trace (snd (m s)))"
proof -
  obtain v s' where m: "m s = (v, s')" by force
  have "case v of Value x \<Rightarrow> about_trace F s' | _ \<Rightarrow> about_trace F s'"
    using assms(1) [unfolded triple_def, rule_format, of s] assms(2) m by (cases v) (simp_all add: about_trace_def)
  then show ?thesis by (cases v) (simp_all add: m about_trace_def)
qed

lemma quiet_draws: "quiet (own f)" "quiet (global g)" "quiet rand_float" "quiet (give x)" "quiet leave"
  by (auto simp: quiet_def own_def global_def rand_float_def give_def leave_def split: option.splits prod.splits)

lemma quiet_seq: "quiet m \<Longrightarrow> (\<And>x. quiet (k x)) \<Longrightarrow> quiet (seq m k)"
  by (auto simp: quiet_def seq_def split: outcome.splits prod.splits) (metis snd_conv)+

lemma quiet_picks: "quiet (pick_team c)" "quiet (pick_team_channel c)"
  unfolding pick_team_def pick_team_channel_def
  by (auto intro!: quiet_seq quiet_draws split: option.split prod.split simp: Let_def)

lemma triple_channel_id:
  assumes "\<And>tr a b. F tr \<Longrightarrow> F (tr @ [ChannelReq (GetChannelByName a b)])"
  shows "triple (about_trace F) (team_channel_id c t ch) (\<lambda>_. about_trace F) (about_trace F)"
  using assms by (auto simp: triple_def about_trace_def team_channel_id_def Let_def split: option.splits sum.splits prod.splits)

section \<open>Leaving and joining a channel\<close>

text \<open>The members of the channels after the requests (the latest first), given who was in at the start: a request that the
  server refuses has no effect.\<close>

fun members_rev :: "mm_server \<Rightarrow> (string \<times> string) set \<Rightarrow> request list \<Rightarrow> (string \<times> string) set" where
  "members_rev sv M [] = M"
| "members_rev sv M (rq # earlier) =
     (let A = members_rev sv M earlier in
      if ans_done sv rq (rev earlier)
      then (case rq of
              ChannelReq (AddChannelMember ch u) \<Rightarrow> insert (ch, u) A
            | ChannelReq (RemoveUserFromChannel ch u) \<Rightarrow> A - {(ch, u)}
            | _ \<Rightarrow> A)
      else A)"

definition members :: "mm_server \<Rightarrow> (string \<times> string) set \<Rightarrow> request list \<Rightarrow> (string \<times> string) set" where
  "members sv M tr = members_rev sv M (rev tr)"

lemma members_snoc:
  "members sv M (tr @ [ChannelReq (AddChannelMember ch u)]) =
     (if ans_done sv (ChannelReq (AddChannelMember ch u)) tr then insert (ch, u) (members sv M tr) else members sv M tr)"
  "members sv M (tr @ [ChannelReq (RemoveUserFromChannel ch u)]) =
     (if ans_done sv (ChannelReq (RemoveUserFromChannel ch u)) tr then members sv M tr - {(ch, u)} else members sv M tr)"
  "members sv M (tr @ [UserReq q]) = members sv M tr"
  "members sv M (tr @ [ChannelReq (GetChannel ch)]) = members sv M tr"
  "members sv M (tr @ [ChannelReq (GetChannelByName ch t)]) = members sv M tr"
  by (simp_all add: members_def Let_def)

text \<open>A server that lets everybody join, and leave what they are in, except for the channels that everybody is in.\<close>

definition member_server :: "mm_server \<Rightarrow> string set \<Rightarrow> (string \<times> string) set \<Rightarrow> bool" where
  "member_server sv defaults M \<longleftrightarrow>
     (\<forall>ch u tr. ans_done sv (ChannelReq (AddChannelMember ch u)) tr) \<and>
     (\<forall>ch u tr. ans_done sv (ChannelReq (RemoveUserFromChannel ch u)) tr \<longleftrightarrow> (ch, u) \<in> members sv M tr \<and> ch \<notin> defaults)"

lemma leave_join_triple:
  assumes "member_server (srv c) defaults M" "defaults \<times> UNIV \<subseteq> A"
  shows "triple (about_trace (\<lambda>tr. members (srv c) M tr = A)) (actionLeaveJoinChannel c)
    (\<lambda>_. about_trace (\<lambda>tr. members (srv c) M tr = A)) (about_trace (\<lambda>tr. members (srv c) M tr = A))"
proof -
  let ?F = "\<lambda>B. about_trace (\<lambda>tr. members (srv c) M tr = B)"
  have get: "triple (?F A) (need ans_user c (UserReq GetMe)) (\<lambda>_. ?F A) (?F A)"
    "triple (?F A) (must c (ChannelReq (GetChannel ch))) (\<lambda>_. ?F A) (?F A)" for ch
    by (rule triple_pre [OF triple_need] triple_pre [OF triple_must], simp add: about_trace_def members_snoc split: option.split)+
  have remove: "triple (?F A) (ask ans_done c (ChannelReq (RemoveUserFromChannel ch u)))
      (\<lambda>b s. (b \<longleftrightarrow> (ch, u) \<in> A \<and> ch \<notin> defaults) \<and> ?F (if b then A - {(ch, u)} else A) s) (?F A)" for ch u
    by (rule triple_pre [OF triple_ask]) (use assms in \<open>auto simp: about_trace_def members_snoc member_server_def\<close>)
  have add: "triple (?F B) (must c (ChannelReq (AddChannelMember ch u))) (\<lambda>_. ?F (insert (ch, u) B)) (?F A)" for ch u B
    by (rule triple_pre [OF triple_must]) (use assms in \<open>auto simp: about_trace_def members_snoc member_server_def\<close>)
  have again: "triple (?F (insert (ch, u) A)) (must c (ChannelReq (RemoveUserFromChannel ch u))) (\<lambda>_. ?F A) (?F A)"
    if "\<not> ((ch, u) \<in> A \<and> ch \<notin> defaults)" for ch u
    by (rule triple_pre [OF triple_must])
      (use assms that in \<open>auto simp: about_trace_def members_snoc member_server_def insert_absorb\<close>)
  have rest: "triple (\<lambda>s. (b \<longleftrightarrow> (ch, u) \<in> A \<and> ch \<notin> defaults) \<and> ?F (if b then A - {(ch, u)} else A) s)
      (seq (must c (ChannelReq (AddChannelMember ch u))) (\<lambda>_.
        if \<not> b then must c (ChannelReq (RemoveUserFromChannel ch u)) else give ())) (\<lambda>_. ?F A) (?F A)" for b ch u
  proof (rule triple_pure)
    assume b: "b \<longleftrightarrow> (ch, u) \<in> A \<and> ch \<notin> defaults"
    show "triple (?F (if b then A - {(ch, u)} else A)) (seq (must c (ChannelReq (AddChannelMember ch u))) (\<lambda>_.
        if \<not> b then must c (ChannelReq (RemoveUserFromChannel ch u)) else give ())) (\<lambda>_. ?F A) (?F A)"
    proof (cases b)
      case True
      then have "insert (ch, u) (A - {(ch, u)}) = A" using b by auto
      then show ?thesis using True by (auto intro!: triple_seq [OF add] triple_give_keep)
    next
      case False
      then show ?thesis using b by (auto intro!: triple_seq [OF add] again)
    qed
  qed
  have id: "triple (?F A) (team_channel_id c t ch) (\<lambda>_. ?F A) (?F A)" for t ch
    by (rule triple_channel_id) (simp add: members_snoc)
  show ?thesis
    unfolding actionLeaveJoinChannel_def
    by (intro triple_seq [OF triple_quiet [OF quiet_picks(2)]] triple_seq [OF id] triple_seq [OF get(1)] triple_seq [OF get(2)]
        triple_seq [OF remove] rest) (auto split: prod.split intro!: triple_seq [OF id] triple_seq [OF get(1)] triple_seq [OF get(2)]
        triple_seq [OF remove] rest)
qed

section \<open>Changing and restoring a profile\<close>

definition patched :: "user_patch \<Rightarrow> user_info \<Rightarrow> user_info" where
  "patched p u =
     (let or = (\<lambda>new old. case new of None \<Rightarrow> old | Some x \<Rightarrow> x) in
      u\<lparr>ui_FirstName := or (patch_FirstName p) (ui_FirstName u), ui_LastName := or (patch_LastName p) (ui_LastName u),
        ui_Username := or (patch_Username p) (ui_Username u), ui_Nickname := or (patch_Nickname p) (ui_Nickname u),
        ui_Position := or (patch_Position p) (ui_Position u), ui_Email := or (patch_Email p) (ui_Email u),
        ui_Password := or (patch_Password p) (ui_Password u)\<rparr>)"

text \<open>The profile of the user of the session after the requests (the latest first).\<close>

fun profile_rev :: "mm_server \<Rightarrow> user_info \<Rightarrow> request list \<Rightarrow> user_info" where
  "profile_rev sv U [] = U"
| "profile_rev sv U (rq # earlier) =
     (let u = profile_rev sv U earlier in
      if ans_done sv rq (rev earlier)
      then (case rq of
              UserReq (PatchUser i p) \<Rightarrow> if i = ui_Id u then patched p u else u
            | UserReq (UpdateUser v) \<Rightarrow> if ui_Id v = ui_Id u then v else u
            | _ \<Rightarrow> u)
      else u)"

definition profile :: "mm_server \<Rightarrow> user_info \<Rightarrow> request list \<Rightarrow> user_info" where
  "profile sv U tr = profile_rev sv U (rev tr)"

lemma profile_snoc:
  "profile sv U (tr @ [UserReq (PatchUser i p)]) =
     (if ans_done sv (UserReq (PatchUser i p)) tr \<and> i = ui_Id (profile sv U tr) then patched p (profile sv U tr) else profile sv U tr)"
  "profile sv U (tr @ [UserReq (UpdateUser v)]) =
     (if ans_done sv (UserReq (UpdateUser v)) tr \<and> ui_Id v = ui_Id (profile sv U tr) then v else profile sv U tr)"
  "profile sv U (tr @ [UserReq GetMe]) = profile sv U tr"
  "profile sv U (tr @ [UserReq (SetProfileImage i)]) = profile sv U tr"
  by (auto simp: profile_def Let_def)

lemma patched_id [simp]: "ui_Id (patched p u) = ui_Id u"
  by (simp add: patched_def Let_def)

definition profile_server :: "mm_server \<Rightarrow> user_info \<Rightarrow> bool" where
  "profile_server sv U \<longleftrightarrow> (\<forall>tr u. ans_user sv (UserReq GetMe) tr = Some u \<longrightarrow> u = profile sv U tr)"

lemma quiet_patch: "quiet (patch_when c f up p)"
  unfolding patch_when_def by (intro quiet_seq quiet_draws)

lemma update_profile_triple:
  assumes "profile_server (srv c) U"
  shows "triple (about_trace (\<lambda>tr. profile (srv c) U tr = u)) (actionUpdateUserProfile c)
    (\<lambda>_. about_trace (\<lambda>tr. profile (srv c) U tr = u\<lparr>ui_Password := Password (UserData c)\<rparr>)) (\<lambda>_. True)"
proof -
  let ?F = "about_trace (\<lambda>tr. profile (srv c) U tr = u)" and ?G = "about_trace (\<lambda>tr. ui_Id (profile (srv c) U tr) = ui_Id u)"
  let ?u = "u\<lparr>ui_Password := Password (UserData c)\<rparr>" and ?E = "\<lambda>_ :: act_state. True"
  have me: "triple ?F (need ans_user c (UserReq GetMe)) (\<lambda>x s. x = u \<and> ?F s) ?E"
    by (rule triple_pre [OF triple_need])
      (use assms in \<open>auto simp: about_trace_def profile_snoc profile_server_def split: option.split\<close>)
  have again: "triple ?G (need ans_user c (UserReq GetMe)) (\<lambda>_. ?G) ?E"
    by (rule triple_pre [OF triple_need]) (auto simp: about_trace_def profile_snoc split: option.split)
  have quiet: "triple ?F m (\<lambda>_. ?F) ?E" if "quiet m" for m :: "'b act"
    by (rule triple_post [OF triple_quiet [OF that]]) simp_all
  have image: "triple ?F (if x then (if y then leave else must c (UserReq (SetProfileImage i))) else give ()) (\<lambda>_. ?F) ?E" for x y i
    by (intro triple_if triple_give_keep triple_pre [OF triple_leave] triple_pre [OF triple_must])
      (auto simp: about_trace_def profile_snoc)
  have change: "triple ?F (must c (UserReq (PatchUser (ui_Id u) p))) (\<lambda>_. ?G) ?E" for p
    by (rule triple_pre [OF triple_must]) (auto simp: about_trace_def profile_snoc)
  have restore: "triple ?G (must c (UserReq (UpdateUser ?u))) (\<lambda>_. about_trace (\<lambda>tr. profile (srv c) U tr = ?u)) ?E"
    by (rule triple_pre [OF triple_must]) (auto simp: about_trace_def profile_snoc)
  have stop: "triple ?F leave Q ?E" for Q :: "unit \<Rightarrow> act_state \<Rightarrow> bool"
    by (rule triple_pre [OF triple_leave]) simp
  show ?thesis
    unfolding actionUpdateUserProfile_def
    by (rule triple_seq [OF me], rule triple_pure, hypsubst,
      (rule triple_seq [OF quiet [OF quiet_patch]] triple_seq [OF quiet [OF quiet_draws(3)]] triple_seq [OF image] triple_if stop
        triple_seq [OF change] triple_seq [OF again] restore)+)
qed

section \<open>Browsing channels\<close>

definition pages :: "request list \<Rightarrow> int list" where
  "pages tr = concat (map (\<lambda>rq. case rq of ChannelReq (GetPublicChannels t p) \<Rightarrow> [p] | _ \<Rightarrow> []) tr)"

lemma pages_append [simp]: "pages (tr @ tr') = pages tr @ pages tr'"
  by (simp add: pages_def)

text \<open>A list of pages \<open>k n, (k + 1) n, ...\<close>, for positions below \<open>n\<close>.\<close>

definition stretch :: "int \<Rightarrow> nat \<Rightarrow> int list \<Rightarrow> bool" where
  "stretch n k ps \<longleftrightarrow> (\<forall>j < length ps. ps ! j = int (k + j) * n \<and> int (k + j) * CHANNELS_FETCH_SIZE < n)"

lemma stretch_simps [simp]: "stretch n k []"
  "stretch n k (p # ps) \<longleftrightarrow> p = int k * n \<and> int k * CHANNELS_FETCH_SIZE < n \<and> stretch n (Suc k) ps"
  by (auto simp: stretch_def All_less_Suc2 add_ac)

lemma browse_pages:
  assumes "0 \<le> n"
  shows "\<exists>ps. pages (a_trace (snd (browse c t n (int k * CHANNELS_FETCH_SIZE) s))) = pages (a_trace s) @ ps \<and> stretch n k ps"
proof (induction "nat (n - int k * CHANNELS_FETCH_SIZE)" arbitrary: k s rule: less_induct)
  case less
  let ?i = "int k * CHANNELS_FETCH_SIZE"
  have size: "CHANNELS_FETCH_SIZE = 100" by (simp add: CHANNELS_FETCH_SIZE_def CHANNELS_CHUNK_SIZE_def)
  show ?case
  proof (cases "?i < n")
    case False
    then show ?thesis by (subst browse.simps) (simp add: give_def)
  next
    case True
    let ?rq = "ChannelReq (GetPublicChannels t (int k * n))"
    let ?s = "s\<lparr>a_trace := a_trace s @ [?rq]\<rparr>"
    have page: "go_div (?i * n) CHANNELS_FETCH_SIZE = int k * n" using assms by (simp add: go_div_nonneg size mult.commute)
    obtain x w where w: "w_float64 (a_world ?s) = (x, w)" by force
    have one: "pages (a_trace ?s) = pages (a_trace s) @ [int k * n]" by (simp add: pages_def)
    have b: "browse c t n ?i s =
        (if ans_done (srv c) ?rq (a_trace s)
         then (if x > 0.3 then leave else browse c t n (?i + CHANNELS_FETCH_SIZE)) (?s\<lparr>a_world := w\<rparr>) else (Returned, ?s))"
      using True w
      by (subst browse.simps) (simp add: page must_def seq_def ask_def give_def leave_def rand_float_def global_def split: prod.splits)
    have next_i: "?i + CHANNELS_FETCH_SIZE = int (Suc k) * CHANNELS_FETCH_SIZE" by (simp add: algebra_simps)
    have "nat (n - int (Suc k) * CHANNELS_FETCH_SIZE) < nat (n - ?i)" using True by (simp add: size)
    from less [OF this, of "?s\<lparr>a_world := w\<rparr>"] obtain ps where
      ps: "pages (a_trace (snd (browse c t n (?i + CHANNELS_FETCH_SIZE) (?s\<lparr>a_world := w\<rparr>)))) = pages (a_trace s) @ [int k * n] @ ps"
        "stretch n (Suc k) ps"
      unfolding next_i by (auto simp: one [simplified])
    show ?thesis
    proof (cases "ans_done (srv c) ?rq (a_trace s) \<and> \<not> x > 0.3")
      case True
      then show ?thesis using ps \<open>?i < n\<close> by (intro exI [of _ "int k * n # ps"]) (simp add: b)
    next
      case False
      then show ?thesis using \<open>?i < n\<close> one by (intro exI [of _ "[int k * n]"]) (auto simp: b leave_def)
    qed
  qed
qed

section \<open>Properties\<close>

lemma members_defaults:
  assumes "member_server sv defaults M" "defaults \<times> UNIV \<subseteq> M"
  shows "defaults \<times> UNIV \<subseteq> members sv M tr"
proof (induction tr rule: rev_induct)
  case Nil
  show ?case using assms(2) by (simp add: members_def)
next
  case (snoc rq tr)
  have "ans_done sv (ChannelReq (RemoveUserFromChannel ch u)) tr \<Longrightarrow> ch \<notin> defaults" for ch u
    using assms(1) by (auto simp: member_server_def)
  with snoc show ?case by (auto simp: members_def Let_def split: request.split channel_request.split)
qed


text \<open>A server that keeps who is in which channel.\<close>

fun in_rev :: "string \<Rightarrow> string \<Rightarrow> request list \<Rightarrow> bool" where
  "in_rev ch u [] = False"
| "in_rev ch u (rq # earlier) =
     (case rq of
        ChannelReq (AddChannelMember d v) \<Rightarrow> (d = ch \<and> v = u) \<or> in_rev ch u earlier
      | ChannelReq (RemoveUserFromChannel d v) \<Rightarrow> \<not> (d = ch \<and> v = u) \<and> in_rev ch u earlier
      | _ \<Rightarrow> in_rev ch u earlier)"

definition sample_user :: user_info where
  "sample_user = \<lparr>ui_Id = ''u'', ui_Username = ''n'', ui_Email = ''e'', ui_Nickname = [], ui_FirstName = ''f'', ui_LastName = ''l'',
     ui_Position = [], ui_Password = []\<rparr>"

definition keeping_server :: mm_server where
  "keeping_server = (srv sample_entity)\<lparr>ans_user := (\<lambda>_ _. Some sample_user),
     ans_done := (\<lambda>rq tr. case rq of ChannelReq (RemoveUserFromChannel ch u) \<Rightarrow> in_rev ch u (rev tr) | _ \<Rightarrow> True)\<rparr>"

lemma keeping_members: "members_rev keeping_server {} tr = {(ch, u). in_rev ch u tr}"
  by (induction tr) (auto simp: keeping_server_def Let_def split: request.splits channel_request.splits)



text \<open>A server that keeps the profile and accepts every change.\<close>

definition accepting_server :: mm_server where
  "accepting_server = (srv sample_entity)\<lparr>ans_user := (\<lambda>_ tr. Some (profile (srv sample_entity) sample_user tr))\<rparr>"

lemma accepting_profile: "profile_rev accepting_server U tr = profile_rev (srv sample_entity) U tr"
  by (induction tr) (auto simp: accepting_server_def Let_def split: request.split user_request.split)

definition renaming_entity :: entity_config where
  "renaming_entity = sample_entity\<lparr>srv := accepting_server, EntityLoadTestConfig :=
     zero_config\<lparr>UserConfig := (UserConfig zero_config)\<lparr>UserProfileUpdateFullnameChance := 1\<rparr>\<rparr>\<rparr>"

definition quiet_world :: world where
  "quiet_world = \<lparr>w_rng = \<lparr>src = (\<lambda>_. 0), pos = 0\<rparr>, w_clock = int, w_ticks = 0, w_ids = (\<lambda>k. ''id'' @ dec_nat k), w_idpos = 0,
     w_fake = \<lparr>fk_src = (\<lambda>_ _. ''text''), fk_pos = 0\<rparr>\<rparr>"

definition quiet_state :: act_state where
  "quiet_state = \<lparr>a_rng = \<lparr>src = (\<lambda>_. 0), pos = 0\<rparr>, a_world = quiet_world, a_info = Map.empty, a_channels = [''t'' \<mapsto> Map.empty], a_trace = []\<rparr>"


text \<open>C36. \<open>actionMoreChannels\<close> on a team with \<open>n\<close> known channels asks for the pages \<open>0, n, 2 n, ...\<close> of a hundred
  channels each: every page after the first begins at or after the last channel, so only the first hundred are ever listed. The number of
  pages is what it would be for pages one after the other.\<close>

theorem more_channels_pages:
  "\<exists>ps n. pages (a_trace (snd (actionMoreChannels c s))) = pages (a_trace s) @ ps \<and>
     (ps \<noteq> [] \<longrightarrow> (\<exists>team. n = (case a_channels s team of None \<Rightarrow> 0 | Some m \<Rightarrow> int (card (dom m)))) \<and> 0 < n) \<and>
     (\<forall>j < length ps. ps ! j = int j * n \<and> int j * CHANNELS_FETCH_SIZE < n \<and> (0 < j \<longrightarrow> n \<le> ps ! j * CHANNELS_FETCH_SIZE))"
proof -
  have quiet: "a_trace (snd (pick_team c s)) = a_trace s" using quiet_picks(1) by (simp add: quiet_def)
  have keep: "a_channels (snd (pick_team c s)) = a_channels s"
    by (auto simp: pick_team_def seq_def own_def give_def leave_def split: option.splits prod.splits outcome.splits)
  obtain v s1 where p: "pick_team c s = (v, s1)" by force
  have none: ?thesis if "a_trace (snd (actionMoreChannels c s)) = a_trace s"
    using that by (intro exI [of _ "[]"]) simp
  show ?thesis
  proof (cases "\<exists>team. v = Value team \<and> map_read (TeamMap c) (uteam_Name team) \<noteq> []")
    case False
    then show ?thesis
      using p quiet by (intro none) (auto simp: actionMoreChannels_def seq_def Let_def leave_def split: outcome.splits)
  next
    case True
    then obtain team where team: "v = Value team" "map_read (TeamMap c) (uteam_Name team) \<noteq> []" by blast
    define n where "n = (case a_channels s (uteam_Name team) of None \<Rightarrow> 0 | Some m \<Rightarrow> int (card (dom m)))"
    have n: "0 \<le> n" by (simp add: n_def split: option.split)
    have "actionMoreChannels c s = browse c (map_read (TeamMap c) (uteam_Name team)) n (int 0 * CHANNELS_FETCH_SIZE) s1"
      using p team keep by (simp add: actionMoreChannels_def seq_def Let_def known_channels_def n_def)
    with browse_pages [OF n, of c "map_read (TeamMap c) (uteam_Name team)" 0 s1]
    obtain ps where ps: "pages (a_trace (snd (actionMoreChannels c s))) = pages (a_trace s) @ ps" "stretch n 0 ps"
      using quiet p by auto
    have past: "n \<le> int j * n * CHANNELS_FETCH_SIZE" if "0 < j" for j
    proof -
      have "1 \<le> int j * CHANNELS_FETCH_SIZE" using that by (simp add: CHANNELS_FETCH_SIZE_def CHANNELS_CHUNK_SIZE_def)
      from mult_left_mono [OF this n] show ?thesis by (simp add: mult_ac)
    qed
    have "ps \<noteq> [] \<longrightarrow> 0 < n" using ps(2) by (cases ps) auto
    then show ?thesis using ps past by (intro exI [of _ ps] exI [of _ n]) (auto simp: stretch_def n_def)
  qed
qed

theorem more_channels_pages_witness:
  "length (pages (a_trace (snd (actionMoreChannels sample_entity
     (quiet_state\<lparr>a_channels := [''t'' \<mapsto> [''a'' \<mapsto> ''1'', ''b'' \<mapsto> ''2'']]\<rparr>))))) \<le> 1"
proof -
  let ?s = "quiet_state\<lparr>a_channels := [''t'' \<mapsto> [''a'' \<mapsto> ''1'', ''b'' \<mapsto> ''2'']]\<rparr>"
  obtain ps n where p: "pages (a_trace (snd (actionMoreChannels sample_entity ?s))) = pages (a_trace ?s) @ ps"
    "ps \<noteq> [] \<longrightarrow> (\<exists>team. n = (case a_channels ?s team of None \<Rightarrow> 0 | Some m \<Rightarrow> int (card (dom m))))"
    "\<forall>j < length ps. int j * CHANNELS_FETCH_SIZE < n"
    using more_channels_pages [of sample_entity ?s] by metis
  have "card (dom [''a'' \<mapsto> ''1'', ''b'' \<mapsto> ''2'']) = 2" by simp
  then have n: "ps \<noteq> [] \<Longrightarrow> n \<le> 2" using p(2) by (auto split: option.splits if_splits)
  have "\<not> 1 < length ps"
  proof
    assume one: "1 < length ps"
    then have "ps \<noteq> []" by auto
    with n p(3) [rule_format, OF one] show False by (simp add: CHANNELS_FETCH_SIZE_def CHANNELS_CHUNK_SIZE_def)
  qed
  then show ?thesis using p(1) by (simp add: quiet_state_def pages_def)
qed

end
