(* ===== verification/Op_Monad.thy ===== *)
theory Op_Monad
  imports Prelude
begin

text \<open>
  Operations of the tools that set clusters up: each takes the state of a machine and returns an error or a value, and
  the new state. An error ends the operation and keeps what was done before it.
\<close>

section \<open>The combinators\<close>

type_synonym ('s, 'a) op = "'s \<Rightarrow> (string + 'a) \<times> 's"

definition ret :: "'a \<Rightarrow> ('s, 'a) op" where
  "ret x s = (Inr x, s)"

definition fail :: "string \<Rightarrow> ('s, 'a) op" where
  "fail e s = (Inl e, s)"

definition andThen :: "('s, 'a) op \<Rightarrow> ('a \<Rightarrow> ('s, 'b) op) \<Rightarrow> ('s, 'b) op" where
  "andThen m k s = (case m s of (Inl e, s) \<Rightarrow> (Inl e, s) | (Inr x, s) \<Rightarrow> k x s)"

text \<open>\<open>errors.Wrap\<close>.\<close>

definition wrapped :: "string \<Rightarrow> ('s, 'a) op \<Rightarrow> ('s, 'a) op" where
  "wrapped msg m s = (case m s of (Inl e, s) \<Rightarrow> (Inl (msg @ '': '' @ e), s) | (Inr x, s) \<Rightarrow> (Inr x, s))"

text \<open>An operation whose error is not looked at, and one whose error decides what follows.\<close>

definition ignored :: "('s, 'a) op \<Rightarrow> ('s, unit) op" where
  "ignored m s = (Inr (), snd (m s))"

definition tried :: "('s, 'a) op \<Rightarrow> ('s, string + 'a) op" where
  "tried m s = (case m s of (r, s) \<Rightarrow> (Inr r, s))"

definition given :: "string + 'a \<Rightarrow> ('s, 'a) op" where
  "given r s = (r, s)"

definition look_at :: "('s \<Rightarrow> 'a) \<Rightarrow> ('s, 'a) op" where
  "look_at f s = (Inr (f s), s)"

text \<open>The methods of an object work on the object and on the machine.\<close>

definition self :: "('c \<times> 's, 'c) op" where
  "self cs = (Inr (fst cs), cs)"

definition update :: "('c \<Rightarrow> 'c) \<Rightarrow> ('c \<times> 's, unit) op" where
  "update f cs = (Inr (), (f (fst cs), snd cs))"

definition onHost :: "('s, 'a) op \<Rightarrow> ('c \<times> 's, 'a) op" where
  "onHost m cs = (case m (snd cs) of (r, s) \<Rightarrow> (r, (fst cs, s)))"

fun forEach :: "('a \<Rightarrow> ('s, unit) op) \<Rightarrow> 'a list \<Rightarrow> ('s, unit) op" where
  "forEach f [] = ret ()"
| "forEach f (x # xs) = andThen (f x) (\<lambda>_. forEach f xs)"

section \<open>Rules\<close>

text \<open>What an operation does to a part \<open>f\<close> of the state when it succeeds: it appends \<open>evs\<close> to it.\<close>

lemma andThen_Inr: "andThen m k s = (Inr y, s') \<longleftrightarrow> (\<exists>x s1. m s = (Inr x, s1) \<and> k x s1 = (Inr y, s'))"
  by (auto simp: andThen_def split: sum.splits prod.splits)

lemma op_simps [simp]:
  "ret x s = (r, s') \<longleftrightarrow> r = Inr x \<and> s' = s"
  "fail e s = (r, s') \<longleftrightarrow> r = Inl e \<and> s' = s"
  "given v s = (r, s') \<longleftrightarrow> r = v \<and> s' = s"
  "look_at f s = (r, s') \<longleftrightarrow> r = Inr (f s) \<and> s' = s"
  "self cs = (q, cs') \<longleftrightarrow> q = Inr (fst cs) \<and> cs' = cs"
  "update g cs = (u, cs') \<longleftrightarrow> u = Inr () \<and> cs' = (g (fst cs), snd cs)"
  "wrapped msg m s = (Inr x, s') \<longleftrightarrow> m s = (Inr x, s')"
  by (auto simp: ret_def fail_def given_def wrapped_def look_at_def self_def update_def split: sum.splits prod.splits)

text \<open>A relation of the states before and after that every step respects.\<close>

definition keeps :: "('s \<Rightarrow> 's \<Rightarrow> bool) \<Rightarrow> ('s, 'a) op \<Rightarrow> bool" where
  "keeps R m \<longleftrightarrow> (\<forall>s. R s (snd (m s)))"

named_theorems keeps_rule

lemma keepsD: "keeps R m \<Longrightarrow> m s = (r, s') \<Longrightarrow> R s s'"
  by (metis keeps_def snd_conv)

lemma keeps_basic [keeps_rule]: "reflp R \<Longrightarrow> keeps R (ret x)" "reflp R \<Longrightarrow> keeps R (fail e)" "reflp R \<Longrightarrow> keeps R (given v)"
    "reflp R \<Longrightarrow> keeps R (look_at f)" "reflp Q \<Longrightarrow> keeps Q self"
  by (auto simp: keeps_def ret_def fail_def given_def look_at_def self_def reflp_def)

lemma keeps_onHost [keeps_rule]: "keeps (\<lambda>s s'. \<forall>c. R (c, s) (c, s')) m \<Longrightarrow> keeps R (onHost m)"
  by (auto simp: keeps_def onHost_def split: prod.splits) (metis snd_conv)

lemma keeps_update: "(\<And>c s. R (c, s) (f c, s)) \<Longrightarrow> keeps R (update f)"
  by (simp add: keeps_def update_def)

lemma keeps_andThen [keeps_rule]: "transp R \<Longrightarrow> keeps R m \<Longrightarrow> (\<And>x. keeps R (k x)) \<Longrightarrow> keeps R (andThen m k)"
  by (auto simp: keeps_def andThen_def transp_def split: sum.splits prod.splits) (metis snd_conv)+

lemma keeps_wrapped [keeps_rule]: "keeps R m \<Longrightarrow> keeps R (wrapped msg m)" "keeps R m \<Longrightarrow> keeps R (ignored m)" "keeps R m \<Longrightarrow> keeps R (tried m)"
  by (auto simp: keeps_def wrapped_def ignored_def tried_def split: sum.splits prod.splits) (metis snd_conv)+

lemma keeps_forEach [keeps_rule]: "reflp R \<Longrightarrow> transp R \<Longrightarrow> (\<And>x. keeps R (f x)) \<Longrightarrow> keeps R (forEach f xs)"
  by (induction xs) (auto intro: keeps_rule)

end
