(* ===== verification/Secrets.thy ===== *)
theory Secrets
  imports Prelude
begin

text \<open>
  \<^verbatim>\<open>terraform/generate.go\<close>: the password of the database, and the base64 encodings of Go's standard library that it and
  the cluster file use. A byte is a character. The random bytes and the RSA key are parameters.
\<close>

section \<open>Base64\<close>

text \<open>\<open>A\<close> is the alphabet, \<open>pad\<close> whether the last group is filled up.\<close>

fun base64 :: "string \<Rightarrow> bool \<Rightarrow> string \<Rightarrow> string" where
  "base64 A pad [] = []"
| "base64 A pad [x] =
     (let a = of_char x :: nat in [A ! (a div 4), A ! (a mod 4 * 16)] @ (if pad then ''=='' else []))"
| "base64 A pad [x, y] =
     (let a = of_char x :: nat; b = of_char y in
      [A ! (a div 4), A ! (a mod 4 * 16 + b div 16), A ! (b mod 16 * 4)] @ (if pad then ''='' else []))"
| "base64 A pad (x # y # z # bs) =
     (let a = of_char x :: nat; b = of_char y; c = of_char z in
      [A ! (a div 4), A ! (a mod 4 * 16 + b div 16), A ! (b mod 16 * 4 + c div 64), A ! (c mod 64)] @ base64 A pad bs)"

definition std_alphabet :: string where
  "std_alphabet = ''ABCDEFGHIJKLMNOPQRSTUVWXYZabcdefghijklmnopqrstuvwxyz0123456789+/''"

definition url_alphabet :: string where
  "url_alphabet = ''ABCDEFGHIJKLMNOPQRSTUVWXYZabcdefghijklmnopqrstuvwxyz0123456789-_''"

text \<open>Decoding: the positions of the characters before the padding, then groups of four.\<close>

fun position :: "char \<Rightarrow> string \<Rightarrow> nat option" where
  "position c [] = None"
| "position c (d # ds) = (if c = d then Some 0 else map_option Suc (position c ds))"

fun sextets :: "string \<Rightarrow> string \<Rightarrow> nat list option" where
  "sextets A [] = Some []"
| "sextets A (c # cs) =
     (case position c A of None \<Rightarrow> None | Some d \<Rightarrow> (case sextets A cs of None \<Rightarrow> None | Some ds \<Rightarrow> Some (d # ds)))"

fun octets :: "nat list \<Rightarrow> string option" where
  "octets [] = Some []"
| "octets [a] = None"
| "octets [a, b] = Some [char_of (a * 4 + b div 16)]"
| "octets [a, b, c] = Some [char_of (a * 4 + b div 16), char_of (b mod 16 * 16 + c div 4)]"
| "octets (a # b # c # d # ds) =
     (case octets ds of
        None \<Rightarrow> None
      | Some bs \<Rightarrow> Some (char_of (a * 4 + b div 16) # char_of (b mod 16 * 16 + c div 4) # char_of (c mod 4 * 64 + d) # bs))"

definition unbase64 :: "string \<Rightarrow> string \<Rightarrow> string option" where
  "unbase64 A s = Option.bind (sextets A (takeWhile (\<lambda>c. c \<noteq> CHR ''='') s)) octets"

section \<open>The password and the key\<close>

text \<open>\<open>random\<close> is what \<^verbatim>\<open>rand.Read\<close> fills fifteen bytes with, or its error.\<close>

definition generatePassword :: "string + string \<Rightarrow> string + string" where
  "generatePassword random =
     (case random of
        Inl err \<Rightarrow> Inl (''unable to generate password: '' @ err)
      | Inr passwordBytes \<Rightarrow> Inr (base64 url_alphabet False passwordBytes))"

text \<open>\<open>genkey\<close> is a new RSA key or the error, \<open>pem\<close> and \<open>authorized\<close> are the encodings of its two halves.\<close>

definition generateSSHKey :: "string + 'k \<Rightarrow> ('k \<Rightarrow> string) \<Rightarrow> ('k \<Rightarrow> string + string) \<Rightarrow> string + string \<times> string" where
  "generateSSHKey genkey pem authorized =
     (case genkey of
        Inl err \<Rightarrow> Inl err
      | Inr privateKey \<Rightarrow>
          (let privateKeyPEM = pem privateKey in
           case authorized privateKey of Inl err \<Rightarrow> Inl err | Inr authorizedKey \<Rightarrow> Inr (privateKeyPEM, authorizedKey)))"

section \<open>Decoding inverts encoding\<close>

definition alphabet_ok :: "string \<Rightarrow> bool" where
  "alphabet_ok A \<longleftrightarrow> distinct A \<and> length A = 64 \<and> CHR ''='' \<notin> set A"

lemma alphabets_ok: "alphabet_ok std_alphabet" "alphabet_ok url_alphabet"
  by (simp_all add: alphabet_ok_def std_alphabet_def url_alphabet_def)

lemma position_nth: "distinct A \<Longrightarrow> i < length A \<Longrightarrow> position (A ! i) A = Some i"
proof (induction A arbitrary: i)
  case (Cons a A)
  show ?case
  proof (cases i)
    case (Suc j)
    then have "A ! j \<noteq> a" using Cons.prems by auto
    then show ?thesis using Cons Suc by simp
  qed simp
qed simp

lemma byte_bound: "of_char (c :: char) < (256 :: nat)"
proof -
  have "(of_char c :: nat) = of_char c mod 256" by (metis char_of_char of_char_of)
  then show ?thesis by (metis mod_less_divisor zero_less_numeral)
qed

lemma sextet_bounds:
  assumes "a < (256 :: nat)" "b < 256"
  shows "a div 4 < 64" "a mod 4 * 16 < 64" "a mod 4 * 16 + b div 16 < 64" "a mod 16 * 4 < 64" "a mod 16 * 4 + b div 64 < 64" "a mod 64 < 64"
  using assms by auto

lemma char_div_4 [simp]: "of_char x div 4 < (64 :: nat)"
  by (rule less_mult_imp_div_less) (rule order_less_le_trans [OF byte_bound], simp)

lemma alphabet_nth:
  assumes "alphabet_ok A" "i < 64"
  shows "position (A ! i) A = Some i" "A ! i \<noteq> CHR ''=''" "A ! i \<in> set A"
  using assms position_nth [of A i] nth_mem [of i A] unfolding alphabet_ok_def by (simp, metis, simp)

lemma digits_sextets:
  assumes "alphabet_ok A" "\<forall>d \<in> set ds. d < 64"
  shows "sextets A (map ((!) A) ds) = Some ds" "takeWhile (\<lambda>c. c \<noteq> CHR ''='') (map ((!) A) ds @ replicate n (CHR ''='')) = map ((!) A) ds"
proof -
  show "sextets A (map ((!) A) ds) = Some ds" using assms by (induction ds) (simp_all add: alphabet_nth)
  show "takeWhile (\<lambda>c. c \<noteq> CHR ''='') (map ((!) A) ds @ replicate n (CHR ''='')) = map ((!) A) ds"
    using assms by (induction ds) (auto simp: alphabet_nth takeWhile_replicate)
qed

text \<open>The digits of the encoding.\<close>

fun digits :: "string \<Rightarrow> nat list" where
  "digits [] = []"
| "digits [x] = [of_char x div 4, of_char x mod 4 * 16]"
| "digits [x, y] = [of_char x div 4, of_char x mod 4 * 16 + of_char y div 16, of_char y mod 16 * 4]"
| "digits (x # y # z # bs) =
     of_char x div 4 # (of_char x mod 4 * 16 + of_char y div 16) # (of_char y mod 16 * 4 + of_char z div 64) # (of_char z mod 64) # digits bs"

lemma digits_bound: "\<forall>d \<in> set (digits bs). d < 64"
  by (induction bs rule: digits.induct) (auto simp: sextet_bounds byte_bound)

lemma base64_digits: "\<exists>n. base64 A pad bs = map ((!) A) (digits bs) @ replicate n (CHR ''='')"
proof (induction bs rule: digits.induct)
  case (2 x)
  show ?case by (rule exI [of _ "if pad then 2 else 0"]) (simp add: Let_def numeral_2_eq_2)
next
  case (3 x y)
  show ?case by (rule exI [of _ "if pad then 1 else 0"]) (simp add: Let_def)
qed (auto simp: Let_def)

lemma char_parts [simp]:
  "of_char x div (16 :: nat) div 16 = 0" "of_char x div (16 :: nat) mod 16 = of_char x div 16"
  "of_char x div (64 :: nat) div 4 = 0" "of_char x div (64 :: nat) mod 4 = of_char x div 64"
proof -
  have "of_char x div (16 :: nat) < 16" "of_char x div (64 :: nat) < 4"
    by (rule less_mult_imp_div_less, rule order_less_le_trans [OF byte_bound], simp)+
  then show "of_char x div (16 :: nat) div 16 = 0" "of_char x div (16 :: nat) mod 16 = of_char x div 16"
    "of_char x div (64 :: nat) div 4 = 0" "of_char x div (64 :: nat) mod 4 = of_char x div 64"
    by (simp_all only: div_less mod_less)
qed

lemma octets_digits: "octets (digits bs) = Some bs"
  by (induction bs rule: digits.induct) simp_all

theorem base64_decodes:
  assumes "alphabet_ok A"
  shows "unbase64 A (base64 A pad bs) = Some bs"
proof -
  obtain n where n: "base64 A pad bs = map ((!) A) (digits bs) @ replicate n (CHR ''='')" using base64_digits by blast
  show ?thesis unfolding unbase64_def n digits_sextets(2) [OF assms digits_bound] digits_sextets(1) [OF assms digits_bound]
    by (simp add: octets_digits)
qed

lemma length_base64: "length (base64 A False bs) = (4 * length bs + 2) div 3"
  by (induction bs rule: digits.induct) (simp_all add: Let_def)

lemma base64_set: "alphabet_ok A \<Longrightarrow> set (base64 A False bs) \<subseteq> set A"
  by (induction bs rule: digits.induct) (auto simp: Let_def alphabet_nth(3) sextet_bounds byte_bound)

text \<open>The generated password has twenty characters, none of which has a meaning in a URL, a MySQL source or a shell
  command; different random bytes give different passwords, so the password has the 120 bits that were drawn.\<close>

theorem generatePassword_ok:
  assumes "generatePassword (Inr bs) = Inr pw" "length bs = 15"
  shows "length pw = 20 \<and> set pw \<subseteq> set url_alphabet \<and> (\<forall>bs'. length bs' = 15 \<longrightarrow> generatePassword (Inr bs') = Inr pw \<longrightarrow> bs' = bs)"
proof (intro conjI allI impI)
  have pw: "pw = base64 url_alphabet False bs" using assms(1) by (simp add: generatePassword_def)
  show "length pw = 20" by (simp add: pw length_base64 assms(2))
  show "set pw \<subseteq> set url_alphabet" unfolding pw by (rule base64_set [OF alphabets_ok(2)])
  fix bs' assume "generatePassword (Inr bs') = Inr pw"
  then have "base64 url_alphabet False bs' = base64 url_alphabet False bs" by (simp add: generatePassword_def pw)
  then show "bs' = bs" using base64_decodes [OF alphabets_ok(2)] by (metis option.inject)
qed

theorem generatePassword_ok_witness:
  "\<exists>pw. generatePassword (Inr ''123456789012345'') = Inr pw \<and> length pw = 20"
proof -
  obtain pw where pw: "generatePassword (Inr ''123456789012345'') = Inr pw"
    unfolding generatePassword_def by (simp only: sum.case)
  then show ?thesis using generatePassword_ok [OF pw] by simp
qed

end
