(* ===== verification/Cluster_Config.thy ===== *)
theory Cluster_Config
  imports Op_Monad Secrets
begin

text \<open>
  Package \<^verbatim>\<open>ltops\<close>: the configuration of a cluster, the options of its operations, and where distributions come from. Also the JSON
  the configuration is stored as, and the machine the tools run on.
\<close>

section \<open>Configuration and options\<close>

record ClusterConfig =
  Name :: string
  Type :: string
  AppInstanceType :: string
  TerraformPath :: string
  AppInstanceCount :: int
  DBInstanceType :: string
  DBEngineType :: string
  DBInstanceCount :: int
  LoadtestInstanceCount :: int
  WorkingDirectory :: string
  Profile :: string
  Users :: int
  BulkLoadComplete :: bool
  Verbose :: bool

definition zero_cluster_config :: ClusterConfig where
  "zero_cluster_config = \<lparr>Name = [], Type = [], AppInstanceType = [], TerraformPath = [], AppInstanceCount = 0, DBInstanceType = [],
     DBEngineType = [], DBInstanceCount = 0, LoadtestInstanceCount = 0, WorkingDirectory = [], Profile = [], Users = 0,
     BulkLoadComplete = False, Verbose = False\<rparr>"

record DBSettings =
  Username :: string
  Password :: string
  Endpoint :: string
  Port :: int
  Database :: string

record DeployOptions =
  MattermostBinaryFile :: string
  LicenseFile :: string
  LoadTestBinaryFile :: string
  deploy_Profile :: string
  deploy_Users :: int
  HelmConfigFile :: string

record LoadTestOptions =
  ConfigFile :: string
  Workers :: int
  SkipBulkLoad :: bool
  ForceBulkLoad :: bool
  ResultsWriter :: bool

definition PROFILE_STANDARD :: string where "PROFILE_STANDARD = ''standard''"

text \<open>\<open>ResultsWriter\<close> tells whether a writer was given; the machine keeps what it receives.\<close>

section \<open>Files and URLs\<close>

text \<open>\<open>stat_ok\<close>: something of that name exists; \<open>read_file\<close>: its content; \<open>http_get\<close>: the status and the body of the response.\<close>

record sources =
  stat_ok :: "string \<Rightarrow> bool"
  read_file :: "string \<Rightarrow> string + string"
  http_get :: "string \<Rightarrow> string + int \<times> string"

definition getFile :: "sources \<Rightarrow> string \<Rightarrow> string + string" where
  "getFile src file = (case read_file src file of Inl err \<Rightarrow> Inl (''unable to open file '' @ file @ '': '' @ err) | Inr data \<Rightarrow> Inr data)"

definition getURL :: "sources \<Rightarrow> string \<Rightarrow> string + string" where
  "getURL src url =
     (case http_get src url of
        Inl err \<Rightarrow> Inl (''Can't get file at URL: '' @ url @ '': '' @ err)
      | Inr (status, body) \<Rightarrow>
          if status \<ge> 400 then Inl (''fetching '' @ url @ '' failed with status code '' @ itoa status) else Inr body)"

definition GetFileOrURL :: "sources \<Rightarrow> string \<Rightarrow> string + string" where
  "GetFileOrURL src reference =
     (if stat_ok src reference then getFile src reference
      else if has_prefix reference ''http'' then getURL src reference
      else Inl (''failed to resolve '' @ reference @ '' to a file or URL''))"

definition decimal :: "string \<Rightarrow> bool" where
  "decimal s \<longleftrightarrow> s \<noteq> [] \<and> (\<forall>c \<in> set s. c \<in> set ''0123456789'')"

definition GetMattermostFileOrURL :: "sources \<Rightarrow> string \<Rightarrow> string + string" where
  "GetMattermostFileOrURL src reference =
     (if stat_ok src reference then getFile src reference
      else if has_prefix reference ''http'' then getURL src reference
      else if reference = ''master''
        then getURL src ''https://releases.mattermost.com/mattermost-platform/master/mattermost-enterprise-linux-amd64.tar.gz''
      else if decimal reference
        then getURL src (''https://releases.mattermost.com/mattermost-platform-pr/'' @ reference @ ''/mattermost-enterprise-linux-amd64.tar.gz'')
      else getURL src (''https://releases.mattermost.com/'' @ reference @ ''/mattermost-'' @ reference @ ''-linux-amd64.tar.gz''))"

definition GetLoadtestFileOrURL :: "sources \<Rightarrow> string \<Rightarrow> string + string" where
  "GetLoadtestFileOrURL src reference =
     (if stat_ok src reference then getFile src reference
      else if has_prefix reference ''http'' then getURL src reference
      else if reference = ''master''
        then getURL src ''https://releases.mattermost.com/mattermost-load-test/mattermost-load-test.tar.gz''
      else (case getURL src (''https://releases.mattermost.com/loadtest-pr/'' @ reference @ ''/mattermost-load-test.tar.gz'') of
              Inr data \<Rightarrow> Inr data
            | Inl err \<Rightarrow> Inl (''failed to resolve '' @ [CHR 0x27] @ reference @ [CHR 0x27] @ '' to a loadtest URL'')))"

section \<open>JSON\<close>

datatype json = JNull | JBool bool | JInt int | JStr string | JArr "json list" | JObj "(string \<times> json) list"

text \<open>Decoding a field: a missing field and null leave the zero value, another type is an error. What a pointer points to is decoded in
  the same way.\<close>

fun field :: "string \<Rightarrow> json \<Rightarrow> json" where
  "field name (JObj fs) = (case map_of fs name of None \<Rightarrow> JNull | Some j \<Rightarrow> j)"
| "field name _ = JNull"

definition type_error :: "string + 'a" where
  "type_error = Inl ''json: cannot unmarshal''"

fun get_str :: "json \<Rightarrow> string + string" where
  "get_str (JStr s) = Inr s" | "get_str JNull = Inr []" | "get_str _ = type_error"

fun get_int :: "json \<Rightarrow> string + int" where
  "get_int (JInt i) = Inr i" | "get_int JNull = Inr 0" | "get_int _ = type_error"

fun get_bool :: "json \<Rightarrow> string + bool" where
  "get_bool (JBool b) = Inr b" | "get_bool JNull = Inr False" | "get_bool _ = type_error"

text \<open>A byte slice is a base64 string.\<close>

definition put_bytes :: "string \<Rightarrow> json" where
  "put_bytes bs = JStr (base64 std_alphabet True bs)"

fun get_bytes :: "json \<Rightarrow> string + string" where
  "get_bytes (JStr s) = (case unbase64 std_alphabet s of None \<Rightarrow> type_error | Some bs \<Rightarrow> Inr bs)"
| "get_bytes JNull = Inr []"
| "get_bytes _ = type_error"

fun get_obj :: "json \<Rightarrow> string + json" where
  "get_obj (JObj fs) = Inr (JObj fs)" | "get_obj JNull = Inr JNull" | "get_obj _ = type_error"

definition bind_sum :: "string + 'a \<Rightarrow> ('a \<Rightarrow> string + 'b) \<Rightarrow> string + 'b" where
  "bind_sum r k = (case r of Inl e \<Rightarrow> Inl e | Inr x \<Rightarrow> k x)"

definition config_to_json :: "ClusterConfig \<Rightarrow> json" where
  "config_to_json c = JObj [(''Name'', JStr (Name c)), (''Type'', JStr (Type c)), (''AppInstanceType'', JStr (AppInstanceType c)),
     (''TerraformPath'', JStr (TerraformPath c)), (''AppInstanceCount'', JInt (AppInstanceCount c)),
     (''DBInstanceType'', JStr (DBInstanceType c)), (''DBEngineType'', JStr (DBEngineType c)), (''DBInstanceCount'', JInt (DBInstanceCount c)),
     (''LoadtestInstanceCount'', JInt (LoadtestInstanceCount c)), (''WorkingDirectory'', JStr (WorkingDirectory c)),
     (''Profile'', JStr (Profile c)), (''Users'', JInt (Users c)), (''BulkLoadComplete'', JBool (BulkLoadComplete c)),
     (''Verbose'', JBool (Verbose c))]"

definition config_of_json :: "json \<Rightarrow> string + ClusterConfig" where
  "config_of_json j =
     bind_sum (get_obj j) (\<lambda>j.
     bind_sum (get_str (field ''Name'' j)) (\<lambda>name.
     bind_sum (get_str (field ''Type'' j)) (\<lambda>ty.
     bind_sum (get_str (field ''AppInstanceType'' j)) (\<lambda>app_type.
     bind_sum (get_str (field ''TerraformPath'' j)) (\<lambda>path.
     bind_sum (get_int (field ''AppInstanceCount'' j)) (\<lambda>apps.
     bind_sum (get_str (field ''DBInstanceType'' j)) (\<lambda>db_type.
     bind_sum (get_str (field ''DBEngineType'' j)) (\<lambda>engine.
     bind_sum (get_int (field ''DBInstanceCount'' j)) (\<lambda>dbs.
     bind_sum (get_int (field ''LoadtestInstanceCount'' j)) (\<lambda>lts.
     bind_sum (get_str (field ''WorkingDirectory'' j)) (\<lambda>dir.
     bind_sum (get_str (field ''Profile'' j)) (\<lambda>profile.
     bind_sum (get_int (field ''Users'' j)) (\<lambda>users.
     bind_sum (get_bool (field ''BulkLoadComplete'' j)) (\<lambda>complete.
     bind_sum (get_bool (field ''Verbose'' j)) (\<lambda>verbose.
     Inr \<lparr>Name = name, Type = ty, AppInstanceType = app_type, TerraformPath = path, AppInstanceCount = apps, DBInstanceType = db_type,
          DBEngineType = engine, DBInstanceCount = dbs, LoadtestInstanceCount = lts, WorkingDirectory = dir, Profile = profile,
          Users = users, BulkLoadComplete = complete, Verbose = verbose\<rparr>)))))))))))))))"

lemma get_put_bytes [simp]: "get_bytes (put_bytes bs) = Inr bs"
  by (simp add: put_bytes_def base64_decodes alphabets_ok)

lemma bind_sum_simps [simp]: "bind_sum (Inl e) k = Inl e" "bind_sum (Inr x) k = k x"
  by (simp_all add: bind_sum_def)

lemma config_roundtrip [simp]: "config_of_json (config_to_json c) = Inr c"
  by (simp add: config_of_json_def config_to_json_def)

section \<open>The machine\<close>

text \<open>A file holds text or a JSON value. What commands answer depends on what was run before.\<close>

datatype content = Raw string | Json json

record machine =
  files :: "string \<rightharpoonup> content"
  made_dirs :: "string set"
  commands_run :: "(string \<times> string list) list"
  results_written :: string

text \<open>The result of a command: its outputs, its error if it could not be run or failed, and whether reading its outputs failed.\<close>

record cmd_result =
  cmd_out :: string
  cmd_err :: string
  cmd_fail :: "string option"
  cmd_capture_failed :: bool

text \<open>\<open>dir_stat\<close>: whether the directory exists, \<open>None\<close> for another error; \<open>file_error\<close>, \<open>dir_error\<close>, \<open>remove_error\<close>: the error of writing
  a file, making a directory, removing one.\<close>

record machine_env =
  look_path :: "string \<Rightarrow> bool"
  cmd_answer :: "(string \<times> string list) list \<Rightarrow> string \<Rightarrow> string list \<Rightarrow> cmd_result"
  dir_stat :: "string \<Rightarrow> bool option"
  dir_error :: "string \<Rightarrow> string option"
  file_error :: "string \<Rightarrow> string option"
  remove_error :: "string \<Rightarrow> string option"

definition run_cmd :: "machine_env \<Rightarrow> string \<Rightarrow> string list \<Rightarrow> (machine, cmd_result) op" where
  "run_cmd env exe args m = (Inr (cmd_answer env (commands_run m) exe args), m\<lparr>commands_run := commands_run m @ [(exe, args)]\<rparr>)"

text \<open>\<^verbatim>\<open>CombinedOutput\<close>, with the standard output first.\<close>

definition combined :: "cmd_result \<Rightarrow> string" where
  "combined r = cmd_out r @ cmd_err r"

text \<open>\<^verbatim>\<open>cmd.Run\<close>; and \<^verbatim>\<open>cmd.CombinedOutput\<close> with the output in the error.\<close>

definition run_checked :: "machine_env \<Rightarrow> string \<Rightarrow> string list \<Rightarrow> (machine, unit) op" where
  "run_checked env exe args = andThen (run_cmd env exe args) (\<lambda>r. case cmd_fail r of None \<Rightarrow> ret () | Some err \<Rightarrow> fail err)"

definition run_combined :: "machine_env \<Rightarrow> string \<Rightarrow> string \<Rightarrow> string list \<Rightarrow> (machine, unit) op" where
  "run_combined env msg exe args =
     andThen (run_cmd env exe args) (\<lambda>r. case cmd_fail r of None \<Rightarrow> ret () | Some err \<Rightarrow> fail (msg @ combined r @ '': '' @ err))"

definition write_file :: "machine_env \<Rightarrow> string \<Rightarrow> content \<Rightarrow> (machine, unit) op" where
  "write_file env path c m =
     (case file_error env path of Some err \<Rightarrow> (Inl err, m) | None \<Rightarrow> (Inr (), m\<lparr>files := (files m)(path \<mapsto> c)\<rparr>))"

definition remove_file :: "string \<Rightarrow> (machine, unit) op" where
  "remove_file path m = (Inr (), m\<lparr>files := (files m)(path := None)\<rparr>)"

definition make_dir :: "machine_env \<Rightarrow> string \<Rightarrow> (machine, unit) op" where
  "make_dir env dir m = (case dir_error env dir of Some err \<Rightarrow> (Inl err, m) | None \<Rightarrow> (Inr (), m\<lparr>made_dirs := insert dir (made_dirs m)\<rparr>))"

text \<open>\<^verbatim>\<open>os.Stat\<close> and \<^verbatim>\<open>os.MkdirAll\<close> of a missing directory.\<close>

definition ensure_dir :: "machine_env \<Rightarrow> string \<Rightarrow> (machine, unit) op" where
  "ensure_dir env dir m =
     (if dir \<in> made_dirs m then (Inr (), m)
      else (case dir_stat env dir of
              None \<Rightarrow> (Inl (''stat '' @ dir), m)
            | Some True \<Rightarrow> (Inr (), m)
            | Some False \<Rightarrow> make_dir env dir m))"

text \<open>\<^verbatim>\<open>os.RemoveAll\<close>: everything below the directory.\<close>

definition remove_all :: "machine_env \<Rightarrow> string \<Rightarrow> (machine, unit) op" where
  "remove_all env dir m =
     (case remove_error env dir of
        Some err \<Rightarrow> (Inl err, m)
      | None \<Rightarrow> (Inr (), m\<lparr>files := (\<lambda>p. if has_prefix p (dir @ ''/'') then None else files m p), made_dirs := made_dirs m - {dir}\<rparr>))"

text \<open>Joining two clean paths.\<close>

definition filepath_join :: "string \<Rightarrow> string \<Rightarrow> string" where
  "filepath_join a b = (if a = [] then b else if b = [] then a else a @ ''/'' @ b)"

definition infoFilename :: string where "infoFilename = ''clusterinfo.json''"

section \<open>A machine for examples\<close>

text \<open>Nothing was done on it, and nothing fails.\<close>

definition idle_machine :: machine where
  "idle_machine = \<lparr>files = (\<lambda>_. None), made_dirs = {}, commands_run = [], results_written = []\<rparr>"

definition quiet_env :: machine_env where
  "quiet_env = \<lparr>look_path = (\<lambda>_. True), cmd_answer = (\<lambda>_ _ _. \<lparr>cmd_out = [], cmd_err = [], cmd_fail = None, cmd_capture_failed = False\<rparr>),
     dir_stat = (\<lambda>_. Some True), dir_error = (\<lambda>_. None), file_error = (\<lambda>_. None), remove_error = (\<lambda>_. None)\<rparr>"

lemma quiet_answers [simp]: "dir_stat quiet_env dir = Some True" "file_error quiet_env path = None"
  by (simp_all add: quiet_env_def)

lemma quiet_steps [simp]:
  "ensure_dir quiet_env dir m = (Inr (), m)"
  "write_file quiet_env path c m = (Inr (), m\<lparr>files := (files m)(path \<mapsto> c)\<rparr>)"
  by (simp_all add: ensure_dir_def write_file_def)

end
