(* ===== verification/Terraform_Asset.thy ===== *)
theory Terraform_Asset
  imports Cluster_Config
begin

text \<open>
  \<^verbatim>\<open>terraform/terraformfile.go\<close>: the file \<^verbatim>\<open>cluster.tf\<close> that is built into the program, and the functions that find built-in files by
  name and write them out again.
\<close>

section \<open>The file\<close>

definition cluster_tf_1 :: "string list" where
  \<open>cluster_tf_1 =
   [''variable "cluster_name" {'',
    ''    default = "loadtest"'',
    ''}'',
    ''variable "app_instance_type" {}'',
    ''variable "db_instance_type" {}'',
    ''variable "app_instance_count" {'',
    ''    default = 1'',
    ''}'',
    ''variable "db_instance_count" {'',
    ''    default = 1'',
    ''}'',
    ''variable "db_engine_type" {'',
    ''    default = "aurora"'',
    ''}'',
    ''variable "loadtest_instance_count" {'',
    ''    default = 1'',
    ''}'',
    ''variable "db_password" {}'',
    ''variable "ssh_public_key" {}'',
    ''variable "ssh_private_key" {}'',
    [],
    ''provider "aws" {'',
    ''    region = "us-east-1"'',
    ''    profile = "ltops"'',
    ''}'',
    [],
    ''resource "aws_instance" "app_server" {'',
    ''    tags = {'',
    ''        Name = "${var.cluster_name}-app-${count.index}"'',
    ''    }'',
    ''    ami = "ami-43a15f3e"'',
    ''    instance_type = "${var.app_instance_type}"'',
    ''    associate_public_ip_address = true'',
    ''    vpc_security_group_ids = ['',
    ''        "${aws_security_group.app.id}",'',
    ''        "${aws_security_group.app_gossip.id}"'',
    ''    ]'',
    ''    key_name = "${aws_key_pair.key.id}"'',
    ''    count = "${var.app_instance_count}"'',
    ''    availability_zone = "us-east-1a"'',
    ''}'',
    [],
    ''resource "aws_key_pair" "key" {'',
    ''    key_name = "Terraform-${var.cluster_name}"'',
    ''    public_key = "${var.ssh_public_key}"'',
    ''}'',
    [],
    ''output "instanceIP" {'',
    ''    value = "${aws_instance.app_server.*.public_dns}"'',
    ''}'',
    [],
    ''resource "aws_security_group" "app" {'',
    ''    name = "${var.cluster_name}-app-security-group"'',
    ''    description = "App security group for loadtest cluster ${var.cluster_name}"'',
    [],
    ''    ingress {'',
    ''        from_port = 22'',
    ''        to_port = 22'',
    ''        protocol = "tcp"'',
    ''        cidr_blocks = ["0.0.0.0/0"]'',
    ''    }'',
    ''    ingress {'',
    ''        from_port = 80'',
    ''        to_port = 80'',
    ''        protocol = "tcp"'',
    ''        cidr_blocks = ["0.0.0.0/0"]'',
    ''    }'',
    ''    ingress {'',
    ''        from_port = 8067'',
    ''        to_port = 8067'',
    ''        protocol = "tcp"'',
    ''        cidr_blocks = ["0.0.0.0/0"]'',
    ''    }'',
    ''    egress {'',
    ''        from_port = 0'',
    ''        to_port = 0'',
    ''        protocol = "-1"'',
    ''        cidr_blocks = ["0.0.0.0/0"]'',
    ''    }'',
    ''}'',
    [],
    ''resource "aws_security_group" "app_gossip" {'',
    ''    name = "${var.cluster_name}-app-security-group-gossip"'',
    ''    description = "App security group for gossip loadtest cluster ${var.cluster_name}"'',
    ''    ingress {'',
    ''        from_port = 8074'',
    ''        to_port = 8074'',
    ''        protocol = "udp"'',
    ''        security_groups = ["${aws_security_group.app.id}"]'',
    ''    }'',
    ''    ingress {'',
    ''        from_port = 8074'',
    ''        to_port = 8074'',
    ''        protocol = "tcp"'',
    ''        security_groups = ["${aws_security_group.app.id}"]'',
    ''    }'',
    ''    ingress {'',
    ''        from_port = 8075'',
    ''        to_port = 8075'',
    ''        protocol = "udp"'',
    ''        security_groups = ["${aws_security_group.app.id}"]'',
    ''    }'',
    ''    ingress {'',
    ''        from_port = 8075'',
    ''        to_port = 8075'',
    ''        protocol = "tcp"'',
    ''        security_groups = ["${aws_security_group.app.id}"]'',
    ''    }'',
    ''    egress {'',
    ''        from_port = 0'',
    ''        to_port = 0'',
    ''        protocol = "-1"'',
    ''        cidr_blocks = ["0.0.0.0/0"]'',
    ''    }'',
    ''}'',
    [],
    ''resource "aws_instance" "loadtest" {'',
    ''    tags = {'',
    ''        Name = "${var.cluster_name}-loadtest-${count.index}"'',
    ''    }'',
    ''    ami = "ami-43a15f3e"'',
    ''    instance_type = "m4.xlarge"'',
    ''    associate_public_ip_address = true'']\<close>

definition cluster_tf_2 :: "string list" where
  \<open>cluster_tf_2 =
   [''    vpc_security_group_ids = ['',
    ''        "${aws_security_group.app.id}"'',
    ''    ]'',
    ''    key_name = "${aws_key_pair.key.id}"'',
    ''    count = "${var.loadtest_instance_count}"'',
    ''    availability_zone = "us-east-1a"'',
    ''}'',
    [],
    ''output "loadtestInstanceIP" {'',
    ''    value = "${aws_instance.loadtest.*.public_ip}"'',
    ''}'',
    [],
    ''resource "aws_security_group" "loadtest" {'',
    ''    name = "${var.cluster_name}-loadtest-security-group"'',
    ''    description = "Loadtest security group for loadtest cluster ${var.cluster_name}"'',
    [],
    ''    ingress {'',
    ''        from_port = 22'',
    ''        to_port = 22'',
    ''        protocol = "tcp"'',
    ''        cidr_blocks = ["0.0.0.0/0"]'',
    ''    }'',
    ''    egress {'',
    ''        from_port = 0'',
    ''        to_port = 0'',
    ''        protocol = "-1"'',
    ''        cidr_blocks = ["0.0.0.0/0"]'',
    ''    }'',
    ''}'',
    [],
    ''resource "aws_rds_cluster_instance" "db_cluster_instances" {'',
    ''    count = "${var.db_instance_count}"'',
    ''    identifier = "${var.cluster_name}-db-${count.index}"'',
    ''    cluster_identifier = "${aws_rds_cluster.db_cluster.id}"'',
    ''    instance_class = "${var.db_instance_type}"'',
    ''    engine = "${var.db_engine_type}"'',
    ''    publicly_accessible = true'',
    ''    apply_immediately = true'',
    ''    monitoring_interval = 10'',
    ''    monitoring_role_arn = "${aws_iam_role.rds_enhanced_monitoring.arn}"'',
    ''}'',
    [],
    ''resource "aws_rds_cluster" "db_cluster" {'',
    ''    cluster_identifier = "${var.cluster_name}-db"'',
    ''    database_name = "mattermost"'',
    ''    master_username = "mmuser"'',
    ''    master_password = "${var.db_password}"'',
    ''    engine = "${var.db_engine_type}"'',
    ''    skip_final_snapshot = true'',
    ''    apply_immediately = true'',
    ''    vpc_security_group_ids = ["${aws_security_group.db.id}"]'',
    ''    availability_zones = ["us-east-1a"]'',
    ''}'',
    [],
    ''output "dbEndpoint" {'',
    ''    value = "${aws_rds_cluster.db_cluster.endpoint}"'',
    ''}'',
    [],
    ''output "dbReaderEndpoint" {'',
    ''    value = "${aws_rds_cluster.db_cluster.reader_endpoint}"'',
    ''}'',
    [],
    ''resource "aws_security_group" "db" {'',
    ''    name = "${var.cluster_name}-db-security-group"'',
    [],
    ''    ingress {'',
    ''        from_port = 3306'',
    ''        to_port = 3306'',
    ''        protocol = "tcp"'',
    ''        cidr_blocks = ["0.0.0.0/0"]'',
    ''    }'',
    [],
    ''    ingress {'',
    ''        from_port = 5432'',
    ''        to_port = 5432'',
    ''        protocol = "tcp"'',
    ''        cidr_blocks = ["0.0.0.0/0"]'',
    ''    }'',
    ''}'',
    [],
    ''# These roles and policies are to enable enhanced monitoring for the DBs'',
    ''resource "aws_iam_role" "rds_enhanced_monitoring" {'',
    [CHR 0x09] @ ''name               = "${var.cluster_name}-rds-enhanced_monitoring-role"'',
    [CHR 0x09] @ ''assume_role_policy = "${data.aws_iam_policy_document.rds_enhanced_monitoring.json}"'',
    ''}'',
    [],
    ''resource "aws_iam_role_policy_attachment" "rds_enhanced_monitoring" {'',
    [CHR 0x09] @ ''role       = "${aws_iam_role.rds_enhanced_monitoring.name}"'',
    [CHR 0x09] @ ''policy_arn = "arn:aws:iam::aws:policy/service-role/AmazonRDSEnhancedMonitoringRole"'',
    ''}'',
    [],
    ''data "aws_iam_policy_document" "rds_enhanced_monitoring" {'',
    [CHR 0x09] @ ''statement {'',
    ''        actions = ['',
    ''            "sts:AssumeRole",'',
    ''        ]'',
    [],
    ''        effect = "Allow"'',
    [],
    ''        principals {'',
    ''            type        = "Service"'',
    ''            identifiers = ["monitoring.rds.amazonaws.com"]'',
    ''        }'',
    ''    }'',
    ''}'',
    [],
    ''resource "aws_instance" "proxy_server" {'',
    ''    tags = {'',
    ''        Name = "${var.cluster_name}-proxy-${count.index}"'',
    ''    }'',
    ''    ami = "ami-43a15f3e"'',
    ''    instance_type = "m4.xlarge"'',
    ''    associate_public_ip_address = true'',
    ''    vpc_security_group_ids = ['',
    ''        "${aws_security_group.proxy.id}"'',
    ''    ]'',
    ''    key_name = "${aws_key_pair.key.id}"'',
    ''    count = "${var.loadtest_instance_count}"'',
    ''    availability_zone = "us-east-1a"'',
    ''}'',
    [],
    ''output "proxyIP" {'',
    ''    value = "${aws_instance.proxy_server.*.public_dns}"'']\<close>

definition cluster_tf_3 :: "string list" where
  \<open>cluster_tf_3 =
   [''}'',
    [],
    ''resource "aws_security_group" "proxy" {'',
    ''    name = "${var.cluster_name}-proxy-security-group"'',
    ''    description = "Proxy security group for loadtest cluster ${var.cluster_name}"'',
    [],
    ''    ingress {'',
    ''        from_port = 80'',
    ''        to_port = 80'',
    ''        protocol = "tcp"'',
    ''        cidr_blocks = ["0.0.0.0/0"]'',
    ''    }'',
    [],
    ''    ingress {'',
    ''        from_port = 22'',
    ''        to_port = 22'',
    ''        protocol = "tcp"'',
    ''        cidr_blocks = ["0.0.0.0/0"]'',
    ''    }'',
    [],
    ''    egress {'',
    ''        from_port = 0'',
    ''        to_port = 0'',
    ''        protocol = "-1"'',
    ''        cidr_blocks = ["0.0.0.0/0"]'',
    ''    }'',
    ''}'',
    [],
    ''resource "aws_s3_bucket" "app" {'',
    ''    bucket = "${var.cluster_name}.loadtestbucket"'',
    ''    acl = "private"'',
    ''    tags = {'',
    ''        Name = "${var.cluster_name}"'',
    ''    }'',
    ''    force_destroy = true'',
    ''}'',
    [],
    ''output "s3bucket" {'',
    ''    value = "${aws_s3_bucket.app.id}"'',
    ''}'',
    [],
    ''output "s3bucketRegion" {'',
    ''    value = "${aws_s3_bucket.app.region}"'',
    ''}'',
    [],
    ''resource "aws_iam_access_key" "s3" {'',
    ''    user = "${aws_iam_user.s3.name}"'',
    ''}'',
    [],
    ''output "s3AccessKeyId" {'',
    ''    value = "${aws_iam_access_key.s3.id}"'',
    ''}'',
    [],
    ''output "s3AccessKeySecret" {'',
    ''    value = "${aws_iam_access_key.s3.secret}"'',
    ''}'',
    [],
    ''resource "aws_iam_user" "s3" {'',
    ''    name = "${var.cluster_name}-s3"'',
    ''}'',
    [],
    ''resource "aws_iam_user_policy" "s3" {'',
    ''    name = "${var.cluster_name}-s3-user-access"'',
    ''    user = "${aws_iam_user.s3.name}"'',
    [],
    ''    policy = <<EOF'',
    ''{'',
    ''    "Version": "2012-10-17",'',
    ''    "Statement": ['',
    ''        {'',
    ''            "Effect": "Allow",'',
    ''            "Action": ['',
    ''                "s3:ListBucket",'',
    ''                "s3:GetBucketLocation"'',
    ''            ],'',
    ''            "Resource": "arn:aws:s3:::${aws_s3_bucket.app.id}"'',
    ''        },'',
    ''        {'',
    ''            "Action": ['',
    ''                "s3:AbortMultipartUpload",'',
    ''                "s3:DeleteObject",'',
    ''                "s3:GetObject",'',
    ''                "s3:GetObjectAcl",'',
    ''                "s3:PutObject",'',
    ''                "s3:PutObjectAcl"'',
    ''            ],'',
    ''            "Effect": "Allow",'',
    ''            "Resource": "arn:aws:s3:::${aws_s3_bucket.app.id}/*"'',
    ''        }'',
    ''    ]'',
    ''}'',
    ''EOF'',
    ''}'',
    [],
    ''resource "aws_instance" "metrics" {'',
    ''    tags = {'',
    ''        Name = "${var.cluster_name}-metrics"'',
    ''    }'',
    ''    ami = "ami-43a15f3e"'',
    ''    instance_type = "t2.large"'',
    ''    associate_public_ip_address = true'',
    ''    vpc_security_group_ids = ['',
    ''        "${aws_security_group.metrics.id}",'',
    ''    ]'',
    ''    key_name = "${aws_key_pair.key.id}"'',
    ''    availability_zone = "us-east-1a"'',
    [],
    ''    provisioner "file" {'',
    ''        destination = "/home/ubuntu/prometheus.service"'',
    ''        connection {'',
    ''            user="ubuntu"'',
    ''            private_key="${var.ssh_private_key}"'',
    ''            host = "${self.public_ip}"'',
    ''            agent=false'',
    ''        }'',
    [],
    ''        content = <<EOF'',
    ''[Unit]'',
    ''Description=Monitoring system and time series database'',
    ''Documentation=https://prometheus.io/docs/introduction/overview/'',
    [],
    ''[Service]'',
    ''Restart=always'']\<close>

definition cluster_tf_4 :: "string list" where
  \<open>cluster_tf_4 =
   [''User=ubuntu'',
    ''WorkingDirectory=/home/ubuntu/prometheus'',
    ''ExecStart=/home/ubuntu/prometheus/prometheus $ARGS'',
    ''ExecReload=/bin/kill -HUP $MAINPID'',
    ''TimeoutStopSec=20s'',
    ''SendSIGKILL=no'',
    [],
    ''[Install]'',
    ''WantedBy=multi-user.target'',
    ''EOF'',
    ''    }'',
    [],
    ''    provisioner "remote-exec" {'',
    ''        connection {'',
    ''            user="ubuntu"'',
    ''            host = "${self.public_ip}"'',
    ''            private_key="${var.ssh_private_key}"'',
    ''            agent=false'',
    ''        }'',
    ''        inline = ['',
    ''            "sudo mv prometheus.service /lib/systemd/system/prometheus.service",'',
    ''            "wget https://github.com/prometheus/prometheus/releases/download/v2.2.1/prometheus-2.2.1.linux-amd64.tar.gz",'',
    ''            "tar -zxf *.tar.gz",'',
    ''            "rm *.tar.gz",'',
    ''            "mv prometheus* prometheus",'',
    ''        ]'',
    ''    }'',
    [],
    ''    provisioner "file" {'',
    ''        destination = "/home/ubuntu/prometheus/prometheus.yml"'',
    ''        connection {'',
    ''            user="ubuntu"'',
    ''            host = "${self.public_ip}"'',
    ''            private_key="${var.ssh_private_key}"'',
    ''            agent=false'',
    ''        }'',
    ''        content = <<EOF'',
    ''global:'',
    ''  scrape_interval:     10s'',
    ''  evaluation_interval: 10s'',
    ''  external_labels:'',
    ''      monitor: '' @ [CHR 0x27] @ ''mattermost-monitor'' @ [CHR 0x27],
    [],
    ''scrape_configs:'',
    ''  - job_name: '' @ [CHR 0x27] @ ''loadtest'' @ [CHR 0x27],
    ''    static_configs:'',
    ''      - targets: ["${join("'' @ [CHR 0x5C] @ ''",'' @ [CHR 0x5C] @ ''"", formatlist("%s:8067", aws_instance.app_server.*.public_dns))}"]'',
    ''EOF'',
    ''    }'',
    [],
    ''    provisioner "remote-exec" {'',
    ''        connection {'',
    ''            user="ubuntu"'',
    ''            host = "${self.public_ip}"'',
    ''            private_key="${var.ssh_private_key}"'',
    ''            agent=false'',
    ''        }'',
    ''        inline = ['',
    ''            "sudo systemctl enable prometheus",'',
    ''            "sudo systemctl start prometheus",'',
    ''            "sudo apt-get update",'',
    ''            "sudo apt-get install -y adduser libfontconfig",'',
    ''            "wget https://s3-us-west-2.amazonaws.com/grafana-releases/release/grafana_5.0.4_amd64.deb",'',
    ''            "sudo dpkg -i grafana_5.0.4_amd64.deb",'',
    ''            "sudo systemctl daemon-reload",'',
    ''            "sudo systemctl enable grafana-server",'',
    ''            "sudo systemctl start grafana-server",'',
    ''            "sudo iptables -t nat -A PREROUTING -p tcp --dport 80 -j REDIRECT --to-port 3000",'',
    ''            "sleep 10"'',
    ''        ]'',
    ''    }'',
    ''}'',
    [],
    ''output "metricsIP" {'',
    ''    value = "${aws_instance.metrics.public_ip}"'',
    ''}'',
    [],
    ''resource "aws_security_group" "metrics" {'',
    ''    name = "${var.cluster_name}-metrics-security-group"'',
    ''    description = "Metrics security group for loadtest cluster ${var.cluster_name}"'',
    [],
    ''    ingress {'',
    ''        from_port = 80'',
    ''        to_port = 80'',
    ''        protocol = "tcp"'',
    ''        cidr_blocks = ["0.0.0.0/0"]'',
    ''    }'',
    [],
    ''    ingress {'',
    ''        from_port = 9090'',
    ''        to_port = 9090'',
    ''        protocol = "tcp"'',
    ''        cidr_blocks = ["0.0.0.0/0"]'',
    ''    }'',
    [],
    ''    ingress {'',
    ''        from_port = 22'',
    ''        to_port = 22'',
    ''        protocol = "tcp"'',
    ''        cidr_blocks = ["0.0.0.0/0"]'',
    ''    }'',
    [],
    ''    egress {'',
    ''        from_port = 0'',
    ''        to_port = 0'',
    ''        protocol = "-1"'',
    ''        cidr_blocks = ["0.0.0.0/0"]'',
    ''    }'',
    ''}'',
    ''/*'',
    ''provider "grafana" {'',
    ''    url = "http://${aws_instance.metrics.public_ip}"'',
    ''    auth = "admin:admin"'',
    ''}'',
    [],
    ''resource "grafana_data_source" "prometheus" {'',
    ''    type = "prometheus"'',
    ''    name = "prometheus"'',
    ''    url = "http://localhost:9090"'',
    ''    depends_on = ["aws_instance.metrics"]'',
    ''}*/'']\<close>

definition clusterTfBytes :: string where
  "clusterTfBytes = concat (map (\<lambda>l. l @ [CHR 0x0A]) (cluster_tf_1 @ cluster_tf_2 @ cluster_tf_3 @ cluster_tf_4))"

section \<open>Assets\<close>

record bindataFileInfo =
  asset_name :: string
  asset_size :: int
  asset_mode :: int
  asset_modTime :: int

record asset =
  asset_bytes :: string
  asset_info :: bindataFileInfo

definition clusterTf :: "string + asset" where
  "clusterTf = Inr \<lparr>asset_bytes = clusterTfBytes,
     asset_info = \<lparr>asset_name = ''cluster.tf'', asset_size = 12326, asset_mode = 420, asset_modTime = 1567509855\<rparr>\<rparr>"

text \<open>The table of the assets, and the tree of their paths.\<close>

definition bindata :: "string \<rightharpoonup> (string + asset)" where
  "bindata = [''cluster.tf'' \<mapsto> clusterTf]"

datatype bintree = Bintree "(string + asset) option" "(string \<times> bintree) list"

fun node_func :: "bintree \<Rightarrow> (string + asset) option" where "node_func (Bintree f children) = f"

fun node_children :: "bintree \<Rightarrow> (string \<times> bintree) list" where "node_children (Bintree f children) = children"

definition root_tree :: bintree where
  "root_tree = Bintree None [(''cluster.tf'', Bintree (Some clusterTf) [])]"

definition cannonicalName :: "string \<Rightarrow> string" where
  "cannonicalName name = map (\<lambda>c. if c = CHR 0x5C then CHR ''/'' else c) name"

definition not_found :: "string \<Rightarrow> string \<Rightarrow> string" where
  "not_found what name = what @ '' '' @ name @ '' not found''"

definition Asset :: "string \<Rightarrow> string + string" where
  "Asset name =
     (case bindata (cannonicalName name) of
        Some (Inr a) \<Rightarrow> Inr (asset_bytes a)
      | Some (Inl err) \<Rightarrow> Inl (''Asset '' @ name @ '' can'' @ [CHR 0x27] @ ''t read by error: '' @ err)
      | None \<Rightarrow> Inl (not_found ''Asset'' name))"

text \<open>\<open>None\<close> is the panic.\<close>

definition MustAsset :: "string \<Rightarrow> string option" where
  "MustAsset name = (case Asset name of Inl _ \<Rightarrow> None | Inr bytes \<Rightarrow> Some bytes)"

definition AssetInfo :: "string \<Rightarrow> string + bindataFileInfo" where
  "AssetInfo name =
     (case bindata (cannonicalName name) of
        Some (Inr a) \<Rightarrow> Inr (asset_info a)
      | Some (Inl err) \<Rightarrow> Inl (''AssetInfo '' @ name @ '' can'' @ [CHR 0x27] @ ''t read by error: '' @ err)
      | None \<Rightarrow> Inl (not_found ''AssetInfo'' name))"

definition AssetNames :: "string list" where
  "AssetNames = [''cluster.tf'']"

fun split_path :: "string \<Rightarrow> string list" where
  "split_path [] = [[]]"
| "split_path (c # cs) =
     (if c = CHR ''/'' then [] # split_path cs
      else (case split_path cs of [] \<Rightarrow> [[c]] | p # ps \<Rightarrow> (c # p) # ps))"

fun walk :: "bintree \<Rightarrow> string list \<Rightarrow> bintree option" where
  "walk node [] = Some node"
| "walk node (p # ps) = (case map_of (node_children node) p of None \<Rightarrow> None | Some child \<Rightarrow> walk child ps)"

definition AssetDir :: "string \<Rightarrow> string + string list" where
  "AssetDir name =
     (case (if length name \<noteq> 0 then walk root_tree (split_path (cannonicalName name)) else Some root_tree) of
        None \<Rightarrow> Inl (not_found ''Asset'' name)
      | Some node \<Rightarrow>
          (case node_func node of
             Some _ \<Rightarrow> Inl (not_found ''Asset'' name)
           | None \<Rightarrow> Inr (map fst (node_children node))))"

text \<open>
  \<open>filepath.Clean\<close>, \<open>filepath.Join\<close> and \<open>filepath.Dir\<close>, by the elements of a path: empty elements and \<open>.\<close> go, and \<open>..\<close> takes the
  element before it away when there is one.
\<close>

definition clean_step :: "bool \<Rightarrow> string list \<Rightarrow> string \<Rightarrow> string list" where
  "clean_step rooted xs p =
     (if p = [] \<or> p = ''.'' then xs
      else if p = ''..'' then (if xs \<noteq> [] \<and> last xs \<noteq> ''..'' then butlast xs else if rooted then xs else xs @ [p])
      else xs @ [p])"

definition path_clean :: "string \<Rightarrow> string" where
  "path_clean path =
     (let rooted = (path \<noteq> [] \<and> hd path = CHR ''/''); s = join (foldl (clean_step rooted) [] (split_path path)) ''/''
      in if rooted then CHR ''/'' # s else if s = [] then ''.'' else s)"

definition path_join :: "string list \<Rightarrow> string" where
  "path_join elems = (case dropWhile (\<lambda>p. p = []) elems of [] \<Rightarrow> [] | ps \<Rightarrow> path_clean (join ps ''/''))"

definition path_dir :: "string \<Rightarrow> string" where
  "path_dir name = path_clean (rev (dropWhile (\<lambda>c. c \<noteq> CHR ''/'') (rev name)))"

definition filePath :: "string \<Rightarrow> string \<Rightarrow> string" where
  "filePath dir name = path_join (dir # split_path (cannonicalName name))"

text \<open>Setting the times of a file has a result but no effect that is modelled; \<open>chtimes_error\<close> is its error.\<close>

definition RestoreAsset :: "machine_env \<Rightarrow> (string \<Rightarrow> string option) \<Rightarrow> string \<Rightarrow> string \<Rightarrow> (machine, unit) op" where
  "RestoreAsset e chtimes_error dir name =
     andThen (given (Asset name)) (\<lambda>data.
     andThen (given (AssetInfo name)) (\<lambda>info.
     andThen (make_dir e (filePath dir (path_dir name))) (\<lambda>_.
     andThen (write_file e (filePath dir name) (Raw data)) (\<lambda>_.
     case chtimes_error (filePath dir name) of None \<Rightarrow> ret () | Some err \<Rightarrow> fail err))))"

lemma split_path_not_Nil: "split_path s \<noteq> []"
  by (cases s) (auto split: list.splits)

lemma AssetDir_root: "AssetDir name = Inr children \<Longrightarrow> name = [] \<and> children = [''cluster.tf'']"
proof -
  assume ok: "AssetDir name = Inr children"
  have leaf: "walk (Bintree a []) ps = Some node \<Longrightarrow> ps = [] \<and> node = Bintree a []" for a ps node by (cases ps) auto
  show ?thesis
  proof (cases name)
    case Nil
    with ok show ?thesis by (simp add: AssetDir_def root_tree_def)
  next
    case (Cons c cs)
    obtain p ps where split: "split_path (cannonicalName name) = p # ps" using split_path_not_Nil by (metis neq_Nil_conv)
    show ?thesis
    proof (cases "walk root_tree (split_path (cannonicalName name))")
      case None
      with ok Cons show ?thesis by (simp add: AssetDir_def)
    next
      case (Some node)
      then have "node_func node \<noteq> None" using leaf by (fastforce simp: root_tree_def split split: if_splits)
      with ok Cons Some show ?thesis by (auto simp: AssetDir_def)
    qed
  qed
qed

lemma forEach_cong [fundef_cong]:
  "xs = ys \<Longrightarrow> (\<And>x. x \<in> set ys \<Longrightarrow> f x = g x) \<Longrightarrow> forEach f xs = forEach g ys"
proof -
  assume eq: "xs = ys" and same: "\<And>x. x \<in> set ys \<Longrightarrow> f x = g x"
  from same have "forEach f ys = forEach g ys" by (induction ys) auto
  with eq show ?thesis by simp
qed

lemma path_join_cluster_tf: "path_join [[], ''cluster.tf''] = ''cluster.tf''"
  by code_simp

function RestoreAssets :: "machine_env \<Rightarrow> (string \<Rightarrow> string option) \<Rightarrow> string \<Rightarrow> string \<Rightarrow> (machine, unit) op" where
  "RestoreAssets e chtimes_error dir name =
     (case AssetDir name of
        Inl _ \<Rightarrow> RestoreAsset e chtimes_error dir name
      | Inr children \<Rightarrow> forEach (\<lambda>child. RestoreAssets e chtimes_error dir (path_join [name, child])) children)"
  by pat_completeness auto

termination RestoreAssets
  by (relation "measure (\<lambda>(e, c, dir, name). if name = [] then 1 else 0)") (auto dest: AssetDir_root simp: path_join_cluster_tf)

text \<open>Every asset is found by its name, with the information that belongs to it, and no other name is.\<close>

lemma cannonicalName_eq_iff:
  "CHR ''/'' \<notin> set s \<Longrightarrow> CHR 0x5C \<notin> set s \<Longrightarrow> cannonicalName name = s \<longleftrightarrow> name = s"
proof (induction name arbitrary: s)
  case Nil
  then show ?case by (auto simp: cannonicalName_def)
next
  case (Cons c cs)
  show ?case
  proof (cases s)
    case Nil
    then show ?thesis by (simp add: cannonicalName_def)
  next
    case (Cons d ds)
    then have "cannonicalName cs = ds \<longleftrightarrow> cs = ds" using Cons.IH Cons.prems by simp
    with Cons Cons.prems show ?thesis by (cases "c = CHR 0x5C") (auto simp: cannonicalName_def)
  qed
qed

lemma cannonicalName_cluster_tf: "cannonicalName name = ''cluster.tf'' \<longleftrightarrow> name = ''cluster.tf''"
  by (rule cannonicalName_eq_iff) simp_all

lemma Asset_iff: "Asset name = (if name \<in> set AssetNames then Inr clusterTfBytes else Inl (not_found ''Asset'' name))"
  by (simp add: Asset_def AssetNames_def bindata_def clusterTf_def cannonicalName_cluster_tf)

lemma AssetInfo_iff: "AssetInfo name = (if name \<in> set AssetNames then map_sum id asset_info clusterTf else Inl (not_found ''AssetInfo'' name))"
  by (simp add: AssetInfo_def AssetNames_def bindata_def clusterTf_def cannonicalName_cluster_tf)

lemma MustAsset_iff: "MustAsset name = (if name \<in> set AssetNames then Some clusterTfBytes else None)"
  by (simp add: MustAsset_def Asset_iff)

lemma AssetDir_iff: "AssetDir name = (if name = [] then Inr AssetNames else Inl (not_found ''Asset'' name))"
proof (cases "AssetDir name")
  case (Inl err)
  then have "name \<noteq> []" by (auto simp: AssetDir_def root_tree_def)
  with Inl show ?thesis by (auto simp: AssetDir_def split: option.splits if_splits)
next
  case (Inr children)
  then show ?thesis using AssetDir_root by (auto simp: AssetNames_def)
qed

lemma RestoreAssets_root: "RestoreAssets e chtimes_error dir [] = RestoreAsset e chtimes_error dir ''cluster.tf''"
proof -
  have leaf: "RestoreAssets e chtimes_error dir ''cluster.tf'' = RestoreAsset e chtimes_error dir ''cluster.tf''"
    by (simp add: AssetDir_iff)
  have "RestoreAssets e chtimes_error dir [] = forEach (\<lambda>child. RestoreAssets e chtimes_error dir (path_join [[], child])) AssetNames"
    by (simp add: AssetDir_iff)
  then show ?thesis
    by (simp add: AssetNames_def path_join_cluster_tf leaf del: RestoreAssets.simps)
       (auto simp: fun_eq_iff andThen_def ret_def split: sum.splits prod.splits)
qed

end
