(* ===== verification/Terraform_Cluster.thy ===== *)
theory Terraform_Cluster
  imports Terraform_Asset
begin

text \<open>
  Package \<^verbatim>\<open>terraform\<close> without deployment: the parameters, the environment the \<^verbatim>\<open>terraform\<close> command runs in, a cluster, its
  creation, its file, and what it answers about its instances and its database.
\<close>

section \<open>Parameters\<close>

record terraformParameters =
  par_ClusterName :: string
  par_AppInstanceType :: string
  par_TerraformPath :: string
  par_Verbose :: bool
  par_AppInstanceCount :: int
  par_DBInstanceType :: string
  par_DBEngineType :: string
  par_DBInstanceCount :: int
  par_DBPassword :: string
  par_LoadtestInstanceCount :: int
  par_SSHPublicKey :: string
  par_SSHPrivateKey :: string

definition terraformParametersFromClusterConfig :: "ClusterConfig \<Rightarrow> string \<Rightarrow> string \<Rightarrow> string \<Rightarrow> terraformParameters" where
  "terraformParametersFromClusterConfig config dbPassword sshPublicKey sshPrivateKey =
     \<lparr>par_ClusterName = Name config, par_AppInstanceType = AppInstanceType config, par_TerraformPath = TerraformPath config,
      par_Verbose = Verbose config, par_AppInstanceCount = AppInstanceCount config, par_DBInstanceType = DBInstanceType config,
      par_DBEngineType = DBEngineType config, par_DBInstanceCount = DBInstanceCount config, par_DBPassword = dbPassword,
      par_LoadtestInstanceCount = LoadtestInstanceCount config, par_SSHPublicKey = sshPublicKey, par_SSHPrivateKey = sshPrivateKey\<rparr>"

definition parameters_json :: "terraformParameters \<Rightarrow> json" where
  "parameters_json p = JObj [(''cluster_name'', JStr (par_ClusterName p)), (''app_instance_type'', JStr (par_AppInstanceType p)),
     (''app_instance_count'', JInt (par_AppInstanceCount p)), (''db_instance_type'', JStr (par_DBInstanceType p)),
     (''db_engine_type'', JStr (par_DBEngineType p)), (''db_instance_count'', JInt (par_DBInstanceCount p)),
     (''db_password'', JStr (par_DBPassword p)), (''loadtest_instance_count'', JInt (par_LoadtestInstanceCount p)),
     (''ssh_public_key'', JStr (par_SSHPublicKey p)), (''ssh_private_key'', JStr (par_SSHPrivateKey p))]"

record terraformOutputParameters =
  InstanceIp :: "string list"
  LoadtestInstanceIp :: "string list"
  ProxyIp :: "string list"
  DBEndpoint :: string
  DBReaderEndpoint :: string
  S3bucket :: string
  S3bucketRegion :: string
  S3AccessKeyId :: string
  S3AccessKeySecret :: string
  MetricsIp :: string

text \<open>
  Decoding what \<^verbatim>\<open>terraform output\<close> prints, into a struct of structs with one field \<open>Value\<close>. A member of a JSON object goes to the field of
  its name, upper and lower case of letters being the same; when there are several, they are decoded one after the other into the same
  field; when there is none, the field keeps the zero value. A value of the wrong type is an error.
\<close>

definition fold_case :: "string \<Rightarrow> string" where
  "fold_case s = map (\<lambda>c. if 65 \<le> (of_char c :: nat) \<and> (of_char c :: nat) \<le> 90 then char_of ((of_char c :: nat) + 32) else c) s"

fun json_members :: "string \<Rightarrow> json \<Rightarrow> string + json list" where
  "json_members name (JObj fs) = Inr (map snd (filter (\<lambda>(k, _). fold_case k = fold_case name) fs))"
| "json_members name JNull = Inr []"
| "json_members name _ = type_error"

fun decode_into :: "('a \<Rightarrow> json \<Rightarrow> string + 'a) \<Rightarrow> 'a \<Rightarrow> json list \<Rightarrow> string + 'a" where
  "decode_into d x [] = Inr x"
| "decode_into d x (j # js) = bind_sum (d x j) (\<lambda>y. decode_into d y js)"

definition value_into :: "('a \<Rightarrow> json \<Rightarrow> string + 'a) \<Rightarrow> 'a \<Rightarrow> json \<Rightarrow> string + 'a" where
  "value_into d x j = bind_sum (json_members ''Value'' j) (decode_into d x)"

definition struct_field :: "string \<Rightarrow> ('a \<Rightarrow> json \<Rightarrow> string + 'a) \<Rightarrow> 'a \<Rightarrow> json \<Rightarrow> string + 'a" where
  "struct_field name d zero j = bind_sum (json_members name j) (decode_into (value_into d) zero)"

fun str_into :: "string \<Rightarrow> json \<Rightarrow> string + string" where
  "str_into s (JStr t) = Inr t" | "str_into s JNull = Inr s" | "str_into s _ = type_error"

fun get_strs :: "json list \<Rightarrow> string + string list" where
  "get_strs [] = Inr []"
| "get_strs (j # js) = bind_sum (get_str j) (\<lambda>s. bind_sum (get_strs js) (\<lambda>ss. Inr (s # ss)))"

fun strs_into :: "string list \<Rightarrow> json \<Rightarrow> string + string list" where
  "strs_into ss (JArr js) = get_strs js" | "strs_into ss JNull = Inr []" | "strs_into ss _ = type_error"

definition outputs_of_json :: "json \<Rightarrow> string + terraformOutputParameters" where
  "outputs_of_json j =
     bind_sum (struct_field ''InstanceIp'' strs_into [] j) (\<lambda>instance.
     bind_sum (struct_field ''LoadtestInstanceIp'' strs_into [] j) (\<lambda>loadtest.
     bind_sum (struct_field ''ProxyIp'' strs_into [] j) (\<lambda>proxy.
     bind_sum (struct_field ''DBEndpoint'' str_into [] j) (\<lambda>db.
     bind_sum (struct_field ''DBReaderEndpoint'' str_into [] j) (\<lambda>reader.
     bind_sum (struct_field ''S3bucket'' str_into [] j) (\<lambda>bucket.
     bind_sum (struct_field ''S3bucketRegion'' str_into [] j) (\<lambda>region.
     bind_sum (struct_field ''S3AccessKeyId'' str_into [] j) (\<lambda>key.
     bind_sum (struct_field ''S3AccessKeySecret'' str_into [] j) (\<lambda>secret.
     bind_sum (struct_field ''MetricsIp'' str_into [] j) (\<lambda>metrics.
     Inr \<lparr>InstanceIp = instance, LoadtestInstanceIp = loadtest, ProxyIp = proxy, DBEndpoint = db, DBReaderEndpoint = reader,
          S3bucket = bucket, S3bucketRegion = region, S3AccessKeyId = key, S3AccessKeySecret = secret, MetricsIp = metrics\<rparr>))))))))))"

text \<open>The names of the outputs in \<^verbatim>\<open>cluster.tf\<close> and in the struct.\<close>

lemma folded_names:
  "map fold_case [''instanceIP'', ''loadtestInstanceIP'', ''dbEndpoint'', ''dbReaderEndpoint'', ''proxyIP'', ''s3bucket'', ''s3bucketRegion'', ''s3AccessKeyId'', ''s3AccessKeySecret'', ''metricsIP'']
     = [''instanceip'', ''loadtestinstanceip'', ''dbendpoint'', ''dbreaderendpoint'', ''proxyip'', ''s3bucket'', ''s3bucketregion'', ''s3accesskeyid'', ''s3accesskeysecret'', ''metricsip'']"
  "map fold_case [''InstanceIp'', ''LoadtestInstanceIp'', ''DBEndpoint'', ''DBReaderEndpoint'', ''ProxyIp'', ''S3bucket'', ''S3bucketRegion'', ''S3AccessKeyId'', ''S3AccessKeySecret'', ''MetricsIp'']
     = [''instanceip'', ''loadtestinstanceip'', ''dbendpoint'', ''dbreaderendpoint'', ''proxyip'', ''s3bucket'', ''s3bucketregion'', ''s3accesskeyid'', ''s3accesskeysecret'', ''metricsip'']"
  "map fold_case [''sensitive'', ''value'', ''Value''] = [''sensitive'', ''value'', ''value'']"
  by code_simp+

section \<open>The environment\<close>

record TerraformEnvironment =
  env_WorkingDirectory :: string
  TerraformFilename :: string
  parameters :: "terraformParameters option"

definition getCmdOutputAndLog :: "cmd_result \<Rightarrow> string \<times> string option" where
  "getCmdOutputAndLog r =
     (case cmd_fail r of
        Some err \<Rightarrow> ([], Some err)
      | None \<Rightarrow>
          if cmd_capture_failed r then ([], Some (''failed to capture stdout or stderr'' @ [CHR 0x0A]))
          else (cmd_out r, if cmd_err r \<noteq> [] then Some (cmd_err r) else None))"

definition terraformExe :: "TerraformEnvironment \<Rightarrow> string" where
  "terraformExe env = (case parameters env of None \<Rightarrow> ''terraform'' | Some p \<Rightarrow> par_TerraformPath p)"

definition runCommandResult :: "machine_env \<Rightarrow> TerraformEnvironment \<Rightarrow> string list \<Rightarrow> (machine, string) op" where
  "runCommandResult e env args =
     (let exe = terraformExe env in
      if \<not> look_path e exe then fail (''Terraform not installed. Please install terraform.: exec: '' @ exe)
      else
        andThen (run_cmd e exe args) (\<lambda>r.
        case getCmdOutputAndLog r of
          (out, None) \<Rightarrow> ret out
        | (out, Some err) \<Rightarrow> fail (''Terraform command failed. '' @ exe @ '' ['' @ join args '' '' @ '']'' @ [CHR 0x0A] @ '': '' @ err)))"

definition runCommand :: "machine_env \<Rightarrow> TerraformEnvironment \<Rightarrow> string list \<Rightarrow> (machine, unit) op" where
  "runCommand e env args = andThen (runCommandResult e env args) (\<lambda>_. ret ())"

definition newTerraformEnvironment :: "machine_env \<Rightarrow> string \<Rightarrow> terraformParameters \<Rightarrow> (machine, TerraformEnvironment) op" where
  "newTerraformEnvironment e workingDirectory params =
     (let env = \<lparr>env_WorkingDirectory = workingDirectory, TerraformFilename = ''cluster.tf'', parameters = Some params\<rparr> in
      andThen (ensure_dir e workingDirectory) (\<lambda>_.
      andThen (wrapped ''Unable to get terraform version'' (runCommandResult e env [''version''])) (\<lambda>versionStr.
      andThen
        (if has_prefix versionStr ''Terraform v0.12''
         then andThen (remove_file (filepath_join workingDirectory ''generated.auto.tfvars'')) (\<lambda>_. ret ''generated.auto.tfvars.json'')
         else ret ''generated.auto.tfvars'') (\<lambda>parametersFile.
      andThen (wrapped ''Unable to write terraform file.'' (write_file e (filepath_join workingDirectory (TerraformFilename env)) (Raw clusterTfBytes))) (\<lambda>_.
      andThen (wrapped ''Unable to write parameters file.'' (write_file e (filepath_join workingDirectory parametersFile) (Json (parameters_json params)))) (\<lambda>_.
      andThen (wrapped ''Unable to run init command'' (runCommand e env [''init'', ''-input=false''])) (\<lambda>_.
      ret env)))))))"

definition loadTerraformEnvironment :: "string \<Rightarrow> TerraformEnvironment" where
  "loadTerraformEnvironment dir = \<lparr>env_WorkingDirectory = dir, TerraformFilename = [], parameters = None\<rparr>"

definition apply_terraform :: "machine_env \<Rightarrow> TerraformEnvironment \<Rightarrow> (machine, unit) op" where
  "apply_terraform e env =
     andThen (runCommand e env [''plan'', ''-out=tfplan'', ''-input=false'']) (\<lambda>_.
     runCommand e env [''apply'', ''-input=false'', ''tfplan''])"

definition destroy_terraform :: "machine_env \<Rightarrow> TerraformEnvironment \<Rightarrow> (machine, unit) op" where
  "destroy_terraform e env = runCommand e env [''destroy'', ''-input=false'', ''-force'']"

text \<open>\<open>decode\<close> is the JSON value in the text that the command prints, or the error of its syntax.\<close>

definition getOutputParams :: "machine_env \<Rightarrow> (string \<Rightarrow> string + json) \<Rightarrow> TerraformEnvironment \<Rightarrow>
    (machine, terraformOutputParameters) op" where
  "getOutputParams e decode env =
     andThen (runCommandResult e env [''output'', ''-json'']) (\<lambda>out.
     wrapped ''Unable to unmarshal terraform output'' (given (bind_sum (decode out) outputs_of_json)))"

section \<open>A cluster\<close>

record terraform_cluster =
  Config :: ClusterConfig
  SSHPrivateKeyPEM :: string
  DBPassword :: string
  Env :: TerraformEnvironment

definition TERRAFORM_TYPE :: string where "TERRAFORM_TYPE = ''terraform''"

text \<open>Unexported fields are not stored.\<close>

definition terraform_to_json :: "terraform_cluster \<Rightarrow> json" where
  "terraform_to_json c = JObj [(''Config'', config_to_json (Config c)), (''SSHPrivateKeyPEM'', put_bytes (SSHPrivateKeyPEM c)),
     (''DBPassword'', JStr (DBPassword c)),
     (''Env'', JObj [(''WorkingDirectory'', JStr (env_WorkingDirectory (Env c))), (''TerraformFilename'', JStr (TerraformFilename (Env c)))])]"

definition terraform_of_json :: "json \<Rightarrow> string + terraform_cluster" where
  "terraform_of_json j =
     bind_sum (get_obj j) (\<lambda>j.
     bind_sum (config_of_json (field ''Config'' j)) (\<lambda>config.
     bind_sum (get_bytes (field ''SSHPrivateKeyPEM'' j)) (\<lambda>key.
     bind_sum (get_str (field ''DBPassword'' j)) (\<lambda>password.
     bind_sum (get_obj (field ''Env'' j)) (\<lambda>env.
     bind_sum (get_str (field ''WorkingDirectory'' env)) (\<lambda>dir.
     bind_sum (get_str (field ''TerraformFilename'' env)) (\<lambda>file.
     Inr \<lparr>Config = config, SSHPrivateKeyPEM = key, DBPassword = password,
          Env = \<lparr>env_WorkingDirectory = dir, TerraformFilename = file, parameters = None\<rparr>\<rparr>)))))))"

definition terraform_saveCluster :: "machine_env \<Rightarrow> terraform_cluster \<Rightarrow> string \<Rightarrow> (machine, unit) op" where
  "terraform_saveCluster e cluster dir =
     wrapped ''unable to write cluster'' (write_file e (filepath_join dir infoFilename) (Json (terraform_to_json cluster)))"

definition terraform_CreateCluster :: "machine_env \<Rightarrow> string + string \<Rightarrow> string + string \<times> string \<Rightarrow> ClusterConfig \<Rightarrow>
    (machine, terraform_cluster) op" where
  "terraform_CreateCluster e random keys cfg =
     andThen (wrapped ''unable to generate database password'' (given (generatePassword random))) (\<lambda>dbPassword.
     andThen (wrapped ''unable to generate ssh key'' (given keys)) (\<lambda>(sshPrivateKeyPEM, sshAuthorizedKey).
     let params = terraformParametersFromClusterConfig cfg dbPassword sshAuthorizedKey sshPrivateKeyPEM in
     andThen (wrapped ''Unable to create terrafrom environment.'' (newTerraformEnvironment e (WorkingDirectory cfg) params)) (\<lambda>env.
     andThen (wrapped ''Unable to run apply for create cluster'' (apply_terraform e env)) (\<lambda>_.
     let cluster = \<lparr>Config = cfg\<lparr>Type := TERRAFORM_TYPE\<rparr>, SSHPrivateKeyPEM = sshPrivateKeyPEM, DBPassword = dbPassword, Env = env\<rparr> in
     andThen (terraform_saveCluster e cluster (env_WorkingDirectory env)) (\<lambda>_. ret cluster)))))"

definition terraform_Destroy :: "machine_env \<Rightarrow> terraform_cluster \<Rightarrow> (machine, unit) op" where
  "terraform_Destroy e c =
     andThen (wrapped ''Unable to destroy terraform cluster.'' (destroy_terraform e (Env c))) (\<lambda>_.
     remove_all e (env_WorkingDirectory (Env c)))"

section \<open>What a cluster answers\<close>

text \<open>\<open>params\<close> is the result of \<open>getOutputParams\<close>.\<close>

definition terraform_AppAddrs :: "string + terraformOutputParameters \<Rightarrow> string + string list" where
  "terraform_AppAddrs params = map_sum id InstanceIp params"

definition terraform_LoadtestAddrs :: "string + terraformOutputParameters \<Rightarrow> string + string list" where
  "terraform_LoadtestAddrs params = map_sum id LoadtestInstanceIp params"

definition terraform_ProxyAddrs :: "string + terraformOutputParameters \<Rightarrow> string + string list" where
  "terraform_ProxyAddrs params = map_sum id ProxyIp params"

definition terraform_MetricsAddr :: "string + terraformOutputParameters \<Rightarrow> string + string" where
  "terraform_MetricsAddr params = map_sum id MetricsIp params"

definition terraform_SiteURL :: "string + terraformOutputParameters \<Rightarrow> string" where
  "terraform_SiteURL params =
     (case terraform_ProxyAddrs params of
        Inl err \<Rightarrow> []
      | Inr addrs \<Rightarrow> if length addrs < 1 then [] else ''http://'' @ addrs ! 0)"

datatype db_engine = Postgres | MySQL

definition engine_of :: "string \<Rightarrow> db_engine option" where
  "engine_of name =
     (if name = ''aurora-postgresql'' then Some Postgres
      else if name = ''aurora'' \<or> name = ''aurora-mysql'' then Some MySQL
      else None)"

definition terraform_DBDriverName :: "terraform_cluster \<Rightarrow> string" where
  "terraform_DBDriverName c =
     (case engine_of (DBEngineType (Config c)) of Some Postgres \<Rightarrow> ''postgres'' | Some MySQL \<Rightarrow> ''mysql'' | None \<Rightarrow> [])"

definition connection_string :: "db_engine \<Rightarrow> string \<Rightarrow> string \<Rightarrow> string" where
  "connection_string engine password databaseEndpoint =
     (case engine of
        Postgres \<Rightarrow> ''postgres://mmuser:'' @ password @ ''@'' @ databaseEndpoint @ '':5432/mattermost?sslmode=disable&connect_timeout=30''
      | MySQL \<Rightarrow> ''mmuser:'' @ password @ ''@tcp('' @ databaseEndpoint @
          '':3306)/mattermost?charset=utf8mb4,utf8&readTimeout=20s&writeTimeout=20s&timeout=20s'')"

definition terraform_DBConnectionString :: "terraform_cluster \<Rightarrow> string + terraformOutputParameters \<Rightarrow> string" where
  "terraform_DBConnectionString c params =
     (case params of
        Inl err \<Rightarrow> []
      | Inr p \<Rightarrow>
          (case engine_of (DBEngineType (Config c)) of
             Some engine \<Rightarrow> connection_string engine (DBPassword c) (DBEndpoint p)
           | None \<Rightarrow> []))"

definition terraform_DBReaderConnectionStrings :: "terraform_cluster \<Rightarrow> string + terraformOutputParameters \<Rightarrow> string list" where
  "terraform_DBReaderConnectionStrings c params =
     (case params of
        Inl err \<Rightarrow> []
      | Inr p \<Rightarrow>
          (case engine_of (DBEngineType (Config c)) of
             Some engine \<Rightarrow> [connection_string engine (DBPassword c) (DBReaderEndpoint p)]
           | None \<Rightarrow> []))"

definition terraform_DBInstanceCount :: "terraform_cluster \<Rightarrow> int" where
  "terraform_DBInstanceCount c = DBInstanceCount (Config c)"

definition terraform_DBSettings :: "terraform_cluster \<Rightarrow> string + terraformOutputParameters \<Rightarrow> string + DBSettings" where
  "terraform_DBSettings c params =
     (case params of
        Inl err \<Rightarrow> Inl (''unable to get output parameters for DBConnectionString: '' @ err)
      | Inr p \<Rightarrow>
          Inr \<lparr>Username = ''mmuser'', Password = DBPassword c, Endpoint = DBEndpoint p,
               Port = (if DBEngineType (Config c) = ''aurora-postgresql'' then 5432 else 3306), Database = ''mattermost''\<rparr>)"

end
