(* ===== verification/Remote_Host.thy ===== *)
theory Remote_Host
  imports Terraform_Cluster
begin

text \<open>
  \<^verbatim>\<open>sshtools/sshtools.go\<close> without its interactive terminal (\<^verbatim>\<open>Interactive_Shell\<close>): connecting to an instance, running a command there, sending a file. The
  instances are seen through the log of what was done on them, on which their answers depend.
\<close>

section \<open>Instances\<close>

datatype ssh_event = Dialled (at_addr: string) | Ran (at_addr: string) (ran_cmd: string) (ran_stdin: string)

type_synonym ssh_log = "ssh_event list"

text \<open>\<open>parse_key\<close>: the error of parsing a private key; \<open>dial\<close>, \<open>session\<close>: the error of connecting to an address and of opening a session
  there; \<open>run_remote\<close>: the error and the output of the command that was logged last; \<open>remote_addr\<close>: the address of a connection.\<close>

record host_env =
  parse_key :: "string \<Rightarrow> string option"
  dial :: "ssh_log \<Rightarrow> string \<Rightarrow> string option"
  new_session :: "ssh_log \<Rightarrow> string \<Rightarrow> string option"
  run_remote :: "ssh_log \<Rightarrow> string option \<times> string"
  remote_addr :: "string \<Rightarrow> string"
  reconnect_attempts :: nat

type_synonym 'a remote_op = "(ssh_log \<times> machine, 'a) op"

text \<open>A client is the address it is connected to.\<close>

definition dial_addr :: "host_env \<Rightarrow> string \<Rightarrow> string remote_op" where
  "dial_addr r addr ls =
     (case ls of (l, m) \<Rightarrow> (case dial r l addr of Some err \<Rightarrow> (Inl err, (l @ [Dialled addr], m)) | None \<Rightarrow> (Inr addr, (l @ [Dialled addr], m))))"

definition SSHClient :: "host_env \<Rightarrow> string \<Rightarrow> string \<Rightarrow> string remote_op" where
  "SSHClient r sshKey addr =
     (case parse_key r sshKey of
        Some err \<Rightarrow> fail (''unable to parse ssh private key: '' @ err)
      | None \<Rightarrow> dial_addr r (addr @ '':22''))"

definition open_session :: "host_env \<Rightarrow> string \<Rightarrow> unit remote_op" where
  "open_session r client = wrapped ''unable to create ssh session'' (andThen (look_at (\<lambda>(l, m). new_session r l client)) (\<lambda>e. case e of Some err \<Rightarrow> fail err | None \<Rightarrow> ret ()))"

text \<open>Running a command with an input; its output comes with the error.\<close>

definition session_run :: "host_env \<Rightarrow> string \<Rightarrow> string \<Rightarrow> string \<Rightarrow> (string option \<times> string) remote_op" where
  "session_run r client cmd input ls =
     (case ls of (l, m) \<Rightarrow> let l = l @ [Ran client cmd input] in (Inr (run_remote r l), (l, m)))"

definition RemoteCommand :: "host_env \<Rightarrow> string \<Rightarrow> string \<Rightarrow> unit remote_op" where
  "RemoteCommand r client cmd =
     andThen (open_session r client) (\<lambda>_.
     andThen (session_run r client cmd []) (\<lambda>(err, out).
     case err of Some e \<Rightarrow> fail (out @ '': '' @ e) | None \<Rightarrow> ret ()))"

definition run_with_input :: "host_env \<Rightarrow> string \<Rightarrow> string \<Rightarrow> string \<Rightarrow> unit remote_op" where
  "run_with_input r client cmd input =
     andThen (open_session r client) (\<lambda>_.
     andThen (session_run r client cmd input) (\<lambda>(err, out).
     case err of Some e \<Rightarrow> fail e | None \<Rightarrow> ret ()))"

text \<open>\<open>None\<close> is the panic.\<close>

definition shellQuote :: "string \<Rightarrow> string option" where
  "shellQuote s = (if CHR 0x27 \<in> set s \<or> CHR 0x5C \<in> set s then None else Some ([CHR 0x27] @ s @ [CHR 0x27]))"

definition UploadReader :: "host_env \<Rightarrow> string \<Rightarrow> string \<Rightarrow> string \<Rightarrow> unit remote_op" where
  "UploadReader r client source destination =
     andThen (open_session r client) (\<lambda>_.
     case shellQuote destination of
       None \<Rightarrow> fail ''panic: shell quoting not actually implemented''
     | Some quoted \<Rightarrow>
         andThen (session_run r client (''cat > '' @ quoted) source) (\<lambda>(err, out).
         case err of Some e \<Rightarrow> fail e | None \<Rightarrow> ret ()))"

definition UploadBytes :: "host_env \<Rightarrow> string \<Rightarrow> string \<Rightarrow> string \<Rightarrow> unit remote_op" where
  "UploadBytes r client source destination = UploadReader r client source destination"

definition UploadFile :: "host_env \<Rightarrow> sources \<Rightarrow> string \<Rightarrow> string \<Rightarrow> string \<Rightarrow> unit remote_op" where
  "UploadFile r src client source destination =
     (case read_file src source of
        Inl err \<Rightarrow> fail (''unable to open source file: '' @ err)
      | Inr data \<Rightarrow> UploadReader r client data destination)"

section \<open>Scripts\<close>

text \<open>What an operation does on the instances: it appends events to the log, and when it succeeds exactly those of \<open>script\<close>.\<close>

definition leaves :: "'a remote_op \<Rightarrow> ('a \<Rightarrow> ssh_log \<Rightarrow> bool) \<Rightarrow> bool" where
  "leaves m script \<longleftrightarrow> (\<forall>s r s'. m s = (r, s') \<longrightarrow> (\<exists>evs. fst s' = fst s @ evs \<and> (\<forall>x. r = Inr x \<longrightarrow> script x evs)))"

named_theorems leaves_rule

lemma leavesE:
  assumes "leaves m script" "m s = (r, s')"
  obtains evs where "fst s' = fst s @ evs" "\<forall>x. r = Inr x \<longrightarrow> script x evs"
proof -
  from assms(1) have "m s = (r, s') \<longrightarrow> (\<exists>evs. fst s' = fst s @ evs \<and> (\<forall>x. r = Inr x \<longrightarrow> script x evs))"
    unfolding leaves_def by (elim allE)
  with assms(2) show ?thesis using that by auto
qed

lemma leaves_weaken: "leaves m P \<Longrightarrow> (\<And>x evs. P x evs \<Longrightarrow> Q x evs) \<Longrightarrow> leaves m Q"
  unfolding leaves_def by metis

lemma leaves_basic [leaves_rule]:
  "leaves (ret x) (\<lambda>y evs. y = x \<and> evs = [])" "leaves (fail e) (\<lambda>_ _. False)" "leaves (given v) (\<lambda>y evs. v = Inr y \<and> evs = [])"
  "leaves (look_at f) (\<lambda>_ evs. evs = [])"
  by (auto simp: leaves_def)

text \<open>The events of a sequence are those of its parts, one after the other.\<close>

lemma leaves_andThen [leaves_rule]:
  assumes "leaves m P" "\<And>x. leaves (k x) (Q x)"
  shows "leaves (andThen m k) (\<lambda>y evs. \<exists>x es fs. P x es \<and> Q x y fs \<and> evs = es @ fs)"
  unfolding leaves_def
proof (intro allI impI)
  fix s r s' assume run: "andThen m k s = (r, s')"
  obtain r1 s1 where m: "m s = (r1, s1)" by (cases "m s")
  obtain es where es: "fst s1 = fst s @ es" "\<forall>x. r1 = Inr x \<longrightarrow> P x es" by (rule leavesE [OF assms(1) m])
  show "\<exists>evs. fst s' = fst s @ evs \<and> (\<forall>y. r = Inr y \<longrightarrow> (\<exists>x es fs. P x es \<and> Q x y fs \<and> evs = es @ fs))"
  proof (cases r1)
    case (Inl e)
    then have "r = Inl e" "s' = s1" using run m by (auto simp: andThen_def)
    then show ?thesis using es(1) by auto
  next
    case (Inr x)
    then have "k x s1 = (r, s')" using run m by (auto simp: andThen_def)
    then obtain fs where "fst s' = fst s1 @ fs" "\<forall>y. r = Inr y \<longrightarrow> Q x y fs" by (rule leavesE [OF assms(2)])
    then show ?thesis using es Inr by (intro exI [of _ "es @ fs"]) auto
  qed
qed

lemma leaves_wrapped [leaves_rule]: "leaves m P \<Longrightarrow> leaves (wrapped msg m) P"
  unfolding leaves_def wrapped_def by (fastforce split: sum.splits prod.splits)

text \<open>What runs on the local machine leaves no events.\<close>

lemma leaves_onHost [leaves_rule]: "leaves (onHost m) (\<lambda>_ evs. evs = [])"
  by (auto simp: leaves_def onHost_def split: prod.splits)

lemma leaves_session [leaves_rule]: "leaves (open_session r client) (\<lambda>_ evs. evs = [])"
  by (auto simp: leaves_def open_session_def wrapped_def andThen_def look_at_def fail_def ret_def split: option.splits prod.splits)

lemma leaves_run [leaves_rule]: "leaves (session_run r client cmd input) (\<lambda>_ evs. evs = [Ran client cmd input])"
  by (auto simp: leaves_def session_run_def Let_def split: prod.splits)

lemma leaves_error: "leaves m P \<Longrightarrow> leaves (andThen m (\<lambda>(err, out). case err of Some e \<Rightarrow> fail (f out e) | None \<Rightarrow> ret ())) (\<lambda>_ evs. \<exists>x. P x evs)"
  by (rule leaves_weaken, erule leaves_andThen [where Q = "\<lambda>_ _ evs. evs = []"])
    (auto simp: leaves_def split: option.splits)

lemma leaves_RemoteCommand [leaves_rule]: "leaves (RemoteCommand r client cmd) (\<lambda>_ evs. evs = [Ran client cmd []])"
  unfolding RemoteCommand_def by (rule leaves_weaken, rule leaves_andThen [OF leaves_session leaves_error [OF leaves_run]]) auto

lemma leaves_run_with_input [leaves_rule]: "leaves (run_with_input r client cmd input) (\<lambda>_ evs. evs = [Ran client cmd input])"
  unfolding run_with_input_def by (rule leaves_weaken, rule leaves_andThen [OF leaves_session leaves_error [OF leaves_run]]) auto

lemma leaves_UploadReader [leaves_rule]:
  "leaves (UploadReader r client source destination) (\<lambda>_ evs. \<exists>q. shellQuote destination = Some q \<and> evs = [Ran client (''cat > '' @ q) source])"
proof (cases "shellQuote destination")
  case None
  then show ?thesis unfolding UploadReader_def by (auto intro: leaves_weaken [OF leaves_andThen [OF leaves_session leaves_basic(2)]])
next
  case (Some q)
  then show ?thesis unfolding UploadReader_def
    by simp (rule leaves_weaken, rule leaves_andThen [OF leaves_session leaves_error [OF leaves_run]], auto)
qed

lemma leaves_forEach [leaves_rule]:
  assumes "\<And>x. leaves (f x) (\<lambda>_ evs. evs = script x)"
  shows "leaves (forEach f xs) (\<lambda>_ evs. evs = concat (map script xs))"
proof (induction xs)
  case Nil
  show ?case by (simp add: leaves_def)
next
  case (Cons x xs)
  then show ?case by (auto intro: leaves_weaken [OF leaves_andThen [OF assms Cons.IH]])
qed

end
