(* ===== verification/Terraform_Deploy.thy ===== *)
theory Terraform_Deploy
  imports Remote_Host
begin

text \<open>
  \<^verbatim>\<open>terraform/cluster_deploy.go\<close> and \<^verbatim>\<open>terraform/cluster_loadtest.go\<close>: what deployment does on the instances of a cluster, and the test
  on its load test instances. The goroutines of a deployment work on an instance each; here one follows the other in the order in
  which they are started.
\<close>

section \<open>Settings\<close>

text \<open>A value of a configuration; a nil slice of texts is \<open>Texts []\<close>.\<close>

datatype config_value = Text string | Number int | Flag bool | Texts "string list"

text \<open>\<^verbatim>\<open>json.Marshal\<close> of ASCII text.\<close>

definition hex_digit :: "nat \<Rightarrow> char" where
  "hex_digit n = ''0123456789abcdef'' ! n"

definition json_char :: "char \<Rightarrow> string" where
  "json_char c =
     (if c = CHR 0x22 \<or> c = CHR 0x5C then [CHR 0x5C, c]
      else if c = CHR 0x0A then [CHR 0x5C, CHR ''n'']
      else if c = CHR 0x0D then [CHR 0x5C, CHR ''r'']
      else if c = CHR 0x09 then [CHR 0x5C, CHR ''t'']
      else if (of_char c :: nat) < 32 \<or> c \<in> {CHR ''<'', CHR ''>'', CHR ''&''}
        then [CHR 0x5C, CHR ''u'', CHR ''0'', CHR ''0'', hex_digit (of_char c div 16), hex_digit (of_char c mod 16)]
      else [c])"

definition json_string :: "string \<Rightarrow> string" where
  "json_string s = [CHR 0x22] @ concat (map json_char s) @ [CHR 0x22]"

fun setting_text :: "config_value \<Rightarrow> string" where
  "setting_text (Text s) = json_string s"
| "setting_text (Number i) = itoa i"
| "setting_text (Flag b) = (if b then ''true'' else ''false'')"
| "setting_text (Texts ts) = (if ts = [] then ''null'' else ''['' @ join (map json_string ts) '','' @ '']'')"

definition jq_command :: "string \<Rightarrow> string \<Rightarrow> string \<times> config_value \<Rightarrow> string" where
  "jq_command file tmp kv =
     (case kv of (k, v) \<Rightarrow> ''jq '' @ [CHR 0x27] @ k @ '' = '' @ setting_text v @ [CHR 0x27] @ '' '' @ file @ '' > '' @ tmp @ '' && mv '' @ tmp @ '' '' @ file)"

section \<open>Files for the instances\<close>

definition lines_text :: "string list \<Rightarrow> string" where
  "lines_text ls = join ls [CHR 0x0A]"

definition service_lines :: "string list" where
  "service_lines =
    [''[Unit]'', ''Description=Mattermost'', ''After=network.target'', [], ''[Service]'', ''Type=simple'',
     ''ExecStart=/opt/mattermost/bin/mattermost'', ''Restart=always'', ''RestartSec=10'', ''WorkingDirectory=/opt/mattermost'', ''User=ubuntu'',
     ''Group=ubuntu'', ''LimitNOFILE=49152'', [], ''[Install]'', ''WantedBy=multi-user.target'']"

definition nginx_server_lines :: "string list" where
  "nginx_server_lines =
    [''        keepalive 32;'', ''}'', [],
     ''proxy_cache_path /var/cache/nginx levels=1:2 keys_zone=mattermost_cache:10m max_size=3g inactive=120m use_temp_path=off;'', [], ''server {'',
     ''    listen 80;'', ''    server_name _;'', [], ''   location ~ /api/v[0-9]+/(users/)?websocket$ {'',
     ''           proxy_set_header Upgrade $http_upgrade;'',
     ''           proxy_set_header Connection '' @ [CHR 0x22] @ ''upgrade'' @ [CHR 0x22] @ '';'', ''           client_max_body_size 50M;'',
     ''           proxy_set_header Host $http_host;'', ''           proxy_set_header X-Real-IP $remote_addr;'',
     ''           proxy_set_header X-Forwarded-For $proxy_add_x_forwarded_for;'', ''           proxy_set_header X-Forwarded-Proto $scheme;'',
     ''           proxy_set_header X-Frame-Options SAMEORIGIN;'', ''           proxy_buffers 256 16k;'', ''           proxy_buffer_size 16k;'',
     ''           client_body_timeout 60;'', ''           send_timeout        300;'', ''           lingering_timeout   5;'',
     ''           proxy_connect_timeout   90;'', ''           proxy_send_timeout      300;'', ''           proxy_read_timeout      90s;'',
     ''           proxy_pass http://backend;'', ''   }'', [], ''   location / {'', ''           client_max_body_size 50M;'',
     ''           proxy_set_header Connection '' @ [CHR 0x22] @ [CHR 0x22] @ '';'', ''           proxy_set_header Host $http_host;'',
     ''           proxy_set_header X-Real-IP $remote_addr;'', ''           proxy_set_header X-Forwarded-For $proxy_add_x_forwarded_for;'',
     ''           proxy_set_header X-Forwarded-Proto $scheme;'', ''           proxy_set_header X-Frame-Options SAMEORIGIN;'',
     ''           proxy_buffers 256 16k;'', ''           proxy_buffer_size 16k;'', ''           proxy_read_timeout 600s;'',
     ''           proxy_cache mattermost_cache;'', ''           proxy_cache_revalidate on;'', ''           proxy_cache_min_uses 2;'',
     ''           proxy_cache_use_stale timeout;'', ''           proxy_cache_lock on;'', ''           proxy_http_version 1.1;'',
     ''           proxy_pass http://backend;'', ''   }'', ''}'']"

definition limits_lines :: "string list" where
  "limits_lines =
    [''* soft nofile 65536'', ''* hard nofile 65536'', ''* soft nproc 8192'', ''* hard nproc 8192'']"

definition sysctl_lines :: "string list" where
  "sysctl_lines =
    [''net.ipv4.ip_local_port_range='' @ [CHR 0x22] @ ''1024 65000'' @ [CHR 0x22], ''net.ipv4.tcp_fin_timeout=30'']"

definition nginx_config :: "string list \<Rightarrow> string" where
  "nginx_config appInstanceAddrs =
     lines_text ([''upstream backend {'', concat (map (\<lambda>addr. ''server '' @ addr @ '';'' @ [CHR 0x0A]) appInstanceAddrs)] @ nginx_server_lines)"

definition uploadSystemdFile :: "host_env \<Rightarrow> string \<Rightarrow> unit remote_op" where
  "uploadSystemdFile r client = run_with_input r client ''cat | sudo tee /lib/systemd/system/mattermost.service'' (lines_text service_lines)"

definition uploadNginxConfig :: "host_env \<Rightarrow> string \<Rightarrow> string list \<Rightarrow> unit remote_op" where
  "uploadNginxConfig r client appInstanceAddrs =
     run_with_input r client ''cat | sudo tee /etc/nginx/sites-available/mattermost'' (nginx_config appInstanceAddrs)"

definition uploadLimitsConfig :: "host_env \<Rightarrow> string \<Rightarrow> unit remote_op" where
  "uploadLimitsConfig r client =
     andThen (run_with_input r client ''cat | sudo tee /etc/security/limits.conf'' (lines_text limits_lines)) (\<lambda>_.
     run_with_input r client ''cat | sudo tee /etc/sysctl.conf'' (lines_text sysctl_lines))"

section \<open>Steps on an instance\<close>

definition run_commands :: "host_env \<Rightarrow> string \<Rightarrow> string list \<Rightarrow> unit remote_op" where
  "run_commands r client = forEach (\<lambda>cmd. wrapped (''error running command: '' @ cmd) (RemoteCommand r client cmd))"

definition apply_settings :: "host_env \<Rightarrow> string \<Rightarrow> string \<Rightarrow> string \<Rightarrow> (string \<times> config_value) list \<Rightarrow> unit remote_op" where
  "apply_settings r client file tmp =
     forEach (\<lambda>kv. wrapped (''error updating config: '' @ fst kv) (RemoteCommand r client (jq_command file tmp kv)))"

text \<open>One attempt to connect every five seconds, as many as fit into the sixty seconds.\<close>

fun reconnect_ssh :: "host_env \<Rightarrow> string \<Rightarrow> string \<Rightarrow> nat \<Rightarrow> unit remote_op" where
  "reconnect_ssh r sshKey addr 0 = fail ''failed to reestablish ssh session after 60 seconds''"
| "reconnect_ssh r sshKey addr (Suc n) =
     andThen (tried (SSHClient r sshKey addr)) (\<lambda>attempt. case attempt of Inl _ \<Rightarrow> reconnect_ssh r sshKey addr n | Inr _ \<Rightarrow> ret ())"

definition reboot_command :: string where "reboot_command = ''sudo shutdown -r now &''"

definition reboot :: "host_env \<Rightarrow> string \<Rightarrow> string \<Rightarrow> unit remote_op" where
  "reboot r sshKey client =
     andThen (run_commands r client [reboot_command]) (\<lambda>_.
     reconnect_ssh r sshKey (takeWhile (\<lambda>c. c \<noteq> CHR '':'') (remote_addr r client)) (reconnect_attempts r))"

section \<open>Questions to the cluster\<close>

text \<open>Every question runs \<^verbatim>\<open>terraform output\<close>. What is fixed during a run of the program: the local machine, the instances, the JSON
  value in what \<^verbatim>\<open>terraform\<close> prints, the files and URLs, the order in which Go ranges over a map of settings, and \<open>number_read\<close>: what the goroutine
  of the k-th load test instance reads from the loop variable \<open>instanceNum\<close>, which the loop may have changed by then.\<close>

record deploy_env =
  on_machine :: machine_env
  on_ssh :: host_env
  on_sources :: sources
  decode_outputs :: "string \<Rightarrow> string + json"
  range_order :: "(string \<times> config_value) list \<Rightarrow> (string \<times> config_value) list"
  number_read :: "nat \<Rightarrow> nat"

definition output_params :: "deploy_env \<Rightarrow> terraform_cluster \<Rightarrow> (string + terraformOutputParameters) remote_op" where
  "output_params d c = tried (onHost (getOutputParams (on_machine d) (decode_outputs d) (Env c)))"

definition asked :: "deploy_env \<Rightarrow> terraform_cluster \<Rightarrow> (string + terraformOutputParameters \<Rightarrow> 'a) \<Rightarrow> 'a remote_op" where
  "asked d c f = andThen (output_params d c) (\<lambda>params. ret (f params))"

section \<open>The load test instances\<close>

definition remoteSSHKeyPath :: string where "remoteSSHKeyPath = ''/home/ubuntu/key.pem''"

text \<open>\<^verbatim>\<open>url.Parse\<close> of an address and its text with a scheme, for addresses of letters, digits, dots, hyphens and colons.\<close>

definition addr_url :: "string \<Rightarrow> string \<Rightarrow> string + string" where
  "addr_url scheme addr =
     (if CHR '':'' \<in> set addr then Inl (''parse '' @ addr @ '': first path segment in URL cannot contain colon'')
      else Inr (if addr = [] then scheme @ '':'' else scheme @ ''://'' @ addr))"

definition loadtest_settings :: "string \<Rightarrow> string \<Rightarrow> string \<Rightarrow> string \<Rightarrow> string \<Rightarrow> (string \<times> config_value) list" where
  "loadtest_settings serverURL websocketURL appURL dataSource driverName =
     [(''.ConnectionConfiguration.ServerURL'', Text serverURL),
      (''.ConnectionConfiguration.WebsocketURL'', Text websocketURL),
      (''.ConnectionConfiguration.PProfURL'', Text (''http://'' @ appURL @ '':8067/debug/pprof'')),
      (''.ConnectionConfiguration.DataSource'', Text dataSource),
      (''.ConnectionConfiguration.DriverName'', Text driverName),
      (''.ConnectionConfiguration.LocalCommands'', Flag False),
      (''.ConnectionConfiguration.SSHHostnamePort'', Text (appURL @ '':22'')),
      (''.ConnectionConfiguration.SSHUsername'', Text ''ubuntu''),
      (''.ConnectionConfiguration.SSHKey'', Text remoteSSHKeyPath),
      (''.ConnectionConfiguration.MattermostInstallDir'', Text ''/opt/mattermost''),
      (''.LoadtestEnviromentConfig.NumEmoji'', Number 0),
      (''.LoadtestEnviromentConfig.NumPlugins'', Number 0)]"

definition loadtest_config_file :: string where
  "loadtest_config_file = ''/home/ubuntu/mattermost-load-test/loadtestconfig.json''"

text \<open>\<open>errors.Wrap\<close> of a nil error is nil: without addresses, but without an error either, nothing is configured and the function
  succeeds.\<close>

definition configureLoadtestInstance :: "deploy_env \<Rightarrow> nat \<Rightarrow> string \<Rightarrow> terraform_cluster \<Rightarrow> unit remote_op" where
  "configureLoadtestInstance d instanceNum client c =
     andThen (asked d c terraform_ProxyAddrs) (\<lambda>proxyURLs.
     case proxyURLs of
       Inl err \<Rightarrow> fail (''Couldn't get app instance addresses.: '' @ err)
     | Inr [] \<Rightarrow> ret ()
     | Inr (proxy # proxies) \<Rightarrow>
     andThen (asked d c terraform_AppAddrs) (\<lambda>appURLs.
     case appURLs of
       Inl err \<Rightarrow> fail (''Couldn't get app instance addresses.: '' @ err)
     | Inr [] \<Rightarrow> ret ()
     | Inr (appURL # _) \<Rightarrow>
     let addr = (proxy # proxies) ! (instanceNum mod length (proxy # proxies)) in
     andThen (wrapped ''Can't parse site URL'' (given (addr_url ''http'' addr))) (\<lambda>serverURL.
     andThen (wrapped ''Can't parse site URL'' (given (addr_url ''ws'' addr))) (\<lambda>websocketURL.
     andThen (asked d c (terraform_DBConnectionString c)) (\<lambda>dataSource.
     apply_settings (on_ssh d) client loadtest_config_file ''/tmp/ltconfig.json''
       (range_order d (loadtest_settings serverURL websocketURL appURL dataSource (terraform_DBDriverName c))))))))"

definition loadtest_commands :: "string list" where
  "loadtest_commands =
    [''sudo apt-get update'', ''sudo apt-get install -y jq'',
     ''curl -C - https://dl.google.com/go/go1.11.2.linux-amd64.tar.gz -o go1.11.2.linux-amd64.tar.gz'',
     ''sudo tar -C /usr/local -xzf go1.11.2.linux-amd64.tar.gz'', ''sudo ln -sf /usr/local/go/bin/go /usr/bin/go'',
     ''sudo apt-get install -y python-pydot python-pydot-ng graphviz'', ''sudo rm -rf /home/ubuntu/mattermost-load-test'',
     ''tar -xvzf /home/ubuntu/mattermost-load-test.tar.gz'', ''sudo chmod 600 /home/ubuntu/key.pem'']"

definition deployToLoadtestInstance :: "deploy_env \<Rightarrow> nat \<Rightarrow> string \<Rightarrow> string \<Rightarrow> terraform_cluster \<Rightarrow> unit remote_op" where
  "deployToLoadtestInstance d instanceNum instanceAddr loadtestDistribution c =
     (let r = on_ssh d; key = SSHPrivateKeyPEM c in
      andThen (wrapped ''unable to connect to server via ssh'' (SSHClient r key instanceAddr)) (\<lambda>client.
      andThen (wrapped ''unable to upload loadtest distribution.''
        (UploadReader r client loadtestDistribution ''/home/ubuntu/mattermost-load-test.tar.gz'')) (\<lambda>_.
      andThen (wrapped ''unable to upload ssh key'' (UploadBytes r client key remoteSSHKeyPath)) (\<lambda>_.
      andThen (run_commands r client loadtest_commands) (\<lambda>_.
      andThen (wrapped ''Unable to upload limits config'' (uploadLimitsConfig r client)) (\<lambda>_.
      andThen (wrapped ''failed to configure loadtest instance'' (configureLoadtestInstance d instanceNum client c)) (\<lambda>_.
      wrapped ''failed to reboot loadtest instance'' (reboot r key client))))))))"

section \<open>The proxies\<close>

definition proxy_install_commands :: "string list" where
  "proxy_install_commands =
    [''sudo apt-get update'', ''sudo apt-get install -y nginx'']"

definition proxy_commands :: "string list" where
  "proxy_commands =
    [''sudo ln -fs /etc/nginx/sites-available/mattermost /etc/nginx/sites-enabled/mattermost'', ''sudo rm -f /etc/nginx/sites-enabled/default'',
     ''sudo grep -q -F '' @ [CHR 0x27] @ ''worker_rlimit_nofile'' @ [CHR 0x27] @ '' /etc/nginx/nginx.conf || echo '' @ [CHR 0x27] @ ''worker_rlimit_nofile 65536;'' @ [CHR 0x27] @ '' | sudo tee -a /etc/nginx/nginx.conf'',
     ''sudo sed -i '' @ [CHR 0x27] @ ''s/worker_connections.*/worker_connections 200000;/g'' @ [CHR 0x27] @ '' /etc/nginx/nginx.conf'',
     ''sudo systemctl daemon-reload'', ''sudo systemctl restart nginx'', ''sudo systemctl enable nginx'']"

definition deployToProxyInstance :: "deploy_env \<Rightarrow> string \<Rightarrow> terraform_cluster \<Rightarrow> unit remote_op" where
  "deployToProxyInstance d instanceAddr c =
     (let r = on_ssh d; key = SSHPrivateKeyPEM c in
      andThen (wrapped ''unable to connect to server via ssh'' (SSHClient r key instanceAddr)) (\<lambda>client.
      andThen (asked d c terraform_AppAddrs) (\<lambda>answer.
      andThen (wrapped ''Unable to get app instance addresses.'' (given answer)) (\<lambda>appInstances.
      andThen (run_commands r client proxy_install_commands) (\<lambda>_.
      andThen (wrapped ''Unable to upload nginx config'' (uploadNginxConfig r client appInstances)) (\<lambda>_.
      andThen (wrapped ''Unable to upload limits config'' (uploadLimitsConfig r client)) (\<lambda>_.
      andThen (run_commands r client proxy_commands) (\<lambda>_.
      wrapped ''failed to reboot proxy instance'' (reboot r key client)))))))))"

section \<open>The app servers\<close>

definition app_install_commands :: "string list" where
  "app_install_commands =
    [''sudo rm -rf mattermost /opt/mattermost'', ''tar -xvzf /tmp/mattermost.tar.gz'', ''sudo mv mattermost /opt'',
     ''mkdir -p /opt/mattermost/data'', ''sudo apt-get update'', ''sudo apt-get install -y jq'']"

definition app_commands :: "string list" where
  "app_commands =
    [''sudo setcap cap_net_bind_service=+ep /opt/mattermost/bin/mattermost'',
     ''[[ -f /opt/mattermost/bin/mattermost ]] && sudo setcap cap_net_bind_service=+ep /opt/mattermost/bin/mattermost'',
     ''sudo systemctl daemon-reload'', ''sudo systemctl restart mattermost.service'', ''sudo systemctl enable mattermost.service'']"

definition remoteLicenseFilePath :: string where "remoteLicenseFilePath = ''/opt/mattermost/config/mattermost.mattermost-license''"

definition app_settings :: "terraformOutputParameters \<Rightarrow> string \<Rightarrow> string \<Rightarrow> string \<Rightarrow> string list \<Rightarrow> (string \<times> config_value) list" where
  "app_settings p siteURL driverName dataSource replicas =
     [(''.ServiceSettings.ListenAddress'', Text '':80''),
      (''.ServiceSettings.LicenseFileLocation'', Text remoteLicenseFilePath),
      (''.ServiceSettings.SiteURL'', Text siteURL),
      (''.ServiceSettings.EnableAPIv3'', Flag True),
      (''.ServiceSettings.EnableLinkPreviews'', Flag True),
      (''.ServiceSettings.EnableSecurityFixAlert'', Flag False),
      (''.SqlSettings.DriverName'', Text driverName),
      (''.SqlSettings.DataSource'', Text dataSource),
      (''.SqlSettings.DataSourceReplicas'', Texts replicas),
      (''.SqlSettings.MaxOpenConns'', Number 3000),
      (''.SqlSettings.MaxIdleConns'', Number 200),
      (''.ClusterSettings.Enable'', Flag True),
      (''.ClusterSettings.ClusterName'', Text ''load-test''),
      (''.ClusterSettings.ReadOnlyConfig'', Flag False),
      (''.MetricsSettings.Enable'', Flag True),
      (''.MetricsSettings.BlockProfileRate'', Number 1),
      (''.FileSettings.DriverName'', Text ''amazons3''),
      (''.FileSettings.AmazonS3AccessKeyId'', Text (S3AccessKeyId p)),
      (''.FileSettings.AmazonS3SecretAccessKey'', Text (S3AccessKeySecret p)),
      (''.FileSettings.AmazonS3Bucket'', Text (S3bucket p)),
      (''.FileSettings.AmazonS3Region'', Text (S3bucketRegion p)),
      (''.TeamSettings.MaxUsersPerTeam'', Number 10000000),
      (''.TeamSettings.EnableOpenServer'', Flag True),
      (''.TeamSettings.MaxChannelsPerTeam'', Number 10000000),
      (''.ServiceSettings.EnableIncomingWehbooks'', Flag True),
      (''.ServiceSettings.EnableOnlyAdminIntegrations'', Flag False),
      (''.PluginSettings.Enable'', Flag True),
      (''.PluginSettings.EnableUploads'', Flag True),
      (''.LogSettings.EnableDiagnostics'', Flag False)]"

definition app_config_file :: string where "app_config_file = ''/opt/mattermost/config/config.json''"

definition configure_app :: "deploy_env \<Rightarrow> string \<Rightarrow> terraform_cluster \<Rightarrow> unit remote_op" where
  "configure_app d client c =
     andThen (output_params d c) (\<lambda>answer.
     andThen (wrapped ''failed to get output parameters'' (given answer)) (\<lambda>p.
     andThen (asked d c terraform_SiteURL) (\<lambda>siteURL.
     andThen (asked d c (terraform_DBConnectionString c)) (\<lambda>dataSource.
     andThen (asked d c (terraform_DBReaderConnectionStrings c)) (\<lambda>replicas.
     apply_settings (on_ssh d) client app_config_file ''/tmp/mmcfg.json''
       (range_order d (app_settings p siteURL (terraform_DBDriverName c) dataSource replicas)))))))"

definition deployToAppInstance :: "deploy_env \<Rightarrow> string \<Rightarrow> string \<Rightarrow> string \<Rightarrow> terraform_cluster \<Rightarrow> unit remote_op" where
  "deployToAppInstance d mattermostDistribution license instanceAddr c =
     (let r = on_ssh d; key = SSHPrivateKeyPEM c in
      andThen (wrapped ''unable to connect to server via ssh'' (SSHClient r key instanceAddr)) (\<lambda>client.
      andThen (wrapped ''unable to upload distribution'' (UploadReader r client mattermostDistribution ''/tmp/mattermost.tar.gz'')) (\<lambda>_.
      andThen (wrapped ''unable to upload systemd file'' (uploadSystemdFile r client)) (\<lambda>_.
      andThen (run_commands r client app_install_commands) (\<lambda>_.
      andThen (wrapped ''unable to upload license file'' (UploadReader r client license remoteLicenseFilePath)) (\<lambda>_.
      andThen (wrapped ''unable to upload limits config'' (uploadLimitsConfig r client)) (\<lambda>_.
      andThen (configure_app d client c) (\<lambda>_.
      andThen (run_commands r client app_commands) (\<lambda>_.
      wrapped ''failed to reboot app instance'' (reboot r key client))))))))))"

section \<open>Deployment\<close>

text \<open>An action whose failure is logged and counted.\<close>

definition do_action :: "unit remote_op \<Rightarrow> nat remote_op" where
  "do_action action = andThen (tried action) (\<lambda>r. ret (case r of Inl _ \<Rightarrow> 1 | Inr _ \<Rightarrow> 0))"

fun doDeploy :: "string \<Rightarrow> (nat \<Rightarrow> string \<Rightarrow> unit remote_op) \<Rightarrow> nat \<Rightarrow> string list \<Rightarrow> nat remote_op" where
  "doDeploy name deployFunc instanceNum [] = ret 0"
| "doDeploy name deployFunc instanceNum (addr # addrs) =
     andThen (do_action (wrapped (''unable to deploy to '' @ name @ itoa (int instanceNum)) (deployFunc instanceNum addr))) (\<lambda>n.
     andThen (doDeploy name deployFunc (Suc instanceNum) addrs) (\<lambda>ns. ret (n + ns)))"

text \<open>The instances of a kind: no addresses without an error is a success.\<close>

definition deploy_kind :: "(string + string list) remote_op \<Rightarrow> string + 'a \<Rightarrow> string \<Rightarrow> ('a \<Rightarrow> nat \<Rightarrow> string \<Rightarrow> unit remote_op) \<Rightarrow> nat remote_op" where
  "deploy_kind get_addrs package name deployFunc =
     andThen get_addrs (\<lambda>answer.
     case answer of
       Inl err \<Rightarrow> ret 1
     | Inr addrs \<Rightarrow>
         if length addrs \<le> 0 then ret 0
         else (case package of Inl err \<Rightarrow> ret 1 | Inr d \<Rightarrow> doDeploy name (deployFunc d) 0 addrs))"

definition DeployMattermost :: "deploy_env \<Rightarrow> string \<Rightarrow> string \<Rightarrow> terraform_cluster \<Rightarrow> nat remote_op" where
  "DeployMattermost d mattermostDistLocation licenceFileLocation c =
     andThen (deploy_kind (asked d c terraform_AppAddrs)
       (bind_sum (GetMattermostFileOrURL (on_sources d) mattermostDistLocation) (\<lambda>package.
        bind_sum (GetFileOrURL (on_sources d) licenceFileLocation) (\<lambda>license. Inr (package, license))))
       ''app'' (\<lambda>(package, license) instanceNum addr. deployToAppInstance d package license addr c)) (\<lambda>apps.
     andThen (deploy_kind (asked d c terraform_ProxyAddrs) (Inr ()) ''proxy'' (\<lambda>_ instanceNum addr. deployToProxyInstance d addr c)) (\<lambda>proxies.
     ret (apps + proxies)))"

definition DeployLoadtests :: "deploy_env \<Rightarrow> string \<Rightarrow> terraform_cluster \<Rightarrow> nat remote_op" where
  "DeployLoadtests d loadtestsDistLocation c =
     deploy_kind (asked d c terraform_LoadtestAddrs) (GetLoadtestFileOrURL (on_sources d) loadtestsDistLocation) ''loadtest''
       (\<lambda>package instanceNum addr. deployToLoadtestInstance d instanceNum addr package c)"

definition terraform_Deploy :: "deploy_env \<Rightarrow> DeployOptions \<Rightarrow> terraform_cluster \<Rightarrow> unit remote_op" where
  "terraform_Deploy d options c =
     andThen (if 0 < length (MattermostBinaryFile options)
       then DeployMattermost d (MattermostBinaryFile options) (LicenseFile options) c else ret 0) (\<lambda>mattermost.
     andThen (if 0 < length (LoadTestBinaryFile options) then DeployLoadtests d (LoadTestBinaryFile options) c else ret 0) (\<lambda>loadtests.
     let failedCount = mattermost + loadtests in
     if 0 < failedCount then fail (''failed to deploy '' @ itoa (int failedCount) @ '' resources'') else ret ()))"

section \<open>The test\<close>

definition loadtest_command :: string where "loadtest_command = ''cd mattermost-load-test && ./bin/loadtest all''"

definition loadtestInstance :: "deploy_env \<Rightarrow> terraform_cluster \<Rightarrow> string \<Rightarrow> nat \<Rightarrow> string \<Rightarrow> unit remote_op" where
  "loadtestInstance d c addr instanceNum configFile =
     (let r = on_ssh d; e = on_machine d in
      andThen (wrapped ''unable to connect to loadtest instance via ssh'' (SSHClient r (SSHPrivateKeyPEM c) addr)) (\<lambda>client.
      andThen (open_session r client) (\<lambda>_.
      andThen (if 0 < length configFile
        then wrapped ''failed to upload config file'' (UploadBytes r client configFile ''mattermost-load-test/loadtestconfig.json'') else ret ()) (\<lambda>_.
      andThen (wrapped ''failed to configure loadtest instance'' (configureLoadtestInstance d instanceNum client c)) (\<lambda>_.
      let results = filepath_join (env_WorkingDirectory (Env c)) ''results'';
          commandOutputFile = filepath_join results (''loadtest-out-'' @ addr @ ''.txt'')
      in andThen (wrapped ''Unable to create results directory.'' (onHost (make_dir e results))) (\<lambda>_.
         andThen (wrapped ''Unable to create loadtest results file.'' (onHost (write_file e commandOutputFile (Raw [])))) (\<lambda>_.
         andThen (session_run r client loadtest_command []) (\<lambda>(err, out).
         andThen (onHost (ignored (write_file e commandOutputFile (Raw out)))) (\<lambda>_.
         case err of Some e \<Rightarrow> fail e | None \<Rightarrow> ret ())))))))))"

fun start_instances :: "(string \<Rightarrow> nat \<Rightarrow> unit remote_op) \<Rightarrow> nat \<Rightarrow> string list \<Rightarrow> unit remote_op" where
  "start_instances f instanceNum [] = ret ()"
| "start_instances f instanceNum (addr # addrs) = andThen (ignored (f addr instanceNum)) (\<lambda>_. start_instances f (Suc instanceNum) addrs)"

definition terraform_Loadtest :: "deploy_env \<Rightarrow> LoadTestOptions \<Rightarrow> terraform_cluster \<Rightarrow> unit remote_op" where
  "terraform_Loadtest d options c =
     andThen (asked d c terraform_LoadtestAddrs) (\<lambda>answer.
     case answer of
       Inl err \<Rightarrow> fail (''Unable to get loadtest instance addresses: '' @ err)
     | Inr addrs \<Rightarrow>
         if length addrs \<le> 0 then ret ()
         else
           andThen (if 0 < length (ConfigFile options)
             then wrapped ''failed to load config file'' (given (GetFileOrURL (on_sources d) (ConfigFile options))) else ret []) (\<lambda>configFile.
           start_instances (\<lambda>addr k. loadtestInstance d c addr (number_read d k) configFile) 0 addrs))"

end
