(* ===== verification/Deploy_Effects.thy ===== *)
theory Deploy_Effects
  imports Terraform_Deploy "HOL-Library.Sublist"
begin

text \<open>
  What a successful deployment has done on every instance: the plan of each kind of instance, and a calculus of the steps that an
  operation makes at an address.
\<close>

section \<open>Steps at an address\<close>

text \<open>The commands that were run at an address, with their inputs.\<close>

definition steps_at :: "string \<Rightarrow> ssh_log \<Rightarrow> (string \<times> string) list" where
  "steps_at a evs = concat (map (\<lambda>e. case e of Dialled _ \<Rightarrow> [] | Ran b cmd input \<Rightarrow> if b = a then [(cmd, input)] else []) evs)"

lemma steps_at_simps [simp]:
  "steps_at a [] = []" "steps_at a (es @ fs) = steps_at a es @ steps_at a fs" "steps_at a [Dialled b] = []"
  "steps_at a [Ran a cmd input] = [(cmd, input)]"
  by (simp_all add: steps_at_def)

definition emits :: "string \<Rightarrow> (string \<times> string) list \<Rightarrow> 'a remote_op \<Rightarrow> bool" where
  "emits a xs m \<longleftrightarrow> leaves m (\<lambda>_ evs. steps_at a evs = xs)"

named_theorems emits_rule

lemma emits_basic [emits_rule]: "emits a [] (ret x)" "emits a [] (fail e)" "emits a [] (onHost h)" "emits a [] (open_session r client)"
  "emits a [(cmd, input)] (session_run r a cmd input)"
  unfolding emits_def
  by (rule leaves_weaken [OF leaves_basic(1)], simp, rule leaves_weaken [OF leaves_basic(2)], simp, rule leaves_weaken [OF leaves_onHost], simp,
      rule leaves_weaken [OF leaves_session], simp, rule leaves_weaken [OF leaves_run], simp)

lemma emits_andThen [emits_rule]: "emits a xs m \<Longrightarrow> (\<And>x. emits a ys (k x)) \<Longrightarrow> emits a (xs @ ys) (andThen m k)"
  unfolding emits_def by (rule leaves_weaken, erule leaves_andThen, assumption) auto

lemma emits_wrapped [emits_rule]: "emits a xs m \<Longrightarrow> emits a xs (wrapped msg m)"
  unfolding emits_def by (rule leaves_wrapped)

lemma emits_remote [emits_rule]: "emits a [(cmd, [])] (RemoteCommand r a cmd)" "emits a [(cmd, input)] (run_with_input r a cmd input)"
  unfolding emits_def by (rule leaves_weaken [OF leaves_RemoteCommand], simp, rule leaves_weaken [OF leaves_run_with_input], simp)

text \<open>All destinations are harmless file names.\<close>

definition upload :: "string \<Rightarrow> string" where
  "upload destination = ''cat > '' @ [CHR 0x27] @ destination @ [CHR 0x27]"

lemma emits_upload [emits_rule]: "emits a [(upload destination, source)] (UploadReader r a source destination)"
  "emits a [(upload destination, source)] (UploadBytes r a source destination)"
  unfolding emits_def UploadBytes_def
  by (rule leaves_weaken [OF leaves_UploadReader], auto simp: shellQuote_def upload_def split: if_splits)+

lemma emits_forEach [emits_rule]:
  assumes "\<And>x. emits a [step x] (f x)"
  shows "emits a (map step xs) (forEach f xs)"
proof (induction xs)
  case Nil
  show ?case using emits_basic(1) by simp
next
  case (Cons x xs)
  from emits_andThen [OF assms this] show ?case by simp
qed

lemma emits_run_commands [emits_rule]: "emits a (map (\<lambda>cmd. (cmd, [])) cmds) (run_commands r a cmds)"
  unfolding run_commands_def by (intro emits_rule)

lemma emits_apply_settings [emits_rule]: "emits a (map (\<lambda>kv. (jq_command file tmp kv, [])) kvs) (apply_settings r a file tmp kvs)"
  unfolding apply_settings_def by (intro emits_rule)

text \<open>Connecting runs nothing; the client is known afterwards.\<close>

lemma leaves_SSHClient: "leaves (SSHClient r key addr) (\<lambda>client evs. client = addr @ '':22'' \<and> (\<forall>a. steps_at a evs = []))"
  by (auto simp: leaves_def SSHClient_def dial_addr_def fail_def split: option.splits prod.splits)

lemma leaves_andThen_known:
  assumes "leaves m (\<lambda>y evs. y = x \<and> (\<forall>a. steps_at a evs = []))" "emits a ys (k x)"
  shows "emits a ys (andThen m k)"
  unfolding emits_def leaves_def
proof (intro allI impI)
  fix s r s' assume run: "andThen m k s = (r, s')"
  obtain r1 s1 where m: "m s = (r1, s1)" by (cases "m s")
  obtain es where es: "fst s1 = fst s @ es" "\<forall>y. r1 = Inr y \<longrightarrow> y = x \<and> (\<forall>a. steps_at a es = [])" by (rule leavesE [OF assms(1) m])
  show "\<exists>evs. fst s' = fst s @ evs \<and> (\<forall>y. r = Inr y \<longrightarrow> steps_at a evs = ys)"
  proof (cases r1)
    case (Inl e)
    then have "r = Inl e" "s' = s1" using run m by (auto simp: andThen_def)
    then show ?thesis using es(1) by auto
  next
    case (Inr y)
    then have "k x s1 = (r, s')" using run m es(2) by (auto simp: andThen_def)
    then obtain fs where "fst s' = fst s1 @ fs" "\<forall>y. r = Inr y \<longrightarrow> steps_at a fs = ys" by (rule leavesE [OF assms(2) [unfolded emits_def]])
    then show ?thesis using es Inr by (intro exI [of _ "es @ fs"]) auto
  qed
qed

lemma emits_connect: "emits a ys (k (addr @ '':22'')) \<Longrightarrow> emits a ys (andThen (wrapped msg (SSHClient r key addr)) k)"
  by (rule leaves_andThen_known [OF leaves_wrapped [OF leaves_SSHClient]])

lemma leaves_tried: "leaves m P \<Longrightarrow> leaves (tried m) (\<lambda>y evs. \<forall>x. y = Inr x \<longrightarrow> P x evs)"
  unfolding leaves_def tried_def by (fastforce split: prod.splits)

section \<open>Plans\<close>

text \<open>The cluster's outputs do not change during a deployment.\<close>

definition steady :: "deploy_env \<Rightarrow> terraform_cluster \<Rightarrow> terraformOutputParameters \<Rightarrow> bool" where
  "steady d c p \<longleftrightarrow> (\<forall>m. fst (getOutputParams (on_machine d) (decode_outputs d) (Env c) m) = Inr p)"

lemma output_params_steady:
  assumes "steady d c p"
  shows "\<exists>m'. output_params d c (l, m) = (Inr (Inr p), (l, m'))" "\<exists>m'. asked d c f (l, m) = (Inr (f (Inr p)), (l, m'))"
proof -
  obtain m' where "getOutputParams (on_machine d) (decode_outputs d) (Env c) m = (Inr p, m')"
    using assms unfolding steady_def by (metis prod.collapse)
  then have "output_params d c (l, m) = (Inr (Inr p), (l, m'))" by (simp add: output_params_def tried_def onHost_def)
  then show "\<exists>m'. output_params d c (l, m) = (Inr (Inr p), (l, m'))" "\<exists>m'. asked d c f (l, m) = (Inr (f (Inr p)), (l, m'))"
    by (simp_all add: asked_def andThen_def ret_def)
qed

lemma leaves_steady:
  assumes "steady d c p"
  shows "leaves (output_params d c) (\<lambda>y evs. y = Inr p \<and> (\<forall>a. steps_at a evs = []))"
    "leaves (asked d c f) (\<lambda>y evs. y = f (Inr p) \<and> (\<forall>a. steps_at a evs = []))"
  unfolding leaves_def using output_params_steady [OF assms]
  by (metis Inr_inject Pair_inject append_Nil2 fst_conv prod.collapse steps_at_simps(1))+

lemma emits_steady:
  assumes "steady d c p"
  shows "emits a ys (k (Inr p)) \<Longrightarrow> emits a ys (andThen (output_params d c) k)"
    "emits a ys (k' (f (Inr p))) \<Longrightarrow> emits a ys (andThen (asked d c f) k')"
  by (rule leaves_andThen_known [OF leaves_steady(1) [OF assms]], assumption, rule leaves_andThen_known [OF leaves_steady(2) [OF assms]], assumption)

lemma emits_given: "(\<And>x. v = Inr x \<Longrightarrow> emits a ys (k x)) \<Longrightarrow> emits a ys (andThen (wrapped msg (given v)) k)"
  by (cases v) (auto simp: emits_def leaves_def andThen_def wrapped_def given_def)

definition plain :: "string list \<Rightarrow> (string \<times> string) list" where
  "plain cmds = map (\<lambda>cmd. (cmd, [])) cmds"

definition limits_plan :: "(string \<times> string) list" where
  "limits_plan = [(''cat | sudo tee /etc/security/limits.conf'', lines_text limits_lines), (''cat | sudo tee /etc/sysctl.conf'', lines_text sysctl_lines)]"

definition app_plan :: "deploy_env \<Rightarrow> terraform_cluster \<Rightarrow> terraformOutputParameters \<Rightarrow> string \<Rightarrow> string \<Rightarrow> (string \<times> string) list" where
  "app_plan d c p package license =
     [(upload ''/tmp/mattermost.tar.gz'', package)] @ [(''cat | sudo tee /lib/systemd/system/mattermost.service'', lines_text service_lines)]
     @ plain app_install_commands
     @ [(upload remoteLicenseFilePath, license)] @ limits_plan
     @ plain (map (jq_command app_config_file ''/tmp/mmcfg.json'') (range_order d (app_settings p (terraform_SiteURL (Inr p))
         (terraform_DBDriverName c) (terraform_DBConnectionString c (Inr p)) (terraform_DBReaderConnectionStrings c (Inr p)))))
     @ plain app_commands @ plain [reboot_command]"

definition proxy_plan :: "terraformOutputParameters \<Rightarrow> (string \<times> string) list" where
  "proxy_plan p =
     plain proxy_install_commands
     @ [(''cat | sudo tee /etc/nginx/sites-available/mattermost'', nginx_config (InstanceIp p))] @ limits_plan
     @ plain proxy_commands @ plain [reboot_command]"

text \<open>The settings of a load test instance: none when the cluster has no proxy or no app server.\<close>

definition loadtest_configuration :: "deploy_env \<Rightarrow> terraform_cluster \<Rightarrow> terraformOutputParameters \<Rightarrow> nat \<Rightarrow> (string \<times> string) list" where
  "loadtest_configuration d c p instanceNum =
     (if ProxyIp p = [] \<or> InstanceIp p = [] then []
      else
        (let addr = ProxyIp p ! (instanceNum mod length (ProxyIp p)) in
         plain (map (jq_command loadtest_config_file ''/tmp/ltconfig.json'') (range_order d (loadtest_settings (''http://'' @ addr) (''ws://'' @ addr)
           (hd (InstanceIp p)) (terraform_DBConnectionString c (Inr p)) (terraform_DBDriverName c))))))"

definition loadtest_plan :: "deploy_env \<Rightarrow> terraform_cluster \<Rightarrow> terraformOutputParameters \<Rightarrow> string \<Rightarrow> nat \<Rightarrow> (string \<times> string) list" where
  "loadtest_plan d c p package instanceNum =
     [(upload ''/home/ubuntu/mattermost-load-test.tar.gz'', package)] @ [(upload remoteSSHKeyPath, SSHPrivateKeyPEM c)]
     @ plain loadtest_commands @ limits_plan @ loadtest_configuration d c p instanceNum @ plain [reboot_command]"

lemma emits_reconnect [emits_rule]: "emits a [] (reconnect_ssh r key addr n)"
proof (induction n)
  case 0
  then show ?case by (simp add: emits_basic(2))
next
  case (Suc n)
  have first: "emits a [] (tried (SSHClient r key addr))"
    unfolding emits_def by (auto simp: leaves_def tried_def SSHClient_def dial_addr_def fail_def split: option.splits prod.splits)
  have "emits a [] (case x of Inl _ \<Rightarrow> reconnect_ssh r key addr n | Inr _ \<Rightarrow> ret ())" for x :: "string + string"
    using Suc emits_basic(1) by (cases x) auto
  from emits_andThen [OF first this] show ?case by simp
qed

lemma emits_commands [emits_rule]: "emits a (plain cmds) (run_commands r a cmds)"
  "emits a (plain (map (jq_command file tmp) kvs)) (apply_settings r a file tmp kvs)"
  using emits_run_commands emits_apply_settings unfolding plain_def by (auto simp: comp_def)

lemma emits_reboot [emits_rule]: "emits a (plain [reboot_command]) (reboot r key a)"
proof -
  have "emits a (plain [reboot_command] @ []) (reboot r key a)"
    unfolding reboot_def by (rule emits_andThen, rule emits_commands, rule emits_reconnect)
  then show ?thesis by simp
qed

lemma emits_files [emits_rule]:
  "emits a [(''cat | sudo tee /lib/systemd/system/mattermost.service'', lines_text service_lines)] (uploadSystemdFile r a)"
  "emits a [(''cat | sudo tee /etc/nginx/sites-available/mattermost'', nginx_config addrs)] (uploadNginxConfig r a addrs)"
  "emits a limits_plan (uploadLimitsConfig r a)"
  unfolding uploadSystemdFile_def uploadNginxConfig_def
    apply (rule emits_remote(2))
   apply (rule emits_remote(2))
  using emits_andThen [OF emits_remote(2) emits_remote(2)] unfolding uploadLimitsConfig_def limits_plan_def by fastforce

text \<open>An instance is deployed by its plan.\<close>

lemma emits_app:
  assumes "steady d c p"
  shows "emits (addr @ '':22'') (app_plan d c p package license) (deployToAppInstance d package license addr c)"
proof -
  have configure: "emits a (plain (map (jq_command app_config_file ''/tmp/mmcfg.json'') (range_order d (app_settings p (terraform_SiteURL (Inr p))
         (terraform_DBDriverName c) (terraform_DBConnectionString c (Inr p)) (terraform_DBReaderConnectionStrings c (Inr p)))))) (configure_app d a c)" for a
    unfolding configure_app_def
    by (rule emits_steady [OF assms] emits_given)+ (auto intro: emits_commands)
  show ?thesis
    unfolding deployToAppInstance_def Let_def app_plan_def append.assoc
    by (rule emits_connect emits_andThen emits_wrapped emits_upload emits_files emits_commands configure emits_reboot)+
qed

lemma emits_proxy:
  assumes "steady d c p"
  shows "emits (addr @ '':22'') (proxy_plan p) (deployToProxyInstance d addr c)"
  unfolding deployToProxyInstance_def Let_def proxy_plan_def append.assoc
proof (rule emits_connect, rule emits_steady(2) [OF assms], rule emits_given)
  fix addrs assume "terraform_AppAddrs (Inr p) = Inr addrs"
  then have addrs: "InstanceIp p = addrs" by (simp add: terraform_AppAddrs_def)
  show "emits (addr @ '':22'')
     (plain proxy_install_commands @ [(''cat | sudo tee /etc/nginx/sites-available/mattermost'', nginx_config (InstanceIp p))] @ limits_plan
      @ plain proxy_commands @ plain [reboot_command])
     (andThen (run_commands (on_ssh d) (addr @ '':22'') proxy_install_commands) (\<lambda>_.
      andThen (wrapped ''Unable to upload nginx config'' (uploadNginxConfig (on_ssh d) (addr @ '':22'') addrs)) (\<lambda>_.
      andThen (wrapped ''Unable to upload limits config'' (uploadLimitsConfig (on_ssh d) (addr @ '':22''))) (\<lambda>_.
      andThen (run_commands (on_ssh d) (addr @ '':22'') proxy_commands) (\<lambda>_.
      wrapped ''failed to reboot proxy instance'' (reboot (on_ssh d) (SSHPrivateKeyPEM c) (addr @ '':22'')))))))"
    unfolding addrs by (rule emits_andThen emits_wrapped emits_files emits_commands emits_reboot)+
qed

lemma emits_configure:
  assumes "steady d c p" "\<forall>a \<in> set (ProxyIp p). CHR '':'' \<notin> set a \<and> a \<noteq> []"
  shows "emits a (loadtest_configuration d c p instanceNum) (configureLoadtestInstance d instanceNum a c)"
  unfolding configureLoadtestInstance_def
proof (rule emits_steady(2) [OF assms(1)], goal_cases)
  case 1
  show ?case
  proof (cases "ProxyIp p")
    case Nil
    then show ?thesis by (simp add: terraform_ProxyAddrs_def loadtest_configuration_def emits_basic)
  next
    case (Cons proxy proxies)
    let ?addr = "ProxyIp p ! (instanceNum mod length (ProxyIp p))"
    have "?addr \<in> set (ProxyIp p)" by (rule nth_mem) (simp add: Cons)
    with assms(2) have url: "addr_url scheme ?addr = Inr (scheme @ ''://'' @ ?addr)" for scheme by (auto simp: addr_url_def)
    show ?thesis
      unfolding terraform_ProxyAddrs_def map_sum.simps sum.case id_apply Cons list.case
    proof (rule emits_steady(2) [OF assms(1)], goal_cases)
      case 1
      show ?case
      proof (cases "InstanceIp p")
        case Nil
        then show ?thesis by (simp add: terraform_AppAddrs_def loadtest_configuration_def emits_basic)
      next
        case (Cons app apps)
        have proxies: "proxy # proxies = ProxyIp p" by (simp add: \<open>ProxyIp p = proxy # proxies\<close>)
        have plan: "loadtest_configuration d c p instanceNum =
            plain (map (jq_command loadtest_config_file ''/tmp/ltconfig.json'') (range_order d (loadtest_settings (''http'' @ ''://'' @ ?addr) (''ws'' @ ''://'' @ ?addr)
              app (terraform_DBConnectionString c (Inr p)) (terraform_DBDriverName c))))"
          by (simp add: loadtest_configuration_def Cons Let_def \<open>ProxyIp p = proxy # proxies\<close>)
        show ?thesis
          unfolding terraform_AppAddrs_def map_sum.simps sum.case id_apply Cons list.case Let_def proxies url plan
          by (rule emits_given, drule Inr_inject, hypsubst_thin, rule emits_given, drule Inr_inject, hypsubst_thin)
            (rule emits_steady(2) [OF assms(1)], rule emits_commands)
      qed
    qed
  qed
qed

text \<open>A load test instance is configured for the proxy of the number that its goroutine read, so when the loop has gone on by then, the first
  instance is configured as the second.\<close>

lemma loadtest_configured_as_read:
  assumes "steady d c p" "\<forall>a \<in> set (ProxyIp p). CHR '':'' \<notin> set a \<and> a \<noteq> []" "number_read d 0 = 1"
  shows "emits a (loadtest_configuration d c p 1) (configureLoadtestInstance d (number_read d 0) a c)"
  unfolding assms(3) by (rule emits_configure [OF assms(1,2)])

lemma emits_loadtest:
  assumes "steady d c p" "\<forall>a \<in> set (ProxyIp p). CHR '':'' \<notin> set a \<and> a \<noteq> []"
  shows "emits (addr @ '':22'') (loadtest_plan d c p package instanceNum) (deployToLoadtestInstance d instanceNum addr package c)"
  unfolding deployToLoadtestInstance_def Let_def loadtest_plan_def append.assoc
  by (rule emits_connect emits_andThen emits_wrapped emits_upload emits_files emits_commands emits_configure [OF assms] emits_reboot)+

section \<open>All instances\<close>

text \<open>The steps of an instance are among those at its address, in their order.\<close>

definition carried_out :: "(string \<times> string) list \<Rightarrow> string \<Rightarrow> ssh_log \<Rightarrow> bool" where
  "carried_out plan addr evs \<longleftrightarrow> subseq plan (steps_at (addr @ '':22'') evs)"

lemma carried_out_append: "carried_out plan addr es \<Longrightarrow> carried_out plan addr (es @ fs)" "carried_out plan addr fs \<Longrightarrow> carried_out plan addr (es @ fs)"
  unfolding carried_out_def steps_at_simps by (auto intro: list_emb_append2 subseq_order.order_trans)

lemma leaves_do_action: "emits (addr @ '':22'') plan m \<Longrightarrow> leaves (do_action m) (\<lambda>n evs. n = 0 \<longrightarrow> carried_out plan addr evs)"
  unfolding do_action_def emits_def carried_out_def
proof (rule leaves_weaken, rule leaves_andThen, erule leaves_tried, rule leaves_basic(1), goal_cases)
  case (1 n evs)
  then obtain x :: "string + unit" and es where "\<forall>u. x = Inr u \<longrightarrow> steps_at (addr @ '':22'') es = plan" "n = (case x of Inl _ \<Rightarrow> 1 | Inr _ \<Rightarrow> 0)" "evs = es"
    by auto
  then show ?case by (cases x) auto
qed

lemma leaves_doDeploy:
  assumes "\<And>i addr. emits (addr @ '':22'') (plan i) (f i addr)"
  shows "leaves (doDeploy name f i addrs) (\<lambda>n evs. n = 0 \<longrightarrow> (\<forall>j < length addrs. carried_out (plan (i + j)) (addrs ! j) evs))"
proof (induction addrs arbitrary: i)
  case Nil
  show ?case by (auto intro: leaves_weaken [OF leaves_basic(1)])
next
  case (Cons addr addrs)
  have "leaves (andThen (do_action (wrapped (''unable to deploy to '' @ name @ itoa (int i)) (f i addr))) (\<lambda>n. andThen (doDeploy name f (Suc i) addrs) (\<lambda>ns. ret (n + ns))))
    (\<lambda>n evs. n = 0 \<longrightarrow> (\<forall>j < length (addr # addrs). carried_out (plan (i + j)) ((addr # addrs) ! j) evs))"
  proof (rule leaves_weaken [OF leaves_andThen [OF leaves_do_action [OF emits_wrapped [OF assms]] leaves_andThen [OF Cons.IH leaves_basic(1)]]])
    fix n :: nat and evs
    assume "\<exists>(x :: nat) es fs. (x = 0 \<longrightarrow> carried_out (plan i) addr es) \<and>
       (\<exists>(y :: nat) es' fs'. (y = 0 \<longrightarrow> (\<forall>j<length addrs. carried_out (plan (Suc i + j)) (addrs ! j) es')) \<and> (n = x + y \<and> fs' = []) \<and> fs = es' @ fs') \<and> evs = es @ fs"
    then show "n = 0 \<longrightarrow> (\<forall>j < length (addr # addrs). carried_out (plan (i + j)) ((addr # addrs) ! j) evs)"
      by (auto simp: nth_Cons' less_Suc_eq_0_disj intro: carried_out_append)
  qed
  then show ?case by simp
qed

lemma leaves_deploy_kind:
  assumes "\<And>x i addr. emits (addr @ '':22'') (plan x i) (f x i addr)" "leaves get_addrs (\<lambda>y evs. y = Inr addrs \<and> (\<forall>a. steps_at a evs = []))"
  shows "leaves (deploy_kind get_addrs package name f) (\<lambda>n evs. n = 0 \<and> addrs \<noteq> [] \<longrightarrow>
    (\<exists>x. package = Inr x \<and> (\<forall>i < length addrs. carried_out (plan x i) (addrs ! i) evs)))"
proof -
  have "leaves (case answer of Inl err \<Rightarrow> ret 1 | Inr addrs \<Rightarrow> if length addrs \<le> 0 then ret 0 else case package of Inl err \<Rightarrow> ret 1 | Inr d \<Rightarrow> doDeploy name (f d) 0 addrs)
     (\<lambda>n evs. answer = Inr addrs \<and> n = 0 \<and> addrs \<noteq> [] \<longrightarrow> (\<exists>x. package = Inr x \<and> (\<forall>i < length addrs. carried_out (plan x i) (addrs ! i) evs)))" for answer :: "string + string list"
  proof (cases answer)
    case (Inl a)
    then show ?thesis by (auto intro: leaves_weaken [OF leaves_basic(1)])
  next
    case (Inr as)
    show ?thesis
    proof (cases "as = [] \<or> (\<exists>e. package = Inl e)")
      case True
      then show ?thesis using Inr by (auto intro: leaves_weaken [OF leaves_basic(1)])
    next
      case False
      then obtain x where "package = Inr x" by (cases package) auto
      with False Inr leaves_doDeploy [of "plan x" "f x" name 0 as, OF assms(1)] show ?thesis
        by (auto elim!: leaves_weaken)
    qed
  qed
  then show ?thesis
    unfolding deploy_kind_def
    by (rule leaves_weaken [OF leaves_andThen [OF assms(2)]]) (auto intro: carried_out_append)
qed

definition mattermost_deployed :: "deploy_env \<Rightarrow> DeployOptions \<Rightarrow> terraform_cluster \<Rightarrow> terraformOutputParameters \<Rightarrow> ssh_log \<Rightarrow> bool" where
  "mattermost_deployed d options c p evs \<longleftrightarrow>
     (InstanceIp p \<noteq> [] \<longrightarrow> (\<exists>package license.
        GetMattermostFileOrURL (on_sources d) (MattermostBinaryFile options) = Inr package \<and>
        GetFileOrURL (on_sources d) (LicenseFile options) = Inr license \<and>
        (\<forall>addr \<in> set (InstanceIp p). carried_out (app_plan d c p package license) addr evs))) \<and>
     (\<forall>addr \<in> set (ProxyIp p). carried_out (proxy_plan p) addr evs)"

definition loadtests_deployed :: "deploy_env \<Rightarrow> DeployOptions \<Rightarrow> terraform_cluster \<Rightarrow> terraformOutputParameters \<Rightarrow> ssh_log \<Rightarrow> bool" where
  "loadtests_deployed d options c p evs \<longleftrightarrow>
     (LoadtestInstanceIp p \<noteq> [] \<longrightarrow> (\<exists>package.
        GetLoadtestFileOrURL (on_sources d) (LoadTestBinaryFile options) = Inr package \<and>
        (\<forall>i < length (LoadtestInstanceIp p). carried_out (loadtest_plan d c p package i) (LoadtestInstanceIp p ! i) evs)))"

lemma deployed_append:
  "mattermost_deployed d options c p es \<Longrightarrow> mattermost_deployed d options c p (es @ fs)"
  "loadtests_deployed d options c p fs \<Longrightarrow> loadtests_deployed d options c p (es @ fs)"
  unfolding mattermost_deployed_def loadtests_deployed_def by (meson carried_out_append)+

lemma leaves_DeployMattermost:
  assumes "steady d c p"
  shows "leaves (DeployMattermost d (MattermostBinaryFile options) (LicenseFile options) c) (\<lambda>n evs. n = 0 \<longrightarrow> mattermost_deployed d options c p evs)"
proof -
  let ?load = "bind_sum (GetMattermostFileOrURL (on_sources d) (MattermostBinaryFile options)) (\<lambda>package.
        bind_sum (GetFileOrURL (on_sources d) (LicenseFile options)) (\<lambda>license. Inr (package, license)))"
  have apps: "leaves (deploy_kind (asked d c terraform_AppAddrs) ?load ''app'' (\<lambda>(package, license) instanceNum addr. deployToAppInstance d package license addr c))
     (\<lambda>n evs. n = 0 \<and> InstanceIp p \<noteq> [] \<longrightarrow>
        (\<exists>x. ?load = Inr x \<and> (\<forall>i < length (InstanceIp p). carried_out (app_plan d c p (fst x) (snd x)) (InstanceIp p ! i) evs)))"
    by (rule leaves_deploy_kind [where plan = "\<lambda>x i. app_plan d c p (fst x) (snd x)"])
      (auto split: prod.split intro: emits_app assms leaves_weaken [OF leaves_steady(2) [OF assms]] simp: terraform_AppAddrs_def)
  have proxies: "leaves (deploy_kind (asked d c terraform_ProxyAddrs) (Inr ()) ''proxy'' (\<lambda>_ instanceNum addr. deployToProxyInstance d addr c))
     (\<lambda>n evs. n = 0 \<and> ProxyIp p \<noteq> [] \<longrightarrow> (\<exists>x. Inr () = (Inr x :: string + unit) \<and> (\<forall>i < length (ProxyIp p). carried_out (proxy_plan p) (ProxyIp p ! i) evs)))"
    by (rule leaves_deploy_kind [where plan = "\<lambda>x i. proxy_plan p"])
      (auto intro: emits_proxy assms leaves_weaken [OF leaves_steady(2) [OF assms]] simp: terraform_ProxyAddrs_def)
  show ?thesis
    unfolding DeployMattermost_def
  proof (rule leaves_weaken [OF leaves_andThen [OF apps leaves_andThen [OF proxies leaves_basic(1)]]], goal_cases)
    case (1 n evs)
    then obtain m es fs l es' fs' where r: "m = 0 \<and> InstanceIp p \<noteq> [] \<longrightarrow>
        (\<exists>x. ?load = Inr x \<and> (\<forall>i < length (InstanceIp p). carried_out (app_plan d c p (fst x) (snd x)) (InstanceIp p ! i) es))"
      "l = 0 \<and> ProxyIp p \<noteq> [] \<longrightarrow> (\<exists>x. Inr () = (Inr x :: string + unit) \<and> (\<forall>i < length (ProxyIp p). carried_out (proxy_plan p) (ProxyIp p ! i) es'))"
      "n = m + l" "fs' = []" "fs = es' @ fs'" "evs = es @ fs"
      by blast
    have evs: "evs = es @ es'" using r by simp
    have apps: "n = 0 \<and> InstanceIp p \<noteq> [] \<longrightarrow>
        (\<exists>x. ?load = Inr x \<and> (\<forall>i < length (InstanceIp p). carried_out (app_plan d c p (fst x) (snd x)) (InstanceIp p ! i) es))"
      and proxies: "n = 0 \<longrightarrow> (\<forall>i < length (ProxyIp p). carried_out (proxy_plan p) (ProxyIp p ! i) es')"
      using r(1-3) by auto
    have all_proxies: "carried_out (proxy_plan p) addr (es @ es')" if "n = 0" "addr \<in> set (ProxyIp p)" for addr
      using proxies that by (metis carried_out_append(2) in_set_conv_nth)
    have all_apps: "carried_out (app_plan d c p x y) addr (es @ es')"
      if "\<forall>i < length (InstanceIp p). carried_out (app_plan d c p x y) (InstanceIp p ! i) es" "addr \<in> set (InstanceIp p)" for x y addr
      using that by (metis carried_out_append(1) in_set_conv_nth)
    show ?case
      unfolding mattermost_deployed_def evs
      using apps by (auto simp: bind_sum_def all_proxies all_apps split: sum.splits)
  qed
qed

lemma leaves_DeployLoadtests:
  assumes "steady d c p" "\<forall>a \<in> set (ProxyIp p). CHR '':'' \<notin> set a \<and> a \<noteq> []"
  shows "leaves (DeployLoadtests d (LoadTestBinaryFile options) c) (\<lambda>n evs. n = 0 \<longrightarrow> loadtests_deployed d options c p evs)"
  unfolding DeployLoadtests_def
  by (rule leaves_weaken, rule leaves_deploy_kind [where plan = "\<lambda>x i. loadtest_plan d c p x i" and addrs = "LoadtestInstanceIp p"])
    (auto intro: emits_loadtest [OF assms] leaves_weaken [OF leaves_steady(2) [OF assms(1)]] simp: terraform_LoadtestAddrs_def loadtests_deployed_def)

text \<open>C11. A deployment that succeeds has carried out the whole plan on every instance of the cluster: each app server got the
  distribution, the service, the license, the limits and all settings and was restarted and rebooted, each proxy got the configuration
  that names all app servers, each load test instance got its distribution, the key and its configuration. Only a cluster without
  instances of a kind is deployed to without anything done.\<close>

theorem Deploy_reaches_every_instance:
  assumes "steady d c p" "\<forall>a \<in> set (ProxyIp p). CHR '':'' \<notin> set a \<and> a \<noteq> []" "terraform_Deploy d options c s = (Inr (), s')"
  shows "\<exists>evs. fst s' = fst s @ evs \<and>
    (MattermostBinaryFile options \<noteq> [] \<longrightarrow> mattermost_deployed d options c p evs) \<and>
    (LoadTestBinaryFile options \<noteq> [] \<longrightarrow> loadtests_deployed d options c p evs)"
proof -
  have first: "leaves (if 0 < length (MattermostBinaryFile options) then DeployMattermost d (MattermostBinaryFile options) (LicenseFile options) c else ret 0)
     (\<lambda>n evs. n = 0 \<and> MattermostBinaryFile options \<noteq> [] \<longrightarrow> mattermost_deployed d options c p evs)"
    using leaves_DeployMattermost [OF assms(1)] by (auto intro: leaves_weaken leaves_weaken [OF leaves_basic(1)])
  have second: "leaves (if 0 < length (LoadTestBinaryFile options) then DeployLoadtests d (LoadTestBinaryFile options) c else ret 0)
     (\<lambda>n evs. n = 0 \<and> LoadTestBinaryFile options \<noteq> [] \<longrightarrow> loadtests_deployed d options c p evs)"
    using leaves_DeployLoadtests [OF assms(1,2)] by (auto intro: leaves_weaken leaves_weaken [OF leaves_basic(1)])
  have last: "leaves (let failedCount = m + n in if 0 < failedCount then fail (''failed to deploy '' @ itoa (int failedCount) @ '' resources'') else ret ())
      (\<lambda>_ evs. m = 0 \<and> n = 0 \<and> evs = [])" for m n :: nat
    by (auto simp: leaves_def Let_def)
  have whole: "leaves (terraform_Deploy d options c) (\<lambda>_ evs. (MattermostBinaryFile options \<noteq> [] \<longrightarrow> mattermost_deployed d options c p evs) \<and>
      (LoadTestBinaryFile options \<noteq> [] \<longrightarrow> loadtests_deployed d options c p evs))"
    unfolding terraform_Deploy_def
    by (rule leaves_weaken, rule leaves_andThen [OF first], rule leaves_andThen [OF second], rule last) (auto intro: deployed_append)
  obtain evs where "fst s' = fst s @ evs" "\<forall>u. Inr () = (Inr u :: string + unit) \<longrightarrow>
      (MattermostBinaryFile options \<noteq> [] \<longrightarrow> mattermost_deployed d options c p evs) \<and> (LoadTestBinaryFile options \<noteq> [] \<longrightarrow> loadtests_deployed d options c p evs)"
    by (rule leavesE [OF whole assms(3)])
  then show ?thesis by auto
qed

section \<open>Deployments succeed when nothing fails\<close>

definition succeeds :: "('s, 'a) op \<Rightarrow> bool" where
  "succeeds m \<longleftrightarrow> (\<forall>s. \<exists>x s'. m s = (Inr x, s'))"

named_theorems succeeds_rule

lemma succeedsE:
  assumes "succeeds m"
  obtains x s' where "m s = (Inr x, s')"
  using assms unfolding succeeds_def by blast

lemma andThen_at: "m s = (Inr x, s1) \<Longrightarrow> andThen m k s = k x s1"
  by (simp add: andThen_def)

lemma succeeds_basic [succeeds_rule]: "succeeds (ret x)" "succeeds (tried m)"
  by (auto simp: succeeds_def tried_def ret_def split: prod.splits)

lemma succeeds_wrapped [succeeds_rule]:
  assumes "succeeds m"
  shows "succeeds (wrapped msg m)"
  unfolding succeeds_def
proof
  fix s
  obtain x s' where "m s = (Inr x, s')" using assms by (rule succeedsE)
  then show "\<exists>x s'. wrapped msg m s = (Inr x, s')" by (simp add: wrapped_def)
qed

lemma succeeds_andThen [succeeds_rule]:
  assumes "succeeds m" "\<And>x. succeeds (k x)"
  shows "succeeds (andThen m k)"
  unfolding succeeds_def
proof
  fix s
  obtain x s1 where "m s = (Inr x, s1)" using assms(1) unfolding succeeds_def by blast
  moreover obtain y s2 where "k x s1 = (Inr y, s2)" using assms(2) unfolding succeeds_def by blast
  ultimately show "\<exists>x s'. andThen m k s = (Inr x, s')" by (simp add: andThen_def)
qed

lemma succeeds_forEach [succeeds_rule]: "(\<And>x. succeeds (f x)) \<Longrightarrow> succeeds (forEach f xs)"
  by (induction xs) (auto intro: succeeds_rule)

text \<open>Instances on which every command runs.\<close>

definition willing :: "host_env \<Rightarrow> bool" where
  "willing r \<longleftrightarrow> (\<forall>key. parse_key r key = None) \<and> (\<forall>l addr. dial r l addr = None) \<and> (\<forall>l addr. new_session r l addr = None) \<and>
     (\<forall>l. run_remote r l = (None, [])) \<and> 0 < reconnect_attempts r"

lemma willing_session:
  assumes "willing r"
  shows "open_session r a s = (Inr (), s)" "session_run r a cmd input (l, m) = (Inr (None, []), (l @ [Ran a cmd input], m))"
  using assms by (auto simp: willing_def open_session_def wrapped_def andThen_def look_at_def ret_def session_run_def Let_def split: prod.splits)

lemma succeeds_remote [succeeds_rule]:
  assumes "willing r"
  shows "succeeds (RemoteCommand r a cmd)" "succeeds (run_with_input r a cmd input)" "succeeds (SSHClient r key a)"
    "CHR 0x27 \<notin> set dest \<Longrightarrow> CHR 0x5C \<notin> set dest \<Longrightarrow> succeeds (UploadReader r a source dest)"
  using assms
  by (auto simp: succeeds_def RemoteCommand_def run_with_input_def UploadReader_def shellQuote_def andThen_def willing_session [OF assms] ret_def
      SSHClient_def dial_addr_def willing_def split: prod.splits)

lemma succeeds_script [succeeds_rule]:
  assumes "willing r"
  shows "succeeds (run_commands r a cmds)" "succeeds (apply_settings r a file tmp kvs)" "succeeds (uploadSystemdFile r a)" "succeeds (uploadNginxConfig r a addrs)"
    "succeeds (uploadLimitsConfig r a)"
  unfolding run_commands_def apply_settings_def uploadSystemdFile_def uploadNginxConfig_def uploadLimitsConfig_def
  by (intro succeeds_rule assms)+

lemma succeeds_reboot [succeeds_rule]:
  assumes "willing r"
  shows "succeeds (reboot r key a)"
proof -
  obtain n where n: "reconnect_attempts r = Suc n" using assms unfolding willing_def by (metis gr0_implies_Suc)
  have "succeeds (reconnect_ssh r key addr (Suc n))" for addr
    unfolding succeeds_def
  proof
    fix s :: "ssh_log \<times> machine"
    obtain client s' where "SSHClient r key addr s = (Inr client, s')" by (rule succeedsE [OF succeeds_remote(3) [OF assms]])
    then have "tried (SSHClient r key addr) s = (Inr (Inr client), s')" by (simp add: tried_def)
    then show "\<exists>x s'. reconnect_ssh r key addr (Suc n) s = (Inr x, s')" by (simp add: andThen_def)
  qed
  then show ?thesis unfolding reboot_def n by (intro succeeds_rule assms)
qed

lemma succeeds_given: "succeeds (given (Inr x))"
  by (simp add: succeeds_def)

text \<open>A question to the cluster only matters by its answer.\<close>

lemma succeeds_asked:
  assumes "steady d c p"
  shows "succeeds (k (Inr p)) \<Longrightarrow> succeeds (andThen (output_params d c) k)" "succeeds (k' (f (Inr p))) \<Longrightarrow> succeeds (andThen (asked d c f) k')"
proof -
  assume k: "succeeds (k (Inr p))"
  show "succeeds (andThen (output_params d c) k)"
    unfolding succeeds_def
  proof
    fix s :: "ssh_log \<times> machine"
    obtain l m where s: "s = (l, m)" by (cases s)
    obtain m' where "output_params d c (l, m) = (Inr (Inr p), (l, m'))" using output_params_steady(1) [OF assms] by blast
    moreover obtain y s' where "k (Inr p) (l, m') = (Inr y, s')" using k by (rule succeedsE)
    ultimately show "\<exists>x s'. andThen (output_params d c) k s = (Inr x, s')" by (simp add: s andThen_at)
  qed
next
  assume k: "succeeds (k' (f (Inr p)))"
  show "succeeds (andThen (asked d c f) k')"
    unfolding succeeds_def
  proof
    fix s :: "ssh_log \<times> machine"
    obtain l m where s: "s = (l, m)" by (cases s)
    obtain m' where "asked d c f (l, m) = (Inr (f (Inr p)), (l, m'))" using output_params_steady(2) [OF assms] by blast
    moreover obtain y s' where "k' (f (Inr p)) (l, m') = (Inr y, s')" using k by (rule succeedsE)
    ultimately show "\<exists>x s'. andThen (asked d c f) k' s = (Inr x, s')" by (simp add: s andThen_at)
  qed
qed

lemma paths_plain: "CHR 0x27 \<notin> set path" "CHR 0x5C \<notin> set path"
  if "path \<in> {''/home/ubuntu/mattermost-load-test.tar.gz'', remoteSSHKeyPath, ''/tmp/mattermost.tar.gz'', remoteLicenseFilePath}"
  using that by (auto simp: remoteSSHKeyPath_def remoteLicenseFilePath_def)

lemma succeeds_app:
  assumes "willing (on_ssh d)" "steady d c p"
  shows "succeeds (deployToAppInstance d package license addr c)"
  unfolding deployToAppInstance_def configure_app_def Let_def
  by (intro succeeds_andThen succeeds_wrapped succeeds_remote succeeds_script succeeds_reboot assms(1) succeeds_asked [OF assms(2)] succeeds_given paths_plain) auto

lemma succeeds_proxy:
  assumes "willing (on_ssh d)" "steady d c p"
  shows "succeeds (deployToProxyInstance d addr c)"
  unfolding deployToProxyInstance_def Let_def
proof (rule succeeds_andThen, intro succeeds_wrapped succeeds_remote(3) assms(1), rule succeeds_asked(2) [OF assms(2)])
  have answer: "succeeds (given (terraform_AppAddrs (Inr p)))" by (simp add: terraform_AppAddrs_def succeeds_given)
  show "succeeds (andThen (wrapped ''Unable to get app instance addresses.'' (given (terraform_AppAddrs (Inr p)))) (\<lambda>appInstances.
      andThen (run_commands (on_ssh d) client proxy_install_commands) (\<lambda>_.
      andThen (wrapped ''Unable to upload nginx config'' (uploadNginxConfig (on_ssh d) client appInstances)) (\<lambda>_.
      andThen (wrapped ''Unable to upload limits config'' (uploadLimitsConfig (on_ssh d) client)) (\<lambda>_.
      andThen (run_commands (on_ssh d) client proxy_commands) (\<lambda>_.
      wrapped ''failed to reboot proxy instance'' (reboot (on_ssh d) (SSHPrivateKeyPEM c) client)))))))" for client
    by (intro succeeds_andThen succeeds_wrapped answer succeeds_script succeeds_reboot assms(1))
qed

lemma succeeds_configure:
  assumes "willing (on_ssh d)" "steady d c p" "\<forall>a \<in> set (ProxyIp p). CHR '':'' \<notin> set a \<and> a \<noteq> []"
  shows "succeeds (configureLoadtestInstance d instanceNum a c)"
  unfolding configureLoadtestInstance_def
proof (rule succeeds_asked(2) [OF assms(2)], unfold terraform_ProxyAddrs_def map_sum.simps sum.case id_apply, cases "ProxyIp p", goal_cases)
  case 1
  then show ?case by (simp add: succeeds_basic)
next
  case (2 proxy proxies)
  have "ProxyIp p ! (instanceNum mod length (ProxyIp p)) \<in> set (ProxyIp p)" by (rule nth_mem) (simp add: 2)
  with assms(3) 2 have url: "addr_url scheme ((proxy # proxies) ! (instanceNum mod length (proxy # proxies))) =
      Inr (scheme @ ''://'' @ (proxy # proxies) ! (instanceNum mod length (proxy # proxies)))" for scheme
    by (auto simp: addr_url_def)
  show ?case
    unfolding 2 list.case
  proof (rule succeeds_asked(2) [OF assms(2)], unfold terraform_AppAddrs_def map_sum.simps sum.case id_apply, cases "InstanceIp p", goal_cases)
    case 1
    then show ?case by (simp add: succeeds_basic)
  next
    case (2 app apps)
    show ?case
      unfolding 2 list.case Let_def url
      by (intro succeeds_andThen succeeds_wrapped succeeds_given succeeds_asked(2) [OF assms(2)] succeeds_script assms(1))
  qed
qed

lemma succeeds_loadtest:
  assumes "willing (on_ssh d)" "steady d c p" "\<forall>a \<in> set (ProxyIp p). CHR '':'' \<notin> set a \<and> a \<noteq> []"
  shows "succeeds (deployToLoadtestInstance d i addr package c)"
  unfolding deployToLoadtestInstance_def Let_def UploadBytes_def
  by (intro succeeds_andThen succeeds_wrapped succeeds_remote succeeds_script succeeds_reboot assms(1) succeeds_configure [OF assms] paths_plain) auto

text \<open>No failure is counted.\<close>

definition counts_none :: "nat remote_op \<Rightarrow> bool" where
  "counts_none m \<longleftrightarrow> (\<forall>s. \<exists>s'. m s = (Inr 0, s'))"

lemma counts_none_andThen: "counts_none m \<Longrightarrow> counts_none (k 0) \<Longrightarrow> counts_none (andThen m k)"
  unfolding counts_none_def by (metis andThen_at)

lemma counts_none_doDeploy:
  assumes "\<And>i addr. succeeds (f i addr)"
  shows "counts_none (doDeploy name f i addrs)"
proof (induction addrs arbitrary: i)
  case Nil
  show ?case by (simp add: counts_none_def)
next
  case (Cons addr addrs)
  have "counts_none (do_action m)" if ok: "succeeds m" for m
    unfolding counts_none_def
  proof
    fix s
    obtain x s' where "m s = (Inr x, s')" using ok by (rule succeedsE)
    then show "\<exists>s'. do_action m s = (Inr 0, s')" by (simp add: do_action_def andThen_def tried_def)
  qed
  moreover have "counts_none (ret 0)" by (simp add: counts_none_def)
  ultimately show ?case
    by (auto intro!: counts_none_andThen Cons.IH succeeds_wrapped assms)
qed

lemma counts_none_kind:
  assumes "\<And>x i addr. succeeds (f x i addr)" "package = Inr x" "steady d c p" "g (Inr p) = Inr addrs"
  shows "counts_none (deploy_kind (asked d c g) package name f)"
  unfolding deploy_kind_def counts_none_def
proof
  fix s :: "ssh_log \<times> machine"
  obtain l m where s: "s = (l, m)" by (cases s)
  obtain m' where asked: "asked d c g s = (Inr (Inr addrs), (l, m'))" using output_params_steady(2) [OF assms(3), of g] assms(4) unfolding s by metis
  obtain s' where "doDeploy name (f x) 0 addrs (l, m') = (Inr 0, s')"
    using counts_none_doDeploy [of "f x" name 0 addrs, OF assms(1)] unfolding counts_none_def by blast
  then show "\<exists>s'. andThen (asked d c g) (\<lambda>answer. case answer of Inl err \<Rightarrow> ret 1
      | Inr addrs \<Rightarrow> if length addrs \<le> 0 then ret 0 else case package of Inl err \<Rightarrow> ret 1 | Inr d \<Rightarrow> doDeploy name (f d) 0 addrs) s = (Inr 0, s')"
    by (simp add: andThen_def asked assms(2))
qed

lemma Deploy_succeeds:
  assumes "willing (on_ssh d)" "steady d c p" "\<forall>a \<in> set (ProxyIp p). CHR '':'' \<notin> set a \<and> a \<noteq> []"
    and "GetMattermostFileOrURL (on_sources d) (MattermostBinaryFile options) = Inr x" "GetFileOrURL (on_sources d) (LicenseFile options) = Inr y"
    and "GetLoadtestFileOrURL (on_sources d) (LoadTestBinaryFile options) = Inr z"
  shows "\<exists>s'. terraform_Deploy d options c s = (Inr (), s')"
proof -
  have "counts_none (DeployMattermost d (MattermostBinaryFile options) (LicenseFile options) c)"
    unfolding DeployMattermost_def
  proof (intro counts_none_andThen)
    show "counts_none (deploy_kind (asked d c terraform_AppAddrs) (bind_sum (GetMattermostFileOrURL (on_sources d) (MattermostBinaryFile options)) (\<lambda>package.
        bind_sum (GetFileOrURL (on_sources d) (LicenseFile options)) (\<lambda>license. Inr (package, license)))) ''app''
        (\<lambda>(package, license) instanceNum addr. deployToAppInstance d package license addr c))"
      by (rule counts_none_kind [OF _ _ assms(2)]) (auto intro: succeeds_app assms simp: terraform_AppAddrs_def assms(4,5))
    show "counts_none (deploy_kind (asked d c terraform_ProxyAddrs) (Inr ()) ''proxy'' (\<lambda>_ instanceNum addr. deployToProxyInstance d addr c))"
      by (rule counts_none_kind [OF _ refl assms(2)]) (auto intro: succeeds_proxy assms simp: terraform_ProxyAddrs_def)
    show "counts_none (ret (0 + 0))" by (simp add: counts_none_def)
  qed
  moreover have "counts_none (DeployLoadtests d (LoadTestBinaryFile options) c)"
    unfolding DeployLoadtests_def
    by (rule counts_none_kind [OF _ assms(6) assms(2)]) (auto intro: succeeds_loadtest [OF assms(1-3)] simp: terraform_LoadtestAddrs_def)
  moreover have "counts_none (ret 0)" by (simp add: counts_none_def)
  ultimately have parts:
    "counts_none (if 0 < length (MattermostBinaryFile options) then DeployMattermost d (MattermostBinaryFile options) (LicenseFile options) c else ret 0)"
    "counts_none (if 0 < length (LoadTestBinaryFile options) then DeployLoadtests d (LoadTestBinaryFile options) c else ret 0)"
    by simp_all
  obtain s1 where s1: "(if 0 < length (MattermostBinaryFile options) then DeployMattermost d (MattermostBinaryFile options) (LicenseFile options) c else ret 0) s = (Inr 0, s1)"
    using parts(1) unfolding counts_none_def by blast
  obtain s2 where s2: "(if 0 < length (LoadTestBinaryFile options) then DeployLoadtests d (LoadTestBinaryFile options) c else ret 0) s1 = (Inr 0, s2)"
    using parts(2) unfolding counts_none_def by blast
  show ?thesis unfolding terraform_Deploy_def andThen_def s1 s2 prod.case sum.case Let_def by simp
qed

definition sample_outputs :: terraformOutputParameters where
  "sample_outputs = \<lparr>InstanceIp = [''10.0.0.1''], LoadtestInstanceIp = [''10.0.0.3''], ProxyIp = [''10.0.0.2''], DBEndpoint = ''db'', DBReaderEndpoint = ''db-ro'',
     S3bucket = ''bucket'', S3bucketRegion = ''us-east-1'', S3AccessKeyId = ''id'', S3AccessKeySecret = ''secret'', MetricsIp = ''10.0.0.4''\<rparr>"

definition sample_answer :: json where
  "sample_answer = JObj [(''instanceIP'', JObj [(''value'', JArr [JStr ''10.0.0.1''])]), (''loadtestInstanceIP'', JObj [(''value'', JArr [JStr ''10.0.0.3''])]),
     (''proxyIP'', JObj [(''value'', JArr [JStr ''10.0.0.2''])]), (''dbEndpoint'', JObj [(''value'', JStr ''db'')]), (''dbReaderEndpoint'', JObj [(''value'', JStr ''db-ro'')]),
     (''s3bucket'', JObj [(''value'', JStr ''bucket'')]), (''s3bucketRegion'', JObj [(''value'', JStr ''us-east-1'')]), (''s3AccessKeyId'', JObj [(''value'', JStr ''id'')]),
     (''s3AccessKeySecret'', JObj [(''value'', JStr ''secret'')]), (''metricsIP'', JObj [(''value'', JStr ''10.0.0.4'')])]"

lemma sample_decodes: "outputs_of_json sample_answer = Inr sample_outputs"
  using folded_names by (simp add: outputs_of_json_def sample_answer_def sample_outputs_def struct_field_def value_into_def)

definition sample_ssh :: host_env where
  "sample_ssh = \<lparr>parse_key = (\<lambda>_. None), dial = (\<lambda>_ _. None), new_session = (\<lambda>_ _. None), run_remote = (\<lambda>_. (None, [])), remote_addr = (\<lambda>a. a),
     reconnect_attempts = 11\<rparr>"

definition sample_deploy :: deploy_env where
  "sample_deploy = \<lparr>on_machine = quiet_env, on_ssh = sample_ssh,
     on_sources = \<lparr>stat_ok = (\<lambda>_. True), read_file = (\<lambda>f. Inr f), http_get = (\<lambda>_. Inl ''offline'')\<rparr>,
     decode_outputs = (\<lambda>_. Inr sample_answer), range_order = (\<lambda>kvs. kvs), number_read = (\<lambda>k. k)\<rparr>"

definition sample_options :: DeployOptions where
  "sample_options = \<lparr>MattermostBinaryFile = ''mattermost.tar.gz'', LicenseFile = ''license'', LoadTestBinaryFile = ''loadtest.tar.gz'', deploy_Profile = [],
     deploy_Users = 0, HelmConfigFile = []\<rparr>"

definition sample_terraform :: terraform_cluster where
  "sample_terraform = \<lparr>Config = zero_cluster_config\<lparr>Name := ''c'', Type := TERRAFORM_TYPE\<rparr>, SSHPrivateKeyPEM = ''key'', DBPassword = ''pw'',
     Env = \<lparr>env_WorkingDirectory = ''d'', TerraformFilename = ''cluster.tf'', parameters = None\<rparr>\<rparr>"

lemma sample_steady: "steady sample_deploy sample_terraform sample_outputs"
  by (simp add: steady_def getOutputParams_def runCommandResult_def Let_def sample_deploy_def quiet_env_def run_cmd_def getCmdOutputAndLog_def andThen_def
        wrapped_def given_def ret_def sample_decodes)

theorem Deploy_reaches_every_instance_witness:
  "\<exists>s'. terraform_Deploy sample_deploy sample_options sample_terraform ([], idle_machine) = (Inr (), s') \<and>
     carried_out (app_plan sample_deploy sample_terraform sample_outputs ''mattermost.tar.gz'' ''license'') ''10.0.0.1'' (fst s')"
proof -
  note steady = sample_steady
  have addrs: "\<forall>a \<in> set (ProxyIp sample_outputs). CHR '':'' \<notin> set a \<and> a \<noteq> []" by (simp add: sample_outputs_def)
  have willing: "willing (on_ssh sample_deploy)" by (simp add: willing_def sample_deploy_def sample_ssh_def)
  have sources: "GetMattermostFileOrURL (on_sources sample_deploy) (MattermostBinaryFile sample_options) = Inr ''mattermost.tar.gz''"
    "GetFileOrURL (on_sources sample_deploy) (LicenseFile sample_options) = Inr ''license''"
    "GetLoadtestFileOrURL (on_sources sample_deploy) (LoadTestBinaryFile sample_options) = Inr ''loadtest.tar.gz''"
    by (simp_all add: GetMattermostFileOrURL_def GetFileOrURL_def GetLoadtestFileOrURL_def getFile_def sample_deploy_def sample_options_def)
  obtain s' where run: "terraform_Deploy sample_deploy sample_options sample_terraform ([], idle_machine) = (Inr (), s')"
    using Deploy_succeeds [OF willing steady addrs sources] by blast
  have "mattermost_deployed sample_deploy sample_options sample_terraform sample_outputs (fst s')"
    using Deploy_reaches_every_instance [OF steady addrs run] by (auto simp: sample_options_def)
  then have "carried_out (app_plan sample_deploy sample_terraform sample_outputs ''mattermost.tar.gz'' ''license'') ''10.0.0.1'' (fst s')"
    unfolding mattermost_deployed_def using sources by (auto simp: sample_outputs_def)
  with run show ?thesis by blast
qed

end
