(* ===== verification/Deploy_Order.thy ===== *)
theory Deploy_Order
  imports Deploy_Effects "HOL-Library.Multiset"
begin

text \<open>
  The goroutines of a deployment work on an instance each. When what an instance answers depends on what was done on this instance only,
  the order in which they run does not matter: every instance sees the same, and as many fail.
\<close>

section \<open>Operations at an instance\<close>

definition here :: "string \<Rightarrow> ssh_log \<Rightarrow> ssh_log" where
  "here a l = filter (\<lambda>e. at_addr e = a) l"

lemma here_simps [simp]: "here a [] = []" "here a (l @ l') = here a l @ here a l'" "here a [Dialled b] = (if b = a then [Dialled b] else [])"
  "here a [Ran b cmd input] = (if b = a then [Ran b cmd input] else [])"
  by (simp_all add: here_def)

text \<open>Instances know nothing of one another, and a connection has the address it was made to.\<close>

definition local_hosts :: "host_env \<Rightarrow> bool" where
  "local_hosts r \<longleftrightarrow>
     (\<forall>l l' a. here a l = here a l' \<longrightarrow> dial r l a = dial r l' a \<and> new_session r l a = new_session r l' a) \<and>
     (\<forall>l l' a cmd input. here a l = here a l' \<longrightarrow> run_remote r (l @ [Ran a cmd input]) = run_remote r (l' @ [Ran a cmd input])) \<and>
     (\<forall>a. remote_addr r a = a)"

text \<open>An operation that works on the instance \<open>a\<close> and depends on it alone.\<close>

definition works_at :: "string \<Rightarrow> 'a remote_op \<Rightarrow> bool" where
  "works_at a op \<longleftrightarrow>
     (\<forall>l m l' m'. here a l = here a l' \<longrightarrow>
        (\<exists>r evs m1 m1'. op (l, m) = (r, (l @ evs, m1)) \<and> op (l', m') = (r, (l' @ evs, m1')) \<and> (\<forall>e \<in> set evs. at_addr e = a)))"

named_theorems at_rule

lemma works_atI:
  assumes "\<And>l m l' m'. here a l = here a l' \<Longrightarrow>
    \<exists>r evs m1 m1'. op (l, m) = (r, (l @ evs, m1)) \<and> op (l', m') = (r, (l' @ evs, m1')) \<and> (\<forall>e \<in> set evs. at_addr e = a)"
  shows "works_at a op"
  using assms unfolding works_at_def by blast

lemma works_atE:
  assumes "works_at a op" "here a l = here a l'"
  obtains r evs m1 m1' where "op (l, m) = (r, (l @ evs, m1))" "op (l', m') = (r, (l' @ evs, m1'))" "\<forall>e \<in> set evs. at_addr e = a"
  using assms unfolding works_at_def by blast

lemma at_basic [at_rule]: "works_at a (ret x)" "works_at a (fail e)" "works_at a (given v)"
  by (auto simp: works_at_def ret_def fail_def given_def)

lemma here_same: "here a l = here a l' \<Longrightarrow> here a (l @ evs) = here a (l' @ evs)"
  by simp

lemma at_andThen [at_rule]:
  assumes "works_at a op" "\<And>x. works_at a (k x)"
  shows "works_at a (andThen op k)"
proof (rule works_atI)
  fix l m l' m' assume same: "here a l = here a l'"
  from assms(1) same obtain r evs m1 m1' where first: "op (l, m) = (r, (l @ evs, m1))" "op (l', m') = (r, (l' @ evs, m1'))" "\<forall>e \<in> set evs. at_addr e = a"
    by (rule works_atE)
  show "\<exists>r evs m1 m1'. andThen op k (l, m) = (r, (l @ evs, m1)) \<and> andThen op k (l', m') = (r, (l' @ evs, m1')) \<and> (\<forall>e \<in> set evs. at_addr e = a)"
  proof (cases r)
    case (Inl err)
    with first show ?thesis by (auto simp: andThen_def)
  next
    case (Inr x)
    from assms(2) [of x] here_same [OF same] obtain q fs m2 m2' where "k x (l @ evs, m1) = (q, ((l @ evs) @ fs, m2))"
      "k x (l' @ evs, m1') = (q, ((l' @ evs) @ fs, m2'))" "\<forall>e \<in> set fs. at_addr e = a"
      by (rule works_atE)
    with first Inr show ?thesis by (intro exI [of _ q] exI [of _ "evs @ fs"]) (auto simp: andThen_def)
  qed
qed

lemma at_wrapped [at_rule]:
  assumes "works_at a op"
  shows "works_at a (wrapped msg op)" "works_at a (tried op)" "works_at a (ignored op)"
proof -
  have "\<exists>r evs m1 m1'. f op (l, m) = (r, (l @ evs, m1)) \<and> f op (l', m') = (r, (l' @ evs, m1')) \<and> (\<forall>e \<in> set evs. at_addr e = a)"
    if "here a l = here a l'" "\<And>r s s'. op s = (r, s') \<Longrightarrow> f op s = (g r, s')" for f :: "'a remote_op \<Rightarrow> 'c remote_op" and g l m l' m'
    using assms that(1) by (rule works_atE [where m = m and m' = m']) (use that(2) in blast)
  note lift = this
  show "works_at a (wrapped msg op)"
    by (rule works_atI, erule lift [of _ _ "wrapped msg" "\<lambda>r. case r of Inl e \<Rightarrow> Inl (msg @ '': '' @ e) | Inr x \<Rightarrow> Inr x"])
      (auto simp: wrapped_def split: sum.splits)
  show "works_at a (tried op)" by (rule works_atI, erule lift [of _ _ tried Inr]) (simp add: tried_def)
  show "works_at a (ignored op)" by (rule works_atI, erule lift [of _ _ ignored "\<lambda>_. Inr ()"]) (simp add: ignored_def)
qed

lemma at_forEach [at_rule]: "(\<And>x. works_at a (f x)) \<Longrightarrow> works_at a (forEach f xs)"
  by (induction xs) (auto intro: at_rule)

section \<open>The steps of a deployment\<close>

lemma local_answers:
  assumes "local_hosts r" "here a l = here a l'"
  shows "dial r l a = dial r l' a" "new_session r l a = new_session r l' a"
    "run_remote r (l @ [Ran a cmd input]) = run_remote r (l' @ [Ran a cmd input])"
  using assms unfolding local_hosts_def by blast+

text \<open>An operation that appends what the answer says.\<close>

lemma works_at_answer:
  assumes "\<And>l m. op (l, m) = (f (ask l), (l @ evs, m))" "\<And>l l'. here a l = here a l' \<Longrightarrow> ask l = ask l'" "\<forall>e \<in> set evs. at_addr e = a"
  shows "works_at a op"
proof (rule works_atI)
  fix l m l' m' assume "here a l = here a l'"
  then have "ask l' = ask l" by (metis assms(2))
  then have "op (l, m) = (f (ask l), (l @ evs, m))" "op (l', m') = (f (ask l), (l' @ evs, m'))" using assms(1) by metis+
  with assms(3) show "\<exists>r evs m1 m1'. op (l, m) = (r, (l @ evs, m1)) \<and> op (l', m') = (r, (l' @ evs, m1')) \<and> (\<forall>e \<in> set evs. at_addr e = a)"
    by blast
qed

definition outcome :: "string option \<Rightarrow> 'a \<Rightarrow> string + 'a" where
  "outcome err x = (case err of None \<Rightarrow> Inr x | Some e \<Rightarrow> Inl e)"

lemma at_session [at_rule]:
  assumes "local_hosts r"
  shows "works_at a (open_session r a)"
  unfolding open_session_def
proof (rule at_wrapped(1), rule works_at_answer [of _ "\<lambda>err. outcome err ()" "\<lambda>l. new_session r l a" "[]"])
  fix l m
  show "andThen (look_at (\<lambda>(l, m). new_session r l a)) (\<lambda>e. case e of None \<Rightarrow> ret () | Some x \<Rightarrow> fail x) (l, m) =
      (outcome (new_session r l a) (), (l @ [], m))"
    by (cases "new_session r l a") (simp_all add: andThen_def look_at_def ret_def fail_def outcome_def)
next
  fix l l' assume "here a l = here a l'"
  then show "new_session r l a = new_session r l' a" by (rule local_answers(2) [OF assms])
qed simp

lemma at_run [at_rule]:
  assumes "local_hosts r"
  shows "works_at a (session_run r a cmd input)"
  by (rule works_at_answer [of _ Inr "\<lambda>l. run_remote r (l @ [Ran a cmd input])" "[Ran a cmd input]"], simp add: session_run_def Let_def,
      erule local_answers(3) [OF assms], simp)

lemma at_outcome [at_rule]: "works_at a (case err of None \<Rightarrow> ret () | Some e \<Rightarrow> fail (f e))"
  by (cases err) (auto intro: at_rule)

lemma at_remote [at_rule]:
  assumes "local_hosts r"
  shows "works_at a (RemoteCommand r a cmd)" "works_at a (run_with_input r a cmd input)" "works_at a (UploadReader r a source destination)"
    "works_at a (UploadBytes r a source destination)"
  unfolding RemoteCommand_def run_with_input_def UploadReader_def UploadBytes_def
  by (auto intro!: at_rule assms split: option.split prod.split)

lemma at_dial:
  assumes "local_hosts r"
  shows "works_at (addr @ '':22'') (SSHClient r key addr)"
proof (cases "parse_key r key")
  case None
  have "works_at (addr @ '':22'') (dial_addr r (addr @ '':22''))"
    by (rule works_at_answer [of _ "\<lambda>err. outcome err (addr @ '':22'')" "\<lambda>l. dial r l (addr @ '':22'')" "[Dialled (addr @ '':22'')]"],
        simp add: dial_addr_def outcome_def split: option.split, erule local_answers(1) [OF assms], simp)
  with None show ?thesis by (simp add: SSHClient_def)
qed (simp add: SSHClient_def at_rule)

lemma SSHClient_addr: "SSHClient r key addr s = (Inr client, s') \<Longrightarrow> client = addr @ '':22''"
  by (auto simp: SSHClient_def dial_addr_def fail_def split: option.splits prod.splits)

lemma at_connect:
  assumes "local_hosts r" "works_at (addr @ '':22'') (k (addr @ '':22''))"
  shows "works_at (addr @ '':22'') (andThen (wrapped msg (SSHClient r key addr)) k)"
proof -
  have "andThen (wrapped msg (SSHClient r key addr)) k = andThen (wrapped msg (SSHClient r key addr)) (\<lambda>_. k (addr @ '':22''))"
    by (auto simp: fun_eq_iff andThen_def wrapped_def split: sum.splits prod.splits dest: SSHClient_addr)
  then show ?thesis using at_andThen [OF at_wrapped(1) [OF at_dial [OF assms(1)]] assms(2)] by simp
qed

lemma at_known:
  assumes "\<And>l m. \<exists>m'. op (l, m) = (Inr x, (l, m'))" "works_at a (k x)"
  shows "works_at a (andThen op k)"
proof (rule works_atI)
  fix l m l' m' assume same: "here a l = here a l'"
  obtain m1 m1' where "op (l, m) = (Inr x, (l, m1))" "op (l', m') = (Inr x, (l', m1'))" using assms(1) by meson
  moreover obtain q fs m2 m2' where "k x (l, m1) = (q, (l @ fs, m2))" "k x (l', m1') = (q, (l' @ fs, m2'))" "\<forall>e \<in> set fs. at_addr e = a"
    using assms(2) same by (rule works_atE)
  ultimately show "\<exists>r evs m1 m1'. andThen op k (l, m) = (r, (l @ evs, m1)) \<and> andThen op k (l', m') = (r, (l' @ evs, m1')) \<and> (\<forall>e \<in> set evs. at_addr e = a)"
    by (intro exI [of _ q] exI [of _ fs]) (auto simp: andThen_def)
qed

lemma at_asked:
  assumes "steady d c p"
  shows "works_at a (k (Inr p)) \<Longrightarrow> works_at a (andThen (output_params d c) k)" "works_at a (k' (f (Inr p))) \<Longrightarrow> works_at a (andThen (asked d c f) k')"
  using at_known [of "output_params d c"] at_known [of "asked d c f"] output_params_steady [OF assms] by blast+

lemma at_reboot [at_rule]:
  assumes "local_hosts r" "CHR '':'' \<notin> set addr"
  shows "works_at (addr @ '':22'') (reboot r key (addr @ '':22''))"
proof -
  have again: "works_at (addr @ '':22'') (reconnect_ssh r key addr n)" for n
  proof (induction n)
    case (Suc n)
    then show ?case by (auto intro!: at_rule at_dial assms(1) split: sum.split)
  qed (simp add: at_rule)
  have "takeWhile (\<lambda>c. c \<noteq> CHR '':'') (remote_addr r (addr @ '':22'')) = addr"
    using assms by (auto simp: local_hosts_def takeWhile_append2 takeWhile_tail)
  then show ?thesis unfolding reboot_def run_commands_def by (auto intro!: at_rule again assms(1))
qed

lemma at_script [at_rule]:
  assumes "local_hosts r"
  shows "works_at a (run_commands r a cmds)" "works_at a (apply_settings r a file tmp kvs)" "works_at a (uploadSystemdFile r a)"
    "works_at a (uploadNginxConfig r a addrs)" "works_at a (uploadLimitsConfig r a)"
  unfolding run_commands_def apply_settings_def uploadSystemdFile_def uploadNginxConfig_def uploadLimitsConfig_def
  by (auto intro!: at_rule assms)

lemma at_configure:
  assumes "local_hosts (on_ssh d)" "steady d c p"
  shows "works_at a (configure_app d a c)" "works_at a (configureLoadtestInstance d instanceNum a c)"
proof -
  note step = at_asked [OF assms(2)] at_rule assms(1)
  show "works_at a (configure_app d a c)" unfolding configure_app_def by (intro step)
  show "works_at a (configureLoadtestInstance d instanceNum a c)"
    unfolding configureLoadtestInstance_def Let_def by (auto intro!: step split: sum.split list.split)
qed

lemma at_deploy:
  assumes "local_hosts (on_ssh d)" "steady d c p" "CHR '':'' \<notin> set addr"
  shows "works_at (addr @ '':22'') (deployToAppInstance d package license addr c)" "works_at (addr @ '':22'') (deployToProxyInstance d addr c)"
    "works_at (addr @ '':22'') (deployToLoadtestInstance d instanceNum addr package c)"
proof -
  note step = at_connect at_asked [OF assms(2)] at_configure [OF assms(1,2)] at_rule assms(1,3)
  show "works_at (addr @ '':22'') (deployToAppInstance d package license addr c)" unfolding deployToAppInstance_def Let_def by (intro step)
  show "works_at (addr @ '':22'') (deployToProxyInstance d addr c)" unfolding deployToProxyInstance_def Let_def by (intro step)
  show "works_at (addr @ '':22'') (deployToLoadtestInstance d instanceNum addr package c)" unfolding deployToLoadtestInstance_def Let_def by (intro step)
qed

section \<open>Any order\<close>

text \<open>The deployment of numbered instances, in the order of the list.\<close>

definition deploy_one :: "string \<Rightarrow> (nat \<Rightarrow> string \<Rightarrow> unit remote_op) \<Rightarrow> nat \<times> string \<Rightarrow> nat remote_op" where
  "deploy_one name deployFunc ia =
     do_action (wrapped (''unable to deploy to '' @ name @ itoa (int (fst ia))) (deployFunc (fst ia) (snd ia)))"

fun deploy_in_order :: "string \<Rightarrow> (nat \<Rightarrow> string \<Rightarrow> unit remote_op) \<Rightarrow> (nat \<times> string) list \<Rightarrow> nat remote_op" where
  "deploy_in_order name deployFunc [] = ret 0"
| "deploy_in_order name deployFunc (ia # order) =
     andThen (deploy_one name deployFunc ia) (\<lambda>n. andThen (deploy_in_order name deployFunc order) (\<lambda>ns. ret (n + ns)))"

lemma doDeploy_in_order: "doDeploy name deployFunc n addrs = deploy_in_order name deployFunc (enumerate n addrs)"
  by (induction addrs arbitrary: n) (simp_all add: deploy_one_def)

text \<open>What a deployment to one instance alone does, from a given state.\<close>

definition failures_alone :: "(nat \<times> string \<Rightarrow> nat remote_op) \<Rightarrow> ssh_log \<times> machine \<Rightarrow> nat \<times> string \<Rightarrow> nat" where
  "failures_alone one s ia = (case fst (one ia s) of Inr n \<Rightarrow> n | Inl _ \<Rightarrow> 0)"

definition events_alone :: "(nat \<times> string \<Rightarrow> nat remote_op) \<Rightarrow> ssh_log \<times> machine \<Rightarrow> nat \<times> string \<Rightarrow> ssh_log" where
  "events_alone one s ia = drop (length (fst s)) (fst (snd (one ia s)))"

lemma deploy_one_at:
  assumes "works_at a (deployFunc i addr)"
  shows "works_at a (deploy_one name deployFunc (i, addr))" "\<exists>n s'. deploy_one name deployFunc (i, addr) s = (Inr n, s')"
  using assms unfolding deploy_one_def do_action_def
  by (auto intro!: at_rule simp: andThen_def tried_def ret_def split: prod.split)

lemma alone:
  assumes "works_at a (one ia)" "\<And>s. \<exists>n s'. one ia s = (Inr n, s')" "here a l = here a (fst s)"
  shows "\<exists>m'. one ia (l, m) = (Inr (failures_alone one s ia), (l @ events_alone one s ia, m'))" "\<forall>e \<in> set (events_alone one s ia). at_addr e = a"
proof -
  obtain r evs m1 m1' where run: "one ia (l, m) = (r, (l @ evs, m1))" "one ia (fst s, snd s) = (r, (fst s @ evs, m1'))" "\<forall>e \<in> set evs. at_addr e = a"
    using assms(1,3) by (rule works_atE)
  obtain n where "r = Inr n" using assms(2) [of "(l, m)"] run(1) by auto
  with run show "\<exists>m'. one ia (l, m) = (Inr (failures_alone one s ia), (l @ events_alone one s ia, m'))" "\<forall>e \<in> set (events_alone one s ia). at_addr e = a"
    by (auto simp: failures_alone_def events_alone_def)
qed

lemma alone_at:
  assumes "works_at a (deployFunc i addr)" "here a l = here a (fst s)"
  shows "\<exists>m'. deploy_one name deployFunc (i, addr) (l, m) =
      (Inr (failures_alone (deploy_one name deployFunc) s (i, addr)), (l @ events_alone (deploy_one name deployFunc) s (i, addr), m'))"
    and "\<forall>e \<in> set (events_alone (deploy_one name deployFunc) s (i, addr)). at_addr e = a"
proof -
  have one: "works_at a (deploy_one name deployFunc (i, addr))" by (rule deploy_one_at(1)) (rule assms(1))
  have total: "\<exists>n s'. deploy_one name deployFunc (i, addr) s = (Inr n, s')" for s by (rule deploy_one_at(2)) (rule assms(1))
  show "\<exists>m'. deploy_one name deployFunc (i, addr) (l, m) =
      (Inr (failures_alone (deploy_one name deployFunc) s (i, addr)), (l @ events_alone (deploy_one name deployFunc) s (i, addr), m'))"
    "\<forall>e \<in> set (events_alone (deploy_one name deployFunc) s (i, addr)). at_addr e = a"
    by (rule alone [where one = "deploy_one name deployFunc", OF one total assms(2)])+
qed

lemma here_elsewhere: "\<forall>e \<in> set evs. at_addr e = a \<Longrightarrow> here b evs = (if b = a then evs else [])"
  by (auto simp: here_def filter_id_conv filter_empty_conv)

text \<open>Deployments to different instances do not disturb one another.\<close>

lemma deploy_in_order_run:
  assumes "\<forall>(i, a) \<in> set order. works_at (a @ '':22'') (deployFunc i a) \<and> here (a @ '':22'') l = here (a @ '':22'') (fst s)" "distinct (map snd order)"
  shows "\<exists>m'. deploy_in_order name deployFunc order (l, m) =
     (Inr (sum_list (map (failures_alone (deploy_one name deployFunc) s) order)),
      (l @ concat (map (events_alone (deploy_one name deployFunc) s) order), m'))"
  using assms
proof (induction order arbitrary: l m)
  case Nil
  then show ?case by (simp add: ret_def)
next
  case (Cons ia order)
  let ?one = "deploy_one name deployFunc"
  obtain i a where ia: "ia = (i, a)" by (cases ia)
  with Cons.prems(1) have works: "works_at (a @ '':22'') (deployFunc i a)" "here (a @ '':22'') l = here (a @ '':22'') (fst s)" by simp_all
  note first = alone_at [where deployFunc = deployFunc and name = name, OF works]
  obtain m1 where one: "?one (i, a) (l, m) = (Inr (failures_alone ?one s (i, a)), (l @ events_alone ?one s (i, a), m1))"
    using first(1) by blast
  have "here (b @ '':22'') (l @ events_alone ?one s (i, a)) = here (b @ '':22'') (fst s)" if "(j, b) \<in> set order" for j b
  proof -
    have "b \<noteq> a" using that Cons.prems(2) by (auto simp: ia image_iff)
    then show ?thesis using here_elsewhere [OF first(2)] that Cons.prems(1) by auto
  qed
  then obtain m2 where "deploy_in_order name deployFunc order (l @ events_alone ?one s (i, a), m1) =
     (Inr (sum_list (map (failures_alone ?one s) order)), ((l @ events_alone ?one s (i, a)) @ concat (map (events_alone ?one s) order), m2))"
    using Cons.IH [of "l @ events_alone ?one s (i, a)" m1] Cons.prems by force
  with one show ?case by (simp add: ia andThen_def ret_def)
qed

lemma single_equal: "mset xs = mset ys \<Longrightarrow> length xs \<le> 1 \<Longrightarrow> xs = ys"
  by (cases xs; cases "tl xs"; cases ys) (auto dest: mset_eq_length)

lemma here_concat:
  assumes "\<forall>(i, b) \<in> set order. \<forall>e \<in> set (ev (i, b)). at_addr e = b @ '':22''"
  shows "here a (concat (map ev order)) = concat (map ev (filter (\<lambda>ib. snd ib @ '':22'' = a) order))"
  using assms
proof (induction order)
  case (Cons ib order)
  obtain i b where ib: "ib = (i, b)" by (cases ib)
  have "here a (ev (i, b)) = (if a = b @ '':22'' then ev (i, b) else [])" by (rule here_elsewhere) (use Cons.prems ib in simp)
  with Cons ib show ?case by auto
qed simp

lemma one_at_most: "distinct (map snd order) \<Longrightarrow> length (filter (\<lambda>ib. snd ib @ '':22'' = a) order) \<le> 1"
  by (induction order) (auto simp: filter_empty_conv image_iff)

lemma any_order:
  assumes "\<forall>(i, a) \<in> set order. works_at (a @ '':22'') (deployFunc i a)" "distinct (map snd order)" "mset order = mset order'"
  shows "\<exists>n l1 m1 l2 m2. deploy_in_order name deployFunc order s = (Inr n, (l1, m1)) \<and> deploy_in_order name deployFunc order' s = (Inr n, (l2, m2)) \<and>
    (\<forall>a. here a l1 = here a l2)"
proof -
  let ?one = "deploy_one name deployFunc"
  obtain l m where s: "s = (l, m)" by (cases s)
  have same: "set order' = set order" "distinct (map snd order')" using assms(2,3) by (metis set_mset_mset, metis mset_map mset_eq_imp_distinct_iff)
  obtain m1 where run: "deploy_in_order name deployFunc order s =
      (Inr (sum_list (map (failures_alone ?one s) order)), (l @ concat (map (events_alone ?one s) order), m1))"
    using deploy_in_order_run [of order deployFunc l s name m] assms(1,2) s by auto
  obtain m2 where run': "deploy_in_order name deployFunc order' s =
      (Inr (sum_list (map (failures_alone ?one s) order')), (l @ concat (map (events_alone ?one s) order'), m2))"
    using deploy_in_order_run [of order' deployFunc l s name m] assms(1) same s by auto
  have "sum_list (map (failures_alone ?one s) order) = sum_list (map (failures_alone ?one s) order')"
    using assms(3) by (metis mset_map sum_mset_sum_list)
  moreover have "here a (concat (map (events_alone ?one s) order)) = here a (concat (map (events_alone ?one s) order'))" for a
  proof -
    have at: "\<forall>(i, b) \<in> set order. \<forall>e \<in> set (events_alone ?one s (i, b)). at_addr e = b @ '':22''"
    proof (clarify)
      fix i b e assume "(i, b) \<in> set order" "e \<in> set (events_alone ?one s (i, b))"
      then show "at_addr e = b @ '':22''"
        using alone_at(2) [where deployFunc = deployFunc and name = name and i = i and addr = b and s = s, OF _ refl] assms(1) by blast
    qed
    have "filter (\<lambda>ib. snd ib @ '':22'' = a) order = filter (\<lambda>ib. snd ib @ '':22'' = a) order'"
      using assms(3) one_at_most [OF assms(2)] by (intro single_equal) (metis mset_filter)
    then show ?thesis using here_concat [OF at] here_concat [of order'] at same(1) by simp
  qed
  ultimately show ?thesis using run run' by auto
qed

text \<open>C12. As long as the instances know nothing of one another, the goroutines of a deployment may run in any order: as many of them fail,
  and the same is done on every instance, as when they run in the order in which they are started.\<close>

theorem deployment_order_irrelevant:
  assumes "local_hosts (on_ssh d)" "steady d c p" "distinct addrs" "\<forall>a \<in> set addrs. CHR '':'' \<notin> set a"
    and "deployFunc \<in> {\<lambda>i a. deployToAppInstance d package license a c, \<lambda>i a. deployToProxyInstance d a c, \<lambda>i a. deployToLoadtestInstance d i a package c}"
    and "mset order = mset (enumerate 0 addrs)"
  shows "\<exists>n l1 m1 l2 m2. doDeploy name deployFunc 0 addrs s = (Inr n, (l1, m1)) \<and> deploy_in_order name deployFunc order s = (Inr n, (l2, m2)) \<and>
    (\<forall>a. here a l1 = here a l2)"
proof -
  have "works_at (a @ '':22'') (deployFunc i a)" if "(i, a) \<in> set (enumerate 0 addrs)" for i a
  proof -
    have "a \<in> set addrs" using that by (auto simp: enumerate_eq_zip dest: set_zip_rightD)
    then have "CHR '':'' \<notin> set a" using assms(4) by blast
    note at = at_deploy [OF assms(1,2) this]
    from assms(5) show ?thesis by (elim insertE emptyE) (simp_all only: at)
  qed
  then have works: "\<forall>(i, a) \<in> set (enumerate 0 addrs). works_at (a @ '':22'') (deployFunc i a)" by blast
  have "distinct (map snd (enumerate 0 addrs))" by (simp add: assms(3))
  from any_order [where name = name and s = s, OF works this assms(6) [symmetric]] show ?thesis unfolding doDeploy_in_order .
qed

theorem deployment_order_irrelevant_witness:
  "\<exists>n l1 m1 l2 m2.
     doDeploy ''proxy'' (\<lambda>i a. deployToProxyInstance sample_deploy a sample_terraform) 0 [''10.0.0.1'', ''10.0.0.2''] ([], idle_machine) = (Inr n, (l1, m1)) \<and>
     deploy_in_order ''proxy'' (\<lambda>i a. deployToProxyInstance sample_deploy a sample_terraform) [(1, ''10.0.0.2''), (0, ''10.0.0.1'')] ([], idle_machine) =
       (Inr n, (l2, m2)) \<and> (\<forall>a. here a l1 = here a l2)"
proof -
  have "local_hosts (on_ssh sample_deploy)" by (simp add: local_hosts_def sample_deploy_def sample_ssh_def)
  moreover have "distinct [''10.0.0.1'', ''10.0.0.2'']" "\<forall>a \<in> set [''10.0.0.1'', ''10.0.0.2'']. CHR '':'' \<notin> set a" by simp_all
  moreover have "(\<lambda>i a. deployToProxyInstance sample_deploy a sample_terraform) \<in>
      {\<lambda>i a. deployToAppInstance sample_deploy [] [] a sample_terraform, \<lambda>i a. deployToProxyInstance sample_deploy a sample_terraform,
       \<lambda>i a. deployToLoadtestInstance sample_deploy i a [] sample_terraform}"
    by (rule insertI2, rule insertI1)
  moreover have "mset [(1, ''10.0.0.2''), (0, ''10.0.0.1'')] = mset (enumerate 0 [''10.0.0.1'', ''10.0.0.2''])" by (simp add: add_mset_commute)
  ultimately show ?thesis by (rule deployment_order_irrelevant [OF _ sample_steady])
qed

end
