(* ===== verification/Terraform_Contract.thy ===== *)
theory Terraform_Contract
  imports Terraform_Cluster
begin

text \<open>
  The contract between the program and the \<^verbatim>\<open>cluster.tf\<close> that it carries: the variables that the file declares and the parameters that
  the program stores for them; the outputs that the file declares and the fields the program reads.
\<close>

section \<open>Declarations\<close>

text \<open>The names in the lines \<open>kind "name" {\<close>, from the first column.\<close>

definition quote :: char where "quote = CHR 0x22"

fun rest_after :: "string \<Rightarrow> string \<Rightarrow> string option" where
  "rest_after [] s = Some s"
| "rest_after (c # cs) [] = None"
| "rest_after (c # cs) (d # ds) = (if c = d then rest_after cs ds else None)"

definition declared :: "string \<Rightarrow> string list \<Rightarrow> string list" where
  "declared start = List.map_filter (\<lambda>l. map_option (takeWhile (\<lambda>c. c \<noteq> quote)) (rest_after start l))"

definition cluster_tf :: "string list" where
  "cluster_tf = cluster_tf_1 @ cluster_tf_2 @ cluster_tf_3 @ cluster_tf_4"

lemma declared_simps:
  "declared start [] = []"
  "declared start (l # ls) = (case rest_after start l of None \<Rightarrow> declared start ls | Some s \<Rightarrow> takeWhile (\<lambda>c. c \<noteq> quote) s # declared start ls)"
  "declared start (xs @ ys) = declared start xs @ declared start ys"
  by (auto simp: declared_def List.map_filter_def split: option.split)

text \<open>Only lines that begin with the first letter of \<^verbatim>\<open>variable\<close> or of \<^verbatim>\<open>output\<close> matter.\<close>

definition top_line :: "string \<Rightarrow> bool" where
  "top_line l = (case l of [] \<Rightarrow> False | c # _ \<Rightarrow> c = CHR ''v'' \<or> c = CHR ''o'')"

lemma top_lines_1:
  "filter top_line cluster_tf_1 =
    [''variable '' @ [CHR 0x22] @ ''cluster_name'' @ [CHR 0x22] @ '' {'',
     ''variable '' @ [CHR 0x22] @ ''app_instance_type'' @ [CHR 0x22] @ '' {}'',
     ''variable '' @ [CHR 0x22] @ ''db_instance_type'' @ [CHR 0x22] @ '' {}'',
     ''variable '' @ [CHR 0x22] @ ''app_instance_count'' @ [CHR 0x22] @ '' {'',
     ''variable '' @ [CHR 0x22] @ ''db_instance_count'' @ [CHR 0x22] @ '' {'',
     ''variable '' @ [CHR 0x22] @ ''db_engine_type'' @ [CHR 0x22] @ '' {'',
     ''variable '' @ [CHR 0x22] @ ''loadtest_instance_count'' @ [CHR 0x22] @ '' {'',
     ''variable '' @ [CHR 0x22] @ ''db_password'' @ [CHR 0x22] @ '' {}'',
     ''variable '' @ [CHR 0x22] @ ''ssh_public_key'' @ [CHR 0x22] @ '' {}'',
     ''variable '' @ [CHR 0x22] @ ''ssh_private_key'' @ [CHR 0x22] @ '' {}'',
     ''output '' @ [CHR 0x22] @ ''instanceIP'' @ [CHR 0x22] @ '' {'']"
  by code_simp

lemma top_lines_2:
  "filter top_line cluster_tf_2 =
    [''output '' @ [CHR 0x22] @ ''loadtestInstanceIP'' @ [CHR 0x22] @ '' {'',
     ''output '' @ [CHR 0x22] @ ''dbEndpoint'' @ [CHR 0x22] @ '' {'',
     ''output '' @ [CHR 0x22] @ ''dbReaderEndpoint'' @ [CHR 0x22] @ '' {'',
     ''output '' @ [CHR 0x22] @ ''proxyIP'' @ [CHR 0x22] @ '' {'']"
  by code_simp

lemma top_lines_3:
  "filter top_line cluster_tf_3 =
    [''output '' @ [CHR 0x22] @ ''s3bucket'' @ [CHR 0x22] @ '' {'',
     ''output '' @ [CHR 0x22] @ ''s3bucketRegion'' @ [CHR 0x22] @ '' {'',
     ''output '' @ [CHR 0x22] @ ''s3AccessKeyId'' @ [CHR 0x22] @ '' {'',
     ''output '' @ [CHR 0x22] @ ''s3AccessKeySecret'' @ [CHR 0x22] @ '' {'']"
  by code_simp

lemma top_lines_4:
  "filter top_line cluster_tf_4 =
    [''output '' @ [CHR 0x22] @ ''metricsIP'' @ [CHR 0x22] @ '' {'']"
  by code_simp

lemma declared_top_lines:
  "c = CHR ''v'' \<or> c = CHR ''o'' \<Longrightarrow> declared (c # start) ls = declared (c # start) (filter top_line ls)"
  by (induction ls) (auto simp: declared_simps top_line_def split: option.split list.split)

definition variables :: "string list" where "variables = declared (''variable '' @ [quote]) cluster_tf"

definition outputs :: "string list" where "outputs = declared (''output '' @ [quote]) cluster_tf"

lemmas top_lines = top_lines_1 top_lines_2 top_lines_3 top_lines_4

lemma variables_declared:
  "variables = [''cluster_name'', ''app_instance_type'', ''db_instance_type'', ''app_instance_count'', ''db_instance_count'',
     ''db_engine_type'', ''loadtest_instance_count'', ''db_password'', ''ssh_public_key'', ''ssh_private_key'']"
  unfolding variables_def cluster_tf_def
  by (simp add: declared_simps declared_top_lines [of _ _ cluster_tf_1] declared_top_lines [of _ _ cluster_tf_2] declared_top_lines [of _ _ cluster_tf_3]
      declared_top_lines [of _ _ cluster_tf_4] top_lines) (simp add: quote_def)

lemma outputs_declared:
  "outputs = [''instanceIP'', ''loadtestInstanceIP'', ''dbEndpoint'', ''dbReaderEndpoint'', ''proxyIP'', ''s3bucket'',
     ''s3bucketRegion'', ''s3AccessKeyId'', ''s3AccessKeySecret'', ''metricsIP'']"
  unfolding outputs_def cluster_tf_def
  by (simp add: declared_simps declared_top_lines [of _ _ cluster_tf_1] declared_top_lines [of _ _ cluster_tf_2] declared_top_lines [of _ _ cluster_tf_3]
      declared_top_lines [of _ _ cluster_tf_4] top_lines) (simp add: quote_def)

section \<open>Variables\<close>

fun members :: "json \<Rightarrow> string list" where
  "members (JObj fs) = map fst fs"
| "members _ = []"

lemma parameters_are_variables: "set (members (parameters_json params)) = set variables \<and> distinct (members (parameters_json params))"
  by (auto simp: parameters_json_def variables_declared)

text \<open>Running the command leaves the files alone.\<close>

lemma runCommandResult_files: "runCommandResult e env args m = (r, m') \<Longrightarrow> files m' = files m"
  by (auto simp: runCommandResult_def Let_def andThen_def run_cmd_def ret_def fail_def split: if_splits prod.splits option.splits)

lemma runCommand_files: "runCommand e env args m = (r, m') \<Longrightarrow> files m' = files m"
  by (auto simp: runCommand_def andThen_def ret_def dest: runCommandResult_files split: prod.splits sum.splits)

lemma write_file_Inr: "write_file e path c m = (Inr u, m') \<longleftrightarrow> file_error e path = None \<and> m' = m\<lparr>files := (files m)(path \<mapsto> c)\<rparr>"
  by (auto simp: write_file_def split: option.splits)

lemma filepath_join_inj: "a \<noteq> [] \<Longrightarrow> b \<noteq> [] \<Longrightarrow> filepath_join d a = filepath_join d b \<longleftrightarrow> a = b"
  by (simp add: filepath_join_def)

text \<open>C17. When the environment of a cluster is set up, its directory holds the \<^verbatim>\<open>cluster.tf\<close> that is built into the program and a file of
  parameters, under the name that the installed \<^verbatim>\<open>terraform\<close> reads by itself; and the parameters are, once each, exactly the variables
  that the stored \<^verbatim>\<open>cluster.tf\<close> declares.\<close>

theorem environment_supplies_variables:
  assumes "newTerraformEnvironment e dir params m = (Inr env, m')"
  shows "\<exists>varfile \<in> {''generated.auto.tfvars'', ''generated.auto.tfvars.json''}. \<exists>text.
    files m' (filepath_join dir ''cluster.tf'') = Some (Raw text) \<and> text = concat (map (\<lambda>l. l @ [CHR 0x0A]) cluster_tf) \<and>
    files m' (filepath_join dir varfile) = Some (Json (parameters_json params)) \<and>
    set (members (parameters_json params)) = set variables \<and> distinct (members (parameters_json params))"
proof -
  obtain varfile m1 env' where known: "varfile \<in> {''generated.auto.tfvars'', ''generated.auto.tfvars.json''}"
    and init: "runCommand e env' [''init'', ''-input=false'']
      (m1\<lparr>files := (files m1)(filepath_join dir ''cluster.tf'' \<mapsto> Raw clusterTfBytes, filepath_join dir varfile \<mapsto> Json (parameters_json params))\<rparr>) = (Inr (), m')"
    using assms by (auto simp: newTerraformEnvironment_def Let_def andThen_Inr write_file_Inr split: if_splits)
  have "filepath_join dir ''cluster.tf'' \<noteq> filepath_join dir varfile" using known by (auto simp: filepath_join_inj)
  with runCommand_files [OF init] have "files m' (filepath_join dir ''cluster.tf'') = Some (Raw clusterTfBytes)"
    "files m' (filepath_join dir varfile) = Some (Json (parameters_json params))" by auto
  then show ?thesis
    using known parameters_are_variables by (auto simp: clusterTfBytes_def cluster_tf_def simp del: distinct.simps)
qed

lemma quiet_runs:
  "\<exists>m'. runCommandResult quiet_env env args m = (Inr [], m')" "\<exists>m'. runCommand quiet_env env args m = (Inr (), m')"
proof -
  show "\<exists>m'. runCommandResult quiet_env env args m = (Inr [], m')" for m
    by (simp add: runCommandResult_def Let_def andThen_def run_cmd_def quiet_env_def getCmdOutputAndLog_def ret_def)
  then show "\<exists>m'. runCommand quiet_env env args m = (Inr (), m')"
    unfolding runCommand_def andThen_Inr by (metis op_simps(1))
qed

theorem environment_supplies_variables_witness:
  "\<exists>env m' varfile text. newTerraformEnvironment quiet_env ''d'' (terraformParametersFromClusterConfig zero_cluster_config ''pw'' ''pub'' ''key'') idle_machine = (Inr env, m') \<and>
    files m' (filepath_join ''d'' ''cluster.tf'') = Some (Raw text) \<and> files m' (filepath_join ''d'' varfile) \<noteq> None"
proof -
  let ?params = "terraformParametersFromClusterConfig zero_cluster_config ''pw'' ''pub'' ''key''"
  have "\<exists>env m'. newTerraformEnvironment quiet_env ''d'' ?params idle_machine = (Inr env, m')"
  proof -
    obtain f where f: "runCommandResult quiet_env env args m = (Inr [], f env args m)" for env args m using quiet_runs(1) by metis
    obtain g where g: "runCommand quiet_env env args m = (Inr (), g env args m)" for env args m using quiet_runs(2) by metis
    show ?thesis by (simp add: newTerraformEnvironment_def Let_def andThen_def wrapped_def f g ret_def has_prefix_def)
  qed
  then obtain env m' where run: "newTerraformEnvironment quiet_env ''d'' ?params idle_machine = (Inr env, m')" by blast
  from environment_supplies_variables [OF run] run show ?thesis by blast
qed

section \<open>Outputs\<close>

text \<open>What \<^verbatim>\<open>terraform output -json\<close> prints when the outputs that the file declares have the values \<open>p\<close>.\<close>

definition value_of_output :: "terraformOutputParameters \<Rightarrow> string \<rightharpoonup> json" where
  "value_of_output p =
     [''instanceIP'' \<mapsto> JArr (map JStr (InstanceIp p)), ''loadtestInstanceIP'' \<mapsto> JArr (map JStr (LoadtestInstanceIp p)),
      ''proxyIP'' \<mapsto> JArr (map JStr (ProxyIp p)), ''dbEndpoint'' \<mapsto> JStr (DBEndpoint p), ''dbReaderEndpoint'' \<mapsto> JStr (DBReaderEndpoint p),
      ''s3bucket'' \<mapsto> JStr (S3bucket p), ''s3bucketRegion'' \<mapsto> JStr (S3bucketRegion p), ''s3AccessKeyId'' \<mapsto> JStr (S3AccessKeyId p),
      ''s3AccessKeySecret'' \<mapsto> JStr (S3AccessKeySecret p), ''metricsIP'' \<mapsto> JStr (MetricsIp p)]"

definition printed_outputs :: "terraformOutputParameters \<Rightarrow> json" where
  "printed_outputs p =
     JObj (map (\<lambda>name. (name, JObj [(''sensitive'', JBool False), (''value'', case value_of_output p name of None \<Rightarrow> JNull | Some j \<Rightarrow> j)])) outputs)"

lemma get_strs_JStr [simp]: "get_strs (map JStr ss) = Inr ss"
  by (induction ss) auto

text \<open>C16. The program reads every output of the cluster: from what \<^verbatim>\<open>terraform\<close> prints for the outputs that \<^verbatim>\<open>cluster.tf\<close> declares, the
  decoder gets exactly their values, although the file and the program write the names differently.\<close>

theorem outputs_are_read: "outputs_of_json (printed_outputs p) = Inr p"
  using folded_names
  by (simp add: outputs_of_json_def printed_outputs_def outputs_declared value_of_output_def struct_field_def value_into_def)

end
