(* ===== verification/Helm_Profile.thy ===== *)
theory Helm_Profile
  imports Cluster_Config
begin

text \<open>
  \<^verbatim>\<open>kubernetes/chart_config.go\<close> and \<^verbatim>\<open>kubernetes/cluster_profile.go\<close>: the configuration of the helm chart, what it requests of the
  cluster, and the standard configuration for a number of users. A quantity is its exact value; how it is printed is a
  parameter. A pointer that may be nil is an option; a nil dereference is the result \<open>None\<close>.
\<close>

section \<open>The chart\<close>

record ResourceSetting =
  CPU :: "rat option"
  Memory :: "rat option"

record ResourcesSetting =
  Limits :: "ResourceSetting option"
  Requests :: ResourceSetting

record DatabaseInternal =
  DBUser :: string
  internal_DBPassword :: string
  DBName :: string

record DatabaseExternal =
  external_Driver :: string
  external_DataSource :: string
  external_DataSourceReplicas :: string

record DatabaseFeature =
  UseInternal :: bool
  Internal :: "DatabaseInternal option"
  External :: "DatabaseExternal option"

record LoadTestFeature =
  lt_Enabled :: bool
  lt_ReplicaCount :: int
  lt_Tag :: string
  lt_Resources :: ResourcesSetting
  lt_NumTeams :: int
  lt_NumChannelsPerTeam :: int
  lt_NumUsers :: int
  lt_NumPosts :: int
  lt_ReplyChance :: real
  lt_LinkPreviewChance :: real
  lt_SkipBulkLoad :: bool
  lt_TestLengthMinutes :: int
  lt_NumActiveEntities :: int
  lt_ActionRateMilliseconds :: int
  lt_ActionRateMaxVarianceMilliseconds :: int

record FeaturesConfig =
  Ingress_Enabled :: bool
  Database_of :: DatabaseFeature
  LoadTest :: LoadTestFeature
  Grafana_Enabled :: bool
  LinkPreviews_Enabled :: bool
  CustomEmoji_Enabled :: bool
  Storage_Enabled :: bool

record GlobalConfig =
  global_SiteURL :: string
  MattermostLicense :: string
  Features :: FeaturesConfig

record MySQLHAConfig =
  sql_Enabled :: bool
  sql_ReplicaCount :: int
  sql_Master :: string
  sql_Slave :: string
  sql_Resources :: ResourcesSetting

record AppConfig =
  app_ReplicaCount :: int
  app_Tag :: string
  app_Resources :: ResourcesSetting

record ProxyConfig =
  proxy_Enabled :: bool
  proxy_ReplicaCount :: int
  proxy_Resources :: ResourcesSetting

record ChartConfig =
  Global :: GlobalConfig
  MySQLHA :: MySQLHAConfig
  App :: AppConfig
  Proxy :: ProxyConfig
  Prometheus_Enabled :: bool

definition cpu :: "int \<Rightarrow> rat" where
  "cpu value = of_int value"

definition memory :: "int \<Rightarrow> rat" where
  "memory valueInGiB = of_int (valueInGiB * 1024 * 1024 * 1024)"

section \<open>Totals\<close>

text \<open>A loop that adds the same request \<open>n\<close> times.\<close>

fun add_requests :: "nat \<Rightarrow> rat option \<Rightarrow> rat \<Rightarrow> rat option" where
  "add_requests 0 q acc = Some acc"
| "add_requests (Suc n) q acc = (case q of None \<Rightarrow> None | Some x \<Rightarrow> add_requests n q (acc + x))"

definition total_requests :: "(ResourceSetting \<Rightarrow> rat option) \<Rightarrow> rat \<Rightarrow> ChartConfig \<Rightarrow> rat option" where
  "total_requests f buffer c =
     Option.bind (add_requests (nat (app_ReplicaCount (App c))) (f (Requests (app_Resources (App c)))) 0) (\<lambda>total.
     Option.bind (add_requests (nat (sql_ReplicaCount (MySQLHA c))) (f (Requests (sql_Resources (MySQLHA c)))) total) (\<lambda>total.
     Option.bind (add_requests (nat (proxy_ReplicaCount (Proxy c))) (f (Requests (proxy_Resources (Proxy c)))) total) (\<lambda>total.
     Option.bind (add_requests (nat (lt_ReplicaCount (LoadTest (Features (Global c))))) (f (Requests (lt_Resources (LoadTest (Features (Global c)))))) total)
       (\<lambda>total. Some (total + buffer)))))"

definition TotalCPURequests :: "ChartConfig \<Rightarrow> rat option" where
  "TotalCPURequests c = total_requests CPU (cpu 2) c"

definition TotalMemoryRequests :: "ChartConfig \<Rightarrow> rat option" where
  "TotalMemoryRequests c = total_requests Memory (memory 2) c"

section \<open>The standard profile\<close>

definition no_resources :: ResourcesSetting where
  "no_resources = \<lparr>Limits = None, Requests = \<lparr>CPU = None, Memory = None\<rparr>\<rparr>"

definition masterMySQLConfig :: string where
  "masterMySQLConfig = concat (map (\<lambda>l. l @ [CHR 0x0A]) [''[mysqld]'', ''log_bin'', ''skip_name_resolve'', ''max_connections = 300'',
     ''innodb_log_buffer_size = 128M''])"

definition slaveMySQLConfig :: string where
  "slaveMySQLConfig = concat (map (\<lambda>l. l @ [CHR 0x0A]) [''[mysqld]'', ''super_read_only'', ''skip_name_resolve'', ''slave_parallel_workers = 100'',
     ''slave_parallel_type = LOGICAL_CLOCK'', ''max_connections = 300''])"

text \<open>The chances are the single precision numbers next to 0.3 and 0.2.\<close>

definition base_config :: "int \<Rightarrow> ChartConfig" where
  "base_config users =
     \<lparr>Global = \<lparr>global_SiteURL = [], MattermostLicense = [],
        Features = \<lparr>Ingress_Enabled = True,
          Database_of = \<lparr>UseInternal = True, Internal = Some \<lparr>DBUser = ''mmuser'', internal_DBPassword = ''passwd'', DBName = ''mattermost''\<rparr>, External = None\<rparr>,
          LoadTest = \<lparr>lt_Enabled = True, lt_ReplicaCount = 0, lt_Tag = ''4.10.1'', lt_Resources = no_resources, lt_NumTeams = 1,
            lt_NumChannelsPerTeam = 400, lt_NumUsers = users, lt_NumPosts = 0, lt_ReplyChance = 5033165 / 2 ^ 24, lt_LinkPreviewChance = 13421773 / 2 ^ 26,
            lt_SkipBulkLoad = True, lt_TestLengthMinutes = 20, lt_NumActiveEntities = 0, lt_ActionRateMilliseconds = 240000,
            lt_ActionRateMaxVarianceMilliseconds = 15000\<rparr>,
          Grafana_Enabled = True, LinkPreviews_Enabled = True, CustomEmoji_Enabled = True, Storage_Enabled = True\<rparr>\<rparr>,
      MySQLHA = \<lparr>sql_Enabled = True, sql_ReplicaCount = 0, sql_Master = masterMySQLConfig, sql_Slave = slaveMySQLConfig, sql_Resources = no_resources\<rparr>,
      App = \<lparr>app_ReplicaCount = 0, app_Tag = ''4.10.1'', app_Resources = no_resources\<rparr>,
      Proxy = \<lparr>proxy_Enabled = True, proxy_ReplicaCount = 0, proxy_Resources = no_resources\<rparr>,
      Prometheus_Enabled = True\<rparr>"

definition requests :: "int \<Rightarrow> int \<Rightarrow> ResourcesSetting" where
  "requests c m = no_resources\<lparr>Requests := \<lparr>CPU = Some (cpu c), Memory = Some (memory m)\<rparr>\<rparr>"

text \<open>For each of the app servers, the database, the proxies and the load test agents the number of replicas, cores and GiB; then the
  number of posts.\<close>

definition sized :: "int \<times> int \<times> int \<Rightarrow> int \<times> int \<times> int \<Rightarrow> int \<times> int \<times> int \<Rightarrow> int \<times> int \<times> int \<Rightarrow> int \<Rightarrow> ChartConfig \<Rightarrow> ChartConfig" where
  "sized app sql proxy lt posts c =
     (case (app, sql, proxy, lt) of
        ((an, ac, am), (sn, sc, sm), (pn, pc, pm), (tn, lc, lm)) \<Rightarrow>
          c\<lparr>App := (App c)\<lparr>app_ReplicaCount := an, app_Resources := requests ac am\<rparr>,
            MySQLHA := (MySQLHA c)\<lparr>sql_ReplicaCount := sn, sql_Resources := requests sc sm\<rparr>,
            Proxy := (Proxy c)\<lparr>proxy_ReplicaCount := pn, proxy_Resources := requests pc pm\<rparr>,
            Global := (Global c)\<lparr>Features := (Features (Global c))\<lparr>LoadTest :=
              (LoadTest (Features (Global c)))\<lparr>lt_ReplicaCount := tn, lt_Resources := requests lc lm, lt_NumPosts := posts\<rparr>\<rparr>\<rparr>\<rparr>)"

definition choose_size :: "int \<Rightarrow> ChartConfig \<Rightarrow> ChartConfig" where
  "choose_size users config =
     (if users \<le> 5000 then sized (2, 2, 4) (2, 2, 4) (1, 2, 4) (1, 2, 4) 5000000 config
      else if users \<le> 10000 then sized (2, 4, 8) (2, 4, 8) (2, 2, 4) (2, 2, 4) 10000000 config
      else if users \<le> 20000 then sized (4, 4, 8) (4, 4, 16) (3, 2, 4) (3, 2, 4) 20000000 config
      else if users \<le> 30000 then sized (4, 4, 8) (4, 4, 32) (4, 2, 4) (4, 2, 4) 30000000 config
      else sized (5, 4, 16) (6, 4, 64) (6, 2, 8) (6, 4, 8) 60000000 config)"

definition set_entities :: "int \<Rightarrow> ChartConfig \<Rightarrow> ChartConfig" where
  "set_entities n c =
     c\<lparr>Global := (Global c)\<lparr>Features := (Features (Global c))\<lparr>LoadTest := (LoadTest (Features (Global c)))\<lparr>lt_NumActiveEntities := n\<rparr>\<rparr>\<rparr>\<rparr>"

definition getStandardConfig :: "int \<Rightarrow> ChartConfig" where
  "getStandardConfig users =
     (let config = choose_size users (base_config users)
      in set_entities (go_div users (lt_ReplicaCount (LoadTest (Features (Global config))))) config)"

text \<open>\<open>nodes\<close> are the capacities of the nodes, cores and bytes, or the error of the request. \<open>show\<close> prints a quantity.\<close>

definition GetHelmConfigFromProfile :: "(rat \<Rightarrow> string) \<Rightarrow> string + (rat \<times> rat) list \<Rightarrow> string \<Rightarrow> int \<Rightarrow> string \<Rightarrow> (string + ChartConfig) option" where
  "GetHelmConfigFromProfile show nodes profile users license =
     (if profile \<noteq> PROFILE_STANDARD then Some (Inl (''unrecognized profile '' @ profile))
      else
        (let config = getStandardConfig users;
             config = config\<lparr>Global := (Global config)\<lparr>MattermostLicense := license\<rparr>\<rparr>
         in case nodes of
              Inl err \<Rightarrow> Some (Inl err)
            | Inr ns \<Rightarrow>
                (let totalCPUCapacity = foldl (\<lambda>t n. t + fst n) (cpu 0) ns;
                     totalMemoryCapacity = foldl (\<lambda>t n. t + snd n) (memory 0) ns
                 in case TotalCPURequests config of
                      None \<Rightarrow> None
                    | Some cpus \<Rightarrow>
                        if totalCPUCapacity < cpus
                        then Some (Inl (''not enough cpu capacity in kubernetes cluster, capacity='' @ show totalCPUCapacity @ '' cores, required='' @ show cpus @ '' cores''))
                        else (case TotalMemoryRequests config of
                                None \<Rightarrow> None
                              | Some mem \<Rightarrow>
                                  if totalMemoryCapacity < mem
                                  then Some (Inl (''not enough memory capacity in kubernetes cluster, capacity='' @ show totalMemoryCapacity @ '', required='' @ show mem))
                                  else Some (Inr config)))))"

section \<open>What the sizes request\<close>

lemma add_requests_eq: "add_requests n (Some x) t = Some (t + of_nat n * x)"
  by (induction n arbitrary: t) (simp_all add: algebra_simps)

text \<open>The requests as a table.\<close>

definition cores_needed :: "int \<Rightarrow> rat" where
  "cores_needed users = (if users \<le> 5000 then 14 else if users \<le> 10000 then 26 else if users \<le> 20000 then 46 else if users \<le> 30000 then 50 else 82)"

definition gib_needed :: "int \<Rightarrow> rat" where
  "gib_needed users = (if users \<le> 5000 then 26 else if users \<le> 10000 then 50 else if users \<le> 20000 then 122 else if users \<le> 30000 then 194 else 562)"

lemma total_sized:
  assumes "0 \<le> an" "0 \<le> sn" "0 \<le> pn" "0 \<le> tn"
  shows "TotalCPURequests (sized (an, ac, am) (sn, sc, sm) (pn, pc, pm) (tn, lc, lm) posts c) =
      Some (of_int (an * ac + sn * sc + pn * pc + tn * lc + 2))"
    and "TotalMemoryRequests (sized (an, ac, am) (sn, sc, sm) (pn, pc, pm) (tn, lc, lm) posts c) =
      Some (of_int (an * am + sn * sm + pn * pm + tn * lm + 2) * 2 ^ 30)"
  using assms
  by (simp_all add: TotalCPURequests_def TotalMemoryRequests_def total_requests_def sized_def requests_def no_resources_def add_requests_eq
      cpu_def memory_def algebra_simps)

lemma set_entities_total [simp]:
  "TotalCPURequests (set_entities n c) = TotalCPURequests c" "TotalMemoryRequests (set_entities n c) = TotalMemoryRequests c"
  "TotalCPURequests (c\<lparr>Global := (Global c)\<lparr>MattermostLicense := l\<rparr>\<rparr>) = TotalCPURequests c"
  "TotalMemoryRequests (c\<lparr>Global := (Global c)\<lparr>MattermostLicense := l\<rparr>\<rparr>) = TotalMemoryRequests c"
  by (simp_all add: TotalCPURequests_def TotalMemoryRequests_def total_requests_def set_entities_def)

lemma standard_totals:
  "TotalCPURequests (getStandardConfig users) = Some (cores_needed users)"
  "TotalMemoryRequests (getStandardConfig users) = Some (gib_needed users * 2 ^ 30)"
  by (simp_all add: getStandardConfig_def Let_def choose_size_def total_sized cores_needed_def gib_needed_def)

lemma foldl_sum: "foldl (\<lambda>t n. t + f n) (a :: rat) ns = a + sum_list (map f ns)"
  by (induction ns arbitrary: a) (simp_all add: add.assoc)

text \<open>C37. The standard profile never dereferences a nil pointer, and it is accepted exactly when the nodes together have the cores and
  the memory that the table says, two cores and two GiB of them a reserve; an accepted configuration has at least one load test
  agent, the agents together have at most as many active entities as there are users, and fewer than one per agent are missing.\<close>

theorem standard_profile_fits:
  assumes "0 \<le> users"
  shows "\<exists>r. GetHelmConfigFromProfile show (Inr nodes) PROFILE_STANDARD users license = Some r \<and>
    ((\<exists>config. r = Inr config) \<longleftrightarrow> cores_needed users \<le> sum_list (map fst nodes) \<and> gib_needed users * 2 ^ 30 \<le> sum_list (map snd nodes)) \<and>
    (\<forall>config. r = Inr config \<longrightarrow>
       (let lt = LoadTest (Features (Global config)) in
        MattermostLicense (Global config) = license \<and> 0 < lt_ReplicaCount lt \<and> lt_NumUsers lt = users \<and>
        lt_ReplicaCount lt * lt_NumActiveEntities lt \<le> users \<and> users < lt_ReplicaCount lt * (lt_NumActiveEntities lt + 1)))"
proof -
  let ?config = "(getStandardConfig users)\<lparr>Global := (Global (getStandardConfig users))\<lparr>MattermostLicense := license\<rparr>\<rparr>"
  let ?lt = "LoadTest (Features (Global ?config))"
  have totals: "TotalCPURequests ?config = Some (cores_needed users)" "TotalMemoryRequests ?config = Some (gib_needed users * 2 ^ 30)"
    by (simp_all add: standard_totals)
  have lt: "0 < lt_ReplicaCount ?lt" "lt_NumUsers ?lt = users" "lt_NumActiveEntities ?lt = users div lt_ReplicaCount ?lt"
    using assms by (auto simp: getStandardConfig_def set_entities_def choose_size_def sized_def base_config_def Let_def go_div_nonneg)
  have entities: "lt_ReplicaCount ?lt * lt_NumActiveEntities ?lt \<le> users" "users < lt_ReplicaCount ?lt * (lt_NumActiveEntities ?lt + 1)"
  proof -
    have "users = lt_ReplicaCount ?lt * lt_NumActiveEntities ?lt + users mod lt_ReplicaCount ?lt" by (simp only: lt(3) mult_div_mod_eq)
    moreover have "0 \<le> users mod lt_ReplicaCount ?lt" "users mod lt_ReplicaCount ?lt < lt_ReplicaCount ?lt" using lt(1) by simp_all
    ultimately show "lt_ReplicaCount ?lt * lt_NumActiveEntities ?lt \<le> users" "users < lt_ReplicaCount ?lt * (lt_NumActiveEntities ?lt + 1)"
      by (linarith, simp add: distrib_left)
  qed
  let ?fits = "cores_needed users \<le> sum_list (map fst nodes) \<and> gib_needed users * 2 ^ 30 \<le> sum_list (map snd nodes)"
  have run: "\<exists>r. GetHelmConfigFromProfile show (Inr nodes) PROFILE_STANDARD users license = Some r \<and>
      (if ?fits then r = Inr ?config else \<exists>e. r = Inl e)"
    unfolding GetHelmConfigFromProfile_def Let_def totals
    by (auto simp: foldl_sum cpu_def memory_def not_less)
  then obtain r where r: "GetHelmConfigFromProfile show (Inr nodes) PROFILE_STANDARD users license = Some r"
    "if ?fits then r = Inr ?config else \<exists>e. r = Inl e" by blast
  have "MattermostLicense (Global ?config) = license" by simp
  then have "r = Inr config \<Longrightarrow> (let lt = LoadTest (Features (Global config)) in
        MattermostLicense (Global config) = license \<and> 0 < lt_ReplicaCount lt \<and> lt_NumUsers lt = users \<and>
        lt_ReplicaCount lt * lt_NumActiveEntities lt \<le> users \<and> users < lt_ReplicaCount lt * (lt_NumActiveEntities lt + 1))" for config
    using r(2) lt(1,2) entities by (auto simp: Let_def simp del: update_convs split: if_splits)
  then show ?thesis using r by (intro exI [of _ r]) (auto split: if_splits)
qed

theorem standard_profile_fits_witness:
  "\<exists>config. GetHelmConfigFromProfile (\<lambda>_. []) (Inr [(8, 16 * 2 ^ 30), (8, 16 * 2 ^ 30)]) PROFILE_STANDARD 3000 ''l'' = Some (Inr config)"
proof -
  have "(0 :: int) \<le> 3000" by simp
  from standard_profile_fits [OF this, of "\<lambda>_. []" "[(8, 16 * 2 ^ 30), (8, 16 * 2 ^ 30)]" "''l''"]
  show ?thesis by (auto simp: cores_needed_def gib_needed_def)
qed

end
