(* ===== verification/Kubernetes_Cluster.thy ===== *)
theory Kubernetes_Cluster
  imports Helm_Profile
begin

text \<open>
  Package \<^verbatim>\<open>kubernetes\<close>: a cluster that runs as a helm release, its creation and its file, what it answers about its pods and its
  database, deployment, the import of the bulk data, and the test on the load test pods.
\<close>

section \<open>A cluster\<close>

text \<open>\<open>Kubernetes\<close>: whether the cluster is connected. The methods are those of a connected one: \<open>GetCluster\<close> connects every
  cluster before it returns it.\<close>

record kube_cluster =
  kube_Config :: ClusterConfig
  ReleaseName :: string
  Kubernetes :: bool

definition KUBERNETES_TYPE :: string where "KUBERNETES_TYPE = ''kubernetes''"

text \<open>What the cluster answers, which depends on the commands run so far: the names of the pods with a label, the load balancer's
  addresses of a service, and the capacities of the nodes.\<close>

record kube_api =
  list_pods :: "(string \<times> string list) list \<Rightarrow> string \<Rightarrow> string + string list"
  ingress_ips :: "(string \<times> string list) list \<Rightarrow> string \<Rightarrow> string + string list"
  kube_nodes :: "(string \<times> string list) list \<Rightarrow> string + (rat \<times> rat) list"
  client_config :: "string option"

text \<open>\<open>client_config\<close> is the error of reading the configuration or of building a client from it.\<close>

definition Connect :: "kube_api \<Rightarrow> kube_cluster \<Rightarrow> string + kube_cluster" where
  "Connect api c =
     (if Kubernetes c then Inr c
      else case client_config api of Some err \<Rightarrow> Inl err | None \<Rightarrow> Inr (c\<lparr>Kubernetes := True\<rparr>))"

text \<open>\<open>Kubernetes\<close> is not stored.\<close>

definition kube_to_json :: "kube_cluster \<Rightarrow> json" where
  "kube_to_json c = JObj [(''Config'', config_to_json (kube_Config c)), (''ReleaseName'', JStr (ReleaseName c))]"

definition kube_of_json :: "json \<Rightarrow> string + kube_cluster" where
  "kube_of_json j =
     bind_sum (get_obj j) (\<lambda>j.
     bind_sum (config_of_json (field ''Config'' j)) (\<lambda>config.
     bind_sum (get_str (field ''ReleaseName'' j)) (\<lambda>release.
     Inr \<lparr>kube_Config = config, ReleaseName = release, Kubernetes = False\<rparr>)))"

definition kube_saveCluster :: "machine_env \<Rightarrow> kube_cluster \<Rightarrow> string \<Rightarrow> (machine, unit) op" where
  "kube_saveCluster e cluster dir =
     andThen (ensure_dir e dir) (\<lambda>_.
     wrapped ''unable to write cluster'' (write_file e (filepath_join dir infoFilename) (Json (kube_to_json cluster))))"

definition kube_CreateCluster :: "machine_env \<Rightarrow> ClusterConfig \<Rightarrow> (machine, kube_cluster) op" where
  "kube_CreateCluster e cfg =
     andThen (run_cmd e ''kubectl'' [''get'', ''nodes'']) (\<lambda>r.
     case cmd_fail r of
       Some err \<Rightarrow> fail (''error running '' @ [CHR 0x27] @ ''kubectl get nodes'' @ [CHR 0x27]
         @ '', make sure your kubeconfig is correct. error from kubectl: '' @ combined r)
     | None \<Rightarrow>
         andThen (wrapped ''unable to run helm'' (run_checked e ''helm'' [''ls''])) (\<lambda>_.
         andThen (wrapped ''unable to add incubator helm repo''
           (run_checked e ''helm'' [''repo'', ''add'', ''incubator'', ''https://kubernetes-charts-incubator.storage.googleapis.com/''])) (\<lambda>_.
         andThen (wrapped ''unable to add mattermost helm repo'' (run_checked e ''helm'' [''repo'', ''add'', ''mattermost'', ''https://helm.mattermost.com''])) (\<lambda>_.
         let cluster = \<lparr>kube_Config = cfg\<lparr>Type := KUBERNETES_TYPE\<rparr>, ReleaseName = [], Kubernetes = False\<rparr> in
         andThen (kube_saveCluster e cluster (WorkingDirectory cfg)) (\<lambda>_.
         ret cluster)))))"

section \<open>What it answers\<close>

definition pods_labelled :: "kube_api \<Rightarrow> kube_cluster \<Rightarrow> string \<Rightarrow> machine \<Rightarrow> string + string list" where
  "pods_labelled api c selector m = (if length (ReleaseName c) = 0 then Inr [] else list_pods api (commands_run m) selector)"

definition kube_AppAddrs :: "kube_api \<Rightarrow> kube_cluster \<Rightarrow> machine \<Rightarrow> string + string list" where
  "kube_AppAddrs api c = pods_labelled api c (''release='' @ ReleaseName c @ '',app=mattermost-helm'')"

definition kube_LoadtestAddrs :: "kube_api \<Rightarrow> kube_cluster \<Rightarrow> machine \<Rightarrow> string + string list" where
  "kube_LoadtestAddrs api c = pods_labelled api c (''app=mattermost-helm-loadtest,release='' @ ReleaseName c)"

definition kube_ProxyAddrs :: "kube_api \<Rightarrow> kube_cluster \<Rightarrow> machine \<Rightarrow> string + string list" where
  "kube_ProxyAddrs api c = pods_labelled api c (''release='' @ ReleaseName c @ '',app=nginx-ingress,component=controller'')"

definition first_ip :: "string list \<Rightarrow> string" where
  "first_ip ips = (if length ips = 0 \<or> ips ! 0 = [] then ''pending'' else ips ! 0)"

definition kube_SiteURL :: "kube_api \<Rightarrow> kube_cluster \<Rightarrow> machine \<Rightarrow> string" where
  "kube_SiteURL api c m =
     (if length (ReleaseName c) = 0 then []
      else case ingress_ips api (commands_run m) (ReleaseName c @ ''-nginx-ingress-controller'') of Inl err \<Rightarrow> [] | Inr ips \<Rightarrow> first_ip ips)"

definition kube_MetricsAddr :: "kube_api \<Rightarrow> kube_cluster \<Rightarrow> machine \<Rightarrow> string + string" where
  "kube_MetricsAddr api c m =
     (if length (ReleaseName c) = 0 then Inr []
      else case ingress_ips api (commands_run m) (ReleaseName c @ ''-grafana'') of Inl err \<Rightarrow> Inl err | Inr ips \<Rightarrow> Inr (first_ip ips))"

definition GetMetricsPodName :: "kube_api \<Rightarrow> kube_cluster \<Rightarrow> machine \<Rightarrow> string + string" where
  "GetMetricsPodName api c m =
     (if length (ReleaseName c) = 0 then Inr []
      else case list_pods api (commands_run m) (''app='' @ ReleaseName c @ ''-grafana'') of
             Inl err \<Rightarrow> Inl err
           | Inr pods \<Rightarrow> if length pods = 0 then Inl ''no grafana pods running'' else Inr (pods ! 0))"

definition mysql_string :: "string \<Rightarrow> string" where
  "mysql_string host = ''mmuser:passwd@tcp('' @ host @ '':3306)/mattermost?charset=utf8mb4,utf8&readTimeout=20s&writeTimeout=20s&timeout=20s''"

definition kube_DBDriverName :: string where "kube_DBDriverName = ''mysql''"

definition kube_DBConnectionString :: "kube_cluster \<Rightarrow> string" where
  "kube_DBConnectionString c =
     (if length (ReleaseName c) = 0 then [] else mysql_string (ReleaseName c @ ''-mysqlha-0.'' @ ReleaseName c @ ''-mysqlha''))"

definition kube_DBReaderConnectionStrings :: "kube_cluster \<Rightarrow> string list" where
  "kube_DBReaderConnectionStrings c = (if length (ReleaseName c) = 0 then [] else [mysql_string (ReleaseName c @ ''-mysqlha-readonly'')])"

definition kube_DBInstanceCount :: "kube_api \<Rightarrow> kube_cluster \<Rightarrow> machine \<Rightarrow> int" where
  "kube_DBInstanceCount api c m =
     (if length (ReleaseName c) = 0 then 0
      else case list_pods api (commands_run m) (''app='' @ ReleaseName c @ ''-mysqlha'') of Inl err \<Rightarrow> 0 | Inr pods \<Rightarrow> int (length pods))"

definition kube_DBSettings :: "kube_cluster \<Rightarrow> string + DBSettings" where
  "kube_DBSettings c =
     (if length (ReleaseName c) = 0 then Inl ''no release available''
      else Inr \<lparr>Username = ''mmuser'', Password = ''password'', Endpoint = ReleaseName c @ ''-mysqlha-0.'' @ ReleaseName c @ ''-mysqlha'',
                Port = 3306, Database = ''mattermost''\<rparr>)"

definition kube_Destroy :: "machine_env \<Rightarrow> kube_cluster \<Rightarrow> (machine, unit) op" where
  "kube_Destroy e c =
     andThen (run_combined e ''unable to delete release, error from helm: '' ''helm'' [''del'', ''--purge'', ReleaseName c]) (\<lambda>_.
     remove_all e (WorkingDirectory (kube_Config c)))"

section \<open>Deployment\<close>

definition chartFilename :: string where "chartFilename = ''chartconfig.yaml''"

text \<open>\<open>yaml\<close> prints a chart configuration.\<close>

definition saveChartConfig :: "machine_env \<Rightarrow> (ChartConfig \<Rightarrow> string) \<Rightarrow> ChartConfig \<Rightarrow> string \<Rightarrow> (machine, unit) op" where
  "saveChartConfig e yaml config dir =
     wrapped ''unable to write chart config'' (write_file e (filepath_join dir chartFilename) (Raw (yaml config)))"

definition chart_config :: "kube_api \<Rightarrow> (rat \<Rightarrow> string) \<Rightarrow> DeployOptions \<Rightarrow> string \<Rightarrow> (machine, ChartConfig) op" where
  "chart_config api show options license =
     andThen (look_at (\<lambda>m. kube_nodes api (commands_run m))) (\<lambda>nodes.
     case GetHelmConfigFromProfile show nodes (deploy_Profile options) (deploy_Users options) license of
       None \<Rightarrow> fail ''panic: nil pointer dereference''
     | Some r \<Rightarrow> given r)"

text \<open>The file with the chart's configuration: one made for the profile, or the one given.\<close>

definition chart_file :: "machine_env \<Rightarrow> kube_api \<Rightarrow> (ChartConfig \<Rightarrow> string) \<Rightarrow> (rat \<Rightarrow> string) \<Rightarrow> DeployOptions \<Rightarrow> string \<Rightarrow> string \<Rightarrow>
    (machine, string) op" where
  "chart_file e api yaml show options license dir =
     (if length (HelmConfigFile options) = 0
      then andThen (chart_config api show options license) (\<lambda>config.
           andThen (saveChartConfig e yaml config dir) (\<lambda>_.
           ret (filepath_join dir chartFilename)))
      else ret (HelmConfigFile options))"

definition upgrade_chart :: "machine_env \<Rightarrow> string \<Rightarrow> string \<Rightarrow> (machine, unit) op" where
  "upgrade_chart e location release =
     andThen (run_combined e ''unable to install mattermost chart, error from helm: ''
       ''helm'' [''upgrade'', ''-f'', location, release, ''mattermost/mattermost-enterprise-edition'']) (\<lambda>_.
     andThen (run_combined e ''unable to restart app server pods, error from kubectl: ''
       ''kubectl'' [''delete'', ''po'', ''-l'', ''release='' @ release @ '',app=mattermost-enterprise-edition'']) (\<lambda>_.
     run_combined e ''unable to restart loadtest pods, error from kubectl: ''
       ''kubectl'' [''delete'', ''po'', ''-l'', ''release='' @ release @ '',app=mattermost-enterprise-edition-loadtest'']))"

definition install_chart :: "machine_env \<Rightarrow> string \<Rightarrow> string \<Rightarrow> (machine, unit) op" where
  "install_chart e location name =
     run_combined e ''unable to install mattermost chart, error from helm: ''
       ''helm'' [''install'', ''-n'', name, ''-f'', location, ''mattermost/mattermost-enterprise-edition'']"

definition deployed_config :: "DeployOptions \<Rightarrow> ClusterConfig \<Rightarrow> ClusterConfig" where
  "deployed_config options cfg =
     (let cfg = (if Profile cfg \<noteq> deploy_Profile options \<or> Users cfg \<noteq> deploy_Users options then cfg\<lparr>BulkLoadComplete := False\<rparr> else cfg);
          cfg = cfg\<lparr>Profile := (if length (HelmConfigFile options) = 0 then deploy_Profile options else ''custom helm config'')\<rparr>
      in cfg\<lparr>Users := deploy_Users options\<rparr>)"

definition save_self :: "machine_env \<Rightarrow> (kube_cluster \<times> machine, unit) op" where
  "save_self e = andThen self (\<lambda>c. onHost (kube_saveCluster e c (WorkingDirectory (kube_Config c))))"

definition kube_Deploy :: "machine_env \<Rightarrow> sources \<Rightarrow> kube_api \<Rightarrow> (ChartConfig \<Rightarrow> string) \<Rightarrow> (rat \<Rightarrow> string) \<Rightarrow> DeployOptions \<Rightarrow>
    (kube_cluster \<times> machine, unit) op" where
  "kube_Deploy e src api yaml show options =
     andThen self (\<lambda>c.
     let previouslyDeployed = 0 < length (ReleaseName c);
         dir = WorkingDirectory (kube_Config c)
     in andThen (given (GetFileOrURL src (LicenseFile options))) (\<lambda>license.
        andThen (onHost (chart_file e api yaml show options license dir)) (\<lambda>configFileLocation.
        andThen
          (if previouslyDeployed then onHost (upgrade_chart e configFileLocation (ReleaseName c))
           else andThen (onHost (install_chart e configFileLocation (Name (kube_Config c)))) (\<lambda>_.
                update (\<lambda>c. c\<lparr>ReleaseName := Name (kube_Config c)\<rparr>))) (\<lambda>_.
        andThen (update (\<lambda>c. c\<lparr>kube_Config := deployed_config options (kube_Config c)\<rparr>)) (\<lambda>_.
        save_self e)))))"

section \<open>The test\<close>

definition results_file :: "string \<Rightarrow> string \<Rightarrow> string" where
  "results_file dir pod = filepath_join (filepath_join dir ''results'') (''loadtest-out-'' @ pod @ ''.txt'')"

definition tell_writer :: "bool \<Rightarrow> string \<Rightarrow> (machine, unit) op" where
  "tell_writer given_writer text m = (Inr (), if given_writer then m\<lparr>results_written := results_written m @ text\<rparr> else m)"

text \<open>The file is created before the command runs and receives both its outputs.\<close>

definition loadtestPod :: "machine_env \<Rightarrow> string \<Rightarrow> string \<Rightarrow> bool \<Rightarrow> (machine, unit) op" where
  "loadtestPod e dir pod resultsOutput =
     andThen (wrapped ''unable to create results directory.'' (make_dir e (filepath_join dir ''results''))) (\<lambda>_.
     andThen (wrapped ''unable to create loadtest results file.'' (write_file e (results_file dir pod) (Raw []))) (\<lambda>_.
     andThen (run_cmd e ''kubectl'' [''exec'', pod, ''./bin/loadtest'', ''all'']) (\<lambda>r.
     andThen (ignored (write_file e (results_file dir pod) (Raw (combined r)))) (\<lambda>_.
     andThen (tell_writer resultsOutput (cmd_out r)) (\<lambda>_.
     case cmd_fail r of None \<Rightarrow> ret () | Some err \<Rightarrow> fail err)))))"

definition copy_emoji :: "machine_env \<Rightarrow> string \<Rightarrow> string \<Rightarrow> string \<Rightarrow> (machine, unit) op" where
  "copy_emoji e dir loadtest_pod app_pod =
     andThen (tried (run_checked e ''kubectl'' [''cp'', loadtest_pod @ '':/mattermost-load-test/testfiles/test_emoji.png'', dir])) (\<lambda>copied.
     case copied of
       Inl _ \<Rightarrow> ret ()
     | Inr _ \<Rightarrow>
         andThen (run_checked e ''kubectl'' [''exec'', app_pod, ''--'', ''mkdir'', ''-p'', ''testfiles'']) (\<lambda>_.
         run_checked e ''kubectl'' [''cp'', filepath_join dir ''test_emoji.png'', app_pod @ '':/mattermost/testfiles/'']))"

definition import_args :: "string \<Rightarrow> int \<Rightarrow> string list" where
  "import_args app_pod workers =
     [''exec'', app_pod, ''--'', ''./bin/mattermost'', ''import'', ''bulk'', ''--workers'', itoa workers, ''--apply'', ''./loadtestbulkload.json'']"

text \<open>The commands of the import, in their order.\<close>

definition import_bulk_data :: "machine_env \<Rightarrow> string \<Rightarrow> string \<Rightarrow> string \<Rightarrow> int \<Rightarrow> (machine, unit) op" where
  "import_bulk_data e dir loadtest_pod app_pod workers =
     andThen (wrapped ''unable to run genbulkload'' (run_checked e ''kubectl'' [''exec'', loadtest_pod, ''./bin/loadtest'', ''genbulkload''])) (\<lambda>_.
     andThen (run_checked e ''kubectl'' [''cp'', loadtest_pod @ '':/mattermost-load-test/loadtestbulkload.json'', dir]) (\<lambda>_.
     andThen (run_checked e ''kubectl'' [''cp'', filepath_join dir ''loadtestbulkload.json'', app_pod @ '':/mattermost/'']) (\<lambda>_.
     andThen (copy_emoji e dir loadtest_pod app_pod) (\<lambda>_.
     andThen (ignored (run_cmd e ''kubectl'' [''exec'', app_pod, ''--'', ''./bin/mattermost'', ''user'', ''create'', ''--email'',
       ''success+ltadmin@simulator.amazonses.com'', ''--username'', ''ltadmin'', ''--password'', ''LTpassword1@#$'', ''--system_admin''])) (\<lambda>_.
     run_combined e ''bulk import failed: '' ''kubectl'' (import_args app_pod workers))))))"

definition bulkLoad :: "machine_env \<Rightarrow> string \<Rightarrow> string \<Rightarrow> int \<Rightarrow> bool \<Rightarrow> (kube_cluster \<times> machine, unit) op" where
  "bulkLoad e loadtest_pod app_pod workers force =
     andThen self (\<lambda>c.
     if BulkLoadComplete (kube_Config c) \<and> \<not> force then ret ()
     else
       andThen (onHost (import_bulk_data e (WorkingDirectory (kube_Config c)) loadtest_pod app_pod workers)) (\<lambda>_.
       andThen (update (\<lambda>c. c\<lparr>kube_Config := (kube_Config c)\<lparr>BulkLoadComplete := True\<rparr>\<rparr>)) (\<lambda>_.
       save_self e)))"

text \<open>\<open>errors.Wrap\<close> of a nil error is nil: without pods, but without an error either, the test succeeds at once. The pods are
  tested concurrently; each has a file of its own, and here one follows the other in the order they are started.\<close>

definition kube_Loadtest :: "machine_env \<Rightarrow> kube_api \<Rightarrow> LoadTestOptions \<Rightarrow> (kube_cluster \<times> machine, unit) op" where
  "kube_Loadtest e api options =
     andThen self (\<lambda>c.
     andThen (onHost (look_at (kube_LoadtestAddrs api c))) (\<lambda>loadtestPods.
     case loadtestPods of
       Inl err \<Rightarrow> fail (''unable to get loadtest pods: '' @ err)
     | Inr [] \<Rightarrow> ret ()
     | Inr (pod # pods) \<Rightarrow>
     andThen (onHost (look_at (kube_AppAddrs api c))) (\<lambda>appPods.
     case appPods of
       Inl err \<Rightarrow> fail (''unable to get app pods: '' @ err)
     | Inr [] \<Rightarrow> ret ()
     | Inr (app_pod # _) \<Rightarrow>
     andThen (if SkipBulkLoad options then ret () else bulkLoad e pod app_pod (Workers options) (ForceBulkLoad options)) (\<lambda>_.
     let dir = WorkingDirectory (kube_Config c) in
     andThen (onHost (ignored (loadtestPod e dir pod (ResultsWriter options)))) (\<lambda>_.
     onHost (forEach (\<lambda>pod. ignored (loadtestPod e dir pod False)) pods))))))"

end
