(* ===== verification/Stored_Clusters.thy ===== *)
theory Stored_Clusters
  imports Terraform_Cluster Kubernetes_Cluster
begin

text \<open>
  \<^verbatim>\<open>cmd/ltops/load.go\<close>: reading a stored cluster of either kind. What both kinds promise of their stored form is a locale, from
  which it follows what a later process sees of a cluster that an earlier one saved.
\<close>

section \<open>Loading\<close>

datatype ltops_cluster = Terraform terraform_cluster | Kube kube_cluster

text \<open>The configuration is decoded first, for its type. A nil dereference is an error that begins with \<^verbatim>\<open>panic\<close>.\<close>

definition UnmarshalJSON :: "json \<Rightarrow> string + ClusterConfig" where
  "UnmarshalJSON j =
     (case j of
        JObj fs \<Rightarrow> (case map_of fs ''Config'' of
                     None \<Rightarrow> Inl ''missing cluster config''
                   | Some JNull \<Rightarrow> Inl ''panic: nil pointer dereference''
                   | Some config \<Rightarrow> config_of_json config)
      | JNull \<Rightarrow> Inl ''panic: nil pointer dereference''
      | _ \<Rightarrow> type_error)"

definition GetCluster :: "kube_api \<Rightarrow> ClusterConfig \<Rightarrow> json \<Rightarrow> string + ltops_cluster" where
  "GetCluster api config bytes =
     (let clusterType = Type config in
      if clusterType = TERRAFORM_TYPE then bind_sum (terraform_of_json bytes) (\<lambda>c. Inr (Terraform c))
      else if clusterType = KUBERNETES_TYPE
        then bind_sum (kube_of_json bytes) (\<lambda>c. bind_sum (Connect api c) (\<lambda>c. Inr (Kube c)))
      else Inl (''unrecognized cluster type: '' @ clusterType))"

definition LoadCluster :: "kube_api \<Rightarrow> string \<Rightarrow> machine \<Rightarrow> string + ltops_cluster" where
  "LoadCluster api dir m =
     (case files m (filepath_join dir infoFilename) of
        None \<Rightarrow> Inl ''unable to read cluster info''
      | Some (Raw _) \<Rightarrow> Inl ''unable to unmarshal cluster info''
      | Some (Json j) \<Rightarrow>
          (case UnmarshalJSON j of
             Inl err \<Rightarrow> Inl (''unable to unmarshal cluster info: '' @ err)
           | Inr config \<Rightarrow> GetCluster api config j))"

section \<open>What a stored form promises\<close>

text \<open>\<open>forget\<close> drops what is not stored; \<open>finish\<close> is what loading does after decoding.\<close>

locale cluster_store =
  fixes to_json :: "'c \<Rightarrow> json"
    and of_json :: "json \<Rightarrow> string + 'c"
    and config :: "'c \<Rightarrow> ClusterConfig"
    and forget :: "'c \<Rightarrow> 'c"
    and finish :: "kube_api \<Rightarrow> 'c \<Rightarrow> string + ltops_cluster"
    and tag :: string
  assumes decode: "of_json (to_json c) = Inr (forget c)"
    and config_first: "\<exists>rest. to_json c = JObj ((''Config'', config_to_json (config c)) # rest)"
    and stored_once: "to_json (forget c) = to_json c"
    and dispatch: "Type cfg = tag \<Longrightarrow> GetCluster api cfg j = bind_sum (of_json j) (finish api)"
begin

lemma config_read: "UnmarshalJSON (to_json c) = Inr (config c)"
proof -
  obtain rest where "to_json c = JObj ((''Config'', config_to_json (config c)) # rest)" using config_first by blast
  then show ?thesis by (simp add: UnmarshalJSON_def config_to_json_def split: json.split) (simp flip: config_to_json_def)
qed

text \<open>A process that loads what another has stored works on the same cluster without what is not stored.\<close>

lemma loaded:
  assumes "files m (filepath_join dir infoFilename) = Some (Json (to_json c))" "Type (config c) = tag"
  shows "LoadCluster api dir m = finish api (forget c)"
  by (simp add: LoadCluster_def assms config_read dispatch decode)

lemma forget_forget [simp]: "forget (forget c) = forget c"
  using decode [of "forget c"] by (simp add: stored_once decode)

text \<open>Loading and storing again changes nothing.\<close>

lemma load_store_load:
  assumes "files m (filepath_join dir infoFilename) = Some (Json (to_json c))" "Type (config c) = tag"
    and "files m' (filepath_join dir infoFilename) = Some (Json (to_json (forget c)))"
  shows "LoadCluster api dir m' = LoadCluster api dir m"
  by (simp add: LoadCluster_def assms stored_once)

end

section \<open>Both kinds of clusters\<close>

definition forget_parameters :: "terraform_cluster \<Rightarrow> terraform_cluster" where
  "forget_parameters c = c\<lparr>Env := (Env c)\<lparr>parameters := None\<rparr>\<rparr>"

definition disconnected :: "kube_cluster \<Rightarrow> kube_cluster" where
  "disconnected c = c\<lparr>Kubernetes := False\<rparr>"

interpretation terraform_store: cluster_store terraform_to_json terraform_of_json Config forget_parameters "\<lambda>api c. Inr (Terraform c)" TERRAFORM_TYPE
proof
  show "terraform_of_json (terraform_to_json c) = Inr (forget_parameters c)" for c
    by (cases c, cases "Env c") (simp add: terraform_of_json_def terraform_to_json_def forget_parameters_def)
  show "\<exists>rest. terraform_to_json c = JObj ((''Config'', config_to_json (Config c)) # rest)" for c
    by (auto simp: terraform_to_json_def)
  show "terraform_to_json (forget_parameters c) = terraform_to_json c" for c
    by (simp add: terraform_to_json_def forget_parameters_def)
  show "Type cfg = TERRAFORM_TYPE \<Longrightarrow> GetCluster api cfg j = bind_sum (terraform_of_json j) (\<lambda>c. Inr (Terraform c))" for cfg api j
    by (simp add: GetCluster_def)
qed

interpretation kube_store: cluster_store kube_to_json kube_of_json kube_Config disconnected "\<lambda>api c. bind_sum (Connect api c) (\<lambda>c. Inr (Kube c))" KUBERNETES_TYPE
proof
  show "kube_of_json (kube_to_json c) = Inr (disconnected c)" for c
    by (cases c) (simp add: kube_of_json_def kube_to_json_def disconnected_def)
  show "\<exists>rest. kube_to_json c = JObj ((''Config'', config_to_json (kube_Config c)) # rest)" for c
    by (auto simp: kube_to_json_def)
  show "kube_to_json (disconnected c) = kube_to_json c" for c
    by (simp add: kube_to_json_def disconnected_def)
  show "Type cfg = KUBERNETES_TYPE \<Longrightarrow> GetCluster api cfg j = bind_sum (kube_of_json j) (\<lambda>c. bind_sum (Connect api c) (\<lambda>c. Inr (Kube c)))" for cfg api j
    by (simp add: GetCluster_def TERRAFORM_TYPE_def KUBERNETES_TYPE_def)
qed

section \<open>Saving and loading\<close>

lemma ensure_dir_files: "ensure_dir e dir m = (r, m') \<Longrightarrow> files m' = files m"
  by (auto simp: ensure_dir_def make_dir_def split: if_splits option.splits bool.splits)

lemma write_file_ok: "write_file e path c m = (Inr (), m') \<Longrightarrow> files m' path = Some c"
  by (auto simp: write_file_def split: option.splits)

lemma terraform_saved: "terraform_saveCluster e c dir m = (Inr (), m') \<Longrightarrow> files m' (filepath_join dir infoFilename) = Some (Json (terraform_to_json c))"
  by (simp add: terraform_saveCluster_def write_file_ok)

lemma kube_saved: "kube_saveCluster e c dir m = (Inr (), m') \<Longrightarrow> files m' (filepath_join dir infoFilename) = Some (Json (kube_to_json c))"
  by (auto simp: kube_saveCluster_def andThen_Inr write_file_ok)

text \<open>C38. What a successful \<open>saveCluster\<close> wrote, \<open>LoadCluster\<close> reads back: a terraform cluster with its configuration, key, password
  and directory, but without the parameters, so that its commands run the \<^verbatim>\<open>terraform\<close> of the search path whatever program the
  cluster was created with; a kubernetes cluster as it was, connected anew.\<close>

theorem LoadCluster_restores:
  "(Type (Config t) = TERRAFORM_TYPE \<and> terraform_saveCluster e t dir m = (Inr (), m1) \<longrightarrow>
      (\<exists>t'. LoadCluster api dir m1 = Inr (Terraform t') \<and> Config t' = Config t \<and> SSHPrivateKeyPEM t' = SSHPrivateKeyPEM t \<and>
        DBPassword t' = DBPassword t \<and> env_WorkingDirectory (Env t') = env_WorkingDirectory (Env t) \<and> terraformExe (Env t') = ''terraform'')) \<and>
   (Type (kube_Config k) = KUBERNETES_TYPE \<and> kube_saveCluster e k dir m = (Inr (), m2) \<and> client_config api = None \<longrightarrow>
      LoadCluster api dir m2 = Inr (Kube (k\<lparr>Kubernetes := True\<rparr>)))"
proof (intro conjI impI; elim conjE)
  assume "Type (Config t) = TERRAFORM_TYPE" "terraform_saveCluster e t dir m = (Inr (), m1)"
  then have "LoadCluster api dir m1 = Inr (Terraform (forget_parameters t))" by (intro terraform_store.loaded terraform_saved)
  then show "\<exists>t'. LoadCluster api dir m1 = Inr (Terraform t') \<and> Config t' = Config t \<and> SSHPrivateKeyPEM t' = SSHPrivateKeyPEM t \<and>
      DBPassword t' = DBPassword t \<and> env_WorkingDirectory (Env t') = env_WorkingDirectory (Env t) \<and> terraformExe (Env t') = ''terraform''"
    by (simp add: forget_parameters_def terraformExe_def)
next
  assume "Type (kube_Config k) = KUBERNETES_TYPE" "kube_saveCluster e k dir m = (Inr (), m2)" "client_config api = None"
  then have "LoadCluster api dir m2 = bind_sum (Connect api (disconnected k)) (\<lambda>c. Inr (Kube c))" by (intro kube_store.loaded kube_saved)
  then show "LoadCluster api dir m2 = Inr (Kube (k\<lparr>Kubernetes := True\<rparr>))"
    using \<open>client_config api = None\<close> by (simp add: Connect_def disconnected_def)
qed

lemma saved_quietly:
  "terraform_saveCluster quiet_env t dir m = (Inr (), m\<lparr>files := (files m)(filepath_join dir infoFilename \<mapsto> Json (terraform_to_json t))\<rparr>)"
  "kube_saveCluster quiet_env k dir m = (Inr (), m\<lparr>files := (files m)(filepath_join dir infoFilename \<mapsto> Json (kube_to_json k))\<rparr>)"
  by (simp_all add: terraform_saveCluster_def kube_saveCluster_def andThen_def)

definition empty_api :: kube_api where
  "empty_api = \<lparr>list_pods = (\<lambda>_ _. Inr []), ingress_ips = (\<lambda>_ _. Inr []), kube_nodes = (\<lambda>_. Inr []), client_config = None\<rparr>"

definition stored_terraform :: terraform_cluster where
  "stored_terraform = \<lparr>Config = zero_cluster_config\<lparr>Name := ''c'', Type := TERRAFORM_TYPE\<rparr>, SSHPrivateKeyPEM = ''key'', DBPassword = ''pw'',
     Env = \<lparr>env_WorkingDirectory = ''d'', TerraformFilename = ''cluster.tf'', parameters = None\<rparr>\<rparr>"

definition sample_kube :: kube_cluster where
  "sample_kube = \<lparr>kube_Config = zero_cluster_config\<lparr>Name := ''c'', Type := KUBERNETES_TYPE, WorkingDirectory := ''d''\<rparr>, ReleaseName = ''r'', Kubernetes = True\<rparr>"

theorem LoadCluster_restores_witness:
  "(\<exists>t'. LoadCluster empty_api ''d'' (snd (terraform_saveCluster quiet_env stored_terraform ''d'' idle_machine)) = Inr (Terraform t') \<and> DBPassword t' = ''pw'') \<and>
   LoadCluster empty_api ''d'' (snd (kube_saveCluster quiet_env sample_kube ''d'' idle_machine)) = Inr (Kube sample_kube)"
proof -
  let ?m1 = "snd (terraform_saveCluster quiet_env stored_terraform ''d'' idle_machine)"
  let ?m2 = "snd (kube_saveCluster quiet_env sample_kube ''d'' idle_machine)"
  have saves: "terraform_saveCluster quiet_env stored_terraform ''d'' idle_machine = (Inr (), ?m1)"
    "kube_saveCluster quiet_env sample_kube ''d'' idle_machine = (Inr (), ?m2)"
    by (simp_all only: saved_quietly snd_conv)
  have types: "Type (Config stored_terraform) = TERRAFORM_TYPE" "Type (kube_Config sample_kube) = KUBERNETES_TYPE" "client_config empty_api = None"
    by (simp_all add: stored_terraform_def sample_kube_def empty_api_def)
  note restores = LoadCluster_restores [of stored_terraform quiet_env "''d''" idle_machine ?m1 empty_api sample_kube ?m2]
  from restores saves types have "\<exists>t'. LoadCluster empty_api ''d'' ?m1 = Inr (Terraform t') \<and> DBPassword t' = DBPassword stored_terraform" by blast
  moreover from restores saves types have "LoadCluster empty_api ''d'' ?m2 = Inr (Kube (sample_kube\<lparr>Kubernetes := True\<rparr>))" by blast
  ultimately show ?thesis by (simp add: stored_terraform_def sample_kube_def)
qed

end
