(* ===== verification/Interactive_Shell.thy ===== *)
theory Interactive_Shell
  imports Op_Monad "HOL-Library.Sublist"
begin

text \<open>
  \<^verbatim>\<open>SSHInteractiveTerminal\<close> of \<^verbatim>\<open>sshtools/sshtools.go\<close>, from the connection on: the session, the raw mode and the size of the user's
  terminal, the shell, and the goroutine that sends the user's interrupts to it. What the function takes and gives back is seen as a
  stack of resources.
\<close>

section \<open>Resources\<close>

datatype tty_resource = Connection | Session | RawMode | InterruptHandler | Forwarder

datatype tty_event = Acquired tty_resource | Released tty_resource

text \<open>\<open>pty\<close>: the height and width of the pseudo terminal that was asked for; \<open>sigints\<close>: the interrupts sent.\<close>

record tty =
  held :: "tty_resource list"
  tty_events :: "tty_event list"
  pty :: "(int \<times> int) option"
  sigints :: nat

definition acquire :: "tty_resource \<Rightarrow> (tty, unit) op" where
  "acquire x s = (Inr (), s\<lparr>held := x # held s, tty_events := tty_events s @ [Acquired x]\<rparr>)"

definition give_back :: "tty_resource \<Rightarrow> tty \<Rightarrow> tty" where
  "give_back x s = s\<lparr>held := remove1 x (held s), tty_events := tty_events s @ [Released x]\<rparr>"

text \<open>A deferred call runs when the rest of the function is done, whatever came of it.\<close>

definition deferring :: "('s \<Rightarrow> 's) \<Rightarrow> ('s, 'a) op \<Rightarrow> ('s, 'a) op" where
  "deferring f m s = (case m s of (r, s) \<Rightarrow> (r, f s))"

definition check_error :: "string option \<Rightarrow> (tty, unit) op" where
  "check_error err = (case err of Some e \<Rightarrow> fail e | None \<Rightarrow> ret ())"

section \<open>Interrupts\<close>

text \<open>While the session lasts, interrupts arrive in a channel for 1000 of them, which drops those that find it full, and the goroutine
  takes them out one at a time; when it is told to stop, it leaves the others there.\<close>

datatype interrupt_event = Arrives | Taken

definition interrupt_channel :: nat where "interrupt_channel = 1000"

fun forwarded :: "nat \<Rightarrow> interrupt_event list \<Rightarrow> nat" where
  "forwarded queued [] = 0"
| "forwarded queued (Arrives # es) = forwarded (if queued < interrupt_channel then queued + 1 else queued) es"
| "forwarded queued (Taken # es) = (if queued = 0 then forwarded queued es else Suc (forwarded (queued - 1) es))"

section \<open>The terminal\<close>

text \<open>What the terminal, the session and the remote shell answer; \<open>terminal_size\<close> is width and height.\<close>

record tty_env =
  session_error :: "string option"
  is_terminal :: bool
  raw_error :: "string option"
  terminal_size :: "string + int \<times> int"
  pty_error :: "string option"
  shell_error :: "string option"
  interrupts :: "interrupt_event list"
  wait_error :: "string option"

definition request_pty :: "tty_env \<Rightarrow> int \<Rightarrow> int \<Rightarrow> (tty, unit) op" where
  "request_pty e h w s = check_error (pty_error e) (s\<lparr>pty := Some (h, w)\<rparr>)"

definition forward_interrupts :: "tty_env \<Rightarrow> (tty, unit) op" where
  "forward_interrupts e s = (Inr (), s\<lparr>sigints := sigints s + forwarded 0 (interrupts e)\<rparr>)"

text \<open>From \<open>signal.Notify\<close> on.\<close>

definition run_shell :: "tty_env \<Rightarrow> (tty, unit) op" where
  "run_shell e =
     andThen (acquire InterruptHandler) (\<lambda>_.
     deferring (give_back InterruptHandler)
       (andThen (check_error (shell_error e)) (\<lambda>_.
        andThen (acquire Forwarder) (\<lambda>_.
        deferring (give_back Forwarder)
          (andThen (forward_interrupts e) (\<lambda>_. check_error (wait_error e)))))))"

definition interactive_session :: "tty_env \<Rightarrow> (tty, unit) op" where
  "interactive_session e =
     andThen (acquire Connection) (\<lambda>_.
     deferring (give_back Connection)
       (andThen (check_error (session_error e)) (\<lambda>_.
        andThen (acquire Session) (\<lambda>_.
        deferring (give_back Session)
          (if is_terminal e
           then
             andThen (check_error (raw_error e)) (\<lambda>_.
             andThen (acquire RawMode) (\<lambda>_.
             deferring (give_back RawMode)
               (andThen (given (terminal_size e)) (\<lambda>(w, h).
                andThen (request_pty e h w) (\<lambda>_. run_shell e)))))
           else run_shell e)))))"

section \<open>Everything is given back\<close>

text \<open>An operation that takes the resources \<open>all\<close> in this order, or only the first ones when it fails, and gives back what it took in the
  reverse order.\<close>

definition nested :: "(tty, 'a) op \<Rightarrow> tty_resource list \<Rightarrow> bool" where
  "nested m all \<longleftrightarrow>
     (\<forall>s r s'. m s = (r, s') \<longrightarrow> held s' = held s \<and>
        (\<exists>xs. tty_events s' = tty_events s @ map Acquired xs @ map Released (rev xs) \<and> prefix xs all \<and> (\<forall>y. r = Inr y \<longrightarrow> xs = all)))"

text \<open>An operation that takes nothing.\<close>

definition taking_none :: "(tty, 'a) op \<Rightarrow> bool" where
  "taking_none m \<longleftrightarrow> (\<forall>s. held (snd (m s)) = held s \<and> tty_events (snd (m s)) = tty_events s)"

lemma taking_none_basic [simp]:
  "taking_none (check_error err)" "taking_none (request_pty e h w)" "taking_none (forward_interrupts e)" "taking_none (given v)"
  by (auto simp: taking_none_def check_error_def request_pty_def forward_interrupts_def given_def ret_def fail_def split: option.splits)

lemma nested_none [simp]: "taking_none m \<Longrightarrow> nested m []"
  unfolding nested_def taking_none_def by (metis append_Nil2 list.simps(8) prefix_order.refl rev.simps(1) snd_conv)

lemma nested_andThen:
  assumes "taking_none m" "\<And>x. nested (k x) all"
  shows "nested (andThen m k) all"
  unfolding nested_def
proof (intro allI impI)
  fix s r s' assume run: "andThen m k s = (r, s')"
  obtain q s1 where m: "m s = (q, s1)" by (metis prod.exhaust)
  have s1: "held s1 = held s" "tty_events s1 = tty_events s" using assms(1) m unfolding taking_none_def by (metis snd_conv)+
  show "held s' = held s \<and>
      (\<exists>xs. tty_events s' = tty_events s @ map Acquired xs @ map Released (rev xs) \<and> prefix xs all \<and> (\<forall>y. r = Inr y \<longrightarrow> xs = all))"
  proof (cases q)
    case (Inl err)
    with run m s1 show ?thesis by (intro conjI exI [of _ "[]"]) (auto simp: andThen_def)
  next
    case (Inr x)
    with run m have "k x s1 = (r, s')" by (simp add: andThen_def)
    with assms(2) [of x] s1 show ?thesis unfolding nested_def by metis
  qed
qed

text \<open>A resource that a deferred call releases.\<close>

lemma nested_acquire:
  assumes "nested m all"
  shows "nested (andThen (acquire x) (\<lambda>_. deferring (give_back x) m)) (x # all)"
  unfolding nested_def
proof (intro allI impI)
  fix s r s' assume run: "andThen (acquire x) (\<lambda>_. deferring (give_back x) m) s = (r, s')"
  let ?s = "s\<lparr>held := x # held s, tty_events := tty_events s @ [Acquired x]\<rparr>"
  obtain q s1 where m: "m ?s = (q, s1)" by (metis prod.exhaust)
  with run have s': "r = q" "s' = give_back x s1" by (simp_all add: andThen_def acquire_def deferring_def)
  obtain xs where "held s1 = x # held s" "tty_events s1 = tty_events ?s @ map Acquired xs @ map Released (rev xs)"
    "prefix (x # xs) (x # all)" "\<forall>y. q = Inr y \<longrightarrow> x # xs = x # all"
    using assms m unfolding nested_def by fastforce
  then have "held s' = held s" "tty_events s' = tty_events s @ map Acquired (x # xs) @ map Released (rev (x # xs))"
    "prefix (x # xs) (x # all)" "\<forall>y. r = Inr y \<longrightarrow> x # xs = x # all" by (simp_all add: s' give_back_def)
  then show "held s' = held s \<and>
      (\<exists>xs. tty_events s' = tty_events s @ map Acquired xs @ map Released (rev xs) \<and> prefix xs (x # all) \<and> (\<forall>y. r = Inr y \<longrightarrow> xs = x # all))"
    by blast
qed

lemmas nested_rules = nested_acquire nested_andThen nested_none taking_none_basic

lemma nested_run_shell: "nested (run_shell e) [InterruptHandler, Forwarder]"
  unfolding run_shell_def by (intro nested_rules)

definition all_resources :: "tty_env \<Rightarrow> tty_resource list" where
  "all_resources e = [Connection, Session] @ (if is_terminal e then [RawMode] else []) @ [InterruptHandler, Forwarder]"

lemma nested_interactive_session: "nested (interactive_session e) (all_resources e)"
proof (cases "is_terminal e")
  case True
  then show ?thesis
    by (simp add: interactive_session_def all_resources_def) (intro nested_rules nested_run_shell; simp split: prod.split; intro allI impI nested_rules nested_run_shell)
next
  case False
  then show ?thesis
    by (simp add: interactive_session_def all_resources_def) (intro nested_rules nested_run_shell)
qed

text \<open>C15. However an interactive session ends, the user's terminal is as it was before: what the function took (the connection, the
  session, the raw mode, the handler of interrupts and the goroutine that forwards them) is given back once each, in the reverse order,
  and when it fails half way, exactly what it had taken until then.\<close>

theorem interactive_session_gives_back:
  assumes "interactive_session e s = (r, s')"
  shows "held s' = held s \<and>
    (\<exists>xs. tty_events s' = tty_events s @ map Acquired xs @ map Released (rev xs) \<and> prefix xs (all_resources e) \<and> distinct xs \<and>
      (r = Inr () \<longrightarrow> xs = all_resources e))"
proof -
  have "distinct (all_resources e)" by (simp add: all_resources_def)
  then have "prefix xs (all_resources e) \<Longrightarrow> distinct xs" for xs by (auto simp: prefix_def)
  with nested_interactive_session [of e] assms show ?thesis unfolding nested_def by blast
qed

definition user_tty :: tty where
  "user_tty = \<lparr>held = [], tty_events = [], pty = None, sigints = 0\<rparr>"

definition small_terminal :: tty_env where
  "small_terminal = \<lparr>session_error = None, is_terminal = True, raw_error = None, terminal_size = Inr (80, 25), pty_error = Some ''no pty'',
     shell_error = None, interrupts = [Arrives, Taken], wait_error = None\<rparr>"

theorem interactive_session_gives_back_witness:
  "\<exists>s'. interactive_session small_terminal user_tty = (Inl ''no pty'', s') \<and> held s' = [] \<and> pty s' = Some (25, 80) \<and>
     tty_events s' = map Acquired [Connection, Session, RawMode] @ map Released [RawMode, Session, Connection]"
proof -
  have "\<exists>s'. interactive_session small_terminal user_tty = (Inl ''no pty'', s') \<and> pty s' = Some (25, 80) \<and>
    tty_events s' = map Acquired [Connection, Session, RawMode] @ map Released [RawMode, Session, Connection]"
    by (simp add: interactive_session_def small_terminal_def user_tty_def andThen_def deferring_def acquire_def give_back_def check_error_def ret_def
        given_def request_pty_def fail_def)
  then obtain s' where run: "interactive_session small_terminal user_tty = (Inl ''no pty'', s')" "pty s' = Some (25, 80)"
    "tty_events s' = map Acquired [Connection, Session, RawMode] @ map Released [RawMode, Session, Connection]" by blast
  have "held s' = []" using interactive_session_gives_back [OF run(1)] by (simp add: user_tty_def)
  with run show ?thesis by blast
qed

text \<open>No interrupt is sent that the user did not make, and all of them when each is taken before the next one comes.\<close>

lemma forwarded_bound: "forwarded q es \<le> q + count_list es Arrives"
  by (induction q es rule: forwarded.induct) (auto split: if_splits)

lemma forwarded_prompt: "forwarded 0 (concat (replicate n [Arrives, Taken])) = n"
  by (induction n) (simp_all add: interrupt_channel_def)

end
