(* ===== verification/Ops_Command.thy ===== *)
theory Ops_Command
  imports Stored_Clusters Terraform_Deploy Interactive_Shell
begin

text \<open>
  \<^verbatim>\<open>cmd/ltops\<close>: the commands \<^verbatim>\<open>create\<close>, \<^verbatim>\<open>deploy\<close>, \<^verbatim>\<open>loadtest\<close>, \<^verbatim>\<open>destroy\<close>, \<^verbatim>\<open>db\<close>, \<^verbatim>\<open>ssh\<close>, \<^verbatim>\<open>reboot\<close> and \<^verbatim>\<open>status\<close>, from the values of their flags
  to what they do on the local machine and on the instances; and the two scripts of \<^verbatim>\<open>sshtools\<close> that open a shell.
\<close>

section \<open>The commands' surroundings\<close>

text \<open>\<open>home\<close>: the user's home directory or the error of finding it; \<open>terminal\<close>: what an interactive session on an instance meets;
  \<open>dir_entries\<close>: the names in a directory. The rest are parameters of the operations on clusters.\<close>

record ops_env =
  deployment :: deploy_env
  cluster_api :: kube_api
  chart_yaml :: "ChartConfig \<Rightarrow> string"
  show_quantity :: "rat \<Rightarrow> string"
  random_bytes :: "string + string"
  ssh_keys :: "string + string \<times> string"
  home :: "string + string"
  terminal :: "string \<Rightarrow> tty_env"
  dir_entries :: "string \<Rightarrow> string + string list"

definition local_machine :: "ops_env \<Rightarrow> machine_env" where
  "local_machine v = on_machine (deployment v)"

definition subdirName :: string where "subdirName = ''.mattermost-load-test-ops''"

definition defaultWorkingDirectory :: "ops_env \<Rightarrow> string remote_op" where
  "defaultWorkingDirectory v =
     andThen (given (home v)) (\<lambda>dir.
     if dir = [] then fail ''no home directory to place cluster info in''
     else
       let dir = filepath_join dir subdirName in
       andThen (wrapped ''unable to create cluster info directory'' (onHost (make_dir (local_machine v) dir))) (\<lambda>_. ret dir))"

definition load_in :: "ops_env \<Rightarrow> string \<Rightarrow> ltops_cluster remote_op" where
  "load_in v dir = andThen (onHost (look_at (LoadCluster (cluster_api v) dir))) given"

definition open_cluster :: "ops_env \<Rightarrow> string \<Rightarrow> string \<Rightarrow> ltops_cluster remote_op" where
  "open_cluster v msg clusterName =
     andThen (defaultWorkingDirectory v) (\<lambda>workingDir. wrapped msg (load_in v (filepath_join workingDir clusterName)))"

section \<open>Either kind of cluster\<close>

definition cluster_config :: "ltops_cluster \<Rightarrow> ClusterConfig" where
  "cluster_config cluster = (case cluster of Terraform c \<Rightarrow> Config c | Kube c \<Rightarrow> kube_Config c)"

definition cluster_Type :: "ltops_cluster \<Rightarrow> string" where
  "cluster_Type cluster = Type (cluster_config cluster)"

text \<open>A method of a kubernetes cluster, on the cluster that was loaded.\<close>

definition on_kube :: "kube_cluster \<Rightarrow> (kube_cluster \<times> machine, 'a) op \<Rightarrow> 'a remote_op" where
  "on_kube c method ls = (case ls of (l, m) \<Rightarrow> (case method (c, m) of (r, (c', m')) \<Rightarrow> (r, (l, m'))))"

definition SSHKey :: "ltops_cluster \<Rightarrow> string" where
  "SSHKey cluster = (case cluster of Terraform c \<Rightarrow> SSHPrivateKeyPEM c | Kube c \<Rightarrow> [])"

definition GetAppInstancesAddrs :: "ops_env \<Rightarrow> ltops_cluster \<Rightarrow> (string + string list) remote_op" where
  "GetAppInstancesAddrs v cluster =
     (case cluster of Terraform c \<Rightarrow> asked (deployment v) c terraform_AppAddrs | Kube c \<Rightarrow> onHost (look_at (kube_AppAddrs (cluster_api v) c)))"

definition GetLoadtestInstancesAddrs :: "ops_env \<Rightarrow> ltops_cluster \<Rightarrow> (string + string list) remote_op" where
  "GetLoadtestInstancesAddrs v cluster =
     (case cluster of Terraform c \<Rightarrow> asked (deployment v) c terraform_LoadtestAddrs | Kube c \<Rightarrow> onHost (look_at (kube_LoadtestAddrs (cluster_api v) c)))"

definition GetProxyInstancesAddrs :: "ops_env \<Rightarrow> ltops_cluster \<Rightarrow> (string + string list) remote_op" where
  "GetProxyInstancesAddrs v cluster =
     (case cluster of Terraform c \<Rightarrow> asked (deployment v) c terraform_ProxyAddrs | Kube c \<Rightarrow> onHost (look_at (kube_ProxyAddrs (cluster_api v) c)))"

definition GetMetricsAddr :: "ops_env \<Rightarrow> ltops_cluster \<Rightarrow> (string + string) remote_op" where
  "GetMetricsAddr v cluster =
     (case cluster of Terraform c \<Rightarrow> asked (deployment v) c terraform_MetricsAddr | Kube c \<Rightarrow> onHost (look_at (kube_MetricsAddr (cluster_api v) c)))"

definition DBConnectionString :: "ops_env \<Rightarrow> ltops_cluster \<Rightarrow> string remote_op" where
  "DBConnectionString v cluster =
     (case cluster of Terraform c \<Rightarrow> asked (deployment v) c (terraform_DBConnectionString c) | Kube c \<Rightarrow> ret (kube_DBConnectionString c))"

definition DBReaderConnectionStrings :: "ops_env \<Rightarrow> ltops_cluster \<Rightarrow> string list remote_op" where
  "DBReaderConnectionStrings v cluster =
     (case cluster of Terraform c \<Rightarrow> asked (deployment v) c (terraform_DBReaderConnectionStrings c) | Kube c \<Rightarrow> ret (kube_DBReaderConnectionStrings c))"

definition cluster_DBSettings :: "ops_env \<Rightarrow> ltops_cluster \<Rightarrow> (string + DBSettings) remote_op" where
  "cluster_DBSettings v cluster =
     (case cluster of Terraform c \<Rightarrow> asked (deployment v) c (terraform_DBSettings c) | Kube c \<Rightarrow> ret (kube_DBSettings c))"

definition cluster_SiteURL :: "ops_env \<Rightarrow> ltops_cluster \<Rightarrow> string remote_op" where
  "cluster_SiteURL v cluster =
     (case cluster of Terraform c \<Rightarrow> asked (deployment v) c terraform_SiteURL | Kube c \<Rightarrow> onHost (look_at (kube_SiteURL (cluster_api v) c)))"

definition cluster_DBInstanceCount :: "ops_env \<Rightarrow> ltops_cluster \<Rightarrow> int remote_op" where
  "cluster_DBInstanceCount v cluster =
     (case cluster of Terraform c \<Rightarrow> ret (terraform_DBInstanceCount c) | Kube c \<Rightarrow> onHost (look_at (kube_DBInstanceCount (cluster_api v) c)))"

definition kube_deploy :: "ops_env \<Rightarrow> DeployOptions \<Rightarrow> (kube_cluster \<times> machine, unit) op" where
  "kube_deploy v = kube_Deploy (local_machine v) (on_sources (deployment v)) (cluster_api v) (chart_yaml v) (show_quantity v)"

definition cluster_Deploy :: "ops_env \<Rightarrow> DeployOptions \<Rightarrow> ltops_cluster \<Rightarrow> unit remote_op" where
  "cluster_Deploy v options cluster =
     (case cluster of Terraform c \<Rightarrow> terraform_Deploy (deployment v) options c | Kube c \<Rightarrow> on_kube c (kube_deploy v options))"

definition cluster_Loadtest :: "ops_env \<Rightarrow> LoadTestOptions \<Rightarrow> ltops_cluster \<Rightarrow> unit remote_op" where
  "cluster_Loadtest v options cluster =
     (case cluster of Terraform c \<Rightarrow> terraform_Loadtest (deployment v) options c
      | Kube c \<Rightarrow> on_kube c (kube_Loadtest (local_machine v) (cluster_api v) options))"

definition cluster_Destroy :: "ops_env \<Rightarrow> ltops_cluster \<Rightarrow> unit remote_op" where
  "cluster_Destroy v cluster =
     (case cluster of Terraform c \<Rightarrow> onHost (terraform_Destroy (local_machine v) c) | Kube c \<Rightarrow> onHost (kube_Destroy (local_machine v) c))"

section \<open>create\<close>

text \<open>\<open>flags\<close> are the values of the flags; the working directory is set here.\<close>

definition createClusterCmd :: "ops_env \<Rightarrow> string \<Rightarrow> ClusterConfig \<Rightarrow> unit remote_op" where
  "createClusterCmd v clusterType flags =
     andThen (defaultWorkingDirectory v) (\<lambda>workingDir.
     let config = flags\<lparr>WorkingDirectory := filepath_join workingDir (Name flags)\<rparr> in
     if clusterType = KUBERNETES_TYPE then andThen (onHost (kube_CreateCluster (local_machine v) config)) (\<lambda>_. ret ())
     else if clusterType = TERRAFORM_TYPE then
       (if length (AppInstanceType config) = 0 then fail (''required flag '' @ [CHR 0x22] @ ''app-type'' @ [CHR 0x22] @ '' not set'')
        else if length (DBInstanceType config) = 0 then fail (''required flag '' @ [CHR 0x22] @ ''db-type'' @ [CHR 0x22] @ '' not set'')
        else andThen (onHost (terraform_CreateCluster (local_machine v) (random_bytes v) (ssh_keys v) config)) (\<lambda>_. ret ()))
     else fail (''unrecognized type: '' @ clusterType))"

section \<open>deploy, loadtest, destroy\<close>

definition check_deploy :: "ltops_cluster \<Rightarrow> DeployOptions \<Rightarrow> string + unit" where
  "check_deploy cluster options =
     (let unsupported = (\<lambda>flag. Inl (''flag '' @ [CHR 0x22] @ flag @ [CHR 0x22] @ '' not supported for type '' @ cluster_Type cluster)) in
      if cluster_Type cluster = TERRAFORM_TYPE then
        (if length (MattermostBinaryFile options) \<noteq> 0 \<and> length (LicenseFile options) = 0
           then Inl (''required flag '' @ [CHR 0x22] @ ''license'' @ [CHR 0x22] @ '' not set'')
         else if length (MattermostBinaryFile options) = 0 \<and> length (LoadTestBinaryFile options) = 0
           then Inl (''one of '' @ [CHR 0x22] @ ''mattermost'' @ [CHR 0x22] @ '' or '' @ [CHR 0x22] @ ''loadtest'' @ [CHR 0x22] @ '' must be set for a terraform cluster'')
         else if deploy_Users options > 0 then unsupported ''users''
         else Inr ())
      else if cluster_Type cluster = KUBERNETES_TYPE then
        (if length (MattermostBinaryFile options) > 0 then unsupported ''mattermost''
         else if length (LoadTestBinaryFile options) > 0 then unsupported ''loadtests''
         else if deploy_Users options = 0 \<and> length (HelmConfigFile options) = 0
           then Inl (''one of flags '' @ [CHR 0x22] @ ''users'' @ [CHR 0x22] @ '' or '' @ [CHR 0x22] @ ''helm-config'' @ [CHR 0x22] @ '' must be set for a kubernetes cluster'')
         else Inr ())
      else Inr ())"

definition deployCmd :: "ops_env \<Rightarrow> string \<Rightarrow> DeployOptions \<Rightarrow> unit remote_op" where
  "deployCmd v clusterName flags =
     andThen (open_cluster v ''Couldn't load cluster'' clusterName) (\<lambda>cluster.
     andThen (given (check_deploy cluster flags)) (\<lambda>_.
     wrapped ''Couldn't deploy load test cluster'' (cluster_Deploy v (flags\<lparr>deploy_Profile := PROFILE_STANDARD\<rparr>) cluster)))"

definition loadtestCmd :: "ops_env \<Rightarrow> string \<Rightarrow> LoadTestOptions \<Rightarrow> unit remote_op" where
  "loadtestCmd v clusterName options =
     (if ForceBulkLoad options \<and> SkipBulkLoad options then fail ''cannot have both force-bulk-load and skip-bulk-load set''
      else
        andThen (open_cluster v ''Couldn't load cluster'' clusterName) (\<lambda>cluster.
        if length (ConfigFile options) > 0 \<and> cluster_Type cluster = KUBERNETES_TYPE then fail ''cannot override config file for Kubernetes''
        else cluster_Loadtest v options cluster))"

definition destroyCmd :: "ops_env \<Rightarrow> string \<Rightarrow> unit remote_op" where
  "destroyCmd v name = andThen (open_cluster v ''Couldn't load cluster'' name) (cluster_Destroy v)"

section \<open>db\<close>

text \<open>\<open>errors.Wrapf\<close> of a nil error is nil: an unknown engine is no error.\<close>

definition shell :: "ops_env \<Rightarrow> ltops_cluster \<Rightarrow> unit remote_op" where
  "shell v cluster =
     andThen (cluster_DBSettings v cluster) (\<lambda>answer.
     andThen (wrapped ''failed to get database settings'' (given answer)) (\<lambda>settings.
     case engine_of (DBEngineType (cluster_config cluster)) of
       Some Postgres \<Rightarrow> andThen (DBConnectionString v cluster) (\<lambda>s. onHost (run_checked (local_machine v) ''psql'' [''-n'', s]))
     | Some MySQL \<Rightarrow> onHost (run_checked (local_machine v) ''mysql''
         [''-u'', Username settings, ''-p'' @ Password settings, ''-h'', Endpoint settings, ''-P'', itoa (Port settings), Database settings])
     | None \<Rightarrow> ret ()))"

definition dbCommand :: "ops_env \<Rightarrow> string \<Rightarrow> unit remote_op" where
  "dbCommand v clusterName = andThen (open_cluster v ''couldn't load cluster'' clusterName) (shell v)"

section \<open>ssh and reboot\<close>

definition SSHInteractiveKubesPod :: "ops_env \<Rightarrow> string \<Rightarrow> unit remote_op" where
  "SSHInteractiveKubesPod v podName =
     (if \<not> look_path (local_machine v) ''kubectl'' then fail ''exec: kubectl: executable file not found''
      else onHost (ignored (run_cmd (local_machine v) ''kubectl'' [''exec'', ''-it'', podName, ''--'', ''/bin/bash''])))"

definition SSHInteractiveTerminal :: "ops_env \<Rightarrow> string \<Rightarrow> string \<Rightarrow> unit remote_op" where
  "SSHInteractiveTerminal v sshKey addr =
     andThen (SSHClient (on_ssh (deployment v)) sshKey addr) (\<lambda>client. given (fst (interactive_session (terminal v client) user_tty)))"

definition ssh :: "ops_env \<Rightarrow> ltops_cluster \<Rightarrow> string \<Rightarrow> string \<Rightarrow> unit remote_op" where
  "ssh v cluster addr cmd =
     (if cluster_Type cluster = KUBERNETES_TYPE then SSHInteractiveKubesPod v addr
      else if cmd = [] then SSHInteractiveTerminal v (SSHKey cluster) addr
      else andThen (SSHClient (on_ssh (deployment v)) (SSHKey cluster) addr) (\<lambda>client. RemoteCommand (on_ssh (deployment v)) client cmd))"

datatype instance_kind = AppInstance | ProxyInstance | LoadtestInstance

definition instance_addrs :: "ops_env \<Rightarrow> instance_kind \<Rightarrow> ltops_cluster \<Rightarrow> string list remote_op" where
  "instance_addrs v kind cluster =
     (case kind of
        AppInstance \<Rightarrow> andThen (GetAppInstancesAddrs v cluster) (\<lambda>a. wrapped ''unable to get app instances'' (given a))
      | ProxyInstance \<Rightarrow> andThen (GetProxyInstancesAddrs v cluster) (\<lambda>a. wrapped ''unable to get proxy instances'' (given a))
      | LoadtestInstance \<Rightarrow> andThen (GetLoadtestInstancesAddrs v cluster) (\<lambda>a. wrapped ''unable to get loadtest instances'' (given a)))"

definition sshInstanceCmd :: "ops_env \<Rightarrow> instance_kind \<Rightarrow> string \<Rightarrow> int \<Rightarrow> string list \<Rightarrow> unit remote_op" where
  "sshInstanceCmd v kind clusterName instanceNumber args =
     andThen (open_cluster v ''couldn't load cluster'' clusterName) (\<lambda>cluster.
     andThen (instance_addrs v kind cluster) (\<lambda>addrs.
     if int (length addrs) \<le> instanceNumber then fail (''invalid instance number: '' @ itoa instanceNumber)
     else if instanceNumber < 0 then fail ''panic: index out of range''
     else ssh v cluster (addrs ! nat instanceNumber) (join args '' '')))"

definition sshMetricsCommand :: "ops_env \<Rightarrow> string \<Rightarrow> string list \<Rightarrow> unit remote_op" where
  "sshMetricsCommand v clusterName args =
     andThen (open_cluster v ''couldn't load cluster'' clusterName) (\<lambda>cluster.
     andThen (case cluster of Kube c \<Rightarrow> onHost (look_at (GetMetricsPodName (cluster_api v) c)) | Terraform c \<Rightarrow> GetMetricsAddr v cluster) (\<lambda>answer.
     andThen (wrapped ''could not get metrics server address'' (given answer)) (\<lambda>addr.
     ssh v cluster addr (join args '' ''))))"

definition reboot_instance :: "ops_env \<Rightarrow> ltops_cluster \<Rightarrow> string \<Rightarrow> unit remote_op" where
  "reboot_instance v cluster addr =
     (if cluster_Type cluster = KUBERNETES_TYPE then SSHInteractiveKubesPod v addr
      else andThen (SSHClient (on_ssh (deployment v)) (SSHKey cluster) addr) (\<lambda>client.
           ignored (RemoteCommand (on_ssh (deployment v)) client ''sudo reboot'')))"

definition rebootCmd :: "ops_env \<Rightarrow> instance_kind \<Rightarrow> string \<Rightarrow> unit remote_op" where
  "rebootCmd v kind clusterName =
     andThen (open_cluster v ''couldn't load cluster'' clusterName) (\<lambda>cluster.
     andThen (instance_addrs v kind cluster) (\<lambda>addrs.
     forEach (reboot_instance v cluster) addrs))"

section \<open>status\<close>

record cluster_status =
  status_Name :: string
  status_Type :: string
  status_Release :: "string option"
  status_SiteURL :: string
  status_Metrics :: string
  status_DB :: string
  status_Reader :: string
  status_Profile :: string
  status_Users :: int
  status_BulkLoaded :: bool
  status_App :: nat
  status_DBCount :: int
  status_Proxy :: nat
  status_Loadtest :: nat

definition addr_count :: "string + string list \<Rightarrow> nat" where
  "addr_count r = (case r of Inl _ \<Rightarrow> 0 | Inr addrs \<Rightarrow> length addrs)"

definition printStatusForCluster :: "ops_env \<Rightarrow> ltops_cluster \<Rightarrow> cluster_status remote_op" where
  "printStatusForCluster v cluster =
     andThen (GetAppInstancesAddrs v cluster) (\<lambda>app.
     andThen (GetProxyInstancesAddrs v cluster) (\<lambda>proxy.
     andThen (GetLoadtestInstancesAddrs v cluster) (\<lambda>loadtest.
     andThen (DBConnectionString v cluster) (\<lambda>dbConnectionString.
     andThen (DBReaderConnectionStrings v cluster) (\<lambda>rrConnectionStrings.
     andThen (GetMetricsAddr v cluster) (\<lambda>metrics.
     andThen (cluster_SiteURL v cluster) (\<lambda>siteURL.
     andThen (cluster_DBInstanceCount v cluster) (\<lambda>dbCount.
     let config = cluster_config cluster in
     ret \<lparr>status_Name = Name config, status_Type = Type config,
          status_Release = (case cluster of Kube c \<Rightarrow> Some (ReleaseName c) | Terraform c \<Rightarrow> None),
          status_SiteURL = siteURL, status_Metrics = (case metrics of Inl _ \<Rightarrow> [] | Inr a \<Rightarrow> a), status_DB = dbConnectionString,
          status_Reader = (if length rrConnectionStrings > 0 then rrConnectionStrings ! 0 else []),
          status_Profile = Profile config, status_Users = Users config, status_BulkLoaded = BulkLoadComplete config,
          status_App = addr_count app, status_DBCount = dbCount, status_Proxy = addr_count proxy, status_Loadtest = addr_count loadtest\<rparr>))))))))"

fun status_entries :: "ops_env \<Rightarrow> string \<Rightarrow> string list \<Rightarrow> (string + cluster_status) list remote_op" where
  "status_entries v workingDir [] = ret []"
| "status_entries v workingDir (name # names) =
     andThen (tried (load_in v (filepath_join workingDir name))) (\<lambda>loaded.
     andThen (case loaded of
         Inl err \<Rightarrow> ret (Inl (''Unable to load cluster '' @ name @ '': '' @ err))
       | Inr cluster \<Rightarrow> andThen (printStatusForCluster v cluster) (\<lambda>status. ret (Inr status))) (\<lambda>entry.
     andThen (status_entries v workingDir names) (\<lambda>entries. ret (entry # entries))))"

text \<open>An entry per name in the directory: what is printed of it or the error that is logged.\<close>

definition statusCmd :: "ops_env \<Rightarrow> (string + cluster_status) list remote_op" where
  "statusCmd v =
     andThen (defaultWorkingDirectory v) (\<lambda>workingDir.
     andThen (wrapped ''Can't read directory where cluster info stored.'' (given (dir_entries v workingDir))) (\<lambda>names.
     status_entries v workingDir names))"

end
