(* ===== verification/Ops_Session.thy ===== *)
theory Ops_Session
  imports Ops_Command
begin

text \<open>
  A kubernetes cluster over several runs of \<^verbatim>\<open>ltops\<close>. Every run is a process of its own that reads the cluster from its file, works on
  it and stores it; the specification is a cluster that stays in memory. The processes refine it.
\<close>

section \<open>The specification\<close>

datatype kube_command = DeployWith DeployOptions | LoadtestWith LoadTestOptions

text \<open>A command on the cluster in memory.\<close>

fun session_step :: "ops_env \<Rightarrow> kube_command \<Rightarrow> (kube_cluster \<times> machine, unit) op" where
  "session_step v (DeployWith flags) =
     andThen self (\<lambda>c.
     andThen (given (check_deploy (Kube c) flags)) (\<lambda>_.
     wrapped ''Couldn't deploy load test cluster'' (kube_deploy v (flags\<lparr>deploy_Profile := PROFILE_STANDARD\<rparr>))))"
| "session_step v (LoadtestWith options) =
     (if ForceBulkLoad options \<and> SkipBulkLoad options then fail ''cannot have both force-bulk-load and skip-bulk-load set''
      else if length (ConfigFile options) > 0 then fail ''cannot override config file for Kubernetes''
      else kube_Loadtest (local_machine v) (cluster_api v) options)"

text \<open>The same command as a process.\<close>

fun process :: "ops_env \<Rightarrow> string \<Rightarrow> kube_command \<Rightarrow> unit remote_op" where
  "process v name (DeployWith flags) = deployCmd v name flags"
| "process v name (LoadtestWith options) = loadtestCmd v name options"

fun in_turn :: "('s, 'a) op list \<Rightarrow> 's \<Rightarrow> (string + 'a) list \<times> 's" where
  "in_turn [] s = ([], s)"
| "in_turn (m # ms) s = (case m s of (r, s) \<Rightarrow> (case in_turn ms s of (rs, s) \<Rightarrow> (r # rs, s)))"

section \<open>The abstraction\<close>

definition ops_dir :: "ops_env \<Rightarrow> string" where
  "ops_dir v = filepath_join (case home v of Inl _ \<Rightarrow> [] | Inr h \<Rightarrow> h) subdirName"

definition cluster_dir :: "ops_env \<Rightarrow> string \<Rightarrow> string" where
  "cluster_dir v name = filepath_join (ops_dir v) name"

definition info_file :: "ops_env \<Rightarrow> string \<Rightarrow> string" where
  "info_file v name = filepath_join (cluster_dir v name) infoFilename"

text \<open>The file holds the cluster.\<close>

definition on_disk :: "ops_env \<Rightarrow> string \<Rightarrow> kube_cluster \<Rightarrow> machine \<Rightarrow> bool" where
  "on_disk v name c m \<longleftrightarrow>
     WorkingDirectory (kube_Config c) = cluster_dir v name \<and> Type (kube_Config c) = KUBERNETES_TYPE \<and> Kubernetes c \<and>
     files m (info_file v name) = Some (Json (kube_to_json c)) \<and> ops_dir v \<in> made_dirs m \<and> cluster_dir v name \<in> made_dirs m"

text \<open>The machine lets the process read its directory and write the file, and the cluster can be connected to.\<close>

definition usable :: "ops_env \<Rightarrow> string \<Rightarrow> bool" where
  "usable v name \<longleftrightarrow> (\<exists>h. home v = Inr h \<and> h \<noteq> []) \<and> dir_error (local_machine v) (ops_dir v) = None \<and>
     file_error (local_machine v) (info_file v name) = None \<and> client_config (cluster_api v) = None"

lemma open_on_disk:
  assumes "usable v name" "on_disk v name c m"
  shows "open_cluster v msg name (l, m) = (Inr (Kube c), (l, m))"
proof -
  obtain h where h: "home v = Inr h" "h \<noteq> []" using assms(1) unfolding usable_def by blast
  have dir: "ops_dir v = filepath_join h subdirName" by (simp add: ops_dir_def h)
  have "make_dir (local_machine v) (ops_dir v) m = (Inr (), m)"
    using assms unfolding usable_def on_disk_def by (cases m) (simp add: make_dir_def insert_absorb)
  then have opened: "defaultWorkingDirectory v (l, m) = (Inr (ops_dir v), (l, m))"
    by (simp add: defaultWorkingDirectory_def h dir andThen_def given_def wrapped_def onHost_def ret_def Let_def)
  have "LoadCluster (cluster_api v) (cluster_dir v name) m = bind_sum (Connect (cluster_api v) (disconnected c)) (\<lambda>c. Inr (Kube c))"
    using assms(2) unfolding on_disk_def info_file_def by (intro kube_store.loaded) simp_all
  also have "\<dots> = Inr (Kube c)"
    using assms unfolding usable_def on_disk_def by (cases c) (simp add: Connect_def disconnected_def)
  finally show ?thesis
    by (simp add: open_cluster_def andThen_def opened wrapped_def load_in_def onHost_def look_at_def given_def cluster_dir_def)
qed

section \<open>What commands leave alone\<close>

text \<open>The file of the cluster, and that directories exist.\<close>

definition frame :: "string \<Rightarrow> machine \<Rightarrow> machine \<Rightarrow> bool" where
  "frame info m m' \<longleftrightarrow> files m' info = files m info \<and> made_dirs m \<subseteq> made_dirs m'"

lemma frame_preorder: "reflp (frame info)" "transp (frame info)"
  by (auto simp: frame_def reflp_def transp_def)

lemma keeps_frame_cmds [keeps_rule]:
  "keeps (frame info) (run_cmd e exe args)" "keeps (frame info) (make_dir e dir)" "keeps (frame info) (tell_writer b text)"
  "path \<noteq> info \<Longrightarrow> keeps (frame info) (write_file e path content)"
  by (auto simp: keeps_def frame_def run_cmd_def make_dir_def tell_writer_def write_file_def split: option.splits)

lemma keeps_frame_runs [keeps_rule]:
  "keeps (frame info) (run_checked e exe args)" "keeps (frame info) (run_combined e msg exe args)"
  unfolding run_checked_def run_combined_def
  by (auto intro!: keeps_andThen keeps_rule frame_preorder split: option.split)

lemma last_join: "b \<noteq> [] \<Longrightarrow> last (filepath_join a b) = last b"
  by (simp add: filepath_join_def)

lemma other_files: "filepath_join dir chartFilename \<noteq> info_file v name" "results_file dir pod \<noteq> info_file v name"
proof -
  have "last (info_file v name) = CHR ''n''" by (simp add: info_file_def last_join infoFilename_def)
  moreover have "last (filepath_join dir chartFilename) = CHR ''l''" by (simp add: last_join chartFilename_def)
  moreover have "last (results_file dir pod) = CHR ''t''" by (simp add: results_file_def last_join)
  ultimately show "filepath_join dir chartFilename \<noteq> info_file v name" "results_file dir pod \<noteq> info_file v name" by fastforce+
qed

lemma keeps_frame_parts:
  "keeps (frame (info_file v name)) (chart_file e api yaml show options license dir)"
  "keeps (frame (info_file v name)) (upgrade_chart e location release)"
  "keeps (frame (info_file v name)) (install_chart e location release)"
  "keeps (frame (info_file v name)) (loadtestPod e dir pod writer)"
  "keeps (frame (info_file v name)) (import_bulk_data e dir pod app workers)"
  unfolding chart_file_def chart_config_def saveChartConfig_def upgrade_chart_def install_chart_def loadtestPod_def import_bulk_data_def copy_emoji_def
  by (auto intro!: keeps_andThen keeps_rule frame_preorder other_files split: option.split sum.split)

section \<open>Steps keep the file up to date\<close>

definition in_step :: "ops_env \<Rightarrow> string \<Rightarrow> kube_cluster \<times> machine \<Rightarrow> kube_cluster \<times> machine \<Rightarrow> bool" where
  "in_step v name s s' \<longleftrightarrow> (on_disk v name (fst s) (snd s) \<longrightarrow> on_disk v name (fst s') (snd s'))"

lemma in_step_preorder: "reflp (in_step v name)" "transp (in_step v name)"
  by (auto simp: in_step_def reflp_def transp_def)

lemma in_step_host: "keeps (frame (info_file v name)) m \<Longrightarrow> keeps (in_step v name) (onHost m)"
  by (auto simp: keeps_def onHost_def in_step_def on_disk_def frame_def split: prod.splits) (metis snd_conv subsetD)+

text \<open>A change of the cluster that is stored at once.\<close>

lemma in_step_commit:
  assumes "usable v name"
    and "\<And>c. WorkingDirectory (kube_Config (f c)) = WorkingDirectory (kube_Config c)" "\<And>c. Type (kube_Config (f c)) = Type (kube_Config c)"
    and "\<And>c. Kubernetes (f c) = Kubernetes c"
  shows "keeps (in_step v name) (andThen (update f) (\<lambda>_. save_self (local_machine v)))"
  unfolding keeps_def
proof
  fix s :: "kube_cluster \<times> machine"
  obtain c m where s: "s = (c, m)" by (cases s)
  show "in_step v name s (snd (andThen (update f) (\<lambda>_. save_self (local_machine v)) s))"
    using assms unfolding in_step_def s on_disk_def
    by (auto simp: andThen_def update_def save_self_def self_def onHost_def kube_saveCluster_def ensure_dir_def wrapped_def write_file_def usable_def
        simp flip: info_file_def)
qed

lemma andThen_assoc: "andThen (andThen m k) h = andThen m (\<lambda>x. andThen (k x) h)"
  by (auto simp: andThen_def fun_eq_iff split: prod.splits sum.splits)

lemma update_update: "andThen (update g) (\<lambda>_. andThen (update f) k) = andThen (update (\<lambda>c. f (g c))) k"
  by (simp add: andThen_def update_def fun_eq_iff)

lemma deployed_config_keeps [simp]:
  "WorkingDirectory (deployed_config options cfg) = WorkingDirectory cfg" "Type (deployed_config options cfg) = Type cfg"
  by (simp_all add: deployed_config_def Let_def)

lemma in_step_Deploy:
  assumes "usable v name"
  shows "keeps (in_step v name) (kube_deploy v options)"
proof -
  let ?store = "\<lambda>g. andThen (update (\<lambda>c. (g c)\<lparr>kube_Config := deployed_config options (kube_Config (g c))\<rparr>)) (\<lambda>_. save_self (local_machine v))"
  have save: "keeps (in_step v name) (?store (\<lambda>c. c))" by (rule in_step_commit [OF assms]) simp_all
  have save_new: "keeps (in_step v name) (?store (\<lambda>c. c\<lparr>ReleaseName := Name (kube_Config c)\<rparr>))" by (rule in_step_commit [OF assms]) simp_all
  have commit: "keeps (in_step v name) (andThen (if p then onHost (upgrade_chart (local_machine v) location release)
         else andThen (onHost (install_chart (local_machine v) location cname)) (\<lambda>_. update (\<lambda>c. c\<lparr>ReleaseName := Name (kube_Config c)\<rparr>))) (\<lambda>_.
       ?store (\<lambda>c. c)))" for p location release cname
  proof (cases p)
    case True
    show ?thesis
      unfolding if_P [OF True] by (rule keeps_andThen [OF in_step_preorder(2) in_step_host [OF keeps_frame_parts(2)] save])
  next
    case False
    show ?thesis
      unfolding if_not_P [OF False] andThen_assoc update_update
      by (rule keeps_andThen [OF in_step_preorder(2) in_step_host [OF keeps_frame_parts(3)] save_new])
  qed
  show ?thesis
    unfolding kube_deploy_def kube_Deploy_def Let_def
    by (intro keeps_andThen in_step_preorder keeps_basic in_step_host keeps_frame_parts commit)
qed

lemma in_step_Loadtest:
  assumes "usable v name"
  shows "keeps (in_step v name) (kube_Loadtest (local_machine v) api options)"
proof -
  have save: "keeps (in_step v name) (andThen (update (\<lambda>c. c\<lparr>kube_Config := (kube_Config c)\<lparr>BulkLoadComplete := True\<rparr>\<rparr>)) (\<lambda>_. save_self (local_machine v)))"
    by (rule in_step_commit [OF assms]) simp_all
  have load: "keeps (in_step v name) (andThen (onHost (import_bulk_data (local_machine v) dir pod app workers)) (\<lambda>_.
      andThen (update (\<lambda>c. c\<lparr>kube_Config := (kube_Config c)\<lparr>BulkLoadComplete := True\<rparr>\<rparr>)) (\<lambda>_. save_self (local_machine v))))" for dir pod app workers
    by (rule keeps_andThen [OF in_step_preorder(2) in_step_host [OF keeps_frame_parts(5)] save])
  have bulk: "keeps (in_step v name) (bulkLoad (local_machine v) pod app workers force)" for pod app workers force
    unfolding bulkLoad_def
    by (rule keeps_andThen [OF in_step_preorder(2) keeps_basic(5) [OF in_step_preorder(1)]]) (auto intro: load keeps_basic(1) in_step_preorder)
  show ?thesis
    unfolding kube_Loadtest_def Let_def
    by (auto intro!: keeps_andThen in_step_preorder keeps_basic in_step_host keeps_forEach keeps_wrapped(2) keeps_frame_parts frame_preorder bulk split: sum.split list.split)
qed

lemma in_step_session:
  assumes "usable v name"
  shows "keeps (in_step v name) (session_step v cmd)"
  by (cases cmd) (auto intro!: keeps_andThen in_step_preorder keeps_basic keeps_wrapped in_step_Deploy in_step_Loadtest assms)

section \<open>Processes refine the session\<close>

lemma process_step:
  assumes "usable v name" "on_disk v name c m" "session_step v cmd (c, m) = (r, (c', m'))"
  shows "process v name cmd (l, m) = (r, (l, m'))"
proof (cases cmd)
  case (DeployWith flags)
  obtain q c2 m2 where deploy: "kube_deploy v (flags\<lparr>deploy_Profile := PROFILE_STANDARD\<rparr>) (c, m) = (q, (c2, m2))" by (metis prod.exhaust)
  note run = DeployWith deployCmd_def andThen_def open_on_disk [OF assms(1,2)] self_def given_def wrapped_def cluster_Deploy_def on_kube_def
  show ?thesis
  proof (cases "check_deploy (Kube c) flags")
    case (Inl e)
    then have "r = Inl e" "m' = m" using assms(3) by (auto simp: run)
    then show ?thesis by (simp add: run Inl)
  next
    case (Inr u)
    with assms(3) deploy show ?thesis by (cases q) (auto simp: run Inr)
  qed
next
  case (LoadtestWith options)
  moreover have "cluster_Type (Kube c) = KUBERNETES_TYPE" using assms(2) by (simp add: cluster_Type_def cluster_config_def on_disk_def)
  ultimately show ?thesis
    using assms(3)
    by (auto simp: loadtestCmd_def andThen_def open_on_disk [OF assms(1,2)] fail_def cluster_Loadtest_def on_kube_def split: prod.splits)
qed

text \<open>C10. Deploying and testing a kubernetes cluster by any number of separate runs of \<^verbatim>\<open>ltops\<close> does the same as one program that keeps the
  cluster in memory: every run has the same outcome, the machine ends in the same state, and the file holds exactly the cluster that
  the program would hold, also after runs that failed half way.\<close>

theorem processes_refine_session:
  assumes "usable v name" "on_disk v name c m"
  shows "\<exists>rs c' m'. in_turn (map (session_step v) cmds) (c, m) = (rs, (c', m')) \<and>
    in_turn (map (process v name) cmds) (l, m) = (rs, (l, m')) \<and> on_disk v name c' m'"
  using assms(2)
proof (induction cmds arbitrary: c m)
  case Nil
  then show ?case by simp
next
  case (Cons cmd cmds)
  obtain r c1 m1 where step: "session_step v cmd (c, m) = (r, (c1, m1))" by (metis prod.exhaust)
  then have "on_disk v name c1 m1"
    using keepsD [OF in_step_session [OF assms(1)] step] Cons.prems by (simp add: in_step_def)
  then obtain rs c' m' where rest: "in_turn (map (session_step v) cmds) (c1, m1) = (rs, (c', m'))"
    "in_turn (map (process v name) cmds) (l, m1) = (rs, (l, m'))" "on_disk v name c' m'"
    using Cons.IH by blast
  with step process_step [OF assms(1) Cons.prems step] show ?case by simp
qed

definition sample_ops :: ops_env where
  "sample_ops = \<lparr>deployment = \<lparr>on_machine = quiet_env,
       on_ssh = \<lparr>parse_key = (\<lambda>_. None), dial = (\<lambda>_ _. None), new_session = (\<lambda>_ _. None), run_remote = (\<lambda>_. (None, [])), remote_addr = (\<lambda>a. a), reconnect_attempts = 11\<rparr>,
       on_sources = \<lparr>stat_ok = (\<lambda>_. True), read_file = (\<lambda>f. Inr f), http_get = (\<lambda>_. Inl ''offline'')\<rparr>,
       decode_outputs = (\<lambda>_. Inl ''none''), range_order = (\<lambda>kvs. kvs), number_read = (\<lambda>k. k)\<rparr>,
     cluster_api = empty_api, chart_yaml = (\<lambda>_. []), show_quantity = (\<lambda>_. []), random_bytes = Inl [], ssh_keys = Inl [],
     home = Inr ''/home/u'', terminal = (\<lambda>_. small_terminal), dir_entries = (\<lambda>_. Inr [])\<rparr>"

definition session_cluster :: kube_cluster where
  "session_cluster = \<lparr>kube_Config = zero_cluster_config\<lparr>Name := ''c'', Type := KUBERNETES_TYPE, WorkingDirectory := cluster_dir sample_ops ''c''\<rparr>,
     ReleaseName = ''c'', Kubernetes = True\<rparr>"

definition session_machine :: machine where
  "session_machine = idle_machine\<lparr>files := [info_file sample_ops ''c'' \<mapsto> Json (kube_to_json session_cluster)],
     made_dirs := {ops_dir sample_ops, cluster_dir sample_ops ''c''}\<rparr>"

definition session_commands :: "kube_command list" where
  "session_commands = [DeployWith \<lparr>MattermostBinaryFile = [], LicenseFile = ''license'', LoadTestBinaryFile = [], deploy_Profile = [], deploy_Users = 100,
       HelmConfigFile = ''chart.yaml''\<rparr>,
     LoadtestWith \<lparr>ConfigFile = [], Workers = 4, SkipBulkLoad = False, ForceBulkLoad = False, ResultsWriter = False\<rparr>]"

theorem processes_refine_session_witness:
  "\<exists>rs c' m'. in_turn (map (process sample_ops ''c'') session_commands) ([], session_machine) = (rs, ([], m')) \<and> on_disk sample_ops ''c'' c' m'"
proof -
  have "usable sample_ops ''c''"
    by (simp add: usable_def sample_ops_def local_machine_def quiet_env_def empty_api_def)
  moreover have "on_disk sample_ops ''c'' session_cluster session_machine"
    by (simp add: on_disk_def session_cluster_def session_machine_def)
  ultimately show ?thesis using processes_refine_session by blast
qed

section \<open>The bulk data\<close>

text \<open>How often the import was started.\<close>

definition is_import :: "string \<times> string list \<Rightarrow> bool" where
  "is_import cmd \<longleftrightarrow> fst cmd = ''kubectl'' \<and> 4 < length (snd cmd) \<and> snd cmd ! 4 = ''import''"

definition import_count :: "machine \<Rightarrow> nat" where
  "import_count m = length (filter is_import (commands_run m))"

definition same_imports :: "machine \<Rightarrow> machine \<Rightarrow> bool" where
  "same_imports m m' \<longleftrightarrow> import_count m' = import_count m"

lemma same_imports_preorder: "reflp same_imports" "transp same_imports"
  by (auto simp: same_imports_def reflp_def transp_def)

lemma same_imports_cmds [keeps_rule]:
  "keeps same_imports (make_dir e dir)" "keeps same_imports (tell_writer b text)" "keeps same_imports (write_file e path content)"
  "\<not> is_import (exe, args) \<Longrightarrow> keeps same_imports (run_cmd e exe args)"
  by (auto simp: keeps_def same_imports_def import_count_def run_cmd_def make_dir_def tell_writer_def write_file_def split: option.splits)

lemma same_imports_runs [keeps_rule]:
  "\<not> is_import (exe, args) \<Longrightarrow> keeps same_imports (run_checked e exe args)" "\<not> is_import (exe, args) \<Longrightarrow> keeps same_imports (run_combined e msg exe args)"
  unfolding run_checked_def run_combined_def
  by (auto intro!: keeps_andThen keeps_rule same_imports_preorder split: option.split)

text \<open>An operation that starts the import once at most, and exactly once when it succeeds.\<close>

definition one_import :: "(machine, unit) op \<Rightarrow> bool" where
  "one_import op \<longleftrightarrow> (\<forall>m r m'. op m = (r, m') \<longrightarrow> import_count m \<le> import_count m' \<and> import_count m' \<le> import_count m + 1 \<and>
     (r = Inr () \<longrightarrow> import_count m' = import_count m + 1))"

lemma one_import_after:
  assumes "keeps same_imports op" "\<And>x. one_import (k x)"
  shows "one_import (andThen op k)"
  unfolding one_import_def
proof (intro allI impI)
  fix m r m' assume run: "andThen op k m = (r, m')"
  obtain r1 m1 where first: "op m = (r1, m1)" by (cases "op m")
  then have same: "import_count m1 = import_count m" using keepsD [OF assms(1)] by (simp add: same_imports_def)
  show "import_count m \<le> import_count m' \<and> import_count m' \<le> import_count m + 1 \<and> (r = Inr () \<longrightarrow> import_count m' = import_count m + 1)"
  proof (cases r1)
    case (Inl e)
    with run first same show ?thesis by (auto simp: andThen_def)
  next
    case (Inr x)
    with run first have "k x m1 = (r, m')" by (simp add: andThen_def)
    with assms(2) same show ?thesis unfolding one_import_def by metis
  qed
qed

lemma one_import_bulk: "one_import (import_bulk_data e dir pod app workers)"
proof -
  have emoji: "keeps same_imports (copy_emoji e dir pod app)"
    unfolding copy_emoji_def by (auto intro!: keeps_andThen keeps_rule same_imports_preorder simp: is_import_def split: sum.split)
  have "one_import (run_combined e ''bulk import failed: '' ''kubectl'' (import_args app workers))"
    by (auto simp: one_import_def run_combined_def andThen_def run_cmd_def import_count_def is_import_def import_args_def ret_def fail_def split: option.splits)
  then show ?thesis
    unfolding import_bulk_data_def
    by (intro one_import_after) (auto intro!: keeps_rule emoji simp: is_import_def)
qed

text \<open>Storing the cluster starts nothing.\<close>

lemma same_imports_save: "save_self e (c, m) = (r, (c', m')) \<Longrightarrow> c' = c \<and> import_count m' = import_count m"
  by (auto simp: save_self_def self_def onHost_def andThen_def kube_saveCluster_def ensure_dir_def make_dir_def wrapped_def write_file_def import_count_def
      split: prod.splits sum.splits option.splits bool.splits if_splits)

lemma bulkLoad_imports:
  assumes "bulkLoad e pod app workers force (c, m) = (r, (c', m'))"
  shows "BulkLoadComplete (kube_Config c) \<and> \<not> force \<longrightarrow> r = Inr () \<and> c' = c \<and> import_count m' = import_count m"
    and "import_count m \<le> import_count m' \<and> import_count m' \<le> import_count m + 1"
    and "BulkLoadComplete (kube_Config c') \<longrightarrow> BulkLoadComplete (kube_Config c) \<or> import_count m' = import_count m + 1"
    and "r = Inr () \<longrightarrow> BulkLoadComplete (kube_Config c')"
proof -
  let ?goal = "(BulkLoadComplete (kube_Config c) \<and> \<not> force \<longrightarrow> r = Inr () \<and> c' = c \<and> import_count m' = import_count m) \<and>
    import_count m \<le> import_count m' \<and> import_count m' \<le> import_count m + 1 \<and>
    (BulkLoadComplete (kube_Config c') \<longrightarrow> BulkLoadComplete (kube_Config c) \<or> import_count m' = import_count m + 1) \<and>
    (r = Inr () \<longrightarrow> BulkLoadComplete (kube_Config c'))"
  have ?goal
  proof (cases "BulkLoadComplete (kube_Config c) \<and> \<not> force")
    case True
    with assms show ?thesis by (simp add: bulkLoad_def andThen_def self_def)
  next
    case False
    obtain r1 m1 where load: "import_bulk_data e (WorkingDirectory (kube_Config c)) pod app workers m = (r1, m1)" by (metis prod.exhaust)
    have counts: "import_count m \<le> import_count m1" "import_count m1 \<le> import_count m + 1" "r1 = Inr () \<longrightarrow> import_count m1 = import_count m + 1"
      using one_import_bulk load unfolding one_import_def by blast+
    show ?thesis
    proof (cases r1)
      case (Inl err)
      have "\<not> (BulkLoadComplete (kube_Config c) \<and> \<not> force)" by (rule False)
      with assms load Inl have "r = Inl err" "c' = c" "m' = m1" by (auto simp: bulkLoad_def andThen_def self_def onHost_def)
      with False counts show ?thesis by auto
    next
      case (Inr u)
      let ?c = "c\<lparr>kube_Config := (kube_Config c)\<lparr>BulkLoadComplete := True\<rparr>\<rparr>"
      have "save_self e (?c, m1) = (r, (c', m'))"
        using assms load Inr False by (auto simp: bulkLoad_def andThen_def self_def onHost_def update_def)
      from same_imports_save [OF this] counts Inr False show ?thesis by auto
    qed
  qed
  then show "BulkLoadComplete (kube_Config c) \<and> \<not> force \<longrightarrow> r = Inr () \<and> c' = c \<and> import_count m' = import_count m"
    and "import_count m \<le> import_count m' \<and> import_count m' \<le> import_count m + 1"
    and "BulkLoadComplete (kube_Config c') \<longrightarrow> BulkLoadComplete (kube_Config c) \<or> import_count m' = import_count m + 1"
    and "r = Inr () \<longrightarrow> BulkLoadComplete (kube_Config c')"
    by blast+
qed

text \<open>The test on the pods changes neither the cluster nor the number of imports.\<close>

definition idle :: "kube_cluster \<times> machine \<Rightarrow> kube_cluster \<times> machine \<Rightarrow> bool" where
  "idle s s' \<longleftrightarrow> fst s' = fst s \<and> same_imports (snd s) (snd s')"

lemma idle_preorder: "reflp idle" "transp idle"
  by (auto simp: idle_def same_imports_def reflp_def transp_def)

definition test_pods :: "machine_env \<Rightarrow> string \<Rightarrow> string \<Rightarrow> string list \<Rightarrow> bool \<Rightarrow> (kube_cluster \<times> machine, unit) op" where
  "test_pods e dir pod pods writer =
     andThen (onHost (ignored (loadtestPod e dir pod writer))) (\<lambda>_. onHost (forEach (\<lambda>pod. ignored (loadtestPod e dir pod False)) pods))"

lemma test_pods_idle:
  assumes "test_pods e dir pod pods writer s = (r, s')"
  shows "idle s s'" "r = Inr ()"
proof -
  have one: "keeps same_imports (loadtestPod e dir pod writer)" for pod writer
    unfolding loadtestPod_def
    by (auto intro!: keeps_andThen keeps_rule same_imports_preorder simp: is_import_def split: option.split)
  have host: "keeps idle (onHost op)" if "keeps same_imports op" for op :: "(machine, unit) op"
    using that by (intro keeps_onHost) (simp add: idle_def)
  have "keeps idle (test_pods e dir pod pods writer)"
    unfolding test_pods_def
    by (intro keeps_andThen idle_preorder host keeps_forEach same_imports_preorder keeps_wrapped(2) one)
  from keepsD [OF this assms] show "idle s s'" .
  have "fst (forEach (\<lambda>pod. ignored (loadtestPod e dir pod False)) pods m) = Inr ()" for m
    by (induction pods arbitrary: m) (simp_all add: ret_def andThen_def ignored_def)
  then show "r = Inr ()"
    using assms by (auto simp: test_pods_def andThen_def onHost_def ignored_def split: prod.splits) (metis fst_conv)
qed

lemma kube_Loadtest_cases:
  assumes "kube_LoadtestAddrs api c m = Inr (pod # pods)" "kube_AppAddrs api c m = Inr (app # apps)"
  shows "kube_Loadtest e api options (c, m) =
    andThen (if SkipBulkLoad options then ret () else bulkLoad e pod app (Workers options) (ForceBulkLoad options))
      (\<lambda>_. test_pods e (WorkingDirectory (kube_Config c)) pod pods (ResultsWriter options)) (c, m)"
  by (simp add: kube_Loadtest_def andThen_def self_def onHost_def look_at_def assms test_pods_def Let_def)



end
