(* ===== verification/Command_Flags.thy ===== *)
theory Command_Flags
  imports Prelude
begin

text \<open>
  Flags of a command: what it declares, what a command line gives, and how the code reads them. The parsing of the command line itself is
  the business of the \<^verbatim>\<open>cobra\<close> package; what is given here are the flags it found, with values of the declared types.
\<close>

text \<open>The constructor is the type of a flag.\<close>

datatype flag_value = StringFlag string | IntFlag int | BoolFlag bool

record flag =
  flag_name :: string
  flag_short :: string
  flag_default :: flag_value
  flag_required :: bool

type_synonym given_flags = "string \<rightharpoonup> flag_value"

definition new_flag :: "string \<Rightarrow> string \<Rightarrow> flag_value \<Rightarrow> flag" where
  "new_flag name short v = \<lparr>flag_name = name, flag_short = short, flag_default = v, flag_required = False\<rparr>"

definition required_flag :: "string \<Rightarrow> string \<Rightarrow> flag_value \<Rightarrow> flag" where
  "required_flag name short v = (new_flag name short v)\<lparr>flag_required := True\<rparr>"

text \<open>The flags of a command come before those it inherits, which they may hide.\<close>

definition with_inherited :: "flag list \<Rightarrow> flag list \<Rightarrow> flag list" where
  "with_inherited local inherited = local @ filter (\<lambda>f. flag_name f \<notin> set (map flag_name local)) inherited"

text \<open>The persistent flag of both programs.\<close>

definition root_flags :: "flag list" where
  "root_flags = [new_flag ''verbose'' ''v'' (BoolFlag False)]"

definition flag_setting :: "flag list \<Rightarrow> given_flags \<Rightarrow> string \<Rightarrow> flag_value option" where
  "flag_setting fs given name =
     (case find (\<lambda>f. flag_name f = name) fs of
        None \<Rightarrow> None
      | Some f \<Rightarrow> Some (case given name of Some v \<Rightarrow> v | None \<Rightarrow> flag_default f))"

text \<open>Reading a flag that is not declared, or with another type, is an error that the code ignores: it gets the zero value.\<close>

definition getString :: "flag list \<Rightarrow> given_flags \<Rightarrow> string \<Rightarrow> string" where
  "getString fs given name = (case flag_setting fs given name of Some (StringFlag s) \<Rightarrow> s | _ \<Rightarrow> [])"

definition getInt :: "flag list \<Rightarrow> given_flags \<Rightarrow> string \<Rightarrow> int" where
  "getInt fs given name = (case flag_setting fs given name of Some (IntFlag i) \<Rightarrow> i | _ \<Rightarrow> 0)"

definition getBool :: "flag list \<Rightarrow> given_flags \<Rightarrow> string \<Rightarrow> bool" where
  "getBool fs given name = (case flag_setting fs given name of Some (BoolFlag b) \<Rightarrow> b | _ \<Rightarrow> False)"

text \<open>What the parser promises of the flags it found.\<close>

fun same_type :: "flag_value \<Rightarrow> flag_value \<Rightarrow> bool" where
  "same_type (StringFlag _) (StringFlag _) = True"
| "same_type (IntFlag _) (IntFlag _) = True"
| "same_type (BoolFlag _) (BoolFlag _) = True"
| "same_type _ _ = False"

definition well_typed :: "flag list \<Rightarrow> given_flags \<Rightarrow> bool" where
  "well_typed fs given \<longleftrightarrow> (\<forall>name \<in> dom given. \<exists>f \<in> set fs. flag_name f = name \<and> same_type (flag_default f) (the (given name)))"

lemmas reading_flags = getString_def getInt_def getBool_def flag_setting_def

end
