(* ===== verification/Log_Writer.thy ===== *)
theory Log_Writer
  imports Prelude
begin

text \<open>
  \<^verbatim>\<open>terraform/logrus_writer.go\<close>: a writer whose output goes to the logger line by line. The writer and the goroutine that scans the
  lines meet in a pipe; every interleaving of the two is a run of the step relation below. The specification is a function of the
  bytes written. Also the \<^verbatim>\<open>--verbose\<close> flag of \<^verbatim>\<open>cmd/ltops/root.go\<close>, which sets the level of the logger.
\<close>

section \<open>Levels and entries\<close>

datatype log_level = PanicLevel | FatalLevel | ErrorLevel | WarnLevel | InfoLevel | DebugLevel | TraceLevel

fun level_number :: "log_level \<Rightarrow> nat" where
  "level_number PanicLevel = 0" | "level_number FatalLevel = 1" | "level_number ErrorLevel = 2" | "level_number WarnLevel = 3"
| "level_number InfoLevel = 4" | "level_number DebugLevel = 5" | "level_number TraceLevel = 6"

instantiation log_level :: linorder
begin

definition less_eq_log_level :: "log_level \<Rightarrow> log_level \<Rightarrow> bool" where
  "less_eq_log_level a b \<longleftrightarrow> level_number a \<le> level_number b"

definition less_log_level :: "log_level \<Rightarrow> log_level \<Rightarrow> bool" where
  "less_log_level a b \<longleftrightarrow> level_number a < level_number b"

instance
proof
  fix a b c :: log_level
  show "a < b \<longleftrightarrow> a \<le> b \<and> \<not> b \<le> a" "a \<le> a" "a \<le> b \<or> b \<le> a" by (auto simp: less_eq_log_level_def less_log_level_def)
  show "a \<le> b \<Longrightarrow> b \<le> c \<Longrightarrow> a \<le> c" by (simp add: less_eq_log_level_def)
  show "a \<le> b \<Longrightarrow> b \<le> a \<Longrightarrow> a = b" by (cases a; cases b) (simp_all add: less_eq_log_level_def)
qed

end

fun level_string :: "log_level \<Rightarrow> string" where
  "level_string PanicLevel = ''panic''" | "level_string FatalLevel = ''fatal''" | "level_string ErrorLevel = ''error''"
| "level_string WarnLevel = ''warning''" | "level_string InfoLevel = ''info''" | "level_string DebugLevel = ''debug''"
| "level_string TraceLevel = ''trace''"

text \<open>The values of the fields of a JSON object: strings, and others of some type.\<close>

datatype 'n field_value = StringValue string | OtherValue 'n

datatype 'n line_json = Unreadable | NoObject | Object "string \<rightharpoonup> 'n field_value"

record 'n log_entry =
  entry_level :: log_level
  entry_message :: string
  entry_fields :: "string \<rightharpoonup> 'n field_value"

text \<open>\<open>line_json\<close> decodes the JSON text of a line; \<open>logger_fields\<close> are the fields the logger adds to every entry.\<close>

record 'n log_sink =
  decode_line :: "string \<Rightarrow> 'n line_json"
  logger_fields :: "string \<rightharpoonup> 'n field_value"
  default_level :: log_level

definition log_message :: "(string \<rightharpoonup> 'n field_value) \<Rightarrow> string \<Rightarrow> string \<Rightarrow> 'n log_entry" where
  "log_message fs lvl message =
     \<lparr>entry_level = (if lvl = ''debug'' then DebugLevel else if lvl = ''info'' then InfoLevel else if lvl = ''warn'' then WarnLevel else ErrorLevel),
      entry_message = message, entry_fields = fs\<rparr>"

definition text_of :: "'n field_value option \<Rightarrow> string" where
  "text_of v = (case v of Some (StringValue s) \<Rightarrow> s | _ \<Rightarrow> [])"

definition log_line :: "'n log_sink \<Rightarrow> string \<Rightarrow> 'n log_entry" where
  "log_line k line =
     (case decode_line k line of
        Unreadable \<Rightarrow> log_message (logger_fields k) (level_string (default_level k)) line
      | NoObject \<Rightarrow> log_message (logger_fields k) (level_string (default_level k)) line
      | Object members \<Rightarrow>
          let lvl = text_of (members ''level'');
              msg = text_of (members ''msg'');
              members = members(''msg'' := None, ''level'' := None, ''ts'' := None, ''caller'' := None);
              members = (if msg = ''Timings'' then members(''timings'' \<mapsto> StringValue ''(omitted)'') else members)
          in log_message (logger_fields k ++ members) lvl msg)"

definition too_long_entry :: "'n log_entry" where
  "too_long_entry = \<lparr>entry_level = ErrorLevel, entry_message = ''failed to scan and log: bufio.Scanner: token too long'', entry_fields = Map.empty\<rparr>"

section \<open>The scanner\<close>

text \<open>\<open>bufio.ScanLines\<close> and the limit of \<open>bufio.Scanner\<close>.\<close>

definition newline :: char where "newline = CHR 0x0A"

definition drop_cr :: "string \<Rightarrow> string" where
  "drop_cr s = (if s \<noteq> [] \<and> last s = CHR 0x0D then butlast s else s)"

definition scan_lines :: "bool \<Rightarrow> string \<Rightarrow> (string \<times> string) option" where
  "scan_lines eof data =
     (if eof \<and> data = [] then None
      else if newline \<in> set data then Some (drop_cr (takeWhile (\<lambda>c. c \<noteq> newline) data), tl (dropWhile (\<lambda>c. c \<noteq> newline) data))
      else if eof then Some (drop_cr data, []) else None)"

definition max_token :: nat where "max_token = 65536"

section \<open>The writer and the goroutine\<close>

datatype log_phase = Scanning | Draining | Finished

text \<open>\<open>to_write\<close>: the writes still to come, none of them empty; \<open>in_pipe\<close>: what the reader has not taken of the write that waits in the
  pipe; \<open>buffered\<close> and \<open>at_eof\<close>: the scanner's buffer and whether it met the end; \<open>Finished\<close>: the channel \<^verbatim>\<open>done\<close> is closed.\<close>

record 'n log_state =
  to_write :: "string list"
  in_pipe :: string
  writer_closed :: bool
  buffered :: string
  at_eof :: bool
  log_phase :: log_phase
  logged_entries :: "'n log_entry list"

definition newLogrusWriter :: "string list \<Rightarrow> 'n log_state" where
  "newLogrusWriter writes =
     \<lparr>to_write = writes, in_pipe = [], writer_closed = False, buffered = [], at_eof = False, log_phase = Scanning, logged_entries = []\<rparr>"

text \<open>A write waits until the reader has taken all of it; \<open>Close\<close> comes after the last one. The goroutine logs a line when its buffer
  holds one, reads when it does not, and gives up when the buffer is full; then it discards what comes.\<close>

inductive log_step :: "'n log_sink \<Rightarrow> 'n log_state \<Rightarrow> 'n log_state \<Rightarrow> bool" for k where
  put: "to_write s = w # ws \<Longrightarrow> in_pipe s = [] \<Longrightarrow> log_step k s (s\<lparr>to_write := ws, in_pipe := w\<rparr>)"
| close: "to_write s = [] \<Longrightarrow> in_pipe s = [] \<Longrightarrow> \<not> writer_closed s \<Longrightarrow> log_step k s (s\<lparr>writer_closed := True\<rparr>)"
| line: "log_phase s = Scanning \<Longrightarrow> scan_lines (at_eof s) (buffered s) = Some (l, rest) \<Longrightarrow>
    log_step k s (s\<lparr>buffered := rest, logged_entries := logged_entries s @ [log_line k l]\<rparr>)"
| read: "log_phase s = Scanning \<Longrightarrow> scan_lines (at_eof s) (buffered s) = None \<Longrightarrow> \<not> at_eof s \<Longrightarrow> in_pipe s = xs @ ys \<Longrightarrow> xs \<noteq> [] \<Longrightarrow>
    length (buffered s) + length xs \<le> max_token \<Longrightarrow> log_step k s (s\<lparr>buffered := buffered s @ xs, in_pipe := ys\<rparr>)"
| read_eof: "log_phase s = Scanning \<Longrightarrow> scan_lines (at_eof s) (buffered s) = None \<Longrightarrow> \<not> at_eof s \<Longrightarrow> length (buffered s) < max_token \<Longrightarrow>
    writer_closed s \<Longrightarrow> in_pipe s = [] \<Longrightarrow> log_step k s (s\<lparr>at_eof := True\<rparr>)"
| too_long: "log_phase s = Scanning \<Longrightarrow> scan_lines (at_eof s) (buffered s) = None \<Longrightarrow> \<not> at_eof s \<Longrightarrow> length (buffered s) \<ge> max_token \<Longrightarrow>
    log_step k s (s\<lparr>log_phase := Draining, logged_entries := logged_entries s @ [too_long_entry]\<rparr>)"
| drain: "log_phase s = Draining \<Longrightarrow> in_pipe s = xs @ ys \<Longrightarrow> xs \<noteq> [] \<Longrightarrow> log_step k s (s\<lparr>in_pipe := ys\<rparr>)"
| scanned: "log_phase s = Scanning \<Longrightarrow> scan_lines (at_eof s) (buffered s) = None \<Longrightarrow> at_eof s \<Longrightarrow> log_step k s (s\<lparr>log_phase := Finished\<rparr>)"
| drained: "log_phase s = Draining \<Longrightarrow> writer_closed s \<Longrightarrow> in_pipe s = [] \<Longrightarrow> log_step k s (s\<lparr>log_phase := Finished\<rparr>)"

inductive_cases log_stepE: "log_step k s s'"

fun log_run :: "'n log_sink \<Rightarrow> nat \<Rightarrow> 'n log_state \<Rightarrow> 'n log_state \<Rightarrow> bool" where
  "log_run k 0 s s' \<longleftrightarrow> s' = s"
| "log_run k (Suc n) s s' \<longleftrightarrow> (\<exists>t. log_step k s t \<and> log_run k n t s')"

section \<open>The specification\<close>

lemma rest_shorter: "d \<noteq> [] \<Longrightarrow> length (tl (dropWhile P d)) < length d"
  using length_dropWhile_le [of P d] by (cases "dropWhile P d"; cases d) (simp_all add: le_less_trans)

text \<open>Every line of the bytes written, in order, up to one that is too long.\<close>

function log_all :: "'n log_sink \<Rightarrow> string \<Rightarrow> 'n log_entry list" where
  "log_all k d =
     (if d = [] then []
      else
        let l = takeWhile (\<lambda>c. c \<noteq> newline) d in
        if length l \<ge> max_token then [too_long_entry]
        else log_line k (drop_cr l) # log_all k (tl (dropWhile (\<lambda>c. c \<noteq> newline) d)))"
  by pat_completeness auto

termination log_all
  by (relation "measure (\<lambda>(k, d). length d)") (simp_all add: rest_shorter del: length_tl)

declare log_all.simps [simp del]

section \<open>Every run does what the specification says\<close>

lemma take_drop_newline:
  "newline \<notin> set xs \<Longrightarrow> takeWhile (\<lambda>c. c \<noteq> newline) (xs @ ys) = xs @ takeWhile (\<lambda>c. c \<noteq> newline) ys"
  "newline \<in> set xs \<Longrightarrow> takeWhile (\<lambda>c. c \<noteq> newline) (xs @ ys) = takeWhile (\<lambda>c. c \<noteq> newline) xs"
  "newline \<in> set xs \<Longrightarrow> tl (dropWhile (\<lambda>c. c \<noteq> newline) (xs @ ys)) = tl (dropWhile (\<lambda>c. c \<noteq> newline) xs) @ ys"
  by (induction xs) auto

lemma short_line: "newline \<in> set xs \<Longrightarrow> length (takeWhile (\<lambda>c. c \<noteq> newline) xs) < length xs"
  by (induction xs) auto

lemma log_all_line:
  assumes "scan_lines eof data = Some (l, rest)" "length data \<le> max_token" "eof \<Longrightarrow> later = [] \<and> length data < max_token"
  shows "log_all k (data @ later) = log_line k l # log_all k (rest @ later)"
proof (cases "newline \<in> set data")
  case True
  then have "length (takeWhile (\<lambda>c. c \<noteq> newline) data) < max_token" using short_line [OF True] assms(2) by simp
  moreover have "data @ later \<noteq> []" using True by auto
  ultimately show ?thesis
    using assms(1) True by (simp add: log_all.simps [of k "data @ later"] scan_lines_def take_drop_newline split: if_splits)
next
  case False
  with assms(1) have "eof" "l = drop_cr data" "rest = []" "data \<noteq> []" by (auto simp: scan_lines_def split: if_splits)
  moreover have "takeWhile (\<lambda>c. c \<noteq> newline) data = data" "dropWhile (\<lambda>c. c \<noteq> newline) data = []"
    using False by auto
  ultimately show ?thesis
    using assms(3) by (simp add: log_all.simps [of k data] log_all.simps [of k "[]"] Let_def del: takeWhile_eq_all_conv dropWhile_eq_Nil_conv)
qed

lemma log_all_too_long:
  assumes "scan_lines False data = None" "max_token \<le> length data"
  shows "log_all k (data @ later) = [too_long_entry]"
proof -
  have "newline \<notin> set data" using assms(1) by (auto simp: scan_lines_def split: if_splits)
  moreover have "data @ later \<noteq> []" using assms(2) by (auto simp: max_token_def)
  ultimately show ?thesis using assms(2) by (simp add: log_all.simps [of k "data @ later"] take_drop_newline)
qed

text \<open>What is still to come, and the invariant: what was logged and what is to come make up the specification.\<close>

definition to_come :: "'n log_state \<Rightarrow> string" where
  "to_come s = buffered s @ in_pipe s @ concat (to_write s)"

definition log_inv :: "'n log_sink \<Rightarrow> string \<Rightarrow> 'n log_state \<Rightarrow> bool" where
  "log_inv k d s \<longleftrightarrow>
     logged_entries s @ (if log_phase s = Scanning then log_all k (to_come s) else []) = log_all k d \<and>
     length (buffered s) \<le> max_token \<and> (writer_closed s \<longrightarrow> to_write s = [] \<and> in_pipe s = []) \<and>
     (at_eof s \<longrightarrow> writer_closed s \<and> length (buffered s) < max_token) \<and>
     (log_phase s = Finished \<longrightarrow> writer_closed s)"

lemma log_inv_start: "log_inv k (concat writes) (newLogrusWriter writes)"
  by (simp add: log_inv_def newLogrusWriter_def to_come_def)

lemma scan_lines_rest: "scan_lines eof data = Some (l, rest) \<Longrightarrow> length rest < length data"
  using rest_shorter [of data] by (cases "data = []") (auto simp: scan_lines_def simp del: length_tl split: if_splits)

lemma log_inv_step:
  assumes "log_step k s s'" "log_inv k d s"
  shows "log_inv k d s'"
  using assms(1)
proof cases
  case (line l rest)
  have "log_all k (buffered s @ (in_pipe s @ concat (to_write s))) = log_line k l # log_all k (rest @ in_pipe s @ concat (to_write s))"
    by (rule log_all_line [OF line(3)]) (use assms(2) in \<open>auto simp: log_inv_def\<close>)
  with assms(2) line scan_lines_rest [OF line(3)] show ?thesis by (auto simp: log_inv_def to_come_def)
next
  case too_long
  with assms(2) log_all_too_long [of "buffered s" k "in_pipe s @ concat (to_write s)"] show ?thesis
    by (auto simp: log_inv_def to_come_def)
next
  case scanned
  then have "buffered s = []" by (auto simp: scan_lines_def split: if_splits)
  with scanned assms(2) show ?thesis by (auto simp: log_inv_def to_come_def log_all.simps)
qed (use assms(2) in \<open>auto simp: log_inv_def to_come_def\<close>)

text \<open>Every step uses something up.\<close>

definition log_work :: "'n log_state \<Rightarrow> nat" where
  "log_work s = 3 * length (concat (to_write s)) + length (to_write s) + 2 * length (in_pipe s) + length (buffered s) +
     (if writer_closed s then 0 else 1) + (if at_eof s then 0 else 1) + (case log_phase s of Scanning \<Rightarrow> 2 | Draining \<Rightarrow> 1 | Finished \<Rightarrow> 0)"

lemma log_step_work: "log_step k s s' \<Longrightarrow> log_work s' < log_work s"
  by (erule log_step.cases) (auto simp: log_work_def dest: scan_lines_rest)

text \<open>As long as the goroutine has not finished, one of the two can go on.\<close>

lemma read_some:
  assumes "log_phase s = Scanning" "scan_lines (at_eof s) (buffered s) = None" "\<not> at_eof s" "in_pipe s \<noteq> []" "length (buffered s) < max_token"
  shows "\<exists>s'. log_step k s s'"
  using assms log_step.read [of s "[hd (in_pipe s)]" "tl (in_pipe s)"] by fastforce

lemma log_progress:
  assumes "log_phase s \<noteq> Finished"
  shows "\<exists>s'. log_step k s s'"
proof (cases "in_pipe s = [] \<and> \<not> writer_closed s")
  case True
  then show ?thesis by (cases "to_write s") (blast intro: log_step.put log_step.close)+
next
  case False
  show ?thesis
  proof (cases "log_phase s")
    case Scanning
    show ?thesis
    proof (cases "scan_lines (at_eof s) (buffered s)")
      case None
      with Scanning False show ?thesis
        by (cases "in_pipe s = []") (metis log_step.scanned log_step.too_long log_step.read_eof not_le_imp_less read_some)+
    next
      case (Some p)
      with Scanning show ?thesis by (cases p) (blast intro: log_step.line)
    qed
  next
    case Draining
    have "in_pipe s = [] \<or> (\<exists>xs. in_pipe s = xs @ [] \<and> xs \<noteq> [])" by simp
    with Draining False show ?thesis by (blast intro: log_step.drain log_step.drained)
  qed (use assms in simp)
qed

lemma log_run_keeps: "log_run k n s s' \<Longrightarrow> log_inv k d s \<Longrightarrow> log_inv k d s' \<and> n + log_work s' \<le> log_work s"
proof (induction n arbitrary: s)
  case (Suc n)
  then obtain t where t: "log_step k s t" "log_run k n t s'" by auto
  then have "log_inv k d s' \<and> n + log_work s' \<le> log_work t" using Suc log_inv_step by blast
  with log_step_work [OF t(1)] show ?case by simp
qed simp

text \<open>C14. Whatever the order in which the writer and the goroutine take their turns and however the output is cut into writes, closing
  the writer returns: a run has at most so many steps, it can only stop when the goroutine has finished, and by then all the output
  was taken and exactly the lines of the specification were logged.\<close>

theorem log_writer_correct:
  assumes "log_run k n (newLogrusWriter writes) s"
  shows "n \<le> 3 * length (concat writes) + length writes + 4 \<and>
    ((\<nexists>s'. log_step k s s') \<longrightarrow>
       log_phase s = Finished \<and> to_write s = [] \<and> in_pipe s = [] \<and> logged_entries s = log_all k (concat writes))"
proof -
  have inv: "log_inv k (concat writes) s" and work: "n + log_work s \<le> log_work (newLogrusWriter writes :: 'a log_state)"
    using log_run_keeps [OF assms log_inv_start] by simp_all
  have "log_work (newLogrusWriter writes :: 'a log_state) = 3 * length (concat writes) + length writes + 4"
    by (simp add: log_work_def newLogrusWriter_def)
  moreover have "log_phase s = Finished" if "\<nexists>s'. log_step k s s'" using log_progress that by blast
  ultimately show ?thesis using work inv by (auto simp: log_inv_def)
qed

text \<open>A run to the end exists from every state.\<close>

lemma log_run_ends: "\<exists>n s'. log_run k n s s' \<and> (\<nexists>t. log_step k s' t)"
proof (induction "log_work s" arbitrary: s rule: less_induct)
  case less
  show ?case
  proof (cases "\<exists>t. log_step k s t")
    case True
    then obtain t where t: "log_step k s t" by blast
    then obtain n s' where "log_run k n t s'" "\<nexists>t. log_step k s' t" using less log_step_work by blast
    with t show ?thesis by (intro exI [of _ "Suc n"] exI [of _ s']) auto
  next
    case False
    then show ?thesis by (intro exI [of _ 0] exI [of _ s]) simp
  qed
qed

definition plain_sink :: "unit log_sink" where
  "plain_sink = \<lparr>decode_line = (\<lambda>_. Unreadable), logger_fields = [''instance'' \<mapsto> StringValue ''10.0.0.3''], default_level = DebugLevel\<rparr>"

theorem log_writer_correct_witness:
  "\<exists>n s. log_run plain_sink n (newLogrusWriter [''on'', ''e'' @ [newline] @ ''two'']) s \<and> log_phase s = Finished \<and>
     map entry_message (logged_entries s) = [''one'', ''two'']"
proof -
  obtain n s where run: "log_run plain_sink n (newLogrusWriter [''on'', ''e'' @ [newline] @ ''two'']) s" "\<nexists>t. log_step plain_sink s t"
    using log_run_ends by blast
  have spec: "map entry_message (log_all plain_sink (concat [''on'', ''e'' @ [newline] @ ''two''])) = [''one'', ''two'']"
    by (simp add: log_all.simps max_token_def Let_def newline_def log_line_def plain_sink_def log_message_def drop_cr_def)
  have "log_phase s = Finished \<and> logged_entries s = log_all plain_sink (concat [''on'', ''e'' @ [newline] @ ''two''])"
    using log_writer_correct [OF run(1)] run(2) by blast
  with run(1) spec show ?thesis by metis
qed

section \<open>Lines\<close>

lemma log_all_cons:
  assumes "newline \<notin> set l" "length l < max_token"
  shows "log_all k (l @ newline # d) = log_line k (drop_cr l) # log_all k d"
proof -
  have "tl (dropWhile (\<lambda>c. c \<noteq> newline) (l @ newline # d)) = d" using assms(1) by (induction l) auto
  with assms show ?thesis by (simp add: log_all.simps [of k "l @ newline # d"] Let_def take_drop_newline del: length_tl)
qed

text \<open>Lines of bearable length are logged once each, in order, with or without a newline after the last one.\<close>

lemma log_all_lines:
  assumes "\<forall>l \<in> set (ls @ [end_line]). newline \<notin> set l \<and> length l < max_token"
  shows "log_all k (concat (map (\<lambda>l. l @ [newline]) ls) @ end_line) = map (\<lambda>l. log_line k (drop_cr l)) (ls @ (if end_line = [] then [] else [end_line]))"
  using assms
proof (induction ls)
  case Nil
  then have "takeWhile (\<lambda>c. c \<noteq> newline) end_line = end_line" "dropWhile (\<lambda>c. c \<noteq> newline) end_line = []" by auto
  with Nil show ?case
    by (simp add: log_all.simps [of k end_line] log_all.simps [of k "[]"] Let_def del: takeWhile_eq_all_conv dropWhile_eq_Nil_conv)
next
  case (Cons l ls)
  then show ?case using log_all_cons [of l k] by simp
qed

section \<open>The verbose flag\<close>

text \<open>\<open>PersistentPreRun\<close> of the root command; \<^verbatim>\<open>logrus\<close> begins at the level of information.\<close>

definition logger_level :: "bool \<Rightarrow> log_level" where
  "logger_level verbose = (if verbose then DebugLevel else InfoLevel)"

definition shown :: "bool \<Rightarrow> 'n log_entry list \<Rightarrow> 'n log_entry list" where
  "shown verbose es = filter (\<lambda>e. entry_level e \<le> logger_level verbose) es"

lemma log_line_level: "entry_level (log_line k l) \<le> DebugLevel"
  by (auto simp: log_line_def log_message_def less_eq_log_level_def Let_def split: line_json.split)

lemma log_all_level: "e \<in> set (log_all k d) \<Longrightarrow> entry_level e \<le> DebugLevel"
proof (induction k d rule: log_all.induct)
  case (1 k d)
  then show ?case
    using log_line_level [of k] unfolding log_all.simps [of k d]
    by (auto simp: Let_def too_long_entry_def less_eq_log_level_def split: if_splits)
qed

lemma verbose_shows_all: "shown True (log_all k d) = log_all k d"
  using log_all_level by (auto simp: shown_def logger_level_def filter_id_conv)

text \<open>Without the flag, text that goes to a writer for debugging is not seen, with the flag it is.\<close>

lemma quiet_hides_text:
  assumes "default_level k = DebugLevel" "decode_line k l \<in> {Unreadable, NoObject}"
  shows "shown False [log_line k l] = []" "map entry_message (shown True [log_line k l]) = [l]"
  using assms by (auto simp: shown_def logger_level_def log_line_def log_message_def less_eq_log_level_def)

end
