(* ===== verification/Command_Line.thy ===== *)
theory Command_Line
  imports Ops_Session Command_Flags Log_Writer
begin

text \<open>
  The command line of \<^verbatim>\<open>cmd/ltops\<close>: the commands with their flags, what is checked before a command runs, and how the flags become the
  configuration and the options that the command works with.
\<close>

section \<open>Commands and flags\<close>

datatype ltops_command = CreateCluster | DeployCluster | LoadTest | DestroyCluster | DbShell | Status
  | Ssh instance_kind | SshMetrics | Reboot instance_kind

definition cluster_flag :: flag where
  "cluster_flag = required_flag ''cluster'' ''c'' (StringFlag [])"

definition create_flags :: "flag list" where
  "create_flags =
     [cluster_flag, required_flag ''type'' ''t'' (StringFlag []), new_flag ''app-type'' [] (StringFlag []), new_flag ''app-count'' [] (IntFlag 1),
      new_flag ''db-type'' [] (StringFlag []), new_flag ''db-engine'' [] (StringFlag []), new_flag ''db-count'' [] (IntFlag 1),
      new_flag ''loadtest-count'' [] (IntFlag 1), new_flag ''terraform'' [] (StringFlag ''terraform'')]"

definition deploy_flags :: "flag list" where
  "deploy_flags =
     [cluster_flag, new_flag ''mattermost'' ''m'' (StringFlag []), new_flag ''license'' ''l'' (StringFlag []), new_flag ''loadtests'' ''t'' (StringFlag []),
      new_flag ''users'' ''u'' (IntFlag 0), new_flag ''helm-config'' ''f'' (StringFlag [])]"

definition loadtest_flags :: "flag list" where
  "loadtest_flags =
     [cluster_flag, new_flag ''config'' ''f'' (StringFlag []), new_flag ''force-bulk-load'' [] (BoolFlag False),
      new_flag ''skip-bulk-load'' [] (BoolFlag False), new_flag ''workers'' [] (IntFlag 32)]"

definition ssh_flags :: "flag list" where
  "ssh_flags = [cluster_flag, new_flag ''instance'' ''i'' (IntFlag 0)]"

fun declared_flags :: "ltops_command \<Rightarrow> flag list" where
  "declared_flags CreateCluster = create_flags"
| "declared_flags DeployCluster = deploy_flags"
| "declared_flags LoadTest = loadtest_flags"
| "declared_flags Status = []"
| "declared_flags (Ssh _) = ssh_flags"
| "declared_flags SshMetrics = ssh_flags"
| "declared_flags DestroyCluster = [cluster_flag]"
| "declared_flags DbShell = [cluster_flag]"
| "declared_flags (Reboot _) = [cluster_flag]"

definition command_flags :: "ltops_command \<Rightarrow> flag list" where
  "command_flags c = with_inherited (declared_flags c) root_flags"

section \<open>Reading the flags\<close>

definition create_config :: "given_flags \<Rightarrow> ClusterConfig" where
  "create_config fv =
     (let str = getString (command_flags CreateCluster) fv; num = getInt (command_flags CreateCluster) fv in
      zero_cluster_config
        \<lparr>Name := str ''cluster'', AppInstanceType := str ''app-type'', TerraformPath := str ''terraform'', AppInstanceCount := num ''app-count'',
         DBInstanceType := str ''db-type'', DBInstanceCount := num ''db-count'', DBEngineType := str ''db-engine'',
         LoadtestInstanceCount := num ''loadtest-count'', Verbose := getBool (command_flags CreateCluster) fv ''verbose''\<rparr>)"

definition deploy_options :: "given_flags \<Rightarrow> DeployOptions" where
  "deploy_options fv =
     (let str = getString (command_flags DeployCluster) fv in
      \<lparr>MattermostBinaryFile = str ''mattermost'', LicenseFile = str ''license'', LoadTestBinaryFile = str ''loadtests'', deploy_Profile = [],
       deploy_Users = getInt (command_flags DeployCluster) fv ''users'', HelmConfigFile = str ''helm-config''\<rparr>)"

definition loadtest_options :: "given_flags \<Rightarrow> LoadTestOptions" where
  "loadtest_options fv =
     (let bool = getBool (command_flags LoadTest) fv in
      \<lparr>ConfigFile = getString (command_flags LoadTest) fv ''config'', Workers = getInt (command_flags LoadTest) fv ''workers'',
       SkipBulkLoad = bool ''skip-bulk-load'', ForceBulkLoad = bool ''force-bulk-load'', ResultsWriter = False\<rparr>)"

section \<open>Running a command\<close>

definition run_action :: "ops_env \<Rightarrow> ltops_command \<Rightarrow> given_flags \<Rightarrow> string list \<Rightarrow> unit remote_op" where
  "run_action v c fv args =
     (let cluster = getString (command_flags c) fv ''cluster'' in
      case c of
        CreateCluster \<Rightarrow> createClusterCmd v (getString (command_flags c) fv ''type'') (create_config fv)
      | DeployCluster \<Rightarrow> deployCmd v cluster (deploy_options fv)
      | LoadTest \<Rightarrow> loadtestCmd v cluster (loadtest_options fv)
      | DestroyCluster \<Rightarrow> destroyCmd v cluster
      | DbShell \<Rightarrow> dbCommand v cluster
      | Status \<Rightarrow> andThen (statusCmd v) (\<lambda>_. ret ())
      | Ssh kind \<Rightarrow> sshInstanceCmd v kind cluster (getInt (command_flags c) fv ''instance'') args
      | SshMetrics \<Rightarrow> sshMetricsCommand v cluster args
      | Reboot kind \<Rightarrow> rebootCmd v kind cluster)"

text \<open>Every command but \<^verbatim>\<open>status\<close> has this before it: the program prints the help and ends.\<close>

definition showHelpIfNoFlags :: "ltops_command \<Rightarrow> given_flags \<Rightarrow> bool" where
  "showHelpIfNoFlags c fv \<longleftrightarrow> c \<noteq> Status \<and> fv = Map.empty"

definition missing_flags :: "ltops_command \<Rightarrow> given_flags \<Rightarrow> string list" where
  "missing_flags c fv = map flag_name (filter (\<lambda>f. flag_required f \<and> fv (flag_name f) = None) (command_flags c))"

definition run_command :: "ops_env \<Rightarrow> ltops_command \<Rightarrow> given_flags \<Rightarrow> string list \<Rightarrow> unit remote_op" where
  "run_command v c fv args =
     (if c = DeployCluster \<and> args \<noteq> [] then fail (''accepts 0 arg(s), received '' @ itoa (int (length args)))
      else if showHelpIfNoFlags c fv then ret ()
      else if missing_flags c fv \<noteq> []
        then fail (''required flag(s) '' @ [CHR 0x22] @ join (missing_flags c fv) ([CHR 0x22] @ '', '' @ [CHR 0x22]) @ [CHR 0x22] @ '' not set'')
      else run_action v c fv args)"

definition exit_status :: "string + unit \<Rightarrow> nat" where
  "exit_status r = (case r of Inl _ \<Rightarrow> 1 | Inr _ \<Rightarrow> 0)"

definition command_log_level :: "ltops_command \<Rightarrow> given_flags \<Rightarrow> log_level" where
  "command_log_level c fv = logger_level (getBool (command_flags c) fv ''verbose'')"

section \<open>What the flags say\<close>

lemmas flag_tables = command_flags_def with_inherited_def create_flags_def deploy_flags_def loadtest_flags_def ssh_flags_def cluster_flag_def root_flags_def
  required_flag_def new_flag_def

lemma required_missing: "f \<in> set (declared_flags c) \<Longrightarrow> flag_required f \<Longrightarrow> fv (flag_name f) = None \<Longrightarrow> missing_flags c fv \<noteq> []"
  by (auto simp: missing_flags_def command_flags_def with_inherited_def filter_empty_conv)

lemma cluster_is_required: "c \<noteq> Status \<Longrightarrow> fv ''cluster'' = None \<Longrightarrow> missing_flags c fv \<noteq> []"
proof (rule required_missing [of cluster_flag])
  assume "c \<noteq> Status"
  then show "cluster_flag \<in> set (declared_flags c)"
    by (cases c) (simp_all add: create_flags_def deploy_flags_def loadtest_flags_def ssh_flags_def)
qed (simp_all add: cluster_flag_def required_flag_def new_flag_def)

lemma type_is_required: "fv ''type'' = None \<Longrightarrow> missing_flags CreateCluster fv \<noteq> []"
  by (rule required_missing [of "required_flag ''type'' ''t'' (StringFlag [])"]) (simp_all add: create_flags_def required_flag_def new_flag_def)

text \<open>C40. No command but \<^verbatim>\<open>status\<close> does anything, on the local machine or on an instance, unless it is told a cluster; without any flag it
  prints the help and succeeds, and with others but not that one it fails. \<^verbatim>\<open>create\<close> has to be told the type as well.\<close>

theorem nothing_without_cluster:
  assumes "c \<noteq> Status" "fv ''cluster'' = None \<or> c = CreateCluster \<and> fv ''type'' = None"
  shows "\<exists>r. run_command v c fv args s = (r, s) \<and> (exit_status r = 0 \<longleftrightarrow> fv = Map.empty \<and> (c = DeployCluster \<longrightarrow> args = []))"
proof -
  have "missing_flags c fv \<noteq> []" using assms cluster_is_required type_is_required by blast
  with assms(1) show ?thesis by (simp add: run_command_def showHelpIfNoFlags_def exit_status_def fail_def ret_def)
qed

theorem nothing_without_cluster_witness:
  "\<exists>r. run_command sample_ops DestroyCluster [''verbose'' \<mapsto> BoolFlag True] [] ([], idle_machine) = (r, ([], idle_machine)) \<and> exit_status r \<noteq> 0"
proof -
  let ?fv = "[''verbose'' \<mapsto> BoolFlag True] :: given_flags"
  have no_cluster: "?fv ''cluster'' = None" and given: "?fv \<noteq> Map.empty" and not_status: "DestroyCluster \<noteq> Status" by simp_all
  have "\<exists>r. run_command sample_ops DestroyCluster ?fv [] ([], idle_machine) = (r, ([], idle_machine)) \<and>
      (exit_status r = 0 \<longleftrightarrow> ?fv = Map.empty \<and> (DestroyCluster = DeployCluster \<longrightarrow> [] = ([] :: string list)))"
    by (rule nothing_without_cluster [OF not_status], rule disjI1, rule no_cluster)
  then show ?thesis by (elim ex_forward conjE) (simp add: given)
qed

section \<open>Settings arrive\<close>

text \<open>The command lines that say all of a configuration and of the options.\<close>

definition flags_of_config :: "string \<Rightarrow> ClusterConfig \<Rightarrow> given_flags" where
  "flags_of_config type cfg =
     [''cluster'' \<mapsto> StringFlag (Name cfg), ''type'' \<mapsto> StringFlag type, ''app-type'' \<mapsto> StringFlag (AppInstanceType cfg),
      ''app-count'' \<mapsto> IntFlag (AppInstanceCount cfg), ''db-type'' \<mapsto> StringFlag (DBInstanceType cfg), ''db-engine'' \<mapsto> StringFlag (DBEngineType cfg),
      ''db-count'' \<mapsto> IntFlag (DBInstanceCount cfg), ''loadtest-count'' \<mapsto> IntFlag (LoadtestInstanceCount cfg),
      ''terraform'' \<mapsto> StringFlag (TerraformPath cfg), ''verbose'' \<mapsto> BoolFlag (Verbose cfg)]"

definition flags_of_deploy :: "string \<Rightarrow> DeployOptions \<Rightarrow> given_flags" where
  "flags_of_deploy cluster opts =
     [''cluster'' \<mapsto> StringFlag cluster, ''mattermost'' \<mapsto> StringFlag (MattermostBinaryFile opts), ''license'' \<mapsto> StringFlag (LicenseFile opts),
      ''loadtests'' \<mapsto> StringFlag (LoadTestBinaryFile opts), ''users'' \<mapsto> IntFlag (deploy_Users opts), ''helm-config'' \<mapsto> StringFlag (HelmConfigFile opts)]"

definition flags_of_loadtest :: "string \<Rightarrow> LoadTestOptions \<Rightarrow> given_flags" where
  "flags_of_loadtest cluster opts =
     [''cluster'' \<mapsto> StringFlag cluster, ''config'' \<mapsto> StringFlag (ConfigFile opts), ''force-bulk-load'' \<mapsto> BoolFlag (ForceBulkLoad opts),
      ''skip-bulk-load'' \<mapsto> BoolFlag (SkipBulkLoad opts), ''workers'' \<mapsto> IntFlag (Workers opts)]"

lemma flags_well_typed:
  "well_typed (command_flags CreateCluster) (flags_of_config type cfg)" "well_typed (command_flags DeployCluster) (flags_of_deploy cluster dopts)"
  "well_typed (command_flags LoadTest) (flags_of_loadtest cluster lopts)"
  by (simp_all add: well_typed_def flags_of_config_def flags_of_deploy_def flags_of_loadtest_def flag_tables)

lemma create_config_roundtrip:
  "create_config (flags_of_config type cfg) =
     cfg\<lparr>Type := [], WorkingDirectory := [], Profile := [], Users := 0, BulkLoadComplete := False\<rparr>"
  by (cases cfg) (simp add: create_config_def zero_cluster_config_def flags_of_config_def reading_flags flag_tables)

lemma options_roundtrip:
  "deploy_options (flags_of_deploy cluster dopts) = dopts\<lparr>deploy_Profile := []\<rparr>"
  "loadtest_options (flags_of_loadtest cluster lopts) = lopts\<lparr>ResultsWriter := False\<rparr>"
  by (cases dopts, simp add: deploy_options_def flags_of_deploy_def reading_flags flag_tables)
     (cases lopts, simp add: loadtest_options_def flags_of_loadtest_def reading_flags flag_tables)

text \<open>What happens without a flag.\<close>

lemma create_defaults:
  "create_config [''cluster'' \<mapsto> StringFlag c, ''type'' \<mapsto> StringFlag t] =
     zero_cluster_config\<lparr>Name := c, TerraformPath := ''terraform'', AppInstanceCount := 1, DBInstanceCount := 1, LoadtestInstanceCount := 1\<rparr>"
  by (simp add: create_config_def zero_cluster_config_def reading_flags flag_tables)

lemma loadtest_defaults:
  "loadtest_options [''cluster'' \<mapsto> StringFlag c] =
     \<lparr>ConfigFile = [], Workers = 32, SkipBulkLoad = False, ForceBulkLoad = False, ResultsWriter = False\<rparr>"
  by (simp add: loadtest_options_def reading_flags flag_tables)

text \<open>A run of \<^verbatim>\<open>ltops deploy\<close> or \<^verbatim>\<open>ltops loadtest\<close> is a process of the session that \<^verbatim>\<open>Ops_Session\<close> describes.\<close>

lemma command_is_process:
  assumes "fv ''cluster'' = Some (StringFlag name)"
  shows "run_command v DeployCluster fv [] = process v name (DeployWith (deploy_options fv))"
    and "run_command v LoadTest fv args = process v name (LoadtestWith (loadtest_options fv))"
  using assms
  by (auto simp: run_command_def showHelpIfNoFlags_def missing_flags_def run_action_def reading_flags flag_tables Let_def)

end
