(* ===== verification/Parse_Command.thy ===== *)
theory Parse_Command
  imports Parse_Results Command_Flags
begin

text \<open>
  The command line of \<^verbatim>\<open>cmd/ltparse\<close>: the flags of \<^verbatim>\<open>results\<close> and what \<^verbatim>\<open>resultsCmd\<close> reads from them. \<^verbatim>\<open>results\<close> declares a flag \<^verbatim>\<open>verbose\<close>
  of its own, which hides the one of the program.
\<close>

definition results_flags :: "flag list" where
  "results_flags = with_inherited
     [new_flag ''file'' ''f'' (StringFlag []), new_flag ''display'' ''d'' (StringFlag ''text''), new_flag ''aggregate'' ''a'' (BoolFlag False),
      new_flag ''baseline'' ''b'' (StringFlag []), new_flag ''verbose'' ''v'' (BoolFlag False)] root_flags"

definition results_main ::
  "(real \<Rightarrow> string) \<Rightarrow> route_order \<Rightarrow> instance_order \<Rightarrow> (string \<Rightarrow> log_record result list result) \<Rightarrow> log_record result list \<Rightarrow>
   given_flags \<Rightarrow> string result option" where
  "results_main v ro io open_file stdin fv =
     resultsCmd v ro io open_file stdin (getString results_flags fv ''display'') (getBool results_flags fv ''aggregate'')
       (getString results_flags fv ''file'') (getString results_flags fv ''baseline'') (getBool results_flags fv ''verbose'')"

lemmas results_flag_defs = results_main_def results_flags_def reading_flags with_inherited_def root_flags_def new_flag_def

lemma results_main_defaults: "results_main v ro io open_file stdin Map.empty = resultsCmd v ro io open_file stdin ''text'' False [] [] False"
  by (simp add: results_flag_defs)

lemma results_reads_flags:
  "results_main v ro io open_file stdin
     [''file'' \<mapsto> StringFlag f, ''display'' \<mapsto> StringFlag d, ''aggregate'' \<mapsto> BoolFlag a, ''baseline'' \<mapsto> StringFlag b, ''verbose'' \<mapsto> BoolFlag vb] =
   resultsCmd v ro io open_file stdin d a f b vb"
  by (simp add: results_flag_defs)

end
