(* ===== verification/Spec2Isabelle.thy ===== *)
theory Spec2Isabelle
  imports Rand_Util Thread_Split Instance_Registry Parse_Results Bulk_File Bulk_Posts Load_Config Command_Runner
    Server_Config Bulkload_Lock Load_Command Entity_Statistics Action_Effects Deploy_Order Terraform_Contract Command_Line Parse_Command
begin

text \<open>
  \<^bold>\<open>The program.\<close> The repository holds three programs. \<^verbatim>\<open>loadtest\<close> (\<^verbatim>\<open>cmd/loadtest\<close>, package \<^verbatim>\<open>loadtest\<close>) simulates the users of a
  Mattermost server: several instances of it divide the users among themselves, fill the server with generated data, log their users
  in, and let each user act at random while the time of every request is measured. \<^verbatim>\<open>ltparse\<close> (\<^verbatim>\<open>cmd/ltparse\<close>, package \<^verbatim>\<open>ltparse\<close>) reads the
  measurements from the logs and reports them. \<^verbatim>\<open>ltops\<close> (\<^verbatim>\<open>cmd/ltops\<close>, packages \<^verbatim>\<open>ltops\<close>, \<^verbatim>\<open>terraform\<close>, \<^verbatim>\<open>kubernetes\<close>, \<^verbatim>\<open>sshtools\<close>) creates the
  clusters on which this happens, deploys to them and starts the tests there.

  \<^bold>\<open>Conventions.\<close> \<^verbatim>\<open>Prelude\<close> says how Go is written here: a panic is \<open>None\<close>, a pair of a value and an error is a sum, a struct is a
  record, a slice a list, a map a partial function whose order of iteration is an argument. Code that is not in the repository (the
  Mattermost server, the database, the terraform and kubectl programs, the Kubernetes API, remote hosts, JSON and YAML text, viper, cobra)
  is a parameter: a record of the answers it gives, which may depend on everything that was asked before. Nothing is assumed of such
  answers except where a theorem says so in a hypothesis.
  Where the code starts goroutines, the model has every interleaving of them (\<open>ThreadSplit\<close>, the bulk load file, the lock, the registry, the
  log writer) or, where each has a signal to wait for, a function of the signals it receives (the entities, the monitor); only the
  goroutines of a deployment and of the tests on a cluster, which work on an instance each, follow one another in the order in which
  they are started; \<^verbatim>\<open>Deploy_Order\<close> shows that any other order of the deployments gives the same, as long as instances know nothing of one
  another.

  \<^bold>\<open>The load test.\<close>
  \<^item> \<^verbatim>\<open>Rand_Util\<close> (\<^verbatim>\<open>randutil/randutil.go\<close>): a generator is a stream of draws, of which nothing is assumed. The locale \<open>chooser\<close> is what the
    users of a weighted choice rely on; a choice is drawn by exactly as many values as its weight says.
  \<^item> \<^verbatim>\<open>Thread_Split\<close> (\<^verbatim>\<open>thread_split.go\<close>, \<^verbatim>\<open>syncutils.go\<close>): a fork-join loop handles every index exactly once in every interleaving.
  \<^item> \<^verbatim>\<open>Instance_Registry\<close> (\<^verbatim>\<open>instance.go\<close>): the table by which instances agree on their users. Instances that beat in time never share
    an index, whatever the order of their statements; \<open>NewInstance\<close> is characterised also where it fails.
  \<^item> \<^verbatim>\<open>Path_Routes\<close>, \<^verbatim>\<open>Go_Float\<close>, \<^verbatim>\<open>Stats_Lib\<close>, \<^verbatim>\<open>Timing_Stats\<close> (\<^verbatim>\<open>client_timing_stats.go\<close>, \<^verbatim>\<open>timed_round_tripper.go\<close>, the vendored statistics): the
    chain of regular expressions that names routes equals a rewriting of the path's segments; counting and merging are exact, through
    the locale \<open>measured_merge\<close> of whatever is added up. Floats are rounded reals.
  \<^item> \<^verbatim>\<open>Bulk_Types\<close>, \<^verbatim>\<open>Bulk_Direct\<close>, \<^verbatim>\<open>Bulk_Generate\<close>, \<^verbatim>\<open>Bulk_Objects\<close>, \<^verbatim>\<open>Bulk_File\<close>, \<^verbatim>\<open>Bulk_Posts\<close> (\<^verbatim>\<open>bulkload.go\<close>): the generated users, teams and
    channels and their well-formedness; the file with its memberships in chunks, written by two goroutines over a channel of 100 places
    (every schedule is a run; a bound on the steps shows that they end); posts that go straight into the database.
  \<^item> \<^verbatim>\<open>Load_Config\<close> (\<^verbatim>\<open>config.go\<close>), \<^verbatim>\<open>Command_Runner\<close> (\<^verbatim>\<open>local_command_runner.go\<close>, \<^verbatim>\<open>ssh_command_runner.go\<close>; the interface is the locale
    \<open>command_runner\<close>, interpreted by both), \<^verbatim>\<open>Server_Config\<close>, \<^verbatim>\<open>Bulkload_Lock\<close>, \<^verbatim>\<open>Server_Setup\<close> (\<^verbatim>\<open>setup_server.go\<close>), \<^verbatim>\<open>User_Login\<close> (\<^verbatim>\<open>client.go\<close>): what has
    to be there before a test, that it is imported once by the instance that holds the lock, when the lock fails to exclude others, and
    that what was taken is given back on every path.
  \<^item> \<^verbatim>\<open>Action_Monad\<close>, \<^verbatim>\<open>Test_Actions\<close>, \<^verbatim>\<open>Test_Runs\<close>, \<^verbatim>\<open>Action_Safety\<close>, \<^verbatim>\<open>Action_Effects\<close> (\<^verbatim>\<open>tests.go\<close>): every action as a computation that may end early
    or panic; one calculus shows that no action of any test panics on a consistent entity, another what actions leave behind.
  \<^item> \<^verbatim>\<open>Entity_Run\<close> (\<^verbatim>\<open>entity.go\<close>, \<^verbatim>\<open>user_entity_status.go\<close>), \<^verbatim>\<open>Run_Test\<close> (\<^verbatim>\<open>run.go\<close>), \<^verbatim>\<open>Load_Command\<close> (\<^verbatim>\<open>cmd/loadtest/loadtest.go\<close>): an entity acts once per
    signal, the run starts the right entities, every result is logged exactly once (the locale \<open>timing_measure\<close>), and every test is found by its name.

  \<^bold>\<open>Reports.\<close> \<^verbatim>\<open>Parse_Results\<close> and \<^verbatim>\<open>Parse_Command\<close> (\<^verbatim>\<open>ltparse\<close>, \<^verbatim>\<open>cmd/ltparse\<close>): reading, aggregating and printing. Aggregation adds up all that
  was logged in any order of the maps, and what happens to a baseline is stated as the code does it.

  \<^bold>\<open>Clusters.\<close>
  \<^item> \<^verbatim>\<open>Op_Monad\<close>: operations on a state that may fail and keep what they did; the rules by which effects are followed through them.
  \<^item> \<^verbatim>\<open>Secrets\<close> (\<^verbatim>\<open>generate.go\<close>), \<^verbatim>\<open>Cluster_Config\<close> (package \<^verbatim>\<open>ltops\<close>): base64, the configuration and its JSON, the local machine.
  \<^item> \<^verbatim>\<open>Terraform_Asset\<close> (\<^verbatim>\<open>terraformfile.go\<close>), \<^verbatim>\<open>Terraform_Cluster\<close> (\<^verbatim>\<open>parameters.go\<close>, \<^verbatim>\<open>environment.go\<close>, \<^verbatim>\<open>cluster.go\<close>, \<^verbatim>\<open>cluster_create.go\<close>),
    \<^verbatim>\<open>Terraform_Contract\<close>: the \<^verbatim>\<open>cluster.tf\<close> that the program carries, word for word, the environment it is put into, and the contract of
    the two: exactly the declared variables are supplied, and exactly the declared outputs are read.
  \<^item> \<^verbatim>\<open>Helm_Profile\<close>, \<^verbatim>\<open>Kubernetes_Cluster\<close> (package \<^verbatim>\<open>kubernetes\<close>): the standard profile and when it fits the nodes; the cluster's operations.
  \<^item> \<^verbatim>\<open>Stored_Clusters\<close> (\<^verbatim>\<open>load.go\<close>): what both kinds of cluster promise of their stored form is the locale \<open>cluster_store\<close>, interpreted by both.
  \<^item> \<^verbatim>\<open>Remote_Host\<close>, \<^verbatim>\<open>Interactive_Shell\<close> (package \<^verbatim>\<open>sshtools\<close>): connections, commands and uploads as a log of events; the interactive terminal
    as a stack of resources, which deferred calls give back on every path.
  \<^item> \<^verbatim>\<open>Terraform_Deploy\<close>, \<^verbatim>\<open>Deploy_Effects\<close>, \<^verbatim>\<open>Deploy_Order\<close> (\<^verbatim>\<open>cluster_deploy.go\<close>, \<^verbatim>\<open>cluster_loadtest.go\<close>): the steps on every instance; a deployment that succeeds has
    carried out the plan of its kind on every instance. \<^verbatim>\<open>Log_Writer\<close> (\<^verbatim>\<open>logrus_writer.go\<close>): where the output of these steps goes; in every
    interleaving closing the writer returns and the lines of the output were logged, each once.
  \<^item> \<^verbatim>\<open>Ops_Command\<close>, \<^verbatim>\<open>Ops_Session\<close>, \<^verbatim>\<open>Command_Flags\<close>, \<^verbatim>\<open>Command_Line\<close> (\<^verbatim>\<open>cmd/ltops\<close>): the commands, from the flags on. Separate processes that hand the
    cluster on in a file refine a program that keeps it in memory; without the name of a cluster nothing is done.

  \<^bold>\<open>Bounds.\<close> Integers are unbounded: counts of users and times stay far inside 64 bits. The index of a direct channel is computed with a
  rounded square root and shown right for up to \<open>2^24\<close> users. Group channels have three attempts, \<open>insertInstance\<close> and the websocket the
  number of attempts in the code; reconnecting after a reboot is limited by time in the code and by the parameter \<open>reconnect_attempts\<close>
  here, of which the theorems only need that it is positive. Loops that a chance of one or a server without end keeps going are partial
  functions, with \<open>None\<close> for not returning; termination of the others is proved. A line of output has at most 65535 characters.

  \<^bold>\<open>Not modelled.\<close> What \<^verbatim>\<open>user_entity_statistics.go\<close> and \<^verbatim>\<open>user_entity_status.go\<close> have commented out: most of the code for statistics;
  what is left of it, and \<^verbatim>\<open>layout.go\<close>, is \<^verbatim>\<open>Entity_Statistics\<close>, which nothing uses. The texts of messages to the user and the waits
  between steps have no state that anything depends on. The splitting of a command line into flags, the text of JSON and
  YAML, SQL, HTTP, SSH and key generation belong to libraries and other programs. The layout of the \<^verbatim>\<open>status\<close> report is a record of what is
  printed.
\<close>

end
